(* ===== verification/Prelude.thy ===== *)
theory Prelude
  imports Main "HOL-Library.AList"
begin

text \<open>
  Shared vocabulary of the development: the collections of simplification and introduction
  rules that the component theories fill, and the relational operators the SQL statements of
  the panel are written with.  A table is the list of its rows in rowid order, so
  \<open>SELECT ... LIMIT 1\<close> is the first match, \<open>ORDER BY id DESC LIMIT 1\<close> the last one,
  \<open>UPDATE\<close> a conditional map and \<open>DELETE\<close> a filter.
\<close>

named_theorems table_simps \<open>how the row operators compose\<close>
named_theorems op_defs \<open>definitions of the database operations\<close>
named_theorems frame_simps \<open>which parts of the database an operation leaves alone\<close>

section \<open>Rows\<close>

definition select_first :: "('r \<Rightarrow> bool) \<Rightarrow> 'r list \<Rightarrow> 'r option" where
  "select_first p rows = List.find p rows"

definition select_last :: "('r \<Rightarrow> bool) \<Rightarrow> 'r list \<Rightarrow> 'r option" where
  "select_last p rows = List.find p (rev rows)"

definition update_where :: "('r \<Rightarrow> bool) \<Rightarrow> ('r \<Rightarrow> 'r) \<Rightarrow> 'r list \<Rightarrow> 'r list" where
  "update_where p f rows = map (\<lambda>r. if p r then f r else r) rows"

definition delete_where :: "('r \<Rightarrow> bool) \<Rightarrow> 'r list \<Rightarrow> 'r list" where
  "delete_where p rows = filter (\<lambda>r. \<not> p r) rows"

definition row_count :: "('r \<Rightarrow> bool) \<Rightarrow> 'r list \<Rightarrow> nat" where
  "row_count p rows = length (filter p rows)"

lemma select_first_Nil [simp]: "select_first p [] = None"
  by (simp add: select_first_def)

lemma select_first_Cons [simp]:
  "select_first p (r # rows) = (if p r then Some r else select_first p rows)"
  by (simp add: select_first_def)

lemma select_first_append [table_simps]:
  "select_first p (xs @ ys) =
     (case select_first p xs of None \<Rightarrow> select_first p ys | Some r \<Rightarrow> Some r)"
  by (induction xs) auto

lemma select_first_SomeD: "select_first p rows = Some r \<Longrightarrow> r \<in> set rows \<and> p r"
  by (auto simp: select_first_def find_Some_iff)

lemma select_first_None_iff: "select_first p rows = None \<longleftrightarrow> (\<forall>r \<in> set rows. \<not> p r)"
  by (auto simp: select_first_def find_None_iff)

lemma select_last_SomeD: "select_last p rows = Some r \<Longrightarrow> r \<in> set rows \<and> p r"
  by (auto simp: select_last_def find_Some_iff dest: nth_mem) (metis length_rev nth_mem set_rev)

lemma select_last_None_iff: "select_last p rows = None \<longleftrightarrow> (\<forall>r \<in> set rows. \<not> p r)"
  by (auto simp: select_last_def find_None_iff)

lemma select_last_Nil [simp]: "select_last p [] = None"
  by (simp add: select_last_def)

lemma select_last_snoc [simp]:
  "select_last p (rows @ [r]) = (if p r then Some r else select_last p rows)"
  by (simp add: select_last_def)

lemma find_append: "List.find p (xs @ ys) = (case List.find p xs of None \<Rightarrow> List.find p ys | Some x \<Rightarrow> Some x)"
  by (induction xs) auto

lemma select_last_Cons [simp]:
  "select_last p (r # rows) =
     (case select_last p rows of None \<Rightarrow> if p r then Some r else None | Some x \<Rightarrow> Some x)"
  by (simp add: select_last_def find_append split: option.split)

lemma update_where_Nil [simp]: "update_where p f [] = []"
  by (simp add: update_where_def)

lemma update_where_Cons [simp]:
  "update_where p f (r # rows) = (if p r then f r else r) # update_where p f rows"
  by (simp add: update_where_def)

lemma update_where_append [table_simps]:
  "update_where p f (xs @ ys) = update_where p f xs @ update_where p f ys"
  by (simp add: update_where_def)

lemma length_update_where [simp]: "length (update_where p f rows) = length rows"
  by (simp add: update_where_def)

lemma set_update_where: "set (update_where p f rows) = (\<lambda>r. if p r then f r else r) ` set rows"
  by (simp add: update_where_def)

lemma update_where_ballI:
  assumes "\<And>r. p r \<Longrightarrow> q (f r)" and "\<And>r. \<not> p r \<Longrightarrow> q r"
  shows "\<forall>r \<in> set (update_where p f rows). q r"
  using assms by (auto simp: set_update_where)

lemma bex_update_where_key:
  assumes "\<And>r. key (f r) = key r"
  shows "(\<exists>r \<in> set (update_where (\<lambda>r. key r = k) f rows). key r = i \<and> q r) \<longleftrightarrow>
     (\<exists>r \<in> set rows. key r = i \<and> q (if i = k then f r else r))"
  using assms by (induction rows) auto

lemma map_update_where [simp]:
  "(\<And>r. p r \<Longrightarrow> g (f r) = g r) \<Longrightarrow> map g (update_where p f rows) = map g rows"
  by (induction rows) auto

lemma update_where_id: "(\<And>r. r \<in> set rows \<Longrightarrow> \<not> p r) \<Longrightarrow> update_where p f rows = rows"
  by (induction rows) auto

lemma select_first_update_same:
  assumes "\<And>r. p r \<Longrightarrow> p (f r)"
  shows "select_first p (update_where p f rows) = map_option f (select_first p rows)"
  using assms by (induction rows) auto

lemma select_first_update_other:
  assumes "\<And>r. p r \<Longrightarrow> q (f r) = q r"
  shows "select_first q (update_where p f rows) =
     map_option (\<lambda>r. if p r then f r else r) (select_first q rows)"
  using assms by (induction rows) auto

lemma select_first_map_key:
  assumes "\<And>r. key (f r) = key r"
  shows "select_first (\<lambda>r. key r = k) (update_where p f rows) =
     map_option (\<lambda>r. if p r then f r else r) (select_first (\<lambda>r. key r = k) rows)"
  using assms by (induction rows) auto

lemma delete_where_Nil [simp]: "delete_where p [] = []"
  by (simp add: delete_where_def)

lemma delete_where_Cons [simp]:
  "delete_where p (r # rows) = (if p r then delete_where p rows else r # delete_where p rows)"
  by (simp add: delete_where_def)

lemma set_delete_where [simp]: "set (delete_where p rows) = {r \<in> set rows. \<not> p r}"
  by (auto simp: delete_where_def)

lemma delete_where_append [table_simps]:
  "delete_where p (xs @ ys) = delete_where p xs @ delete_where p ys"
  by (simp add: delete_where_def)

lemma row_count_Nil [simp]: "row_count p [] = 0"
  by (simp add: row_count_def)

lemma row_count_Cons [simp]: "row_count p (r # rows) = (if p r then Suc (row_count p rows) else row_count p rows)"
  by (simp add: row_count_def)

lemma row_count_0_iff: "row_count p rows = 0 \<longleftrightarrow> (\<forall>r \<in> set rows. \<not> p r)"
  by (auto simp: row_count_def filter_empty_conv)

lemma row_count_key:
  assumes "distinct (map key rows)"
  shows "row_count (\<lambda>r. key r = k) rows = (if k \<in> key ` set rows then 1 else 0)"
  using assms by (induction rows) (auto simp: row_count_0_iff)

lemma distinct_map_filter_key: "distinct (map key rows) \<Longrightarrow> distinct (map key (filter p rows))"
  by (induction rows) auto

lemma distinct_delete_where [simp]:
  "distinct (map key rows) \<Longrightarrow> distinct (map key (delete_where p rows))"
  by (simp add: delete_where_def distinct_map_filter_key)

lemma select_first_key_unique:
  assumes "distinct (map key rows)" and "r \<in> set rows"
  shows "select_first (\<lambda>x. key x = key r) rows = Some r"
  using assms by (induction rows) (auto simp: rev_image_eqI)

lemma row_key_inj:
  "distinct (map key rows) \<Longrightarrow> r \<in> set rows \<Longrightarrow> s \<in> set rows \<Longrightarrow> key r = key s \<Longrightarrow> r = s"
  by (metis option.inject select_first_key_unique)

lemma select_first_delete_other:
  assumes "\<And>r. q r \<Longrightarrow> \<not> p r"
  shows "select_first q (delete_where p rows) = select_first q rows"
  using assms by (induction rows) auto

section \<open>Fallible results\<close>

text \<open>\<open>Inl\<close> is the exception a Python call raised, \<open>Inr\<close> its value.\<close>

definition bind_result :: "'e + 'a \<Rightarrow> ('a \<Rightarrow> 'e + 'b) \<Rightarrow> 'e + 'b" where
  "bind_result m f = (case m of Inl e \<Rightarrow> Inl e | Inr x \<Rightarrow> f x)"

lemma bind_result_simps [simp]:
  "bind_result (Inl e) f = Inl e" "bind_result (Inr x) f = f x"
  by (simp_all add: bind_result_def)

lemma bind_result_Inr_iff:
  "bind_result m f = Inr y \<longleftrightarrow> (\<exists>x. m = Inr x \<and> f x = Inr y)"
  by (cases m) auto

definition succeeds :: "'e + 'a \<Rightarrow> bool" where
  "succeeds r = (case r of Inl _ \<Rightarrow> False | Inr _ \<Rightarrow> True)"

lemma succeeds_simps [simp]: "\<not> succeeds (Inl e)" "succeeds (Inr x)"
  by (simp_all add: succeeds_def)

lemma succeeds_bind: "succeeds (bind_result r f) \<longleftrightarrow> (\<exists>x. r = Inr x \<and> succeeds (f x))"
  by (cases r) (simp_all add: bind_result_def)

fun map_result :: "('a \<Rightarrow> 'e + 'b) \<Rightarrow> 'a list \<Rightarrow> 'e + 'b list" where
  "map_result f [] = Inr []"
| "map_result f (x # xs) =
     bind_result (f x) (\<lambda>y. bind_result (map_result f xs) (\<lambda>ys. Inr (y # ys)))"

lemma map_result_Inr:
  assumes "\<And>x. x \<in> set xs \<Longrightarrow> f x = Inr (g x)"
  shows "map_result f xs = Inr (map g xs)"
  using assms by (induction xs) auto

end
