(* ===== verification/PyText.thy ===== *)
theory PyText
  imports Prelude "HOL-Library.Char_ord" "HOL-Library.List_Lexorder"
begin

text \<open>
  The part of Python's \<open>str\<close> the panel uses.  A Python string is the list of the bytes of its
  UTF-8 encoding; \<open>py_len\<close> and \<open>py_take\<close> count code points (bytes that are not continuation
  bytes), as \<open>len\<close> and slicing do, and byte order is code point order, so \<open>sorted\<close> and
  \<open>sort_keys\<close> are the list order on bytes.  White space and letter case are those of ASCII:
  the non-ASCII white space and letters that \<open>str.strip\<close> and \<open>str.lower\<close> also know are not
  modelled.
\<close>

section \<open>Characters and lengths\<close>

definition byte :: "char \<Rightarrow> nat" where
  "byte c = of_char c"

definition is_continuation :: "char \<Rightarrow> bool" where
  "is_continuation c \<longleftrightarrow> 128 \<le> byte c \<and> byte c < 192"

definition py_len :: "string \<Rightarrow> nat" where
  "py_len s = length (filter (\<lambda>c. \<not> is_continuation c) s)"

fun py_take :: "nat \<Rightarrow> string \<Rightarrow> string" where
  "py_take n [] = []"
| "py_take n (c # cs) =
     (if is_continuation c then c # py_take n cs
      else case n of 0 \<Rightarrow> [] | Suc m \<Rightarrow> c # py_take m cs)"

lemma py_len_take: "py_len (py_take n s) \<le> n"
  by (induction n s rule: py_take.induct) (auto simp: py_len_def split: nat.split)

lemma py_len_le_length: "py_len s \<le> length s"
  by (simp add: py_len_def)

definition is_space :: "char \<Rightarrow> bool" where
  "is_space c \<longleftrightarrow> (9 \<le> byte c \<and> byte c \<le> 13) \<or> (28 \<le> byte c \<and> byte c \<le> 32)"

definition py_strip :: "string \<Rightarrow> string" where
  "py_strip s = rev (dropWhile is_space (rev (dropWhile is_space s)))"

lemma dropWhile_idem: "dropWhile p (dropWhile p xs) = dropWhile p xs"
  by (induction xs) auto

lemma hd_dropWhile_not: "dropWhile p xs \<noteq> [] \<Longrightarrow> \<not> p (hd (dropWhile p xs))"
  by (rule hd_dropWhile)

definition lower_char :: "char \<Rightarrow> char" where
  "lower_char c = (if 65 \<le> byte c \<and> byte c \<le> 90 then char_of (byte c + 32) else c)"

definition py_lower :: "string \<Rightarrow> string" where
  "py_lower s = map lower_char s"

section \<open>Substrings, split and join\<close>

definition starts_with :: "string \<Rightarrow> string \<Rightarrow> bool" where
  "starts_with p s \<longleftrightarrow> take (length p) s = p"

lemma starts_with_append [simp]: "starts_with p (p @ s)"
  by (simp add: starts_with_def)

fun contains :: "string \<Rightarrow> string \<Rightarrow> bool" where
  "contains p [] = (p = [])"
| "contains p (c # cs) = (starts_with p (c # cs) \<or> contains p cs)"

lemma contains_append_right: "contains p s \<Longrightarrow> contains p (t @ s)"
  by (induction t) auto

lemma contains_self: "contains p (p @ s)"
proof (cases "p @ s")
  case (Cons c cs)
  moreover have "starts_with p (p @ s)" by simp
  ultimately show ?thesis by (simp only: contains.simps) simp
qed simp

lemma contains_infix: "contains p (t @ p @ s)"
  by (simp add: contains_append_right contains_self)

fun split_on :: "char \<Rightarrow> string \<Rightarrow> string list" where
  "split_on c [] = [[]]"
| "split_on c (x # xs) =
     (if x = c then [] # split_on c xs
      else case split_on c xs of [] \<Rightarrow> [[x]] | p # ps \<Rightarrow> (x # p) # ps)"

fun join :: "string \<Rightarrow> string list \<Rightarrow> string" where
  "join sep [] = []"
| "join sep [x] = x"
| "join sep (x # y # ys) = x @ sep @ join sep (y # ys)"

lemma join_Cons: "ys \<noteq> [] \<Longrightarrow> join sep (x # ys) = x @ sep @ join sep ys"
  by (cases ys) auto

lemma split_on_not_Nil [simp]: "split_on c s \<noteq> []"
  by (induction s) (auto split: list.split)

lemma split_on_no_sep: "c \<notin> set s \<Longrightarrow> split_on c s = [s]"
  by (induction s) auto

lemma split_on_append:
  "c \<notin> set s \<Longrightarrow> split_on c (s @ c # t) = s # split_on c t"
  by (induction s) auto

lemma split_on_join:
  assumes "ps \<noteq> []" and "\<forall>p \<in> set ps. c \<notin> set p"
  shows "split_on c (join [c] ps) = ps"
  using assms
proof (induction ps rule: induct_list012)
  case (3 p q ps)
  then show ?case by (simp add: split_on_append)
qed (auto simp: split_on_no_sep)

lemma join_split_on: "join [c] (split_on c s) = s"
proof (induction s)
  case (Cons x xs)
  then show ?case
    by (cases "split_on c xs"; cases "tl (split_on c xs)") (auto simp: neq_Nil_conv)
qed simp

lemma split_on_sep_free: "p \<in> set (split_on c s) \<Longrightarrow> c \<notin> set p"
  by (induction s arbitrary: p) (auto split: if_splits list.splits)

text \<open>\<open>s.partition(c)\<close>: the part before the first separator, whether there is one, the rest.\<close>

fun partition_at :: "char \<Rightarrow> string \<Rightarrow> string \<times> bool \<times> string" where
  "partition_at c [] = ([], False, [])"
| "partition_at c (x # xs) =
     (if x = c then ([], True, xs)
      else case partition_at c xs of (a, f, b) \<Rightarrow> (x # a, f, b))"

lemma partition_at_found: "c \<notin> set a \<Longrightarrow> partition_at c (a @ c # b) = (a, True, b)"
  by (induction a) auto

lemma partition_at_absent: "c \<notin> set a \<Longrightarrow> partition_at c a = (a, False, [])"
  by (induction a) auto

text \<open>SQL's \<open>LIKE\<close>: \<open>%\<close> is any run, \<open>_\<close> any one character, letters compare without case.\<close>

fun sql_like :: "string \<Rightarrow> string \<Rightarrow> bool" where
  "sql_like [] s = (s = [])"
| "sql_like (p # ps) s =
     (if p = CHR ''%'' then
        sql_like ps s \<or> (case s of [] \<Rightarrow> False | c # cs \<Rightarrow> sql_like (p # ps) cs)
      else case s of [] \<Rightarrow> False
           | c # cs \<Rightarrow> (p = CHR ''_'' \<or> lower_char p = lower_char c) \<and> sql_like ps cs)"

section \<open>Integers\<close>

definition digit :: "nat \<Rightarrow> char" where
  "digit n = char_of (48 + n)"

fun nat_str :: "nat \<Rightarrow> string" where
  "nat_str n = (if n < 10 then [digit n] else nat_str (n div 10) @ [digit (n mod 10)])"

declare nat_str.simps [simp del]

definition int_str :: "int \<Rightarrow> string" where
  "int_str i = (if i < 0 then CHR ''-'' # nat_str (nat (- i)) else nat_str (nat i))"

definition is_digit :: "char \<Rightarrow> bool" where
  "is_digit c \<longleftrightarrow> 48 \<le> byte c \<and> byte c \<le> 57"

definition digit_value :: "char \<Rightarrow> nat" where
  "digit_value c = byte c - 48"

lemma byte_digit [simp]: "n < 10 \<Longrightarrow> byte (digit n) = 48 + n"
  by (simp add: byte_def digit_def)

lemma is_digit_digit [simp]: "n < 10 \<Longrightarrow> is_digit (digit n)"
  by (simp add: is_digit_def)

lemma digit_value_digit [simp]: "n < 10 \<Longrightarrow> digit_value (digit n) = n"
  by (simp add: digit_value_def)

definition digits_value :: "nat \<Rightarrow> string \<Rightarrow> nat" where
  "digits_value acc s = foldl (\<lambda>a c. 10 * a + digit_value c) acc s"

lemma nat_str_not_Nil [simp]: "nat_str n \<noteq> []"
  by (subst nat_str.simps) simp

lemma nat_str_digits: "\<forall>c \<in> set (nat_str n). is_digit c"
proof (induction n rule: nat_str.induct)
  case (1 n)
  then show ?case by (subst nat_str.simps) auto
qed

lemma digits_value_nat_str: "digits_value 0 (nat_str n) = n"
proof (induction n rule: nat_str.induct)
  case (1 n)
  then show ?case by (subst nat_str.simps) (auto simp: digits_value_def)
qed

lemma nat_str_inj: "nat_str m = nat_str n \<longleftrightarrow> m = n"
  by (metis digits_value_nat_str)

lemma not_digit_minus [simp]: "\<not> is_digit (CHR ''-'')"
  by (simp add: is_digit_def byte_def)

lemma nat_str_no_minus: "CHR ''-'' \<notin> set (nat_str n)"
  using nat_str_digits not_digit_minus by blast

lemma int_str_inj: "int_str i = int_str j \<longleftrightarrow> i = j"
proof -
  have "nat_str m \<noteq> CHR ''-'' # s" for m s
    using nat_str_no_minus by (metis list.set_intros(1))
  then have "CHR ''-'' # s \<noteq> nat_str m" "nat_str m \<noteq> CHR ''-'' # s" for m s
    by metis+
  then show ?thesis
    by (auto simp: int_str_def nat_str_inj)
qed

text \<open>
  \<open>int(text)\<close>: surrounding white space, an optional sign, digits with single underscores
  between them; anything else is the \<open>ValueError\<close>, here \<open>None\<close>.
\<close>

fun parse_digits :: "bool \<Rightarrow> nat \<Rightarrow> string \<Rightarrow> nat option" where
  "parse_digits after_digit acc [] = (if after_digit then Some acc else None)"
| "parse_digits after_digit acc (c # cs) =
     (if is_digit c then parse_digits True (10 * acc + digit_value c) cs
      else if c = CHR ''_'' \<and> after_digit then
        (case cs of [] \<Rightarrow> None | d # ds \<Rightarrow> if is_digit d then parse_digits False acc cs else None)
      else None)"

definition parse_int :: "string \<Rightarrow> int option" where
  "parse_int text = (case py_strip text of
       [] \<Rightarrow> None
     | c # cs \<Rightarrow>
         if c = CHR ''-'' then map_option (\<lambda>n. - int n) (parse_digits False 0 cs)
         else if c = CHR ''+'' then map_option int (parse_digits False 0 cs)
         else map_option int (parse_digits False 0 (c # cs)))"

lemma parse_digits_all:
  assumes "\<forall>c \<in> set s. is_digit c" and "b \<or> s \<noteq> []"
  shows "parse_digits b acc s = Some (digits_value acc s)"
  using assms by (induction s arbitrary: b acc) (auto simp: digits_value_def)

lemma digit_not_space: "is_digit c \<Longrightarrow> \<not> is_space c"
  by (auto simp: is_digit_def is_space_def)

lemma dropWhile_none: "s = [] \<or> \<not> p (hd s) \<Longrightarrow> dropWhile p s = s"
  by (cases s) auto

lemma py_strip_id:
  assumes "s \<noteq> []" and "\<not> is_space (hd s)" and "\<not> is_space (last s)"
  shows "py_strip s = s"
  using assms by (simp add: py_strip_def dropWhile_none hd_rev)

lemma parse_int_str: "parse_int (int_str i) = Some i"
proof -
  have ns: "\<not> is_space (hd (nat_str n))" "\<not> is_space (last (nat_str n))" for n
    using nat_str_digits [of n] digit_not_space by (simp_all add: hd_in_set last_in_set)
  have sp: "\<not> is_space (CHR ''-'')" by (simp add: is_space_def byte_def)
  have pd: "parse_digits False 0 (nat_str n) = Some n" for n
    using parse_digits_all [OF nat_str_digits] by (simp add: digits_value_nat_str)
  show ?thesis
  proof (cases "i < 0")
    case True
    then have "py_strip (int_str i) = int_str i"
      using ns sp by (simp add: int_str_def py_strip_id)
    with True show ?thesis by (simp add: parse_int_def int_str_def pd)
  next
    case False
    then have st: "py_strip (nat_str (nat i)) = nat_str (nat i)"
      using ns by (simp add: py_strip_id)
    obtain c cs where c: "nat_str (nat i) = c # cs"
      by (cases "nat_str (nat i)") auto
    then have "is_digit c" using nat_str_digits [of "nat i"] by simp
    then have "c \<noteq> CHR ''-''" "c \<noteq> CHR ''+''" by (auto simp: is_digit_def byte_def)
    with False st c show ?thesis
      using pd [of "nat i"] by (simp add: parse_int_def int_str_def)
  qed
qed

section \<open>Calendar\<close>

text \<open>
  \<open>datetime.isoformat(timespec="seconds")\<close> of an instant in UTC, given in whole seconds since
  1970-01-01: the year and the month are found by taking whole years and months off the day
  count.
\<close>

definition leap_year :: "nat \<Rightarrow> bool" where
  "leap_year y \<longleftrightarrow> 4 dvd y \<and> (\<not> 100 dvd y \<or> 400 dvd y)"

definition year_days :: "nat \<Rightarrow> nat" where
  "year_days y = (if leap_year y then 366 else 365)"

function year_and_day :: "nat \<Rightarrow> nat \<Rightarrow> nat \<times> nat" where
  "year_and_day y d = (if d < year_days y then (y, d) else year_and_day (Suc y) (d - year_days y))"
  by pat_completeness auto
termination
  by (relation "measure (\<lambda>(y, d). d)") (auto simp: year_days_def split: if_splits)

declare year_and_day.simps [simp del]

definition month_lengths :: "nat \<Rightarrow> nat list" where
  "month_lengths y = [31, if leap_year y then 29 else 28, 31, 30, 31, 30, 31, 31, 30, 31, 30, 31]"

fun month_and_day :: "nat list \<Rightarrow> nat \<Rightarrow> nat \<Rightarrow> nat \<times> nat" where
  "month_and_day [] m d = (m, d)"
| "month_and_day (l # ls) m d = (if d < l then (m, d) else month_and_day ls (Suc m) (d - l))"

definition pad2 :: "nat \<Rightarrow> string" where
  "pad2 n = (if n < 10 then CHR ''0'' # nat_str n else nat_str n)"

definition iso_text :: "int \<Rightarrow> string" where
  "iso_text t =
     (let n = nat t; secs = n mod 86400;
          (y, yd) = year_and_day 1970 (n div 86400);
          (m, d) = month_and_day (month_lengths y) 1 yd
      in nat_str y @ ''-'' @ pad2 m @ ''-'' @ pad2 (Suc d) @ ''T'' @
         pad2 (secs div 3600) @ '':'' @ pad2 (secs mod 3600 div 60) @ '':'' @
         pad2 (secs mod 60) @ ''+00:00'')"

end
