(* ===== verification/Json.thy ===== *)
theory Json
  imports PyText "HOL-Library.Multiset"
begin

text \<open>
  JSON values, \<open>json.dumps(..., ensure_ascii=False, sort_keys=True, separators=(",", ":"))\<close> and
  \<open>json.loads\<close>.  Objects are association lists in the dictionary's order; \<open>canon\<close> is the key
  sorting, \<open>show_json\<close> the printing and \<open>loads\<close> a recursive-descent parser with a fuel
  argument that the length of the text bounds.  The main fact is the round trip
  \<open>loads_dumps\<close>: reading back what \<open>dumps\<close> printed gives the value with its keys sorted.
\<close>

datatype json =
    JNull
  | JBool bool
  | JInt int
  | JFloat string \<comment> \<open>Python's \<open>repr\<close> of the float\<close>
  | JStr string
  | JList "json list"
  | JObj "(string \<times> json) list"

section \<open>Printing\<close>

definition hex_digit :: "nat \<Rightarrow> char" where
  "hex_digit n = (if n < 10 then char_of (48 + n) else char_of (87 + n))"

definition escape_char :: "char \<Rightarrow> string" where
  "escape_char c =
     (if c = CHR 0x22 then [CHR 0x5C, CHR 0x22]
      else if c = CHR 0x5C then [CHR 0x5C, CHR 0x5C]
      else if c = CHR 0x0A then [CHR 0x5C, CHR ''n'']
      else if c = CHR 0x0D then [CHR 0x5C, CHR ''r'']
      else if c = CHR 0x09 then [CHR 0x5C, CHR ''t'']
      else if c = CHR 0x0C then [CHR 0x5C, CHR ''f'']
      else if c = CHR 0x08 then [CHR 0x5C, CHR ''b'']
      else if byte c < 32 then
        [CHR 0x5C, CHR ''u'', CHR ''0'', CHR ''0'', hex_digit (byte c div 16), hex_digit (byte c mod 16)]
      else [c])"

definition quote_json :: "string \<Rightarrow> string" where
  "quote_json s = CHR 0x22 # concat (map escape_char s) @ [CHR 0x22]"

fun canon :: "json \<Rightarrow> json"
  and canon_members :: "(string \<times> json) list \<Rightarrow> (string \<times> json) list"
  and canon_list :: "json list \<Rightarrow> json list" where
  "canon (JList vs) = JList (canon_list vs)"
| "canon (JObj kvs) = JObj (sort_key fst (canon_members kvs))"
| "canon v = v"
| "canon_members [] = []"
| "canon_members ((k, v) # kvs) = (k, canon v) # canon_members kvs"
| "canon_list [] = []"
| "canon_list (v # vs) = canon v # canon_list vs"

text \<open>
  The printer, for a quotation \<open>q\<close> and the text \<open>g\<close> after each separator.  \<open>dumps\<close> is the
  canonical form, \<open>dumps_plain\<close> the default \<open>json.dumps(v)\<close>: keys in the order of the
  dictionary, a space after each separator, characters outside ASCII escaped.
\<close>

fun show_json :: "(string \<Rightarrow> string) \<Rightarrow> string \<Rightarrow> json \<Rightarrow> string"
  and show_members :: "(string \<Rightarrow> string) \<Rightarrow> string \<Rightarrow> (string \<times> json) list \<Rightarrow> string"
  and show_list :: "(string \<Rightarrow> string) \<Rightarrow> string \<Rightarrow> json list \<Rightarrow> string" where
  "show_json q g JNull = ''null''"
| "show_json q g (JBool b) = (if b then ''true'' else ''false'')"
| "show_json q g (JInt i) = int_str i"
| "show_json q g (JFloat r) = r"
| "show_json q g (JStr s) = q s"
| "show_json q g (JList vs) = CHR ''['' # show_list q g vs @ '']''"
| "show_json q g (JObj kvs) = CHR ''{'' # show_members q g kvs @ ''}''"
| "show_members q g [] = []"
| "show_members q g [(k, v)] = q k @ CHR '':'' # g @ show_json q g v"
| "show_members q g ((k, v) # kv # kvs) =
     q k @ CHR '':'' # g @ show_json q g v @ CHR '','' # g @ show_members q g (kv # kvs)"
| "show_list q g [] = []"
| "show_list q g [v] = show_json q g v"
| "show_list q g (v # w # vs) = show_json q g v @ CHR '','' # g @ show_list q g (w # vs)"

definition dumps :: "json \<Rightarrow> string" where
  "dumps v = show_json quote_json [] (canon v)"

fun code_points :: "string \<Rightarrow> nat list" where
  "code_points [] = []"
| "code_points (c # cs) =
     (if byte c < 128 then byte c # code_points cs
      else if byte c < 224 then
        (case cs of
           d # r \<Rightarrow> ((byte c - 192) * 64 + (byte d - 128)) # code_points r
         | [] \<Rightarrow> [byte c])
      else if byte c < 240 then
        (case cs of
           d # e # r \<Rightarrow>
             (((byte c - 224) * 64 + (byte d - 128)) * 64 + (byte e - 128)) # code_points r
         | _ \<Rightarrow> [byte c])
      else
        (case cs of
           d # e # f # r \<Rightarrow>
             ((((byte c - 240) * 64 + (byte d - 128)) * 64 + (byte e - 128)) * 64 + (byte f - 128))
               # code_points r
         | _ \<Rightarrow> [byte c]))"

definition escape_code :: "nat \<Rightarrow> string" where
  "escape_code n =
     [CHR 0x5C, CHR ''u'', hex_digit (n div 4096 mod 16), hex_digit (n div 256 mod 16),
      hex_digit (n div 16 mod 16), hex_digit (n mod 16)]"

definition ascii_char :: "nat \<Rightarrow> string" where
  "ascii_char n =
     (if n < 128 then escape_char (char_of n)
      else if n < 65536 then escape_code n
      else escape_code (55296 + (n - 65536) div 1024) @ escape_code (56320 + (n - 65536) mod 1024))"

definition quote_ascii :: "string \<Rightarrow> string" where
  "quote_ascii s = CHR 0x22 # concat (map ascii_char (code_points s)) @ [CHR 0x22]"

definition dumps_plain :: "json \<Rightarrow> string" where
  "dumps_plain v = show_json quote_ascii '' '' v"

section \<open>Parsing\<close>

definition json_space :: "char \<Rightarrow> bool" where
  "json_space c \<longleftrightarrow> c = CHR '' '' \<or> c = CHR 0x09 \<or> c = CHR 0x0A \<or> c = CHR 0x0D"

definition skip_ws :: "string \<Rightarrow> string" where
  "skip_ws s = dropWhile json_space s"

definition hex_value :: "char \<Rightarrow> nat option" where
  "hex_value c =
     (let n = byte c in
      if 48 \<le> n \<and> n \<le> 57 then Some (n - 48)
      else if 97 \<le> n \<and> n \<le> 102 then Some (n - 87)
      else if 65 \<le> n \<and> n \<le> 70 then Some (n - 55) else None)"

fun hex4 :: "string \<Rightarrow> (nat \<times> string) option" where
  "hex4 (a # b # c # d # rest) =
     (case (hex_value a, hex_value b, hex_value c, hex_value d) of
        (Some w, Some x, Some y, Some z) \<Rightarrow> Some (((w * 16 + x) * 16 + y) * 16 + z, rest)
      | _ \<Rightarrow> None)"
| "hex4 _ = None"

definition utf8 :: "nat \<Rightarrow> string" where
  "utf8 n =
     (if n < 128 then [char_of n]
      else if n < 2048 then [char_of (192 + n div 64), char_of (128 + n mod 64)]
      else if n < 65536 then
        [char_of (224 + n div 4096), char_of (128 + n div 64 mod 64), char_of (128 + n mod 64)]
      else [char_of (240 + n div 262144), char_of (128 + n div 4096 mod 64),
            char_of (128 + n div 64 mod 64), char_of (128 + n mod 64)])"

text \<open>
  \<open>\u\<close> escapes: a surrogate pair is one code point; a lone surrogate has no UTF-8 encoding and
  is refused here.
\<close>

definition unescape_u :: "string \<Rightarrow> (string \<times> string) option" where
  "unescape_u s = (case hex4 s of
       None \<Rightarrow> None
     | Some (n, rest) \<Rightarrow>
         if n < 0xD800 \<or> 0xE000 \<le> n then Some (utf8 n, rest)
         else if n < 0xDC00 then
           (case rest of
              b # u # rest' \<Rightarrow>
                if b = CHR 0x5C \<and> u = CHR ''u'' then
                  (case hex4 rest' of
                     Some (m, rest'') \<Rightarrow>
                       if 0xDC00 \<le> m \<and> m < 0xE000
                       then Some (utf8 (0x10000 + (n - 0xD800) * 1024 + (m - 0xDC00)), rest'')
                       else None
                   | None \<Rightarrow> None)
                else None
            | _ \<Rightarrow> None)
         else None)"

fun parse_chars :: "nat \<Rightarrow> string \<Rightarrow> (string \<times> string) option" where
  "parse_chars 0 s = None"
| "parse_chars (Suc fuel) [] = None"
| "parse_chars (Suc fuel) (c # cs) =
     (if c = CHR 0x22 then Some ([], cs)
      else if c = CHR 0x5C then
        (case cs of
           [] \<Rightarrow> None
         | e # rest \<Rightarrow>
             if e = CHR ''u'' then
               (case unescape_u rest of
                  None \<Rightarrow> None
                | Some (u, rest') \<Rightarrow> map_option (\<lambda>(s, r). (u @ s, r)) (parse_chars fuel rest'))
             else
               (case map_of [(CHR 0x22, CHR 0x22), (CHR 0x5C, CHR 0x5C), (CHR ''/'', CHR ''/''),
                             (CHR ''b'', CHR 0x08), (CHR ''f'', CHR 0x0C), (CHR ''n'', CHR 0x0A),
                             (CHR ''r'', CHR 0x0D), (CHR ''t'', CHR 0x09)] e of
                  None \<Rightarrow> None
                | Some d \<Rightarrow> map_option (\<lambda>(s, r). (d # s, r)) (parse_chars fuel rest)))
      else if byte c < 32 then None
      else map_option (\<lambda>(s, r). (c # s, r)) (parse_chars fuel cs))"

fun span_digits :: "string \<Rightarrow> string \<times> string" where
  "span_digits [] = ([], [])"
| "span_digits (c # cs) =
     (if is_digit c then (case span_digits cs of (d, r) \<Rightarrow> (c # d, r)) else ([], c # cs))"

text \<open>
  A number is an integer unless a fraction or an exponent follows; a float keeps the text it was
  written with.  An integer part that starts with a zero is that zero alone.
\<close>

definition parse_fraction :: "string \<Rightarrow> string \<times> string" where
  "parse_fraction s = (case s of
       c # cs \<Rightarrow> if c = CHR ''.'' then (case span_digits cs of
                    (d, r) \<Rightarrow> if d = [] then ([], s) else (c # d, r)) else ([], s)
     | [] \<Rightarrow> ([], s))"

definition parse_exponent :: "string \<Rightarrow> string \<times> string" where
  "parse_exponent s = (case s of
       c # cs \<Rightarrow>
         if c = CHR ''e'' \<or> c = CHR ''E'' then
           (let (sg, t) = (case cs of
                  x # xs \<Rightarrow> if x = CHR ''-'' \<or> x = CHR ''+'' then ([x], xs) else ([], cs)
                | [] \<Rightarrow> ([], cs))
            in case span_digits t of (d, r) \<Rightarrow> if d = [] then ([], s) else (c # sg @ d, r))
         else ([], s)
     | [] \<Rightarrow> ([], s))"

definition parse_number :: "string \<Rightarrow> (json \<times> string) option" where
  "parse_number s =
     (let (neg, t) = (case s of c # cs \<Rightarrow> if c = CHR ''-'' then (True, cs) else (False, s)
                             | [] \<Rightarrow> (False, s));
          (d, r) = (case span_digits t of
              ([], r) \<Rightarrow> ([], r)
            | (x # xs, r) \<Rightarrow> if x = CHR ''0'' then ([x], xs @ r) else (x # xs, r));
          (fr, r1) = parse_fraction r;
          (ex, r2) = parse_exponent r1
      in if d = [] then None
         else if fr = [] \<and> ex = [] then
           Some (JInt (if neg then - int (digits_value 0 d) else int (digits_value 0 d)), r)
         else Some (JFloat ((if neg then ''-'' else []) @ d @ fr @ ex), r2))"

text \<open>The dictionary of a list of pairs: a repeated key keeps its place and takes the last value.\<close>

definition dict_of_pairs :: "(string \<times> json) list \<Rightarrow> (string \<times> json) list" where
  "dict_of_pairs kvs = foldl (\<lambda>d (k, v). AList.update k v d) [] kvs"

text \<open>
  The parser is a parameter's worth more general than \<open>json.loads\<close>: \<open>hook\<close> is
  \<open>object_pairs_hook\<close>, whose refusal makes the whole parse fail with its own error.
\<close>

datatype 'e parse_error = Malformed | Refused 'e

type_synonym 'e hook = "(string \<times> json) list \<Rightarrow> 'e + (string \<times> json) list"

fun expect :: "char \<Rightarrow> string \<Rightarrow> string option" where
  "expect c [] = None"
| "expect c (x # xs) = (if x = c then Some xs else None)"

fun parse_value :: "'e hook \<Rightarrow> nat \<Rightarrow> string \<Rightarrow> 'e parse_error + json \<times> string"
  and parse_items :: "'e hook \<Rightarrow> nat \<Rightarrow> string \<Rightarrow> 'e parse_error + json list \<times> string"
  and parse_members :: "'e hook \<Rightarrow> nat \<Rightarrow> string \<Rightarrow> 'e parse_error + (string \<times> json) list \<times> string"
where
  "parse_value hook 0 s = Inl Malformed"
| "parse_value hook (Suc fuel) s =
     (case s of
        [] \<Rightarrow> Inl Malformed
      | c # cs \<Rightarrow>
          if c = CHR 0x22 then
            (case parse_chars (Suc (length cs)) cs of
               None \<Rightarrow> Inl Malformed | Some (t, r) \<Rightarrow> Inr (JStr t, r))
          else if c = CHR ''['' then
            (case expect (CHR '']'') (skip_ws cs) of
               Some r \<Rightarrow> Inr (JList [], r)
             | None \<Rightarrow> bind_result (parse_items hook fuel (skip_ws cs)) (\<lambda>(vs, r). Inr (JList vs, r)))
          else if c = CHR ''{'' then
            (case expect (CHR ''}'') (skip_ws cs) of
               Some r \<Rightarrow>
                 (case hook [] of Inl e \<Rightarrow> Inl (Refused e) | Inr d \<Rightarrow> Inr (JObj d, r))
             | None \<Rightarrow> bind_result (parse_members hook fuel (skip_ws cs)) (\<lambda>(kvs, r).
                 case hook kvs of Inl e \<Rightarrow> Inl (Refused e) | Inr d \<Rightarrow> Inr (JObj d, r)))
          else if starts_with ''null'' s then Inr (JNull, drop 4 s)
          else if starts_with ''true'' s then Inr (JBool True, drop 4 s)
          else if starts_with ''false'' s then Inr (JBool False, drop 5 s)
          else (case parse_number s of None \<Rightarrow> Inl Malformed | Some vr \<Rightarrow> Inr vr))"
| "parse_items hook 0 s = Inl Malformed"
| "parse_items hook (Suc fuel) s =
     bind_result (parse_value hook fuel s) (\<lambda>(v, r).
       case skip_ws r of
         [] \<Rightarrow> Inl Malformed
       | c # cs \<Rightarrow>
           if c = CHR '']'' then Inr ([v], cs)
           else if c = CHR '','' then
             bind_result (parse_items hook fuel (skip_ws cs)) (\<lambda>(vs, r'). Inr (v # vs, r'))
           else Inl Malformed)"
| "parse_members hook 0 s = Inl Malformed"
| "parse_members hook (Suc fuel) s =
     (case expect (CHR 0x22) s of
        None \<Rightarrow> Inl Malformed
      | Some s1 \<Rightarrow>
          (case parse_chars (Suc (length s1)) s1 of
             None \<Rightarrow> Inl Malformed
           | Some (k, s2) \<Rightarrow>
               (case expect (CHR '':'') (skip_ws s2) of
                  None \<Rightarrow> Inl Malformed
                | Some s3 \<Rightarrow>
                    bind_result (parse_value hook fuel (skip_ws s3)) (\<lambda>(v, r).
                      case skip_ws r of
                        [] \<Rightarrow> Inl Malformed
                      | c # cs \<Rightarrow>
                          if c = CHR ''}'' then Inr ([(k, v)], cs)
                          else if c = CHR '','' then
                            bind_result (parse_members hook fuel (skip_ws cs))
                              (\<lambda>(kvs, r'). Inr ((k, v) # kvs, r'))
                          else Inl Malformed))))"

definition loads_with :: "'e hook \<Rightarrow> string \<Rightarrow> 'e parse_error + json" where
  "loads_with hook text =
     bind_result (parse_value hook (Suc (length text)) (skip_ws text)) (\<lambda>(v, r).
       if skip_ws r = [] then Inr v else Inl Malformed)"

definition loads :: "string \<Rightarrow> json option" where
  "loads text = (case loads_with (\<lambda>kvs. Inr (dict_of_pairs kvs) :: unit + _) text of
       Inl _ \<Rightarrow> None | Inr v \<Rightarrow> Some v)"

section \<open>Access\<close>

fun member_of :: "json \<Rightarrow> string \<Rightarrow> json option" where
  "member_of (JObj kvs) k = map_of kvs k"
| "member_of _ k = None"

section \<open>The round trip\<close>

text \<open>
  The values the printer is right for: no floats, distinct keys, every string one the quotation
  can quote.
\<close>

fun wf_with :: "(string \<Rightarrow> bool) \<Rightarrow> json \<Rightarrow> bool"
  and wf_members :: "(string \<Rightarrow> bool) \<Rightarrow> (string \<times> json) list \<Rightarrow> bool"
  and wf_list :: "(string \<Rightarrow> bool) \<Rightarrow> json list \<Rightarrow> bool" where
  "wf_with ok (JFloat r) = False"
| "wf_with ok (JList vs) = wf_list ok vs"
| "wf_with ok (JObj kvs) = (distinct (map fst kvs) \<and> wf_members ok kvs)"
| "wf_with ok (JStr s) = ok s"
| "wf_with ok v = True"
| "wf_members ok [] = True"
| "wf_members ok ((k, v) # kvs) = (ok k \<and> wf_with ok v \<and> wf_members ok kvs)"
| "wf_list ok [] = True"
| "wf_list ok (v # vs) = (wf_with ok v \<and> wf_list ok vs)"

abbreviation wf_json :: "json \<Rightarrow> bool" where
  "wf_json \<equiv> wf_with (\<lambda>_. True)"

lemma wf_members_iff: "wf_members ok kvs \<longleftrightarrow> (\<forall>(k, v) \<in> set kvs. ok k \<and> wf_with ok v)"
  by (induction kvs) auto

lemma map_fst_canon_members [simp]: "map fst (canon_members kvs) = map fst kvs"
  by (induction kvs) auto

lemma wf_canon:
  "wf_with ok v \<Longrightarrow> wf_with ok (canon v)"
  "wf_members ok kvs \<Longrightarrow> wf_members ok (canon_members kvs)"
  "wf_list ok vs \<Longrightarrow> wf_list ok (canon_list vs)"
proof (induction v and kvs and vs rule: canon_canon_members_canon_list.induct)
  case (2 kvs)
  have "mset (map fst (sort_key fst (canon_members kvs))) = mset (map fst (canon_members kvs))"
    by (metis mset_map mset_sort)
  then have "distinct (map fst (sort_key fst (canon_members kvs)))"
    using 2 by (metis map_fst_canon_members mset_eq_imp_distinct_iff wf_with.simps(3))
  with 2 show ?case by (simp add: wf_members_iff)
qed auto

lemma hex_value_digit [simp]: "n < 16 \<Longrightarrow> hex_value (hex_digit n) = Some n"
  by (auto simp: hex_value_def hex_digit_def byte_def Let_def)

lemma char_of_byte [simp]: "char_of (byte c) = c"
  by (simp add: byte_def)

lemma unescape_control:
  "byte c < 32 \<Longrightarrow>
   unescape_u (CHR ''0'' # CHR ''0'' # hex_digit (byte c div 16) # hex_digit (byte c mod 16) # t) =
     Some ([c], t)"
proof -
  assume b: "byte c < 32"
  have z: "hex_value (CHR ''0'') = Some 0" by (simp add: hex_value_def byte_def)
  from b have "byte c div 16 < 16" by simp
  then have "hex4 (CHR ''0'' # CHR ''0'' # hex_digit (byte c div 16) # hex_digit (byte c mod 16) # t) =
      Some (byte c, t)"
    by (simp add: z)
  with b show ?thesis by (simp add: unescape_u_def utf8_def)
qed

lemma parse_escaped_char:
  "parse_chars (Suc fuel) (escape_char c @ t) = map_option (\<lambda>(s, r). (c # s, r)) (parse_chars fuel t)"
proof -
  consider "c = CHR 0x22" | "c = CHR 0x5C" | "c = CHR 0x0A" | "c = CHR 0x0D" | "c = CHR 0x09"
    | "c = CHR 0x0C" | "c = CHR 0x08"
    | "c \<notin> {CHR 0x22, CHR 0x5C, CHR 0x0A, CHR 0x0D, CHR 0x09, CHR 0x0C, CHR 0x08}" "byte c < 32"
    | "c \<noteq> CHR 0x22" "c \<noteq> CHR 0x5C" "\<not> byte c < 32"
    by blast
  then show ?thesis
  proof cases
    case 8
    then show ?thesis by (simp add: escape_char_def unescape_control)
  next
    case 9
    moreover from 9(3) have "c \<notin> {CHR 0x0A, CHR 0x0D, CHR 0x09, CHR 0x0C, CHR 0x08}"
      by (auto simp: byte_def)
    ultimately show ?thesis by (simp add: escape_char_def)
  qed (simp_all add: escape_char_def)
qed

lemma parse_escaped:
  "length s < fuel \<Longrightarrow> parse_chars fuel (concat (map escape_char s) @ CHR 0x22 # rest) = Some (s, rest)"
proof (induction s arbitrary: fuel)
  case Nil
  then show ?case by (cases fuel) auto
next
  case (Cons c s)
  then obtain f where "fuel = Suc f" "length s < f" by (cases fuel) auto
  with Cons.IH show ?case by (simp add: parse_escaped_char)
qed

lemma escape_char_not_Nil: "1 \<le> length (escape_char c)"
  by (simp add: escape_char_def)

lemma length_escaped: "length s \<le> length (concat (map escape_char s))"
proof (induction s)
  case (Cons c s)
  then show ?case using escape_char_not_Nil [of c] by simp
qed simp

lemma parse_quoted:
  assumes "quote_json s @ rest = c # cs"
  shows "c = CHR 0x22" and "parse_chars (Suc (length cs)) cs = Some (s, rest)"
proof -
  from assms show "c = CHR 0x22" by (simp add: quote_json_def)
  from assms have cs: "cs = concat (map escape_char s) @ CHR 0x22 # rest"
    by (auto simp: quote_json_def)
  have "length s < Suc (length cs)" using length_escaped [of s] by (simp add: cs)
  then show "parse_chars (Suc (length cs)) cs = Some (s, rest)"
    unfolding cs by (rule parse_escaped)
qed

text \<open>What may follow a printed value.\<close>

definition stops :: "string \<Rightarrow> bool" where
  "stops rest \<longleftrightarrow> rest = [] \<or> hd rest \<in> {CHR '','', CHR '']'', CHR ''}''}"

lemma stops_intros [simp]:
  "stops []" "stops (CHR '','' # r)" "stops (CHR '']'' # r)" "stops (CHR ''}'' # r)"
  by (simp_all add: stops_def)

lemma span_digits_stop:
  assumes "\<forall>c \<in> set d. is_digit c" and "stops rest"
  shows "span_digits (d @ rest) = (d, rest)"
proof -
  have "span_digits rest = ([], rest)"
    using assms(2) by (cases rest) (auto simp: stops_def is_digit_def byte_def)
  with assms(1) show ?thesis by (induction d) auto
qed

lemma nat_str_zero_head: "nat_str n = CHR ''0'' # ds \<Longrightarrow> n = 0 \<and> ds = []"
proof (induction n arbitrary: ds rule: nat_str.induct)
  case (1 n)
  show ?case
  proof (cases "n < 10")
    case True
    with "1.prems" have "digit n = CHR ''0''" "ds = []"
      by (simp_all add: nat_str.simps [of n])
    then have "byte (digit n) = 48" by (simp add: byte_def)
    with True \<open>ds = []\<close> show ?thesis by simp
  next
    case False
    then have n: "nat_str n = nat_str (n div 10) @ [digit (n mod 10)]"
      by (simp add: nat_str.simps [of n])
    then obtain ds' where "nat_str (n div 10) = CHR ''0'' # ds'"
      using "1.prems" by (cases "nat_str (n div 10)") auto
    with "1.IH" [OF False] have "n div 10 = 0" by blast
    with False show ?thesis by simp
  qed
qed

lemma parse_tail_stop:
  "stops r \<Longrightarrow> parse_fraction r = ([], r)" "stops r \<Longrightarrow> parse_exponent r = ([], r)"
  by (auto simp: stops_def parse_fraction_def parse_exponent_def split: list.splits)

lemma parse_nat_digits:
  assumes "stops rest"
  shows "(case span_digits (nat_str n @ rest) of
            ([], r) \<Rightarrow> ([], r)
          | (x # xs, r) \<Rightarrow> if x = CHR ''0'' then ([x], xs @ r) else (x # xs, r)) = (nat_str n, rest)"
proof -
  have sp: "span_digits (nat_str n @ rest) = (nat_str n, rest)"
    using nat_str_digits assms by (rule span_digits_stop)
  obtain x xs where n: "nat_str n = x # xs" by (cases "nat_str n") auto
  show ?thesis
  proof (cases "x = CHR ''0''")
    case True
    with n nat_str_zero_head [of n xs] have "xs = []" by simp
    with sp n True show ?thesis by simp
  qed (use sp n in simp)
qed

lemma nat_str_head: "nat_str n = c # cs \<Longrightarrow> is_digit c"
  using nat_str_digits [of n] by simp

lemma parse_number_int:
  assumes st: "stops rest"
  shows "parse_number (int_str i @ rest) = Some (JInt i, rest)"
proof (cases "i < 0")
  case True
  then show ?thesis
    using parse_nat_digits [OF st, of "nat (- i)"]
    by (simp add: int_str_def parse_number_def parse_tail_stop [OF st] digits_value_nat_str Let_def)
next
  case False
  obtain x xs where n: "nat_str (nat i) = x # xs" by (cases "nat_str (nat i)") auto
  then have "x \<noteq> CHR ''-''" using nat_str_head by fastforce
  with False n show ?thesis
    using parse_nat_digits [OF st, of "nat i"] digits_value_nat_str [of "nat i"]
    by (simp add: int_str_def parse_number_def parse_tail_stop [OF st] Let_def)
qed

lemma int_str_head:
  assumes "int_str i @ rest = c # cs"
  shows "c = CHR ''-'' \<or> is_digit c"
  using assms by (cases "nat_str (nat i)") (auto simp: int_str_def dest: nat_str_head split: if_splits)

text \<open>The fuel one value needs, and why the length of its text is enough.\<close>

fun need :: "json \<Rightarrow> nat"
  and need_members :: "(string \<times> json) list \<Rightarrow> nat"
  and need_list :: "json list \<Rightarrow> nat" where
  "need (JList vs) = Suc (need_list vs)"
| "need (JObj kvs) = Suc (need_members kvs)"
| "need JNull = 1"
| "need (JBool b) = 1"
| "need (JInt i) = 1"
| "need (JFloat r) = 1"
| "need (JStr s) = 1"
| "need_members [] = 0"
| "need_members ((k, v) # kvs) = Suc (need v + need_members kvs)"
| "need_list [] = 0"
| "need_list (v # vs) = Suc (need v + need_list vs)"

lemma int_str_not_Nil [simp]: "int_str i \<noteq> []"
  by (simp add: int_str_def)

lemma json_space_stop:
  "skip_ws (CHR 0x22 # s) = CHR 0x22 # s" "skip_ws (CHR '','' # s) = CHR '','' # s"
  "skip_ws (CHR '']'' # s) = CHR '']'' # s" "skip_ws (CHR ''}'' # s) = CHR ''}'' # s"
  "skip_ws (CHR '':'' # s) = CHR '':'' # s" "skip_ws [] = []"
  by (simp_all add: skip_ws_def json_space_def)

text \<open>How a printed value starts: never with white space or a closing bracket.\<close>

lemma parse_value_int:
  assumes st: "stops rest"
  shows "parse_value hook (Suc fuel) (int_str i @ rest) = Inr (JInt i, rest)"
proof -
  obtain c cs where c: "int_str i @ rest = c # cs" by (cases "int_str i @ rest") auto
  then have "c = CHR ''-'' \<or> is_digit c" by (rule int_str_head)
  then have "c \<notin> {CHR 0x22, CHR ''['', CHR ''{'', CHR ''n'', CHR ''t'', CHR ''f''}"
    by (auto simp: is_digit_def byte_def)
  with c show ?thesis
    using parse_number_int [OF st, of i] by (simp add: starts_with_def)
qed

lemma dict_of_pairs_snoc: "dict_of_pairs (kvs @ [(k, v)]) = AList.update k v (dict_of_pairs kvs)"
  by (simp add: dict_of_pairs_def)

lemma update_absent: "k \<notin> fst ` set al \<Longrightarrow> AList.update k v al = al @ [(k, v)]"
  by (induction al) auto

lemma dict_of_pairs_distinct: "distinct (map fst kvs) \<Longrightarrow> dict_of_pairs kvs = kvs"
proof (induction kvs rule: rev_induct)
  case Nil
  then show ?case by (simp add: dict_of_pairs_def)
next
  case (snoc kv kvs)
  then show ?case by (cases kv) (simp add: dict_of_pairs_snoc update_absent)
qed

definition hook_keeps :: "'e hook \<Rightarrow> bool" where
  "hook_keeps hook \<longleftrightarrow> (\<forall>kvs. distinct (map fst kvs) \<longrightarrow> hook kvs = Inr kvs)"

text \<open>
  What a printer needs for its text to be read back: white space after the separators, and a
  quotation the string parser undoes on the strings \<open>ok\<close>.
\<close>

locale json_printer =
  fixes q :: "string \<Rightarrow> string" and g :: string and ok :: "string \<Rightarrow> bool"
  assumes gap: "skip_ws (g @ s) = skip_ws s"
    and quoted: "ok s \<Longrightarrow> \<exists>t. q s = CHR 0x22 # t \<and> t \<noteq> [] \<and>
      (\<forall>rest. parse_chars (Suc (length (t @ rest))) (t @ rest) = Some (s, rest))"
begin

lemma quote_head:
  assumes "ok s"
  obtains t where "q s = CHR 0x22 # t" and "t \<noteq> []"
    and "\<And>rest. parse_chars (Suc (length (t @ rest))) (t @ rest) = Some (s, rest)"
  using quoted [OF assms] by blast

lemma need_le_length:
  "wf_with ok v \<Longrightarrow> need v \<le> length (show_json q g v)"
  "wf_members ok kvs \<Longrightarrow> need_members kvs \<le> Suc (length (show_members q g kvs))"
  "wf_list ok vs \<Longrightarrow> need_list vs \<le> Suc (length (show_list q g vs))"
proof (induction v and kvs and vs rule: need_need_members_need_list.induct)
  case (5 i)
  then show ?case by (simp add: Suc_le_eq)
next
  case (7 s)
  then have "ok s" by simp
  then obtain t where "q s = CHR 0x22 # t" by (rule quote_head)
  then show ?case by simp
next
  case (9 k v kvs)
  then show ?case by (cases kvs) auto
next
  case (11 v vs)
  then show ?case by (cases vs) auto
qed auto

lemma show_json_head:
  assumes "wf_with ok v"
  obtains c cs where "show_json q g v = c # cs" and "\<not> json_space c" and "c \<noteq> CHR '']''"
proof (cases v)
  case (JInt i)
  obtain c cs where c: "int_str i = c # cs" by (cases "int_str i") auto
  then have "c = CHR ''-'' \<or> is_digit c" using int_str_head [of i "[]" c cs] by simp
  then show ?thesis
    using c JInt by (intro that [of c cs]) (auto simp: json_space_def is_digit_def byte_def)
next
  case (JBool b)
  then show ?thesis by (cases b) (auto simp: json_space_def intro: that)
next
  case (JStr s)
  with assms have "ok s" by simp
  then obtain t where "q s = CHR 0x22 # t" by (rule quote_head)
  with JStr show ?thesis by (auto simp: json_space_def intro: that)
qed (use assms that in \<open>auto simp: json_space_def\<close>)

lemma skip_ws_show: "wf_with ok v \<Longrightarrow> skip_ws (show_json q g v @ r) = show_json q g v @ r"
  by (rule show_json_head [of v]) (simp_all add: skip_ws_def)

lemma show_list_head:
  assumes "wf_list ok vs" and "vs \<noteq> []"
  shows "skip_ws (show_list q g vs @ r) = show_list q g vs @ r"
    and "expect (CHR '']'') (show_list q g vs @ r) = None"
proof -
  obtain v ws where vs: "vs = v # ws" using assms(2) by (cases vs) auto
  with assms(1) have "wf_with ok v" by simp
  then obtain c cs where c: "show_json q g v = c # cs" "\<not> json_space c" "c \<noteq> CHR '']''"
    by (rule show_json_head)
  then have "\<exists>ds. show_list q g vs = c # ds" by (cases ws) (auto simp: vs)
  with c show "skip_ws (show_list q g vs @ r) = show_list q g vs @ r"
    and "expect (CHR '']'') (show_list q g vs @ r) = None"
    by (auto simp: skip_ws_def)
qed

lemma show_members_head:
  assumes "wf_members ok kvs" and "kvs \<noteq> []"
  obtains cs where "show_members q g kvs = CHR 0x22 # cs"
proof -
  obtain k v ws where kvs: "kvs = (k, v) # ws" using assms(2) by (cases kvs) auto
  with assms(1) have "ok k" by simp
  then obtain t where "q k = CHR 0x22 # t" by (rule quote_head)
  with that show ?thesis by (cases ws) (auto simp: kvs)
qed

lemma show_members_skip:
  assumes "wf_members ok kvs" and "kvs \<noteq> []"
  shows "skip_ws (show_members q g kvs @ r) = show_members q g kvs @ r"
    and "expect (CHR ''}'') (show_members q g kvs @ r) = None"
proof -
  obtain cs where "show_members q g kvs = CHR 0x22 # cs" using assms by (rule show_members_head)
  then show "skip_ws (show_members q g kvs @ r) = show_members q g kvs @ r"
    and "expect (CHR ''}'') (show_members q g kvs @ r) = None"
    by (simp_all add: json_space_stop)
qed

lemma parse_value_str:
  assumes "ok s"
  shows "parse_value hook (Suc fuel) (q s @ rest) = Inr (JStr s, rest)"
proof -
  obtain t where t: "q s = CHR 0x22 # t"
    and p: "\<And>rest. parse_chars (Suc (length (t @ rest))) (t @ rest) = Some (s, rest)"
    using assms by (rule quote_head) blast
  from p [of rest] show ?thesis by (simp add: t)
qed

lemma parse_show:
  assumes hk: "hook_keeps hook"
  shows "wf_with ok v \<Longrightarrow> stops rest \<Longrightarrow> need v \<le> fuel \<Longrightarrow>
      parse_value hook fuel (show_json q g v @ rest) = Inr (v, rest)"
    and "wf_members ok kvs \<Longrightarrow> kvs \<noteq> [] \<Longrightarrow> need_members kvs \<le> fuel \<Longrightarrow>
      parse_members hook fuel (show_members q g kvs @ CHR ''}'' # rest) = Inr (kvs, rest)"
    and "wf_list ok vs \<Longrightarrow> vs \<noteq> [] \<Longrightarrow> need_list vs \<le> fuel \<Longrightarrow>
      parse_items hook fuel (show_list q g vs @ CHR '']'' # rest) = Inr (vs, rest)"
proof (induction v and kvs and vs arbitrary: fuel rest and fuel rest and fuel rest
    rule: need_need_members_need_list.induct)
  case (1 vs)
  then obtain f where f: "fuel = Suc f" by (cases fuel) auto
  show ?case
  proof (cases "vs = []")
    case True
    then show ?thesis by (simp add: f json_space_stop)
  next
    case False
    with 1 show ?thesis by (simp add: f show_list_head)
  qed
next
  case (2 kvs)
  then obtain f where f: "fuel = Suc f" by (cases fuel) auto
  have hok: "hook kvs = Inr kvs" using hk 2 by (simp add: hook_keeps_def)
  show ?case
  proof (cases "kvs = []")
    case True
    with hok show ?thesis by (simp add: f json_space_stop)
  next
    case False
    with 2 hok show ?thesis by (simp add: f show_members_skip)
  qed
next
  case 3
  then show ?case by (cases fuel) (simp_all add: starts_with_def)
next
  case (4 b)
  then show ?case by (cases fuel) (simp_all add: starts_with_def)
next
  case (5 i)
  then show ?case by (cases fuel) (simp_all add: parse_value_int del: parse_value.simps(2))
next
  case (6 r)
  then show ?case by simp
next
  case (7 s)
  then show ?case by (cases fuel) (simp_all add: parse_value_str del: parse_value.simps(2))
next
  case 8
  then show ?case by simp
next
  case (9 k v kvs)
  then obtain f where f: "fuel = Suc f" by (cases fuel) auto
  have "ok k" using "9.prems" by simp
  then obtain t where t: "q k = CHR 0x22 # t"
    and p: "\<And>rest. parse_chars (Suc (length (t @ rest))) (t @ rest) = Some (k, rest)"
    by (rule quote_head) blast
  show ?case
  proof (cases kvs)
    case Nil
    with 9 show ?thesis
      using p [of "CHR '':'' # g @ show_json q g v @ CHR ''}'' # rest"]
      by (simp add: f t gap json_space_stop skip_ws_show)
  next
    case (Cons kv ws)
    have ws: "wf_members ok (kv # ws)" using "9.prems" Cons by simp
    have pm: "parse_members hook f (show_members q g (kv # ws) @ CHR ''}'' # rest) = Inr (kv # ws, rest)"
      using "9.IH"(2) [of f rest] "9.prems" by (simp add: f Cons)
    have pv: "parse_value hook f (show_json q g v @ CHR '','' # r) = Inr (v, CHR '','' # r)" for r
      using "9.IH"(1) [of "CHR '','' # r" f] "9.prems" by (simp add: f)
    show ?thesis
      using p [of "CHR '':'' # g @ show_json q g v @ CHR '','' # g @ show_members q g (kv # ws) @ CHR ''}'' # rest"]
        "9.prems" pm pv show_members_skip [OF ws] ws
      by (simp add: f t Cons gap json_space_stop skip_ws_show del: show_members.simps(3))
         (simp add: f t Cons gap json_space_stop skip_ws_show)
  qed
next
  case 10
  then show ?case by simp
next
  case (11 v vs)
  then obtain f where f: "fuel = Suc f" by (cases fuel) auto
  show ?case
  proof (cases vs)
    case Nil
    with 11 show ?thesis by (simp add: f json_space_stop)
  next
    case (Cons w ws)
    have "wf_list ok (w # ws)" using "11.prems" Cons by simp
    with 11 Cons show ?thesis by (simp add: f gap json_space_stop show_list_head)
  qed
qed

lemma loads_with_show:
  assumes "hook_keeps hook" and "wf_with ok v"
  shows "loads_with hook (show_json q g v) = Inr v"
proof -
  have sw: "skip_ws (show_json q g v) = show_json q g v"
    using skip_ws_show [OF assms(2), of "[]"] by simp
  have "need v \<le> Suc (length (show_json q g v))"
    using need_le_length(1) [OF assms(2)] by simp
  then have "parse_value hook (Suc (length (show_json q g v))) (show_json q g v @ []) = Inr (v, [])"
    using assms by (intro parse_show(1)) simp_all
  then show ?thesis by (simp add: loads_with_def sw json_space_stop del: parse_value.simps)
qed

lemma loads_show: "wf_with ok v \<Longrightarrow> loads (show_json q g v) = Some v"
  unfolding loads_def
  by (subst loads_with_show) (simp_all add: hook_keeps_def dict_of_pairs_distinct)

end

interpretation compact: json_printer quote_json "[]" "\<lambda>_. True"
proof unfold_locales
  fix s :: string
  let ?t = "concat (map escape_char s) @ [CHR 0x22]"
  have "parse_chars (Suc (length (?t @ rest))) (?t @ rest) = Some (s, rest)" for rest
    using parse_escaped [of s "Suc (length (?t @ rest))" rest] length_escaped [of s] by simp
  then show "\<exists>t. quote_json s = CHR 0x22 # t \<and> t \<noteq> [] \<and>
      (\<forall>rest. parse_chars (Suc (length (t @ rest))) (t @ rest) = Some (s, rest))"
    by (intro exI [of _ ?t]) (simp add: quote_json_def)
qed simp

text \<open>ASCII text is escaped the same way by both printers.\<close>

definition ascii :: "string \<Rightarrow> bool" where
  "ascii s \<longleftrightarrow> (\<forall>c \<in> set s. byte c < 128)"

lemma quote_ascii_eq: "ascii s \<Longrightarrow> quote_ascii s = quote_json s"
proof -
  have "concat (map ascii_char (code_points s)) = concat (map escape_char s)" if "ascii s" for s
    using that by (induction s) (simp_all add: ascii_def ascii_char_def)
  then show "ascii s \<Longrightarrow> quote_ascii s = quote_json s" by (simp add: quote_ascii_def quote_json_def)
qed

interpretation plain: json_printer quote_ascii "'' ''" ascii
proof unfold_locales
  fix s :: string assume "ascii s"
  then show "\<exists>t. quote_ascii s = CHR 0x22 # t \<and> t \<noteq> [] \<and>
      (\<forall>rest. parse_chars (Suc (length (t @ rest))) (t @ rest) = Some (s, rest))"
    using compact.quoted [of s] by (simp add: quote_ascii_eq)
qed (simp add: skip_ws_def json_space_def)

lemma loads_dumps: "wf_json v \<Longrightarrow> loads (dumps v) = Some (canon v)"
  unfolding dumps_def by (rule compact.loads_show) (rule wf_canon)

lemma loads_dumps_plain: "wf_with ascii v \<Longrightarrow> loads (dumps_plain v) = Some v"
  unfolding dumps_plain_def by (rule plain.loads_show)

lemma map_of_sort_key:
  assumes "distinct (map fst kvs)"
  shows "map_of (sort_key fst kvs) = map_of kvs"
proof -
  have "mset (sort_key fst kvs) = mset kvs" by simp
  moreover from this have "distinct (map fst (sort_key fst kvs))"
    using assms by (metis mset_eq_imp_distinct_iff mset_map)
  ultimately show ?thesis
    using assms by (metis map_of_inject_set mset_eq_setD)
qed

lemma map_of_canon_members: "map_of (canon_members kvs) k = map_option canon (map_of kvs k)"
  by (induction kvs) auto

lemma member_of_canon:
  "wf_json v \<Longrightarrow> member_of (canon v) k = map_option canon (member_of v k)"
  by (cases v) (simp_all add: map_of_sort_key map_of_canon_members)

lemma dumps_inject:
  assumes "wf_json v" and "wf_json w"
  shows "dumps v = dumps w \<longleftrightarrow> canon v = canon w"
  using loads_dumps [OF assms(1)] loads_dumps [OF assms(2)] by (metis dumps_def option.inject)

end
