(* ===== verification/Schema.thy ===== *)
theory Schema
  imports Json
begin

text \<open>
  The tables of the panel's SQLite database (\<open>app/migrations.py\<close> after the last migration) and
  the exceptions its transactions raise.  Every table is the list of its rows in rowid order.
  A column declared \<open>TEXT\<close> that only ever holds the members of a fixed set is a datatype with
  those members; a time stamp the code writes with \<open>isoformat(timespec="seconds")\<close> is the whole
  number of seconds it denotes; a column without \<open>NOT NULL\<close> is an \<open>option\<close>.
  The \<open>_seq\<close> fields are SQLite's \<open>AUTOINCREMENT\<close> counters, which survive the deletion of rows.
\<close>

type_synonym ts = int

section \<open>Columns with a fixed set of values\<close>

datatype op_status = Pending | Running | Done | Failed | TimedOut | Ambiguous

datatype owner_type = Install | IpChange | Server

datatype lease_owner = LeaseOwner (owner_type: owner_type) (owner_id: int)

datatype snapshot_lifecycle = SnapPrepared | SnapApplied | SnapFailed

text \<open>\<open>purchase_state\<close>, \<open>make_main_state\<close> and \<open>apply_state\<close> of an IP change.\<close>

datatype phase_state =
    NotStarted | PhSending | PhSent | PhConfirmed | PhRunning | PhApplied | PhFailed
  | PhRejected | PhAmbiguous

datatype ip_action =
    IpNotStarted | PurchaseSending | PurchaseSent | PurchaseConfirmed | MakeMainSending
  | MainChanged | MainConfirmed | Applying | ApplyFailed | Applied | RollingBack | RolledBack
  | Published | CleanupQueued | CleanupSending | CleanupConfirmed | CleanupAmbiguous
  | AwaitingAwgCheck | AwaitingUserReview | WaitingSsh | SshWaitQueued | SshUnreachable
  | CleanupRunning | CleanupRejected
  | RetryRequested | Cancelled | Reconciled | IpDone | IpFailed | IpAmbiguous

datatype server_kind = StatusKind | RebootKind

datatype server_action = SrvNotStarted | SrvSending | SrvSent | SrvAmbiguous

datatype apply_outcome = OutApplied | OutDegraded | OutFailed

text \<open>\<open>TERMINAL_STATUSES\<close> of \<open>operation_coordinator.py\<close>.\<close>

definition terminal :: "op_status \<Rightarrow> bool" where
  "terminal s \<longleftrightarrow> s \<in> {Done, Failed, TimedOut, Ambiguous}"

definition active :: "op_status \<Rightarrow> bool" where
  "active s \<longleftrightarrow> s \<in> {Pending, Running}"

lemma active_iff_not_terminal: "active s \<longleftrightarrow> \<not> terminal s"
  by (cases s) (simp_all add: active_def terminal_def)

lemma active_simps [simp]:
  "active Pending" "active Running" "\<not> active Done" "\<not> active Failed" "\<not> active TimedOut"
  "\<not> active Ambiguous" "\<not> terminal Pending" "\<not> terminal Running" "terminal Done"
  "terminal Failed" "terminal TimedOut" "terminal Ambiguous"
  by (simp_all add: active_def terminal_def)

section \<open>Rows\<close>

record client_row =
  cl_id :: int
  cl_name :: string
  cl_token :: string
  cl_enabled :: bool
  cl_vless_uuid :: string
  cl_hysteria_password :: string
  cl_created_at :: ts
  cl_awg_private :: "string option"
  cl_awg_public :: "string option"
  cl_awg_preshared :: "string option"
  cl_awg_ipv4 :: "string option"
  cl_deleted_at :: "ts option"
  cl_deleted_revision :: "int option"

record stats_row =
  st_client_id :: int
  st_vless_uplink :: int
  st_vless_downlink :: int
  st_amnezia_rx :: int
  st_amnezia_tx :: int
  st_amnezia_latest_handshake :: int
  st_last_seen_at :: "string option"
  st_updated_at :: ts
  st_raw :: "string option"

record state_row =
  desired_revision :: int
  applied_revision :: "int option"
  desired_updated_at :: "ts option"
  applied_updated_at :: "ts option"

record snapshot_row =
  sn_revision :: int
  sn_payload_json :: string
  sn_payload_sha256 :: string
  sn_lifecycle :: snapshot_lifecycle
  sn_prepared_at :: ts
  sn_applied_at :: "ts option"
  sn_failed_at :: "ts option"
  sn_error_message :: "string option"

record install_row =
  in_id :: int
  in_status :: op_status
  in_target_host :: "string option"
  in_current_step :: string
  in_output :: "string option"
  in_error_message :: "string option"
  in_created_at :: ts
  in_updated_at :: ts
  in_revision :: "int option"

record ip_row =
  ip_id :: int
  ip_status :: op_status
  ip_old_ip :: "string option"
  ip_new_ip :: "string option"
  ip_old_ip_id :: "string option"
  ip_new_ip_id :: "string option"
  ip_current_step :: string
  ip_error_message :: "string option"
  ip_created_at :: ts
  ip_updated_at :: ts
  ip_server_reachable_at :: "ts option"
  ip_healthcheck_result :: "string option"
  ip_revision :: "int option"
  ip_published_revision :: "int option"
  ip_action_state :: ip_action
  ip_purchase_state :: phase_state
  ip_make_main_state :: phase_state
  ip_apply_state :: phase_state
  ip_cleanup_warning :: "string option"
  ip_rollback_outcome :: "string option"
  ip_new_ip_created_at :: "ts option"
  ip_new_main_at :: "ts option"
  ip_apply_completed_at :: "ts option"
  ip_published_at :: "ts option"
  ip_reconciled_at :: "ts option"
  ip_reconciliation_note :: "string option"

record server_row =
  sv_id :: int
  sv_kind :: server_kind
  sv_status :: op_status
  sv_current_step :: string
  sv_action_state :: server_action
  sv_provider_status :: "string option"
  sv_provider_ip :: "string option"
  sv_ssh_status :: "string option"
  sv_services_json :: "string option"
  sv_protocol_health_json :: "string option"
  sv_result_message :: "string option"
  sv_warning_message :: "string option"
  sv_error_message :: "string option"
  sv_created_at :: ts
  sv_updated_at :: ts
  sv_started_at :: "ts option"
  sv_completed_at :: "ts option"

record lease_row =
  le_resource :: string
  le_owner :: lease_owner \<comment> \<open>the columns \<open>owner_type\<close> and \<open>owner_id\<close>\<close>
  le_acquired_at :: ts
  le_heartbeat_at :: ts
  le_expires_at :: ts

record router_row =
  ro_router_id :: string
  ro_client_id :: int
  ro_label :: string
  ro_enabled :: bool
  ro_created_at :: ts
  ro_updated_at :: ts
  ro_last_seen_at :: "ts option"

text \<open>
  \<open>expires_at\<close> is free text; what the code asks of it is what \<open>datetime.fromisoformat\<close> makes of
  it: nothing, a time without an offset, or an instant (in microseconds).
\<close>

datatype iso_text = IsoInvalid | IsoNaive int | IsoAware int

record credential_row =
  cr_credential_id :: string
  cr_router_id :: string
  cr_client_id :: int
  cr_label :: string
  cr_secret_digest :: string
  cr_scopes :: string
  cr_enabled :: bool
  cr_created_at :: ts
  cr_updated_at :: ts
  cr_last_used_at :: "ts option"
  cr_expires_at :: "iso_text option"
  cr_revoked_at :: "ts option"

record apply_row =
  ap_id :: int
  ap_credential_id :: string
  ap_idempotency_key :: string
  ap_body_sha256 :: string
  ap_revision :: int
  ap_snapshot_sha256 :: string
  ap_snapshot_etag :: string
  ap_outcome :: apply_outcome
  ap_active_profile :: "string option"
  ap_capabilities_json :: string
  ap_diagnostics_json :: string
  ap_created_at :: ts
  ap_updated_at :: ts

record peer_row =
  pe_router_id :: string
  pe_private_key :: string
  pe_public_key :: string
  pe_preshared_key :: string
  pe_ipv4 :: string

record db =
  settings :: "(string \<times> string) list"
  clients :: "client_row list"
  client_seq :: int
  client_stats :: "stats_row list"
  vpn_state :: state_row
  snapshots :: "snapshot_row list"
  install_ops :: "install_row list"
  install_seq :: int
  ip_ops :: "ip_row list"
  ip_seq :: int
  server_ops :: "server_row list"
  server_seq :: int
  leases :: "lease_row list"
  routers :: "router_row list"
  credentials :: "credential_row list"
  apply_results :: "apply_row list"
  apply_seq :: int
  peers :: "peer_row list"

section \<open>Exceptions and transactions\<close>

datatype exn =
    OperationBusyError lease_owner
  | IpChangeSafetyHoldError string
  | IpChangeError string
  | RuntimeError string
  | ValueError string
  | LookupError string
  | KeyError string
  | TypeError string
  | OverflowError string
  | IntegrityError string
  | RouterCredentialError string
  | RouterApplyValidationError string
  | RouterApplyConflictError string "int option"
  | SprintboxApiError string string \<comment> \<open>code, description\<close>
  | SprintboxTaskIdMissing string
  | EuInstallError string
  | EuInstallStateUncertainError string
  | OSError string
  | TimeoutError
  | TaskTimeout string \<comment> \<open>a \<open>TimeoutError\<close> raised with a text\<close>
  | CancelledError \<comment> \<open>a \<open>BaseException\<close>: no \<open>except Exception\<close> catches it\<close>

text \<open>
  One \<open>with get_db() as db\<close> block (\<open>db.py\<close>): the commit makes the new database the state, an
  exception rolls it back, so the failing result carries no database.
\<close>

type_synonym 'a tx = "db \<Rightarrow> exn + ('a \<times> db)"

definition after_tx :: "'a tx \<Rightarrow> db \<Rightarrow> db" where
  "after_tx t d = (case t d of Inl _ \<Rightarrow> d | Inr (_, d') \<Rightarrow> d')"

lemma after_tx_simps [simp]:
  "t d = Inl e \<Longrightarrow> after_tx t d = d" "t d = Inr (x, d') \<Longrightarrow> after_tx t d = d'"
  by (simp_all add: after_tx_def)

section \<open>Row identity\<close>

definition clients_ok :: "db \<Rightarrow> bool" where
  "clients_ok d \<longleftrightarrow>
     distinct (map cl_id (clients d)) \<and> distinct (map cl_token (clients d)) \<and>
     (\<forall>r \<in> set (clients d). cl_id r \<le> client_seq d)"

definition ops_ok :: "db \<Rightarrow> bool" where
  "ops_ok d \<longleftrightarrow>
     distinct (map in_id (install_ops d)) \<and> (\<forall>r \<in> set (install_ops d). in_id r \<le> install_seq d) \<and>
     distinct (map ip_id (ip_ops d)) \<and> (\<forall>r \<in> set (ip_ops d). ip_id r \<le> ip_seq d) \<and>
     distinct (map sv_id (server_ops d)) \<and> (\<forall>r \<in> set (server_ops d). sv_id r \<le> server_seq d)"

definition snapshots_ok :: "db \<Rightarrow> bool" where
  "snapshots_ok d \<longleftrightarrow> distinct (map sn_revision (snapshots d))"

section \<open>Deleting with \<open>ON DELETE CASCADE\<close>\<close>

text \<open>
  The foreign keys: statistics, routers and credentials hang off a client, credentials and peers
  off a router, apply results off a credential.
\<close>

definition drop_credentials :: "(credential_row \<Rightarrow> bool) \<Rightarrow> db \<Rightarrow> db" where
  "drop_credentials p d =
     (let gone = map cr_credential_id (filter p (credentials d)) in
      d\<lparr>credentials := delete_where p (credentials d),
        apply_results := delete_where (\<lambda>a. ap_credential_id a \<in> set gone) (apply_results d)\<rparr>)"

definition drop_routers :: "(router_row \<Rightarrow> bool) \<Rightarrow> db \<Rightarrow> db" where
  "drop_routers p d =
     (let gone = map ro_router_id (filter p (routers d));
          d1 = drop_credentials (\<lambda>c. cr_router_id c \<in> set gone) d in
      d1\<lparr>routers := delete_where p (routers d1),
         peers := delete_where (\<lambda>q. pe_router_id q \<in> set gone) (peers d1)\<rparr>)"

definition drop_clients :: "(client_row \<Rightarrow> bool) \<Rightarrow> db \<Rightarrow> db" where
  "drop_clients p d =
     (let gone = map cl_id (filter p (clients d));
          d1 = drop_credentials (\<lambda>c. cr_client_id c \<in> set gone)
                 (drop_routers (\<lambda>r. ro_client_id r \<in> set gone) d) in
      d1\<lparr>clients := delete_where p (clients d1),
         client_stats := delete_where (\<lambda>s. st_client_id s \<in> set gone) (client_stats d1)\<rparr>)"

lemma drop_credentials_frame [frame_simps]:
  "settings (drop_credentials p d) = settings d" "clients (drop_credentials p d) = clients d"
  "client_seq (drop_credentials p d) = client_seq d"
  "client_stats (drop_credentials p d) = client_stats d"
  "vpn_state (drop_credentials p d) = vpn_state d" "snapshots (drop_credentials p d) = snapshots d"
  "install_ops (drop_credentials p d) = install_ops d" "ip_ops (drop_credentials p d) = ip_ops d"
  "server_ops (drop_credentials p d) = server_ops d" "leases (drop_credentials p d) = leases d"
  "install_seq (drop_credentials p d) = install_seq d" "ip_seq (drop_credentials p d) = ip_seq d"
  "server_seq (drop_credentials p d) = server_seq d" "routers (drop_credentials p d) = routers d"
  "peers (drop_credentials p d) = peers d" "apply_seq (drop_credentials p d) = apply_seq d"
  by (simp_all add: drop_credentials_def)

lemma drop_routers_frame [frame_simps]:
  "settings (drop_routers p d) = settings d" "clients (drop_routers p d) = clients d"
  "client_seq (drop_routers p d) = client_seq d" "client_stats (drop_routers p d) = client_stats d"
  "vpn_state (drop_routers p d) = vpn_state d" "snapshots (drop_routers p d) = snapshots d"
  "install_ops (drop_routers p d) = install_ops d" "ip_ops (drop_routers p d) = ip_ops d"
  "server_ops (drop_routers p d) = server_ops d" "leases (drop_routers p d) = leases d"
  "install_seq (drop_routers p d) = install_seq d" "ip_seq (drop_routers p d) = ip_seq d"
  "server_seq (drop_routers p d) = server_seq d" "apply_seq (drop_routers p d) = apply_seq d"
  by (simp_all add: drop_routers_def Let_def frame_simps)

lemma drop_clients_frame [frame_simps]:
  "settings (drop_clients p d) = settings d" "client_seq (drop_clients p d) = client_seq d"
  "vpn_state (drop_clients p d) = vpn_state d" "snapshots (drop_clients p d) = snapshots d"
  "install_ops (drop_clients p d) = install_ops d" "ip_ops (drop_clients p d) = ip_ops d"
  "server_ops (drop_clients p d) = server_ops d" "leases (drop_clients p d) = leases d"
  "install_seq (drop_clients p d) = install_seq d" "ip_seq (drop_clients p d) = ip_seq d"
  "server_seq (drop_clients p d) = server_seq d" "apply_seq (drop_clients p d) = apply_seq d"
  "clients (drop_clients p d) = delete_where p (clients d)"
  by (simp_all add: drop_clients_def Let_def frame_simps)

text \<open>What the foreign keys promise, and that the cascades keep it.\<close>

definition hangs :: "('r \<Rightarrow> 'k) \<Rightarrow> 'r list \<Rightarrow> ('s \<Rightarrow> 'k) \<Rightarrow> 's list \<Rightarrow> bool" where
  "hangs key rows fk refs \<longleftrightarrow> (\<forall>y \<in> set refs. fk y \<in> key ` set rows)"

lemma hangs_fewer: "hangs key rows fk refs \<Longrightarrow> hangs key rows fk (delete_where q refs)"
  by (simp add: hangs_def)

lemma hangs_drop:
  assumes "hangs key rows fk refs" and "\<And>y. y \<in> set refs \<Longrightarrow> fk y \<notin> set (map key (filter q rows))"
  shows "hangs key (delete_where q rows) fk refs"
proof -
  have "fk y \<in> key ` set (delete_where q rows)" if "y \<in> set refs" for y
  proof -
    obtain x where "x \<in> set rows" "fk y = key x" using assms(1) \<open>y \<in> set refs\<close> by (auto simp: hangs_def)
    with assms(2) [OF that] show ?thesis by (intro image_eqI [of _ _ x]) auto
  qed
  then show ?thesis by (simp add: hangs_def)
qed

lemma hangs_cascade:
  "hangs key rows fk refs \<Longrightarrow>
     hangs key (delete_where q rows) fk (delete_where (\<lambda>y. fk y \<in> set (map key (filter q rows))) refs)"
  by (intro hangs_drop hangs_fewer) simp_all

definition refs_ok :: "db \<Rightarrow> bool" where
  "refs_ok d \<longleftrightarrow>
     hangs cl_id (clients d) st_client_id (client_stats d) \<and>
     hangs cl_id (clients d) ro_client_id (routers d) \<and>
     hangs ro_router_id (routers d) cr_router_id (credentials d) \<and>
     hangs cl_id (clients d) cr_client_id (credentials d) \<and>
     hangs ro_router_id (routers d) pe_router_id (peers d) \<and>
     hangs cr_credential_id (credentials d) ap_credential_id (apply_results d)"

lemma drop_credentials_tables:
  "credentials (drop_credentials p d) = delete_where p (credentials d)"
  "apply_results (drop_credentials p d) = delete_where
     (\<lambda>a. ap_credential_id a \<in> set (map cr_credential_id (filter p (credentials d)))) (apply_results d)"
  by (simp_all add: drop_credentials_def Let_def)

lemma drop_routers_tables:
  "routers (drop_routers p d) = delete_where p (routers d)"
  "peers (drop_routers p d) = delete_where
     (\<lambda>q. pe_router_id q \<in> set (map ro_router_id (filter p (routers d)))) (peers d)"
  "credentials (drop_routers p d) = delete_where
     (\<lambda>c. cr_router_id c \<in> set (map ro_router_id (filter p (routers d)))) (credentials d)"
  "apply_results (drop_routers p d) = apply_results (drop_credentials
     (\<lambda>c. cr_router_id c \<in> set (map ro_router_id (filter p (routers d)))) d)"
  by (simp_all add: drop_routers_def drop_credentials_tables frame_simps Let_def)

lemma drop_credentials_refs: "refs_ok d \<Longrightarrow> refs_ok (drop_credentials p d)"
  unfolding refs_ok_def drop_credentials_tables frame_simps
  by (intro conjI hangs_cascade hangs_fewer) simp_all

lemma drop_routers_refs:
  assumes "refs_ok d"
  shows "refs_ok (drop_routers p d)"
proof -
  let ?gone = "set (map ro_router_id (filter p (routers d)))"
  let ?d1 = "drop_credentials (\<lambda>c. cr_router_id c \<in> ?gone) d"
  have 1: "refs_ok ?d1" using assms by (rule drop_credentials_refs)
  have d: "drop_routers p d = ?d1\<lparr>routers := delete_where p (routers d),
      peers := delete_where (\<lambda>q. pe_router_id q \<in> ?gone) (peers d)\<rparr>"
    by (simp add: drop_routers_def Let_def frame_simps)
  have c: "cr_router_id c \<notin> ?gone" if "c \<in> set (credentials ?d1)" for c
    using that by (simp add: drop_credentials_tables)
  have ro: "routers ?d1 = routers d" "peers ?d1 = peers d" by (simp_all add: frame_simps)
  note R = 1 [unfolded refs_ok_def ro]
  have "hangs ro_router_id (delete_where p (routers d)) cr_router_id (credentials ?d1)"
    using R c by (intro hangs_drop) simp_all
  moreover have "hangs cl_id (clients ?d1) ro_client_id (delete_where p (routers d))"
    using R by (intro hangs_fewer) simp
  moreover have "hangs ro_router_id (delete_where p (routers d)) pe_router_id
      (delete_where (\<lambda>q. pe_router_id q \<in> ?gone) (peers d))"
    using R by (intro hangs_cascade) simp
  ultimately show ?thesis using R by (simp add: refs_ok_def d del: set_map)
qed

lemma drop_clients_refs:
  assumes "refs_ok d"
  shows "refs_ok (drop_clients p d)"
proof -
  let ?gone = "set (map cl_id (filter p (clients d)))"
  let ?d1 = "drop_routers (\<lambda>r. ro_client_id r \<in> ?gone) d"
  let ?d2 = "drop_credentials (\<lambda>c. cr_client_id c \<in> ?gone) ?d1"
  have 2: "refs_ok ?d2" using assms by (intro drop_credentials_refs drop_routers_refs)
  have d: "drop_clients p d = ?d2\<lparr>clients := delete_where p (clients d),
      client_stats := delete_where (\<lambda>s. st_client_id s \<in> ?gone) (client_stats d)\<rparr>"
    by (simp add: drop_clients_def Let_def frame_simps)
  have c: "cr_client_id c \<notin> ?gone" if "c \<in> set (credentials ?d2)" for c
    using that by (simp add: drop_credentials_tables)
  have r: "ro_client_id r \<notin> ?gone" if "r \<in> set (routers ?d2)" for r
    using that by (simp add: drop_routers_tables frame_simps)
  have cl: "clients ?d2 = clients d" "client_stats ?d2 = client_stats d" by (simp_all add: frame_simps)
  note R = 2 [unfolded refs_ok_def cl]
  have "hangs cl_id (delete_where p (clients d)) ro_client_id (routers ?d2)"
    using R r by (intro hangs_drop) simp_all
  moreover have "hangs cl_id (delete_where p (clients d)) cr_client_id (credentials ?d2)"
    using R c by (intro hangs_drop) simp_all
  moreover have "hangs cl_id (delete_where p (clients d)) st_client_id
      (delete_where (\<lambda>s. st_client_id s \<in> ?gone) (client_stats d))"
    using R by (intro hangs_cascade) simp
  ultimately show ?thesis using R by (simp add: refs_ok_def d del: set_map)
qed

definition empty_db :: db where
  "empty_db = \<lparr>settings = [], clients = [], client_seq = 0, client_stats = [],
     vpn_state = \<lparr>desired_revision = 0, applied_revision = None, desired_updated_at = None,
                  applied_updated_at = None\<rparr>,
     snapshots = [], install_ops = [], install_seq = 0, ip_ops = [], ip_seq = 0,
     server_ops = [], server_seq = 0, leases = [], routers = [], credentials = [],
     apply_results = [], apply_seq = 0, peers = []\<rparr>"

end
