(* ===== verification/Coordinator.thy ===== *)
theory Coordinator
  imports Schema
begin

text \<open>
  \<open>app/operation_coordinator.py\<close>: the lease that gives one operation at a time the exclusive use
  of the VPN server, the failing of an owner that lost it, and the recovery at start-up.  Clock
  readings are arguments, in microseconds; what is stored is whole seconds.  The interface
  \<open>lease_manager\<close> states what the callers rely on and is interpreted here on the model.
\<close>

section \<open>Time\<close>

definition micros :: "ts \<Rightarrow> int" where
  "micros t = t * 1000000"

definition iso :: "int \<Rightarrow> ts" where
  "iso now = now div 1000000"

lemma iso_micros [simp]: "iso (micros t) = t"
  by (simp add: iso_def micros_def)

lemma micros_iso_le: "micros (iso now) \<le> now"
  by (simp add: micros_def iso_def)

lemma less_micros_iso_Suc: "now < micros (iso now + 1)"
  by (simp add: micros_def iso_def)

section \<open>The lease table\<close>

definition vpn_vps :: string where
  "vpn_vps = ''vpn_vps''"

definition default_lease_seconds :: int where
  "default_lease_seconds = 60 * 60"

definition bounded_reason :: "string \<Rightarrow> string" where
  "bounded_reason reason =
     (let r = py_take 1000 (py_strip reason) in
      if r = [] then ''Interrupted operation recovered'' else r)"

definition release_vps_lease :: "lease_owner \<Rightarrow> db \<Rightarrow> bool \<times> db" where
  "release_vps_lease owner d =
     (let mine = (\<lambda>l. le_resource l = vpn_vps \<and> le_owner l = owner) in
      (row_count mine (leases d) = 1, d\<lparr>leases := delete_where mine (leases d)\<rparr>))"

definition heartbeat_vps_lease :: "int \<Rightarrow> lease_owner \<Rightarrow> int \<Rightarrow> db \<Rightarrow> bool \<times> db" where
  "heartbeat_vps_lease now owner lease_seconds d =
     (let mine = (\<lambda>l. le_resource l = vpn_vps \<and> le_owner l = owner) in
      (row_count mine (leases d) = 1,
       d\<lparr>leases := update_where mine
           (\<lambda>l. l\<lparr>le_heartbeat_at := iso now,
                  le_expires_at := iso (now + micros (max 1 lease_seconds))\<rparr>) (leases d)\<rparr>))"

section \<open>Failing the owner of a lost lease\<close>

definition fail_install :: "int \<Rightarrow> string \<Rightarrow> ts \<Rightarrow> db \<Rightarrow> db" where
  "fail_install oid reason timestamp d =
     (let d1 = (case select_first (\<lambda>r. in_id r = oid) (install_ops d) of
          None \<Rightarrow> d
        | Some r \<Rightarrow> (case in_revision r of
              None \<Rightarrow> d
            | Some revn \<Rightarrow>
                d\<lparr>snapshots := update_where
                    (\<lambda>s. sn_revision s = revn \<and> sn_lifecycle s = SnapPrepared)
                    (\<lambda>s. s\<lparr>sn_lifecycle := SnapFailed, sn_failed_at := Some timestamp,
                           sn_error_message := Some reason\<rparr>) (snapshots d)\<rparr>))
      in d1\<lparr>install_ops := update_where (\<lambda>r. in_id r = oid \<and> active (in_status r))
             (\<lambda>r. r\<lparr>in_status := Failed, in_current_step := ''interrupted'',
                    in_error_message := Some reason, in_updated_at := timestamp\<rparr>)
             (install_ops d1)\<rparr>)"

text \<open>\<open>and operation["new_ip_id"] and operation["new_ip"]\<close>: neither \<open>NULL\<close> nor empty.\<close>

definition filled :: "string option \<Rightarrow> bool" where
  "filled s \<longleftrightarrow> s \<noteq> None \<and> s \<noteq> Some []"

definition waits_for_ssh :: "ip_row \<Rightarrow> bool" where
  "waits_for_ssh r \<longleftrightarrow>
     ip_action_state r \<in> {WaitingSsh, SshWaitQueued} \<and> ip_purchase_state r = PhConfirmed \<and>
     ip_make_main_state r = NotStarted \<and> ip_apply_state r = NotStarted \<and>
     filled (ip_new_ip_id r) \<and> filled (ip_new_ip r)"

definition external_action_started :: "ip_row \<Rightarrow> bool" where
  "external_action_started r \<longleftrightarrow>
     ip_purchase_state r \<noteq> NotStarted \<or> ip_make_main_state r \<noteq> NotStarted \<or>
     ip_apply_state r \<noteq> NotStarted"

definition fail_ip_change :: "int \<Rightarrow> string \<Rightarrow> ts \<Rightarrow> db \<Rightarrow> db" where
  "fail_ip_change oid reason timestamp d =
     (let row = select_first (\<lambda>r. ip_id r = oid) (ip_ops d);
          mine = (\<lambda>r. ip_id r = oid \<and> active (ip_status r));
          waiting = (case row of None \<Rightarrow> False | Some r \<Rightarrow> waits_for_ssh r);
          started = (case row of None \<Rightarrow> False | Some r \<Rightarrow> external_action_started r)
      in if waiting then
           d\<lparr>ip_ops := update_where mine
               (\<lambda>r. r\<lparr>ip_status := Done, ip_action_state := SshUnreachable,
                      ip_current_step := ''ssh_decision'', ip_error_message := Some [],
                      ip_updated_at := timestamp\<rparr>) (ip_ops d)\<rparr>
         else
           d\<lparr>ip_ops := update_where mine
               (\<lambda>r. r\<lparr>ip_status := (if started then Ambiguous else Failed),
                      ip_current_step := ''interrupted'',
                      ip_action_state := (if started then IpAmbiguous else IpNotStarted),
                      ip_error_message := Some reason, ip_updated_at := timestamp\<rparr>) (ip_ops d)\<rparr>)"

definition may_have_sent_reboot :: "server_row \<Rightarrow> bool" where
  "may_have_sent_reboot r \<longleftrightarrow>
     sv_kind r = RebootKind \<and> sv_action_state r \<in> {SrvSending, SrvSent, SrvAmbiguous}"

definition fail_server :: "int \<Rightarrow> string \<Rightarrow> ts \<Rightarrow> db \<Rightarrow> db" where
  "fail_server oid reason timestamp d =
     (case select_first (\<lambda>r. sv_id r = oid) (server_ops d) of
        None \<Rightarrow> d
      | Some op \<Rightarrow>
          (let sent = may_have_sent_reboot op in
           d\<lparr>server_ops := update_where (\<lambda>r. sv_id r = oid \<and> active (sv_status r))
               (\<lambda>r. r\<lparr>sv_status := (if sent then Ambiguous else Failed),
                      sv_action_state := (if sent then SrvAmbiguous else sv_action_state op),
                      sv_current_step := ''interrupted'', sv_error_message := Some reason,
                      sv_updated_at := timestamp, sv_completed_at := Some timestamp\<rparr>)
               (server_ops d)\<rparr>))"

fun fail_owner :: "lease_owner \<Rightarrow> string \<Rightarrow> ts \<Rightarrow> db \<Rightarrow> db" where
  "fail_owner (LeaseOwner Install oid) reason timestamp d = fail_install oid reason timestamp d"
| "fail_owner (LeaseOwner IpChange oid) reason timestamp d = fail_ip_change oid reason timestamp d"
| "fail_owner (LeaseOwner Server oid) reason timestamp d = fail_server oid reason timestamp d"

section \<open>Acquire and recover\<close>

definition insert_lease :: "lease_row \<Rightarrow> db \<Rightarrow> exn + db" where
  "insert_lease l d =
     (if le_resource l \<in> le_resource ` set (leases d) then Inl (IntegrityError ''operation_leases'')
      else Inr (d\<lparr>leases := leases d @ [l]\<rparr>))"

definition acquire_vps_lease :: "int \<Rightarrow> lease_owner \<Rightarrow> int \<Rightarrow> db \<Rightarrow> exn + db" where
  "acquire_vps_lease now owner lease_seconds d =
     (let fresh = \<lparr>le_resource = vpn_vps, le_owner = owner, le_acquired_at = iso now,
                   le_heartbeat_at = iso now,
                   le_expires_at = iso (now + micros (max 1 lease_seconds))\<rparr>
      in case select_first (\<lambda>l. le_resource l = vpn_vps) (leases d) of
           None \<Rightarrow> insert_lease fresh d
         | Some l \<Rightarrow>
             if now < micros (le_expires_at l) then Inl (OperationBusyError (le_owner l))
             else insert_lease fresh (snd (release_vps_lease (le_owner l)
                    (fail_owner (le_owner l) ''Operation lease expired before completion''
                       (iso now) d))))"

definition recover_incomplete_vps_operations :: "int \<Rightarrow> string \<Rightarrow> db \<Rightarrow> db" where
  "recover_incomplete_vps_operations now reason d =
     (let bounded = bounded_reason reason;
          d1 = fold (\<lambda>r. fail_owner (LeaseOwner Install (in_id r)) bounded (iso now))
                 (filter (\<lambda>r. active (in_status r)) (install_ops d)) d;
          d2 = fold (\<lambda>r. fail_owner (LeaseOwner IpChange (ip_id r)) bounded (iso now))
                 (filter (\<lambda>r. active (ip_status r)) (ip_ops d1)) d1;
          d3 = fold (\<lambda>r. fail_owner (LeaseOwner Server (sv_id r)) bounded (iso now))
                 (filter (\<lambda>r. active (sv_status r)) (server_ops d2)) d2
      in d3\<lparr>leases := delete_where (\<lambda>l. le_resource l = vpn_vps) (leases d3)\<rparr>)"

section \<open>Who holds the lease, who is active\<close>

definition lease_of :: "db \<Rightarrow> lease_row option" where
  "lease_of d = select_first (\<lambda>l. le_resource l = vpn_vps) (leases d)"

definition holder :: "db \<Rightarrow> lease_owner option" where
  "holder d = map_option le_owner (lease_of d)"

definition leases_ok :: "db \<Rightarrow> bool" where
  "leases_ok d \<longleftrightarrow> distinct (map le_resource (leases d))"

fun is_active :: "db \<Rightarrow> lease_owner \<Rightarrow> bool" where
  "is_active d (LeaseOwner Install i) = (\<exists>r \<in> set (install_ops d). in_id r = i \<and> active (in_status r))"
| "is_active d (LeaseOwner IpChange i) = (\<exists>r \<in> set (ip_ops d). ip_id r = i \<and> active (ip_status r))"
| "is_active d (LeaseOwner Server i) = (\<exists>r \<in> set (server_ops d). sv_id r = i \<and> active (sv_status r))"

text \<open>Every operation that is pending or running owns the lease.\<close>

definition exclusive :: "db \<Rightarrow> bool" where
  "exclusive d \<longleftrightarrow> leases_ok d \<and> (\<forall>ow. is_active d ow \<longrightarrow> holder d = Some ow)"

definition expired_at :: "int \<Rightarrow> db \<Rightarrow> bool" where
  "expired_at now d \<longleftrightarrow> (case lease_of d of None \<Rightarrow> True | Some l \<Rightarrow> micros (le_expires_at l) \<le> now)"

section \<open>What each step leaves alone\<close>

lemma fail_install_frame [frame_simps]:
  "settings (fail_install i m t d) = settings d" "clients (fail_install i m t d) = clients d"
  "vpn_state (fail_install i m t d) = vpn_state d" "leases (fail_install i m t d) = leases d"
  "ip_ops (fail_install i m t d) = ip_ops d" "server_ops (fail_install i m t d) = server_ops d"
  "install_seq (fail_install i m t d) = install_seq d" "ip_seq (fail_install i m t d) = ip_seq d"
  "server_seq (fail_install i m t d) = server_seq d" "routers (fail_install i m t d) = routers d"
  "credentials (fail_install i m t d) = credentials d" "peers (fail_install i m t d) = peers d"
  "apply_results (fail_install i m t d) = apply_results d"
  by (simp_all add: fail_install_def Let_def split: option.split)

lemma fail_ip_change_frame [frame_simps]:
  "settings (fail_ip_change i m t d) = settings d" "clients (fail_ip_change i m t d) = clients d"
  "vpn_state (fail_ip_change i m t d) = vpn_state d" "leases (fail_ip_change i m t d) = leases d"
  "install_ops (fail_ip_change i m t d) = install_ops d"
  "server_ops (fail_ip_change i m t d) = server_ops d"
  "snapshots (fail_ip_change i m t d) = snapshots d"
  "install_seq (fail_ip_change i m t d) = install_seq d" "ip_seq (fail_ip_change i m t d) = ip_seq d"
  "server_seq (fail_ip_change i m t d) = server_seq d" "routers (fail_ip_change i m t d) = routers d"
  "credentials (fail_ip_change i m t d) = credentials d" "peers (fail_ip_change i m t d) = peers d"
  "apply_results (fail_ip_change i m t d) = apply_results d"
  by (simp_all add: fail_ip_change_def Let_def)

lemma fail_server_frame [frame_simps]:
  "settings (fail_server i m t d) = settings d" "clients (fail_server i m t d) = clients d"
  "vpn_state (fail_server i m t d) = vpn_state d" "leases (fail_server i m t d) = leases d"
  "install_ops (fail_server i m t d) = install_ops d" "ip_ops (fail_server i m t d) = ip_ops d"
  "snapshots (fail_server i m t d) = snapshots d"
  "install_seq (fail_server i m t d) = install_seq d" "ip_seq (fail_server i m t d) = ip_seq d"
  "server_seq (fail_server i m t d) = server_seq d" "routers (fail_server i m t d) = routers d"
  "credentials (fail_server i m t d) = credentials d" "peers (fail_server i m t d) = peers d"
  "apply_results (fail_server i m t d) = apply_results d"
  by (simp_all add: fail_server_def Let_def split: option.split)

lemma fail_owner_frame [frame_simps]:
  "settings (fail_owner ow m t d) = settings d" "clients (fail_owner ow m t d) = clients d"
  "vpn_state (fail_owner ow m t d) = vpn_state d" "leases (fail_owner ow m t d) = leases d"
  "install_seq (fail_owner ow m t d) = install_seq d" "ip_seq (fail_owner ow m t d) = ip_seq d"
  "server_seq (fail_owner ow m t d) = server_seq d" "routers (fail_owner ow m t d) = routers d"
  "credentials (fail_owner ow m t d) = credentials d" "peers (fail_owner ow m t d) = peers d"
  "apply_results (fail_owner ow m t d) = apply_results d"
  by (cases "(ow, m, t, d)" rule: fail_owner.cases; simp add: frame_simps)+

lemma release_frame [frame_simps]:
  "settings (snd (release_vps_lease ow d)) = settings d"
  "clients (snd (release_vps_lease ow d)) = clients d"
  "vpn_state (snd (release_vps_lease ow d)) = vpn_state d"
  "snapshots (snd (release_vps_lease ow d)) = snapshots d"
  "install_ops (snd (release_vps_lease ow d)) = install_ops d"
  "ip_ops (snd (release_vps_lease ow d)) = ip_ops d"
  "server_ops (snd (release_vps_lease ow d)) = server_ops d"
  by (simp_all add: release_vps_lease_def Let_def)

lemma heartbeat_frame [frame_simps]:
  "settings (snd (heartbeat_vps_lease now ow s d)) = settings d"
  "clients (snd (heartbeat_vps_lease now ow s d)) = clients d"
  "vpn_state (snd (heartbeat_vps_lease now ow s d)) = vpn_state d"
  "snapshots (snd (heartbeat_vps_lease now ow s d)) = snapshots d"
  "install_ops (snd (heartbeat_vps_lease now ow s d)) = install_ops d"
  "ip_ops (snd (heartbeat_vps_lease now ow s d)) = ip_ops d"
  "server_ops (snd (heartbeat_vps_lease now ow s d)) = server_ops d"
  by (simp_all add: heartbeat_vps_lease_def Let_def)

section \<open>Failing an owner\<close>

lemma map_ids_fail_owner [frame_simps]:
  "map in_id (install_ops (fail_owner ow m t d)) = map in_id (install_ops d)"
  "map ip_id (ip_ops (fail_owner ow m t d)) = map ip_id (ip_ops d)"
  "map sv_id (server_ops (fail_owner ow m t d)) = map sv_id (server_ops d)"
  "map sn_revision (snapshots (fail_owner ow m t d)) = map sn_revision (snapshots d)"
  by (cases "(ow, m, t, d)" rule: fail_owner.cases;
      simp add: frame_simps fail_install_def fail_ip_change_def fail_server_def Let_def
           split: option.split)+

lemma is_active_fail_owner:
  "is_active (fail_owner ow m t d) ow' \<longleftrightarrow> is_active d ow' \<and> ow' \<noteq> ow"
proof (cases "(ow, m, t, d)" rule: fail_owner.cases)
  case (1 i _ _ _)
  then show ?thesis
    by (cases "(d, ow')" rule: is_active.cases)
       (auto simp: frame_simps fail_install_def set_update_where Let_def split: option.split)
next
  case (2 i _ _ _)
  then show ?thesis
    by (cases "(d, ow')" rule: is_active.cases)
       (auto simp: frame_simps fail_ip_change_def set_update_where Let_def)
next
  case (3 i _ _ _)
  then show ?thesis
    by (cases "(d, ow')" rule: is_active.cases)
       (auto simp: frame_simps fail_server_def set_update_where select_first_None_iff Let_def
             split: option.split)
qed

section \<open>The lease\<close>

text \<open>A database whose lease table has at most one row for the server.\<close>

lemma leases_split:
  assumes "leases_ok d"
  shows "(case lease_of d of
            None \<Rightarrow> \<forall>l \<in> set (leases d). le_resource l \<noteq> vpn_vps
          | Some l \<Rightarrow> l \<in> set (leases d) \<and> le_resource l = vpn_vps \<and>
              (\<forall>k \<in> set (leases d). le_resource k = vpn_vps \<longrightarrow> k = l))"
proof (cases "lease_of d")
  case None
  then show ?thesis using select_first_None_iff [of "\<lambda>l. le_resource l = vpn_vps" "leases d"]
    by (simp add: lease_of_def)
next
  case (Some l)
  then have l: "l \<in> set (leases d)" "le_resource l = vpn_vps"
    by (auto simp: lease_of_def dest: select_first_SomeD)
  then have "k = l" if "k \<in> set (leases d)" "le_resource k = vpn_vps" for k
    using row_key_inj [of le_resource "leases d" k l] assms that l by (simp add: leases_ok_def)
  then show ?thesis using l unfolding Some option.case by blast
qed

lemma leases_ok_release [intro]: "leases_ok d \<Longrightarrow> leases_ok (snd (release_vps_lease ow d))"
  by (simp add: leases_ok_def release_vps_lease_def Let_def)

lemma leases_ok_heartbeat [intro]: "leases_ok d \<Longrightarrow> leases_ok (snd (heartbeat_vps_lease now ow s d))"
  by (simp add: leases_ok_def heartbeat_vps_lease_def Let_def)

lemma lease_of_release:
  assumes "leases_ok d"
  shows "lease_of (snd (release_vps_lease ow d)) = (if holder d = Some ow then None else lease_of d)"
proof (cases "lease_of d")
  case None
  then have "lease_of (snd (release_vps_lease ow d)) = None"
    by (auto simp: lease_of_def release_vps_lease_def select_first_None_iff Let_def)
  with None show ?thesis by (simp add: holder_def)
next
  case (Some l)
  with leases_split [OF assms]
  have l: "l \<in> set (leases d)" "le_resource l = vpn_vps"
    and uniq: "\<And>k. k \<in> set (leases d) \<Longrightarrow> le_resource k = vpn_vps \<Longrightarrow> k = l" by auto
  show ?thesis
  proof (cases "le_owner l = ow")
    case True
    with uniq Some show ?thesis
      by (auto simp: holder_def lease_of_def release_vps_lease_def select_first_None_iff Let_def)
  next
    case False
    then have "delete_where (\<lambda>k. le_resource k = vpn_vps \<and> le_owner k = ow) (leases d) = leases d"
      using uniq by (auto simp: delete_where_def filter_id_conv)
    with False Some show ?thesis
      by (simp add: holder_def lease_of_def release_vps_lease_def Let_def)
  qed
qed

lemma holder_release:
  "leases_ok d \<Longrightarrow> holder (snd (release_vps_lease ow d)) = (if holder d = Some ow then None else holder d)"
  by (cases "lease_of d") (simp_all add: holder_def lease_of_release)

lemma release_result:
  assumes "leases_ok d"
  shows "fst (release_vps_lease ow d) \<longleftrightarrow> holder d = Some ow"
proof -
  have "distinct (map le_resource (filter (\<lambda>l. le_owner l = ow) (leases d)))"
    using assms by (simp add: leases_ok_def distinct_map_filter_key)
  moreover have "row_count (\<lambda>l. le_resource l = vpn_vps \<and> le_owner l = ow) (leases d) =
      row_count (\<lambda>l. le_resource l = vpn_vps) (filter (\<lambda>l. le_owner l = ow) (leases d))"
    by (simp add: row_count_def conj_commute)
  ultimately have "fst (release_vps_lease ow d) \<longleftrightarrow>
      vpn_vps \<in> le_resource ` {l \<in> set (leases d). le_owner l = ow}"
    by (simp add: release_vps_lease_def Let_def row_count_key)
  then have "fst (release_vps_lease ow d) \<longleftrightarrow>
      (\<exists>l \<in> set (leases d). le_resource l = vpn_vps \<and> le_owner l = ow)"
    by (simp add: image_iff) metis
  with leases_split [OF assms] show ?thesis by (auto simp: holder_def split: option.splits)
qed

lemma holder_heartbeat: "holder (snd (heartbeat_vps_lease now ow s d)) = holder d"
proof -
  let ?p = "\<lambda>l. le_resource l = vpn_vps \<and> le_owner l = ow"
  let ?f = "\<lambda>l. l\<lparr>le_heartbeat_at := iso now, le_expires_at := iso (now + micros (max 1 s))\<rparr>"
  have "select_first (\<lambda>l. le_resource l = vpn_vps) (update_where ?p ?f (leases d)) =
      map_option (\<lambda>l. if ?p l then ?f l else l) (select_first (\<lambda>l. le_resource l = vpn_vps) (leases d))"
    by (rule select_first_map_key) simp
  then show ?thesis
    by (cases "select_first (\<lambda>l. le_resource l = vpn_vps) (leases d)")
       (simp_all add: holder_def lease_of_def heartbeat_vps_lease_def Let_def)
qed

lemma heartbeat_result:
  "leases_ok d \<Longrightarrow> fst (heartbeat_vps_lease now ow s d) \<longleftrightarrow> holder d = Some ow"
  using release_result [of d ow] by (simp add: heartbeat_vps_lease_def release_vps_lease_def Let_def)

lemma heartbeat_extends:
  assumes "leases_ok d" and "holder d = Some ow" and "now' < now + micros (max 1 s) - 1000000"
  shows "\<not> expired_at now' (snd (heartbeat_vps_lease now ow s d))"
proof -
  let ?p = "\<lambda>l. le_resource l = vpn_vps \<and> le_owner l = ow"
  let ?f = "\<lambda>l. l\<lparr>le_heartbeat_at := iso now, le_expires_at := iso (now + micros (max 1 s))\<rparr>"
  obtain l where l: "lease_of d = Some l" "le_owner l = ow"
    using assms(2) by (auto simp: holder_def)
  then have "le_resource l = vpn_vps" by (auto simp: lease_of_def dest: select_first_SomeD)
  moreover have "select_first (\<lambda>l. le_resource l = vpn_vps) (update_where ?p ?f (leases d)) =
      map_option (\<lambda>l. if ?p l then ?f l else l) (lease_of d)"
    unfolding lease_of_def by (rule select_first_map_key) simp
  ultimately have "lease_of (snd (heartbeat_vps_lease now ow s d)) = Some (?f l)"
    using l by (simp add: lease_of_def heartbeat_vps_lease_def Let_def)
  moreover have "now' < micros (iso (now + micros (max 1 s)))"
    using less_micros_iso_Suc [of "now + micros (max 1 s)"] assms(3)
    by (simp add: micros_def distrib_right)
  ultimately show ?thesis by (simp add: expired_at_def)
qed

section \<open>Acquiring\<close>

lemma lease_of_fail_owner [frame_simps]: "lease_of (fail_owner ow m t d) = lease_of d"
  by (simp add: lease_of_def frame_simps)

lemma holder_fail_owner [frame_simps]: "holder (fail_owner ow m t d) = holder d"
  by (simp add: holder_def frame_simps)

lemma leases_ok_fail_owner [frame_simps]: "leases_ok (fail_owner ow m t d) = leases_ok d"
  by (simp add: leases_ok_def frame_simps)

lemma is_active_leases [simp]: "is_active (d\<lparr>leases := ls\<rparr>) ow = is_active d ow"
  by (cases "(d, ow)" rule: is_active.cases) simp_all

lemma is_active_release [simp]: "is_active (snd (release_vps_lease ow d)) ow' = is_active d ow'"
  by (simp add: release_vps_lease_def Let_def)

lemma is_active_heartbeat [simp]:
  "is_active (snd (heartbeat_vps_lease now ow s d)) ow' = is_active d ow'"
  by (simp add: heartbeat_vps_lease_def Let_def)

lemma acquire_refused:
  assumes "lease_of d = Some l" and "\<not> expired_at now d"
  shows "acquire_vps_lease now ow s d = Inl (OperationBusyError (le_owner l))"
  using assms by (simp add: acquire_vps_lease_def expired_at_def lease_of_def Let_def)

lemma insert_lease_granted:
  assumes "leases_ok d" and "lease_of d = None" and "le_resource l = vpn_vps"
  shows "insert_lease l d = Inr (d\<lparr>leases := leases d @ [l]\<rparr>)"
    and "leases_ok (d\<lparr>leases := leases d @ [l]\<rparr>)"
    and "lease_of (d\<lparr>leases := leases d @ [l]\<rparr>) = Some l"
proof -
  have "\<forall>k \<in> set (leases d). le_resource k \<noteq> vpn_vps"
    using leases_split [OF assms(1)] assms(2) by simp
  then show "insert_lease l d = Inr (d\<lparr>leases := leases d @ [l]\<rparr>)"
    and "leases_ok (d\<lparr>leases := leases d @ [l]\<rparr>)"
    using assms by (auto simp: insert_lease_def leases_ok_def image_iff)
  show "lease_of (d\<lparr>leases := leases d @ [l]\<rparr>) = Some l"
    using assms by (simp add: lease_of_def table_simps)
qed

definition fresh_lease :: "int \<Rightarrow> lease_owner \<Rightarrow> int \<Rightarrow> lease_row" where
  "fresh_lease now ow s = \<lparr>le_resource = vpn_vps, le_owner = ow, le_acquired_at = iso now,
     le_heartbeat_at = iso now, le_expires_at = iso (now + micros (max 1 s))\<rparr>"

lemma fresh_lease_simps [simp]:
  "le_resource (fresh_lease now ow s) = vpn_vps" "le_owner (fresh_lease now ow s) = ow"
  "le_acquired_at (fresh_lease now ow s) = iso now"
  "le_expires_at (fresh_lease now ow s) = iso (now + micros (max 1 s))"
  by (simp_all add: fresh_lease_def)

text \<open>The database an expired lease is cleared from: its owner failed and its row gone.\<close>

definition evicted :: "int \<Rightarrow> db \<Rightarrow> db" where
  "evicted now d = (case holder d of
       None \<Rightarrow> d
     | Some ow \<Rightarrow> snd (release_vps_lease ow
         (fail_owner ow ''Operation lease expired before completion'' (iso now) d)))"

lemma acquire_granted:
  assumes "leases_ok d" and "expired_at now d"
  shows "acquire_vps_lease now ow s d =
      Inr ((evicted now d)\<lparr>leases := leases (evicted now d) @ [fresh_lease now ow s]\<rparr>)"
    and "leases_ok (evicted now d)" and "lease_of (evicted now d) = None"
proof -
  show ok: "leases_ok (evicted now d)"
    using assms(1) by (auto simp: evicted_def frame_simps split: option.split)
  show none: "lease_of (evicted now d) = None"
    using assms(1)
    by (cases "lease_of d") (simp_all add: evicted_def holder_def frame_simps lease_of_release)
  note put = insert_lease_granted(1) [OF ok none, of "fresh_lease now ow s"]
  show "acquire_vps_lease now ow s d =
      Inr ((evicted now d)\<lparr>leases := leases (evicted now d) @ [fresh_lease now ow s]\<rparr>)"
  proof (cases "lease_of d")
    case None
    then show ?thesis
      using put by (simp add: acquire_vps_lease_def fresh_lease_def evicted_def holder_def lease_of_def)
  next
    case (Some l)
    then show ?thesis
      using put assms(2)
      by (simp add: acquire_vps_lease_def fresh_lease_def evicted_def holder_def lease_of_def
          expired_at_def)
  qed
qed

lemma acquire_cases:
  assumes "leases_ok d"
  obtains (busy) l where "lease_of d = Some l" "\<not> expired_at now d"
      "acquire_vps_lease now ow s d = Inl (OperationBusyError (le_owner l))"
  | (granted) "expired_at now d" "acquire_vps_lease now ow s d =
      Inr ((evicted now d)\<lparr>leases := leases (evicted now d) @ [fresh_lease now ow s]\<rparr>)"
proof (cases "expired_at now d")
  case True
  with acquire_granted [OF assms] show ?thesis by (intro granted) simp_all
next
  case False
  then obtain l where "lease_of d = Some l" by (auto simp: expired_at_def split: option.splits)
  with False acquire_refused show ?thesis by (intro busy) simp_all
qed

lemma acquire_result:
  assumes "leases_ok d" and "acquire_vps_lease now ow s d = Inr d'"
  shows "leases_ok d'" and "lease_of d' = Some (fresh_lease now ow s)" and "expired_at now d"
    and "d' = (evicted now d)\<lparr>leases := leases (evicted now d) @ [fresh_lease now ow s]\<rparr>"
proof -
  show ex: "expired_at now d" and d': "d' = (evicted now d)\<lparr>leases := leases (evicted now d) @ [fresh_lease now ow s]\<rparr>"
    using acquire_cases [OF assms(1), of now ow s] assms(2) by auto
  show "leases_ok d'" "lease_of d' = Some (fresh_lease now ow s)"
    using insert_lease_granted [OF acquire_granted(2,3) [OF assms(1) ex], of "fresh_lease now ow s"]
    by (simp_all add: d')
qed

lemma is_active_evicted: "is_active (evicted now d) ow \<longleftrightarrow> is_active d ow \<and> holder d \<noteq> Some ow"
  by (auto simp: evicted_def is_active_fail_owner split: option.split)

lemma evicted_frame [frame_simps]:
  "settings (evicted now d) = settings d" "clients (evicted now d) = clients d"
  "vpn_state (evicted now d) = vpn_state d"
  "map in_id (install_ops (evicted now d)) = map in_id (install_ops d)"
  "map ip_id (ip_ops (evicted now d)) = map ip_id (ip_ops d)"
  "map sv_id (server_ops (evicted now d)) = map sv_id (server_ops d)"
  "map sn_revision (snapshots (evicted now d)) = map sn_revision (snapshots d)"
  by (simp_all add: evicted_def frame_simps split: option.split)

section \<open>Recovery at start-up\<close>

lemma is_active_fold:
  "is_active (fold (\<lambda>r. fail_owner (f r) m t) rs d) ow \<longleftrightarrow> is_active d ow \<and> ow \<notin> f ` set rs"
  by (induction rs arbitrary: d) (auto simp: is_active_fail_owner)

lemma fold_active_mono: "is_active (fold (\<lambda>r. fail_owner (f r) m t) rs d) ow \<Longrightarrow> is_active d ow"
  by (simp only: is_active_fold)

lemma fold_fail_frame:
  "leases (fold (\<lambda>r. fail_owner (f r) m t) rs d) = leases d"
  "clients (fold (\<lambda>r. fail_owner (f r) m t) rs d) = clients d"
  "settings (fold (\<lambda>r. fail_owner (f r) m t) rs d) = settings d"
  "vpn_state (fold (\<lambda>r. fail_owner (f r) m t) rs d) = vpn_state d"
  by (induction rs arbitrary: d) (simp_all add: frame_simps)

lemma drop_active:
  "\<not> is_active (fold (\<lambda>r. fail_owner (LeaseOwner Install (in_id r)) m t)
      (filter (\<lambda>r. active (in_status r)) (install_ops d)) d) (LeaseOwner Install i)"
  "\<not> is_active (fold (\<lambda>r. fail_owner (LeaseOwner IpChange (ip_id r)) m t)
      (filter (\<lambda>r. active (ip_status r)) (ip_ops d)) d) (LeaseOwner IpChange i)"
  "\<not> is_active (fold (\<lambda>r. fail_owner (LeaseOwner Server (sv_id r)) m t)
      (filter (\<lambda>r. active (sv_status r)) (server_ops d)) d) (LeaseOwner Server i)"
  unfolding is_active_fold by auto

lemma recover_none_active: "\<not> is_active (recover_incomplete_vps_operations now reason d) ow"
proof
  assume act: "is_active (recover_incomplete_vps_operations now reason d) ow"
  define m where "m = bounded_reason reason"
  define d1 where "d1 = fold (\<lambda>r. fail_owner (LeaseOwner Install (in_id r)) m (iso now))
      (filter (\<lambda>r. active (in_status r)) (install_ops d)) d"
  define d2 where "d2 = fold (\<lambda>r. fail_owner (LeaseOwner IpChange (ip_id r)) m (iso now))
      (filter (\<lambda>r. active (ip_status r)) (ip_ops d1)) d1"
  define d3 where "d3 = fold (\<lambda>r. fail_owner (LeaseOwner Server (sv_id r)) m (iso now))
      (filter (\<lambda>r. active (sv_status r)) (server_ops d2)) d2"
  have 3: "is_active d3 ow"
    using act by (simp add: recover_incomplete_vps_operations_def m_def d1_def d2_def d3_def Let_def)
  then have 2: "is_active d2 ow" unfolding d3_def by (rule fold_active_mono)
  then have 1: "is_active d1 ow" unfolding d2_def by (rule fold_active_mono)
  obtain ty i where ow: "ow = LeaseOwner ty i" by (cases ow)
  show False
  proof (cases ty)
    case Install
    with 1 ow show False unfolding d1_def using drop_active(1) by metis
  next
    case IpChange
    with 2 ow show False unfolding d2_def using drop_active(2) by metis
  next
    case Server
    with 3 ow show False unfolding d3_def using drop_active(3) by metis
  qed
qed

lemma recover_lease: "lease_of (recover_incomplete_vps_operations now reason d) = None"
  by (simp add: recover_incomplete_vps_operations_def lease_of_def select_first_None_iff Let_def)

lemma fail_keeps_terminal:
  "r \<in> set (install_ops d) \<Longrightarrow> \<not> active (in_status r) \<Longrightarrow> r \<in> set (install_ops (fail_owner ow m t d))"
  "q \<in> set (ip_ops d) \<Longrightarrow> \<not> active (ip_status q) \<Longrightarrow> q \<in> set (ip_ops (fail_owner ow m t d))"
  "s \<in> set (server_ops d) \<Longrightarrow> \<not> active (sv_status s) \<Longrightarrow> s \<in> set (server_ops (fail_owner ow m t d))"
  by (cases "(ow, m, t, d)" rule: fail_owner.cases;
      force simp: frame_simps fail_install_def fail_ip_change_def fail_server_def set_update_where Let_def
           split: option.split)+

lemma fold_keeps_terminal:
  "r \<in> set (install_ops d) \<Longrightarrow> \<not> active (in_status r) \<Longrightarrow>
     r \<in> set (install_ops (fold (\<lambda>x. fail_owner (f x) m t) rs d))"
  "q \<in> set (ip_ops d) \<Longrightarrow> \<not> active (ip_status q) \<Longrightarrow>
     q \<in> set (ip_ops (fold (\<lambda>x. fail_owner (f x) m t) rs d))"
  "s \<in> set (server_ops d) \<Longrightarrow> \<not> active (sv_status s) \<Longrightarrow>
     s \<in> set (server_ops (fold (\<lambda>x. fail_owner (f x) m t) rs d))"
  by (induction rs arbitrary: d) (simp_all add: fail_keeps_terminal)

lemma recover_keeps_terminal:
  "r \<in> set (install_ops d) \<Longrightarrow> \<not> active (in_status r) \<Longrightarrow>
     r \<in> set (install_ops (recover_incomplete_vps_operations now reason d))"
  "q \<in> set (ip_ops d) \<Longrightarrow> \<not> active (ip_status q) \<Longrightarrow>
     q \<in> set (ip_ops (recover_incomplete_vps_operations now reason d))"
  "s \<in> set (server_ops d) \<Longrightarrow> \<not> active (sv_status s) \<Longrightarrow>
     s \<in> set (server_ops (recover_incomplete_vps_operations now reason d))"
  by (simp_all add: recover_incomplete_vps_operations_def Let_def fold_keeps_terminal)

section \<open>The interface its callers rely on\<close>

locale lease_manager =
  fixes ok :: "'s \<Rightarrow> bool"
    and owner_of :: "'s \<Rightarrow> 'o option"
    and lapsed :: "int \<Rightarrow> 's \<Rightarrow> bool"
    and busy_with :: "'s \<Rightarrow> 'o \<Rightarrow> bool"
    and acquire :: "int \<Rightarrow> 'o \<Rightarrow> 's \<Rightarrow> 'e + 's"
    and release :: "'o \<Rightarrow> 's \<Rightarrow> 's"
    and refusal :: "'o \<Rightarrow> 'e"
  assumes refuses: "ok s \<Longrightarrow> owner_of s = Some h \<Longrightarrow> \<not> lapsed now s \<Longrightarrow> acquire now w s = Inl (refusal h)"
    and free: "owner_of s = None \<Longrightarrow> lapsed now s"
    and grants: "ok s \<Longrightarrow> lapsed now s \<Longrightarrow> succeeds (acquire now w s)"
    and granted: "ok s \<Longrightarrow> acquire now w s = Inr s' \<Longrightarrow> ok s' \<and> owner_of s' = Some w"
    and evicts: "ok s \<Longrightarrow> acquire now w s = Inr s' \<Longrightarrow>
      busy_with s' v \<longleftrightarrow> busy_with s v \<and> owner_of s \<noteq> Some v"
    and releases: "ok s \<Longrightarrow> ok (release w s) \<and>
      owner_of (release w s) = (if owner_of s = Some w then None else owner_of s)"
    and release_keeps: "busy_with (release w s) v = busy_with s v"
begin

definition guarded :: "'s \<Rightarrow> bool" where
  "guarded s \<longleftrightarrow> ok s \<and> (\<forall>v. busy_with s v \<longrightarrow> owner_of s = Some v)"

lemma mutual_exclusion: "guarded s \<Longrightarrow> busy_with s v \<Longrightarrow> busy_with s w \<Longrightarrow> v = w"
  unfolding guarded_def by (metis option.inject)

lemma acquire_iff:
  assumes "ok s"
  shows "succeeds (acquire now w s) \<longleftrightarrow> lapsed now s"
proof (cases "lapsed now s")
  case False
  then obtain h where "owner_of s = Some h" using free by (cases "owner_of s") auto
  with False refuses [OF assms] show ?thesis by simp
qed (simp add: grants [OF assms])

text \<open>
  A new operation is registered first and takes the lease after: whatever else was running and
  did not hold the lease it evicted cannot exist.
\<close>

lemma take_over:
  assumes "ok s" and "\<And>v. busy_with s v \<Longrightarrow> v = w \<or> owner_of s = Some v"
    and "acquire now w s = Inr s'"
  shows "guarded s'"
  using granted [OF assms(1,3)] evicts [OF assms(1,3)] assms(2) by (auto simp: guarded_def)

lemma finish:
  assumes "ok s" and "\<And>v. busy_with s v \<Longrightarrow> v \<noteq> w \<and> owner_of s = Some v"
  shows "guarded (release w s)"
  using releases [OF assms(1), of w] assms(2)
  by (auto simp: guarded_def release_keeps split: if_splits)

lemma idle_guarded: "ok s \<Longrightarrow> (\<And>v. \<not> busy_with s v) \<Longrightarrow> guarded s"
  by (simp add: guarded_def)

end

interpretation vps: lease_manager leases_ok holder expired_at is_active
  "\<lambda>now ow. acquire_vps_lease now ow s" "\<lambda>ow d. snd (release_vps_lease ow d)"
  OperationBusyError for s
proof unfold_locales
  fix d h now w assume "leases_ok d" "holder d = Some h" "\<not> expired_at now d"
  then show "acquire_vps_lease now w s d = Inl (OperationBusyError h)"
    using acquire_refused by (auto simp: holder_def)
next
  fix d now assume "holder d = None"
  then show "expired_at now d" by (simp add: holder_def expired_at_def)
next
  fix d now w assume "leases_ok d" "expired_at now d"
  then show "succeeds (acquire_vps_lease now w s d)" by (simp add: acquire_granted)
next
  fix d now w d' assume "leases_ok d" "acquire_vps_lease now w s d = Inr d'"
  then show "leases_ok d' \<and> holder d' = Some w" by (simp add: acquire_result holder_def)
next
  fix d now w d' v assume "leases_ok d" "acquire_vps_lease now w s d = Inr d'"
  then show "is_active d' v \<longleftrightarrow> is_active d v \<and> holder d \<noteq> Some v"
    using acquire_result(4) by (fastforce simp: is_active_evicted)
next
  fix d w assume "leases_ok d"
  then show "leases_ok (snd (release_vps_lease w d)) \<and>
      holder (snd (release_vps_lease w d)) = (if holder d = Some w then None else holder d)"
    by (auto simp: holder_release)
qed simp

lemma exclusive_iff: "exclusive d \<longleftrightarrow> vps.guarded d"
  by (simp add: exclusive_def vps.guarded_def)

declare is_active.simps [simp del]

section \<open>Properties\<close>

text \<open>\<open>acquire_vps_lease\<close> refuses exactly while another lease is unexpired, and the refusal
  names the owner of that lease; it has no other way to fail.\<close>

theorem acquire_refuses_iff_held:
  assumes "leases_ok d"
  shows "acquire_vps_lease now ow s d = Inl e \<longleftrightarrow>
     (\<exists>l. lease_of d = Some l \<and> now < micros (le_expires_at l) \<and> e = OperationBusyError (le_owner l))"
  by (rule acquire_cases [OF assms, of now ow s])
     (auto simp: expired_at_def not_le split: option.splits)

theorem acquire_refuses_iff_held_witness:
  "acquire_vps_lease 5000000 (LeaseOwner Server 2) 60
     (empty_db\<lparr>leases := [\<lparr>le_resource = vpn_vps, le_owner = LeaseOwner Install 1, le_acquired_at = 0,
        le_heartbeat_at = 0, le_expires_at = 3600\<rparr>]\<rparr>) = Inl (OperationBusyError (LeaseOwner Install 1))"
  by (subst acquire_refuses_iff_held) (simp_all add: leases_ok_def lease_of_def micros_def)



text \<open>A heartbeat of the holder reports success and keeps the lease from expiring for the whole
  period; a heartbeat of anybody else reports failure and leaves the holder's lease in place.\<close>

theorem heartbeat_keeps_lease:
  assumes "leases_ok d"
  shows "(fst (heartbeat_vps_lease now ow s d) \<longleftrightarrow> holder d = Some ow) \<and>
     holder (snd (heartbeat_vps_lease now ow s d)) = holder d \<and>
     (holder d = Some ow \<and> now' < now + micros (max 1 s) - 1000000 \<longrightarrow>
        acquire_vps_lease now' v s' (snd (heartbeat_vps_lease now ow s d)) = Inl (OperationBusyError ow))"
proof (intro conjI impI)
  let ?d = "snd (heartbeat_vps_lease now ow s d)"
  show "fst (heartbeat_vps_lease now ow s d) \<longleftrightarrow> holder d = Some ow"
    using assms by (rule heartbeat_result)
  show h: "holder ?d = holder d" by (rule holder_heartbeat)
  assume soon: "holder d = Some ow \<and> now' < now + micros (max 1 s) - 1000000"
  with h obtain l where l: "lease_of ?d = Some l" "le_owner l = ow" by (auto simp: holder_def)
  show "acquire_vps_lease now' v s' ?d = Inl (OperationBusyError ow)"
    using acquire_refused [OF l(1) heartbeat_extends [OF assms]] soon l(2) by simp
qed

theorem heartbeat_keeps_lease_witness:
  "acquire_vps_lease 59000000 (LeaseOwner Server 2) 60 (snd (heartbeat_vps_lease 1000000
     (LeaseOwner Install 1) 60
     (empty_db\<lparr>leases := [\<lparr>le_resource = vpn_vps, le_owner = LeaseOwner Install 1, le_acquired_at = 0,
        le_heartbeat_at = 0, le_expires_at = 2\<rparr>]\<rparr>))) = Inl (OperationBusyError (LeaseOwner Install 1))"
  by (rule heartbeat_keeps_lease [THEN conjunct2, THEN conjunct2, THEN mp])
     (simp_all add: leases_ok_def holder_def lease_of_def micros_def)

text \<open>C35.  Recovery at start-up ends every operation that was pending or running and frees the
  lease, and no operation that had already ended is touched.\<close>

theorem recovery_settles_everything:
  "\<not> is_active (recover_incomplete_vps_operations now reason d) ow \<and>
   holder (recover_incomplete_vps_operations now reason d) = None \<and>
   {r \<in> set (install_ops d). terminal (in_status r)} \<subseteq>
     set (install_ops (recover_incomplete_vps_operations now reason d)) \<and>
   {r \<in> set (ip_ops d). terminal (ip_status r)} \<subseteq>
     set (ip_ops (recover_incomplete_vps_operations now reason d)) \<and>
   {r \<in> set (server_ops d). terminal (sv_status r)} \<subseteq>
     set (server_ops (recover_incomplete_vps_operations now reason d))"
  using recover_none_active recover_lease recover_keeps_terminal
  by (auto simp: holder_def active_iff_not_terminal)

end
