(* ===== verification/Config.thy ===== *)
theory Config
  imports Schema
begin

text \<open>
  \<open>app/config.py\<close>: the settings read from the environment when the process starts.  The
  environment is a map; a variable that must be a number and is not stops the process with the
  \<open>ValueError\<close> of \<open>int()\<close>.
\<close>

type_synonym environment = "string \<Rightarrow> string option"

definition getenv :: "environment \<Rightarrow> string \<Rightarrow> string \<Rightarrow> string" where
  "getenv env name dflt = (case env name of None \<Rightarrow> dflt | Some v \<Rightarrow> v)"

definition get_int :: "environment \<Rightarrow> string \<Rightarrow> int \<Rightarrow> exn + int" where
  "get_int env name dflt =
     (case env name of
        None \<Rightarrow> Inr dflt
      | Some raw \<Rightarrow>
          if raw = [] then Inr dflt
          else (case parse_int raw of None \<Rightarrow> Inl (ValueError raw) | Some i \<Rightarrow> Inr i))"

definition csv_items :: "string \<Rightarrow> string list" where
  "csv_items raw = filter (\<lambda>s. s \<noteq> []) (map py_strip (split_on (CHR '','') raw))"

definition get_csv :: "environment \<Rightarrow> string \<Rightarrow> string \<Rightarrow> string list" where
  "get_csv env name dflt = csv_items (getenv env name dflt)"

definition truthy_text :: "string \<Rightarrow> bool" where
  "truthy_text raw \<longleftrightarrow> py_lower (py_strip raw) \<in> {''1'', ''true'', ''yes'', ''on''}"

definition get_bool :: "environment \<Rightarrow> string \<Rightarrow> bool \<Rightarrow> bool" where
  "get_bool env name dflt = (case env name of None \<Rightarrow> dflt | Some raw \<Rightarrow> truthy_text raw)"

record config =
  database_path :: string
  admin_username :: string
  admin_password :: string
  c_aeza_api_base :: string
  c_vps_provider :: string
  c_sprintbox_login :: string
  c_sprintbox_key :: string
  c_sprintbox_box_name :: string
  c_sprintbox_service :: string
  c_sprintbox_distributive :: string
  c_sprintbox_ssh_key_path :: string
  c_aeza_token :: string
  c_aeza_service_id :: string
  c_aeza_ipv4_payment_method :: string
  c_aeza_ipv4_domain :: string
  c_aeza_ipv4_after_purchase_delay_seconds :: int
  c_eu_ssh_host :: string
  c_eu_ssh_user :: string
  c_eu_ssh_port :: int
  c_eu_ssh_key_path :: string
  c_eu_ssh_password :: string
  c_ssh_connect_timeout_seconds :: int
  c_server_status_timeout_seconds :: int
  c_server_reboot_timeout_seconds :: int
  c_server_poll_interval_seconds :: int
  c_server_ssh_probe_timeout_seconds :: int
  c_server_command_timeout_seconds :: int
  c_vpn_deploy_timeout_seconds :: int
  c_vpn_lease_heartbeat_seconds :: int
  c_enable_transactional_vpn_apply :: bool
  c_enable_safe_aeza_ip_rotation :: bool
  c_enable_router_api :: bool
  c_vless_port :: int
  c_vless_reality_target :: string
  c_vless_reality_server_names :: "string list"
  c_vless_reality_server_name :: string
  c_vless_reality_fingerprint :: string
  c_vless_reality_spider_x :: string
  c_hysteria_port :: int
  c_amnezia_port :: int
  c_amnezia_network_prefix :: string
  c_amnezia_dns :: string
  c_ssh_port :: int
  c_ip_appear_timeout_seconds :: int
  c_ip_appear_interval_seconds :: int
  c_reboot_wait_seconds :: int
  c_healthcheck_timeout_seconds :: int
  c_healthcheck_interval_seconds :: int

text \<open>The numeric variables with their defaults, in the order the class body evaluates them.\<close>

definition int_variables :: "(string \<times> int) list" where
  "int_variables =
    [(''AEZA_IPV4_AFTER_PURCHASE_DELAY_SECONDS'', 120), (''EU_SSH_PORT'', 22),
     (''SSH_CONNECT_TIMEOUT_SECONDS'', 15), (''SERVER_STATUS_TIMEOUT_SECONDS'', 15),
     (''SERVER_REBOOT_TIMEOUT_SECONDS'', 300), (''SERVER_POLL_INTERVAL_SECONDS'', 5),
     (''SERVER_SSH_PROBE_TIMEOUT_SECONDS'', 5), (''SERVER_COMMAND_TIMEOUT_SECONDS'', 30),
     (''VPN_DEPLOY_TIMEOUT_SECONDS'', 1800), (''VPN_LEASE_HEARTBEAT_SECONDS'', 30),
     (''VLESS_PORT'', 443), (''HYSTERIA_PORT'', 8443), (''AMNEZIA_PORT'', 51820),
     (''SSH_PORT'', 22), (''IP_APPEAR_TIMEOUT_SECONDS'', 300), (''IP_APPEAR_INTERVAL_SECONDS'', 5),
     (''REBOOT_WAIT_SECONDS'', 30), (''HEALTHCHECK_TIMEOUT_SECONDS'', 300),
     (''HEALTHCHECK_INTERVAL_SECONDS'', 10)]"

definition build_settings :: "environment \<Rightarrow> (string \<Rightarrow> int) \<Rightarrow> config" where
  "build_settings env n =
    \<lparr>database_path = getenv env ''DATABASE_PATH'' ''./data/autovpn.sqlite3'',
     admin_username = getenv env ''ADMIN_USERNAME'' ''admin'',
     admin_password = getenv env ''ADMIN_PASSWORD'' [],
     c_aeza_api_base = getenv env ''AEZA_API_BASE'' ''https://my.aeza.net'',
     c_vps_provider = getenv env ''VPS_PROVIDER'' ''aeza'',
     c_sprintbox_login = getenv env ''SPRINTBOX_LOGIN'' [],
     c_sprintbox_key = getenv env ''SPRINTBOX_KEY'' [],
     c_sprintbox_box_name = getenv env ''SPRINTBOX_BOX_NAME'' [],
     c_sprintbox_service = getenv env ''SPRINTBOX_SERVICE'' [],
     c_sprintbox_distributive = getenv env ''SPRINTBOX_DISTRIBUTIVE'' [],
     c_sprintbox_ssh_key_path = getenv env ''SPRINTBOX_SSH_KEY_PATH'' [],
     c_aeza_token = getenv env ''AEZA_TOKEN'' [],
     c_aeza_service_id = getenv env ''AEZA_SERVICE_ID'' [],
     c_aeza_ipv4_payment_method = getenv env ''AEZA_IPV4_PAYMENT_METHOD'' ''balance'',
     c_aeza_ipv4_domain = getenv env ''AEZA_IPV4_DOMAIN'' [],
     c_aeza_ipv4_after_purchase_delay_seconds = n ''AEZA_IPV4_AFTER_PURCHASE_DELAY_SECONDS'',
     c_eu_ssh_host = getenv env ''EU_SSH_HOST'' [],
     c_eu_ssh_user = getenv env ''EU_SSH_USER'' ''root'',
     c_eu_ssh_port = n ''EU_SSH_PORT'',
     c_eu_ssh_key_path = getenv env ''EU_SSH_KEY_PATH'' [],
     c_eu_ssh_password = getenv env ''EU_SSH_PASSWORD'' [],
     c_ssh_connect_timeout_seconds = n ''SSH_CONNECT_TIMEOUT_SECONDS'',
     c_server_status_timeout_seconds = n ''SERVER_STATUS_TIMEOUT_SECONDS'',
     c_server_reboot_timeout_seconds = n ''SERVER_REBOOT_TIMEOUT_SECONDS'',
     c_server_poll_interval_seconds = n ''SERVER_POLL_INTERVAL_SECONDS'',
     c_server_ssh_probe_timeout_seconds = n ''SERVER_SSH_PROBE_TIMEOUT_SECONDS'',
     c_server_command_timeout_seconds = n ''SERVER_COMMAND_TIMEOUT_SECONDS'',
     c_vpn_deploy_timeout_seconds = n ''VPN_DEPLOY_TIMEOUT_SECONDS'',
     c_vpn_lease_heartbeat_seconds = n ''VPN_LEASE_HEARTBEAT_SECONDS'',
     c_enable_transactional_vpn_apply = get_bool env ''ENABLE_TRANSACTIONAL_VPN_APPLY'' True,
     c_enable_safe_aeza_ip_rotation = get_bool env ''ENABLE_SAFE_AEZA_IP_ROTATION'' True,
     c_enable_router_api = get_bool env ''ENABLE_ROUTER_API'' True,
     c_vless_port = n ''VLESS_PORT'',
     c_vless_reality_target = getenv env ''VLESS_REALITY_TARGET'' ''ok.ru:443'',
     c_vless_reality_server_names = get_csv env ''VLESS_REALITY_SERVER_NAMES'' ''ok.ru,www.ok.ru'',
     c_vless_reality_server_name = getenv env ''VLESS_REALITY_SERVER_NAME'' ''ok.ru'',
     c_vless_reality_fingerprint = getenv env ''VLESS_REALITY_FINGERPRINT'' ''firefox'',
     c_vless_reality_spider_x = getenv env ''VLESS_REALITY_SPIDER_X'' ''/'',
     c_hysteria_port = n ''HYSTERIA_PORT'',
     c_amnezia_port = n ''AMNEZIA_PORT'',
     c_amnezia_network_prefix = getenv env ''AMNEZIA_NETWORK_PREFIX'' ''10.66.66'',
     c_amnezia_dns = getenv env ''AMNEZIA_DNS'' ''1.1.1.1, 8.8.8.8'',
     c_ssh_port = n ''SSH_PORT'',
     c_ip_appear_timeout_seconds = n ''IP_APPEAR_TIMEOUT_SECONDS'',
     c_ip_appear_interval_seconds = n ''IP_APPEAR_INTERVAL_SECONDS'',
     c_reboot_wait_seconds = n ''REBOOT_WAIT_SECONDS'',
     c_healthcheck_timeout_seconds = n ''HEALTHCHECK_TIMEOUT_SECONDS'',
     c_healthcheck_interval_seconds = n ''HEALTHCHECK_INTERVAL_SECONDS''\<rparr>"

definition load_settings :: "environment \<Rightarrow> exn + config" where
  "load_settings env =
     bind_result
       (map_result (\<lambda>(name, dflt). bind_result (get_int env name dflt) (\<lambda>i. Inr (name, i))) int_variables)
       (\<lambda>ns. Inr (build_settings env (\<lambda>name. case map_of ns name of None \<Rightarrow> 0 | Some i \<Rightarrow> i)))"

lemma csv_items_clean: "item \<in> set (csv_items raw) \<Longrightarrow> item \<noteq> [] \<and> CHR '','' \<notin> set item"
proof -
  assume "item \<in> set (csv_items raw)"
  then obtain p where p: "p \<in> set (split_on (CHR '','') raw)" "item = py_strip p" "item \<noteq> []"
    by (auto simp: csv_items_def)
  have "set (py_strip p) \<subseteq> set p"
    unfolding py_strip_def using set_dropWhileD by (metis set_rev subsetI)
  with p split_on_sep_free show ?thesis by blast
qed

lemma get_int_unset: "env name = None \<or> env name = Some [] \<Longrightarrow> get_int env name dflt = Inr dflt"
  by (auto simp: get_int_def)

lemma get_int_printed: "env name = Some (int_str i) \<Longrightarrow> get_int env name dflt = Inr i"
  by (simp add: get_int_def parse_int_str)

text \<open>The settings of an empty environment.\<close>

definition default_config :: config where
  "default_config = build_settings (\<lambda>_. None)
     (\<lambda>name. case map_of int_variables name of None \<Rightarrow> 0 | Some i \<Rightarrow> i)"

lemma load_settings_default: "load_settings (\<lambda>_. None) = Inr default_config"
  by (simp add: load_settings_def default_config_def int_variables_def get_int_unset)

end
