(* ===== verification/Database.thy ===== *)
theory Database
  imports Coordinator Config
begin

text \<open>
  \<open>app/db.py\<close>: the settings store, the clients and their AmneziaWG material, the address pool,
  the updates of operations and the reset of the server state.  Random material and clock
  readings are arguments; \<open>pub\<close> is the X25519 public key of a private one (a library).
\<close>

section \<open>Settings\<close>

definition setting :: "db \<Rightarrow> string \<Rightarrow> string" where
  "setting d key = (case map_of (settings d) key of None \<Rightarrow> [] | Some v \<Rightarrow> v)"

definition put_setting :: "string \<Rightarrow> string \<Rightarrow> db \<Rightarrow> db" where
  "put_setting key v d = d\<lparr>settings := AList.update key v (settings d)\<rparr>"

definition insert_or_ignore_setting :: "string \<Rightarrow> string \<Rightarrow> db \<Rightarrow> db" where
  "insert_or_ignore_setting key v d = (if map_of (settings d) key = None then put_setting key v d else d)"

definition put_settings :: "(string \<times> string) list \<Rightarrow> db \<Rightarrow> db" where
  "put_settings kvs d = fold (\<lambda>(k, v). put_setting k v) kvs d"

definition get_setting :: "string \<Rightarrow> string option \<Rightarrow> db \<Rightarrow> string option" where
  "get_setting key dflt d = (case map_of (settings d) key of None \<Rightarrow> dflt | Some v \<Rightarrow> Some v)"

definition mark_vpn_config_updated :: "int \<Rightarrow> db \<Rightarrow> int \<times> db" where
  "mark_vpn_config_updated now d =
     (let d1 = put_setting ''vpn.config_updated_at'' (iso_text (iso now)) d;
          d2 = d1\<lparr>vpn_state := (vpn_state d1)\<lparr>desired_revision := desired_revision (vpn_state d1) + 1,
                                          desired_updated_at := Some (iso now)\<rparr>\<rparr>
      in (desired_revision (vpn_state d2), d2))"

definition bump_revision :: "int \<Rightarrow> db \<Rightarrow> db" where
  "bump_revision now d = snd (mark_vpn_config_updated now d)"

definition is_vpn_setting :: "string \<Rightarrow> bool" where
  "is_vpn_setting key \<longleftrightarrow> key = ''current_ip'' \<or>
     list_ex (\<lambda>p. starts_with p key)
       [''vless.'', ''hysteria.'', ''amnezia.'', ''config.vless_'', ''config.hysteria_'', ''config.amnezia_'']"

definition set_setting :: "int \<Rightarrow> string \<Rightarrow> string \<Rightarrow> db \<Rightarrow> db" where
  "set_setting now key v d =
     (let previous = setting d key; d1 = put_setting key v d
      in if is_vpn_setting key \<and> previous \<noteq> v then bump_revision now d1 else d1)"

text \<open>The owner of whatever runs on the server, lease or not (\<open>_active_operation_owner\<close>).\<close>

definition active_operation_owner :: "db \<Rightarrow> lease_owner option" where
  "active_operation_owner d =
     (case lease_of d of
        Some l \<Rightarrow> Some (le_owner l)
      | None \<Rightarrow>
          (case select_first (\<lambda>r. active (in_status r)) (install_ops d) of
             Some r \<Rightarrow> Some (LeaseOwner Install (in_id r))
           | None \<Rightarrow>
               (case select_first (\<lambda>r. active (ip_status r)) (ip_ops d) of
                  Some r \<Rightarrow> Some (LeaseOwner IpChange (ip_id r))
                | None \<Rightarrow>
                    (case select_first (\<lambda>r. active (sv_status r)) (server_ops d) of
                       Some r \<Rightarrow> Some (LeaseOwner Server (sv_id r))
                     | None \<Rightarrow> None))))"

definition set_settings :: "int \<Rightarrow> (string \<times> string) list \<Rightarrow> bool \<Rightarrow> bool \<Rightarrow> db \<Rightarrow> exn + db" where
  "set_settings now kvs mark_updated require_idle d =
     (case (if require_idle then active_operation_owner d else None) of
        Some owner \<Rightarrow> Inl (OperationBusyError owner)
      | None \<Rightarrow>
          (let vpn_changed = mark_updated \<and>
                 list_ex (\<lambda>(k, v). is_vpn_setting k \<and> setting d k \<noteq> v) kvs;
               d1 = put_settings kvs d
           in Inr (if vpn_changed then bump_revision now d1 else d1)))"

section \<open>Addresses\<close>

text \<open>
  \<open>ipaddress.ip_network(f"{prefix}.0/24")\<close> accepts exactly three dotted decimal octets, at most
  three digits each, none above 255 and none with a leading zero.
\<close>

definition parse_octet :: "string \<Rightarrow> nat option" where
  "parse_octet s =
     (if s = [] \<or> 3 < length s \<or> \<not> list_all is_digit s \<or> (s \<noteq> ''0'' \<and> hd s = CHR ''0'') then None
      else let n = digits_value 0 s in if 255 < n then None else Some n)"

definition amnezia_network :: "config \<Rightarrow> db \<Rightarrow> exn + nat \<times> nat \<times> nat" where
  "amnezia_network cfg d =
     (let configured = setting d ''config.amnezia_network_prefix'';
          prefix = (if configured = [] then c_amnezia_network_prefix cfg else configured)
      in case map parse_octet (split_on (CHR ''.'') prefix) of
           [Some a, Some b, Some c] \<Rightarrow> Inr (a, b, c)
         | _ \<Rightarrow> Inl (ValueError (''Invalid AmneziaWG /24 network prefix: '' @ prefix)))"

definition host_address :: "nat \<times> nat \<times> nat \<Rightarrow> nat \<Rightarrow> string" where
  "host_address net k = (case net of (a, b, c) \<Rightarrow>
     join ''.'' [nat_str a, nat_str b, nat_str c, nat_str k])"

definition used_addresses :: "db \<Rightarrow> string list" where
  "used_addresses d =
     filter (\<lambda>a. a \<noteq> []) (List.map_filter cl_awg_ipv4 (clients d)) @
     filter (\<lambda>a. a \<noteq> []) (map pe_ipv4 (peers d))"

definition first_free :: "string list \<Rightarrow> nat \<times> nat \<times> nat \<Rightarrow> string option" where
  "first_free used net = List.find (\<lambda>a. a \<notin> set used) (map (host_address net) [2..<255])"

definition allocate_amnezia_address :: "config \<Rightarrow> db \<Rightarrow> exn + string" where
  "allocate_amnezia_address cfg d =
     bind_result (amnezia_network cfg d) (\<lambda>net.
       case first_free (used_addresses d) net of
         Some a \<Rightarrow> Inr a
       | None \<Rightarrow> Inl (RuntimeError (''AmneziaWG address pool '' @ host_address net 0 @ ''/24 is exhausted'')))"

definition legacy_or_free_amnezia_address :: "config \<Rightarrow> db \<Rightarrow> int \<Rightarrow> exn + string" where
  "legacy_or_free_amnezia_address cfg d client_id =
     bind_result (amnezia_network cfg d) (\<lambda>net.
       let octet = client_id + 1 in
       if 2 \<le> octet \<and> octet \<le> 254 then
         (let preferred = host_address net (nat octet) in
          if list_ex (\<lambda>c. cl_awg_ipv4 c = Some preferred) (clients d) \<or>
             list_ex (\<lambda>p. pe_ipv4 p = preferred) (peers d)
          then allocate_amnezia_address cfg d else Inr preferred)
       else allocate_amnezia_address cfg d)"

section \<open>Clients\<close>

text \<open>The secrets \<open>create_client\<close> draws.\<close>

record client_secrets =
  cs_token :: string
  cs_vless_uuid :: string
  cs_hysteria_password :: string
  cs_private_key :: string
  cs_preshared_key :: string

definition create_client ::
  "config \<Rightarrow> (string \<Rightarrow> string) \<Rightarrow> int \<Rightarrow> int \<Rightarrow> client_secrets \<Rightarrow> string \<Rightarrow> client_row tx" where
  "create_client cfg pub created now sec name d =
     bind_result (allocate_amnezia_address cfg d) (\<lambda>ipv4.
       if cs_token sec \<in> cl_token ` set (clients d) then Inl (IntegrityError ''clients.token'')
       else
         (let row = \<lparr>cl_id = client_seq d + 1, cl_name = name, cl_token = cs_token sec,
                     cl_enabled = True, cl_vless_uuid = cs_vless_uuid sec,
                     cl_hysteria_password = cs_hysteria_password sec, cl_created_at = iso created,
                     cl_awg_private = Some (cs_private_key sec),
                     cl_awg_public = Some (pub (cs_private_key sec)),
                     cl_awg_preshared = Some (cs_preshared_key sec), cl_awg_ipv4 = Some ipv4,
                     cl_deleted_at = None, cl_deleted_revision = None\<rparr>
          in Inr (row, bump_revision now (d\<lparr>clients := clients d @ [row], client_seq := client_seq d + 1\<rparr>))))"

definition live_client :: "int \<Rightarrow> client_row \<Rightarrow> bool" where
  "live_client cid c \<longleftrightarrow> cl_id c = cid \<and> cl_deleted_at c = None"

definition list_clients :: "db \<Rightarrow> client_row list" where
  "list_clients d = rev (filter (\<lambda>c. cl_deleted_at c = None) (clients d))"

definition get_client_by_token :: "string \<Rightarrow> db \<Rightarrow> client_row option" where
  "get_client_by_token token d =
     select_first (\<lambda>c. cl_token c = token \<and> cl_deleted_at c = None) (clients d)"

definition get_client_by_id :: "int \<Rightarrow> db \<Rightarrow> client_row option" where
  "get_client_by_id cid d = select_first (live_client cid) (clients d)"

definition set_client_enabled :: "int \<Rightarrow> int \<Rightarrow> bool \<Rightarrow> db \<Rightarrow> db" where
  "set_client_enabled now cid enabled d =
     (case select_first (live_client cid) (clients d) of
        None \<Rightarrow> d
      | Some c \<Rightarrow>
          if cl_enabled c = enabled then d
          else bump_revision now
            (d\<lparr>clients := update_where (live_client cid) (\<lambda>c. c\<lparr>cl_enabled := enabled\<rparr>) (clients d)\<rparr>))"

definition update_client_name :: "int \<Rightarrow> int \<Rightarrow> string \<Rightarrow> db \<Rightarrow> db" where
  "update_client_name now cid name d =
     (case select_first (live_client cid) (clients d) of
        None \<Rightarrow> d
      | Some c \<Rightarrow>
          if cl_name c = name then d
          else bump_revision now
            (d\<lparr>clients := update_where (live_client cid) (\<lambda>c. c\<lparr>cl_name := name\<rparr>) (clients d)\<rparr>))"

definition delete_client :: "int \<Rightarrow> int \<Rightarrow> int \<Rightarrow> db \<Rightarrow> db" where
  "delete_client now deleted_now cid d =
     (case select_first (live_client cid) (clients d) of
        None \<Rightarrow> d
      | Some _ \<Rightarrow>
          (let (revision, d1) = mark_vpn_config_updated now d in
           d1\<lparr>clients := update_where (live_client cid)
               (\<lambda>c. c\<lparr>cl_deleted_at := Some (iso deleted_now), cl_deleted_revision := Some revision\<rparr>)
               (clients d1)\<rparr>))"

definition purgeable :: "int \<Rightarrow> client_row \<Rightarrow> bool" where
  "purgeable applied c \<longleftrightarrow> (case cl_deleted_revision c of None \<Rightarrow> False | Some r \<Rightarrow> r \<le> applied)"

definition purge_applied_deleted_clients :: "db \<Rightarrow> nat \<times> db" where
  "purge_applied_deleted_clients d =
     (case applied_revision (vpn_state d) of
        None \<Rightarrow> (0, d)
      | Some applied \<Rightarrow>
          (row_count (purgeable applied) (clients d), drop_clients (purgeable applied) d))"

definition upsert_client_stats :: "int \<Rightarrow> stats_row \<Rightarrow> db \<Rightarrow> exn + db" where
  "upsert_client_stats now s d =
     (let row = s\<lparr>st_updated_at := iso now\<rparr>; cid = st_client_id s in
      if cid \<in> st_client_id ` set (client_stats d) then
        Inr (d\<lparr>client_stats := update_where (\<lambda>r. st_client_id r = cid)
               (\<lambda>r. row\<lparr>st_last_seen_at :=
                   (case st_last_seen_at row of None \<Rightarrow> st_last_seen_at r | Some x \<Rightarrow> Some x)\<rparr>)
               (client_stats d)\<rparr>)
      else if cid \<in> cl_id ` set (clients d) then Inr (d\<lparr>client_stats := client_stats d @ [row]\<rparr>)
      else Inl (IntegrityError ''client_stats.client_id''))"

definition get_client_stats :: "int \<Rightarrow> db \<Rightarrow> stats_row option" where
  "get_client_stats cid d = select_first (\<lambda>s. st_client_id s = cid) (client_stats d)"

text \<open>
  \<open>LEFT JOIN client_stats\<close>: the five counters of a client without a row are zero (\<open>COALESCE\<close>),
  its two time stamps \<open>NULL\<close>.
\<close>

type_synonym stats_columns = "int list \<times> string option \<times> ts option"

definition stats_columns :: "stats_row option \<Rightarrow> stats_columns" where
  "stats_columns s = (case s of
       None \<Rightarrow> ([0, 0, 0, 0, 0], None, None)
     | Some s \<Rightarrow> ([st_vless_uplink s, st_vless_downlink s, st_amnezia_rx s, st_amnezia_tx s,
                  st_amnezia_latest_handshake s], st_last_seen_at s, Some (st_updated_at s)))"

definition list_clients_with_stats :: "db \<Rightarrow> (client_row \<times> stats_columns) list" where
  "list_clients_with_stats d =
     map (\<lambda>c. (c, stats_columns (get_client_stats (cl_id c) d))) (list_clients d)"

section \<open>Router peers\<close>

definition peer_of :: "string \<Rightarrow> db \<Rightarrow> peer_row option" where
  "peer_of rid d = select_first (\<lambda>p. pe_router_id p = rid) (peers d)"

definition create_router_amnezia_peer ::
  "config \<Rightarrow> (string \<Rightarrow> string) \<Rightarrow> string \<Rightarrow> string \<Rightarrow> string \<Rightarrow> (peer_row \<times> bool) tx" where
  "create_router_amnezia_peer cfg pub priv psk rid d =
     (case peer_of rid d of
        Some p \<Rightarrow> Inr ((p, False), d)
      | None \<Rightarrow>
          if rid \<notin> ro_router_id ` set (routers d) then Inl (LookupError ''Router does not exist'')
          else bind_result (allocate_amnezia_address cfg d) (\<lambda>ipv4.
            if pub priv \<in> pe_public_key ` set (peers d) \<or> ipv4 \<in> pe_ipv4 ` set (peers d)
            then Inl (IntegrityError ''router_amnezia_peers'')
            else
              (let p = \<lparr>pe_router_id = rid, pe_private_key = priv, pe_public_key = pub priv,
                        pe_preshared_key = psk, pe_ipv4 = ipv4\<rparr>
               in Inr ((p, True), d\<lparr>peers := peers d @ [p]\<rparr>))))"

definition ensure_router_amnezia_peer ::
  "config \<Rightarrow> (string \<Rightarrow> string) \<Rightarrow> int \<Rightarrow> string \<Rightarrow> string \<Rightarrow> string \<Rightarrow> peer_row tx" where
  "ensure_router_amnezia_peer cfg pub now priv psk rid d =
     bind_result (create_router_amnezia_peer cfg pub priv psk rid d) (\<lambda>((p, created), d1).
       Inr (p, if created then bump_revision now d1 else d1))"

definition router_client :: "db \<Rightarrow> router_row \<Rightarrow> client_row option" where
  "router_client d r = select_first (\<lambda>c. cl_id c = ro_client_id r) (clients d)"

text \<open>The peers of enabled routers of enabled, live clients: the \<open>JOIN\<close> both readers use.\<close>

definition peer_router :: "db \<Rightarrow> peer_row \<Rightarrow> router_row option" where
  "peer_router d p = select_first (\<lambda>r. ro_router_id r = pe_router_id p) (routers d)"

definition served_peer :: "db \<Rightarrow> peer_row \<Rightarrow> (int \<times> peer_row) option" where
  "served_peer d p =
     (case peer_router d p of
        None \<Rightarrow> None
      | Some r \<Rightarrow>
          (case router_client d r of
             None \<Rightarrow> None
           | Some c \<Rightarrow>
               if ro_enabled r \<and> cl_enabled c \<and> cl_deleted_at c = None then Some (cl_id c, p) else None))"

definition list_router_amnezia_public_keys :: "db \<Rightarrow> (int \<times> string) list" where
  "list_router_amnezia_public_keys d =
     map (\<lambda>(cid, p). (cid, pe_public_key p))
       (sort_key (\<lambda>(cid, p). cid) (sort_key (\<lambda>(cid, p). pe_router_id p)
         (List.map_filter (served_peer d) (peers d))))"

section \<open>The settings store\<close>

locale key_value_store =
  fixes get :: "'s \<Rightarrow> 'k \<Rightarrow> 'v" and put :: "'k \<Rightarrow> 'v \<Rightarrow> 's \<Rightarrow> 's"
  assumes get_put: "get (put k v s) k' = (if k' = k then v else get s k')"
begin

definition put_all :: "('k \<times> 'v) list \<Rightarrow> 's \<Rightarrow> 's" where
  "put_all kvs s = fold (\<lambda>(k, v). put k v) kvs s"

lemma get_put_all:
  "get (put_all kvs s) k = (case map_of (rev kvs) k of None \<Rightarrow> get s k | Some v \<Rightarrow> v)"
  by (induction kvs arbitrary: s) (auto simp: put_all_def get_put map_add_def split: option.split)

lemma get_put_all_distinct:
  "distinct (map fst kvs) \<Longrightarrow> (k, v) \<in> set kvs \<Longrightarrow> get (put_all kvs s) k = v"
  by (simp add: get_put_all rev_map [symmetric] map_of_is_SomeI)

lemma get_put_all_other: "k \<notin> fst ` set kvs \<Longrightarrow> get (put_all kvs s) k = get s k"
  by (simp add: get_put_all map_of_eq_None_iff [THEN iffD2])

lemma put_all_idem: "get (put_all kvs (put_all kvs s)) k = get (put_all kvs s) k"
  by (auto simp: get_put_all split: option.split)

end

interpretation st: key_value_store setting put_setting
  by unfold_locales (simp add: setting_def put_setting_def update_conv')

lemma put_settings_eq: "put_settings = st.put_all"
  by (intro ext) (simp add: put_settings_def st.put_all_def)

lemmas setting_put = st.get_put

lemma put_setting_frame [frame_simps]:
  "clients (put_setting k v d) = clients d" "client_seq (put_setting k v d) = client_seq d"
  "client_stats (put_setting k v d) = client_stats d" "vpn_state (put_setting k v d) = vpn_state d"
  "snapshots (put_setting k v d) = snapshots d" "install_ops (put_setting k v d) = install_ops d"
  "install_seq (put_setting k v d) = install_seq d" "ip_ops (put_setting k v d) = ip_ops d"
  "ip_seq (put_setting k v d) = ip_seq d" "server_ops (put_setting k v d) = server_ops d"
  "server_seq (put_setting k v d) = server_seq d" "leases (put_setting k v d) = leases d"
  "routers (put_setting k v d) = routers d" "credentials (put_setting k v d) = credentials d"
  "apply_results (put_setting k v d) = apply_results d" "apply_seq (put_setting k v d) = apply_seq d"
  "peers (put_setting k v d) = peers d"
  by (simp_all add: put_setting_def)

lemma put_settings_frame [frame_simps]:
  "clients (put_settings kvs d) = clients d" "vpn_state (put_settings kvs d) = vpn_state d"
  "snapshots (put_settings kvs d) = snapshots d" "install_ops (put_settings kvs d) = install_ops d"
  "ip_ops (put_settings kvs d) = ip_ops d" "server_ops (put_settings kvs d) = server_ops d"
  "leases (put_settings kvs d) = leases d" "routers (put_settings kvs d) = routers d"
  "credentials (put_settings kvs d) = credentials d" "peers (put_settings kvs d) = peers d"
  "apply_results (put_settings kvs d) = apply_results d"
  unfolding put_settings_def
  by (induction kvs arbitrary: d; simp add: frame_simps split: prod.split)+

lemma bump_revision_frame [frame_simps]:
  "clients (bump_revision now d) = clients d" "client_seq (bump_revision now d) = client_seq d"
  "client_stats (bump_revision now d) = client_stats d"
  "snapshots (bump_revision now d) = snapshots d" "install_ops (bump_revision now d) = install_ops d"
  "install_seq (bump_revision now d) = install_seq d" "ip_ops (bump_revision now d) = ip_ops d"
  "ip_seq (bump_revision now d) = ip_seq d" "server_ops (bump_revision now d) = server_ops d"
  "server_seq (bump_revision now d) = server_seq d" "leases (bump_revision now d) = leases d"
  "routers (bump_revision now d) = routers d" "credentials (bump_revision now d) = credentials d"
  "apply_results (bump_revision now d) = apply_results d"
  "apply_seq (bump_revision now d) = apply_seq d" "peers (bump_revision now d) = peers d"
  by (simp_all add: bump_revision_def mark_vpn_config_updated_def Let_def frame_simps)

lemma bump_revision_state [simp]:
  "desired_revision (vpn_state (bump_revision now d)) = desired_revision (vpn_state d) + 1"
  "applied_revision (vpn_state (bump_revision now d)) = applied_revision (vpn_state d)"
  "applied_updated_at (vpn_state (bump_revision now d)) = applied_updated_at (vpn_state d)"
  "desired_updated_at (vpn_state (bump_revision now d)) = Some (iso now)"
  by (simp_all add: bump_revision_def mark_vpn_config_updated_def Let_def frame_simps)

lemma mark_vpn_config_updated_eq:
  "mark_vpn_config_updated now d = (desired_revision (vpn_state d) + 1, bump_revision now d)"
  by (simp add: bump_revision_def mark_vpn_config_updated_def Let_def frame_simps)

lemma setting_state [simp]: "setting (d\<lparr>vpn_state := s\<rparr>) k = setting d k"
  by (simp add: setting_def)

lemma setting_clients [simp]: "setting (d\<lparr>clients := cs\<rparr>) k = setting d k"
  by (simp add: setting_def)

lemma setting_bump_revision:
  "setting (bump_revision now d) k =
     (if k = ''vpn.config_updated_at'' then iso_text (iso now) else setting d k)"
  by (simp add: bump_revision_def mark_vpn_config_updated_def Let_def setting_put)

lemma config_updated_at_not_vpn [simp]: "\<not> is_vpn_setting ''vpn.config_updated_at''"
  by (simp add: is_vpn_setting_def starts_with_def)

lemma set_setting_reads:
  "setting (set_setting now k v d) k' =
     (if k' = k then v
      else if k' = ''vpn.config_updated_at'' \<and> is_vpn_setting k \<and> setting d k \<noteq> v then iso_text (iso now)
      else setting d k')"
  by (auto simp: set_setting_def Let_def setting_put setting_bump_revision)

lemma set_setting_revision:
  "desired_revision (vpn_state (set_setting now k v d)) =
     desired_revision (vpn_state d) + (if is_vpn_setting k \<and> setting d k \<noteq> v then 1 else 0)"
  by (simp add: set_setting_def Let_def frame_simps)

section \<open>The address pool\<close>

locale finite_pool =
  fixes address :: "nat \<Rightarrow> 'a" and lo hi :: nat
  assumes address_inj: "i \<in> {lo..<hi} \<Longrightarrow> j \<in> {lo..<hi} \<Longrightarrow> address i = address j \<Longrightarrow> i = j"
begin

definition free :: "'a list \<Rightarrow> 'a option" where
  "free used = List.find (\<lambda>a. a \<notin> set used) (map address [lo..<hi])"

lemma free_Some:
  assumes "free used = Some a"
  shows "a \<notin> set used" and "\<exists>k \<in> {lo..<hi}. a = address k \<and> (\<forall>j \<in> {lo..<k}. address j \<in> set used)"
proof -
  obtain i where i: "i < hi - lo" "a = address (lo + i)" "a \<notin> set used"
      "\<And>j. j < i \<Longrightarrow> address (lo + j) \<in> set used"
    using assms by (auto simp: free_def find_Some_iff)
  show "a \<notin> set used" by (rule i)
  have "address j \<in> set used" if "j \<in> {lo..<lo + i}" for j
    using i(4) [of "j - lo"] that by auto
  with i show "\<exists>k \<in> {lo..<hi}. a = address k \<and> (\<forall>j \<in> {lo..<k}. address j \<in> set used)"
    by (intro bexI [of _ "lo + i"]) auto
qed

lemma free_None_iff: "free used = None \<longleftrightarrow> address ` {lo..<hi} \<subseteq> set used"
  by (auto simp: free_def find_None_iff)

lemma free_enough: "card (set used) < hi - lo \<Longrightarrow> free used \<noteq> None"
proof
  assume few: "card (set used) < hi - lo" and "free used = None"
  then have "card (address ` {lo..<hi}) \<le> card (set used)"
    by (simp add: free_None_iff card_mono)
  moreover have "inj_on address {lo..<hi}" using address_inj by (intro inj_onI) auto
  ultimately show False using few by (simp add: card_image)
qed

end

lemma nat_str_no_dot: "CHR ''.'' \<notin> set (nat_str n)"
  using nat_str_digits [of n] by (auto simp: is_digit_def byte_def)

lemma host_address_split:
  "split_on (CHR ''.'') (host_address (a, b, c) k) = [nat_str a, nat_str b, nat_str c, nat_str k]"
  unfolding host_address_def prod.case by (rule split_on_join) (simp_all add: nat_str_no_dot)

lemma host_address_inj: "host_address net i = host_address net' j \<longleftrightarrow> net = net' \<and> i = j"
proof
  obtain a b c a' b' c' where n: "net = (a, b, c)" "net' = (a', b', c')" by (cases net; cases net')
  assume "host_address net i = host_address net' j"
  then have "[nat_str a, nat_str b, nat_str c, nat_str i] = [nat_str a', nat_str b', nat_str c', nat_str j]"
    unfolding n by (metis host_address_split)
  then show "net = net' \<and> i = j" by (simp add: n nat_str_inj)
qed simp

lemma host_address_not_Nil [simp]: "host_address net k \<noteq> []"
  by (cases net) (simp add: host_address_def)

interpretation pool: finite_pool "host_address net" 2 255 for net
  by unfold_locales (simp add: host_address_inj)

lemma first_free_eq: "first_free used net = pool.free net used"
  by (simp add: first_free_def pool.free_def)

lemma allocate_cases:
  obtains (bad_prefix) e where "amnezia_network cfg d = Inl e" "allocate_amnezia_address cfg d = Inl e"
  | (exhausted) net where "amnezia_network cfg d = Inr net"
      "\<forall>k \<in> {2..<255}. host_address net k \<in> set (used_addresses d)"
      "allocate_amnezia_address cfg d =
         Inl (RuntimeError (''AmneziaWG address pool '' @ host_address net 0 @ ''/24 is exhausted''))"
  | (free) net k where "amnezia_network cfg d = Inr net" "k \<in> {2..<255}"
      "host_address net k \<notin> set (used_addresses d)"
      "\<forall>j \<in> {2..<k}. host_address net j \<in> set (used_addresses d)"
      "allocate_amnezia_address cfg d = Inr (host_address net k)"
proof (cases "amnezia_network cfg d")
  case (Inl e)
  then show ?thesis by (intro bad_prefix) (simp_all add: allocate_amnezia_address_def)
next
  case (Inr net)
  show ?thesis
  proof (cases "first_free (used_addresses d) net")
    case None
    then show ?thesis
      using Inr pool.free_None_iff [of net "used_addresses d"]
      by (intro exhausted) (auto simp: allocate_amnezia_address_def first_free_eq)
  next
    case (Some a)
    then have "pool.free net (used_addresses d) = Some a" by (simp add: first_free_eq)
    from pool.free_Some [OF this] Inr Some show ?thesis
      by (auto simp: allocate_amnezia_address_def intro: free)
  qed
qed

lemma allocate_fresh:
  assumes "allocate_amnezia_address cfg d = Inr a"
  shows "a \<noteq> []" and "a \<notin> set (used_addresses d)"
  by (rule allocate_cases [of cfg d]; use assms in simp)+

lemma allocate_succeeds:
  assumes "amnezia_network cfg d = Inr net" and "card (set (used_addresses d)) < 253"
  shows "succeeds (allocate_amnezia_address cfg d)"
  using pool.free_enough [of "used_addresses d"] assms
  by (auto simp: allocate_amnezia_address_def first_free_eq split: option.split)

lemma legacy_or_free_cases:
  assumes "legacy_or_free_amnezia_address cfg d cid = Inr a"
  obtains "allocate_amnezia_address cfg d = Inr a"
  | net where "a = host_address net (nat (cid + 1))"
      "\<forall>c \<in> set (clients d). cl_awg_ipv4 c \<noteq> Some a" "\<forall>p \<in> set (peers d). pe_ipv4 p \<noteq> a"
proof (cases "amnezia_network cfg d")
  case (Inr net)
  show ?thesis
  proof (cases "2 \<le> cid + 1 \<and> cid + 1 \<le> 254 \<and>
      \<not> (list_ex (\<lambda>c. cl_awg_ipv4 c = Some (host_address net (nat (cid + 1)))) (clients d) \<or>
         list_ex (\<lambda>p. pe_ipv4 p = host_address net (nat (cid + 1))) (peers d))")
    case True
    with assms Inr have "a = host_address net (nat (cid + 1))"
      by (simp add: legacy_or_free_amnezia_address_def Let_def)
    with True that(2) show ?thesis by (simp add: list_ex_iff)
  next
    case False
    with assms Inr have "allocate_amnezia_address cfg d = Inr a"
      by (simp add: legacy_or_free_amnezia_address_def Let_def split: if_splits)
    then show ?thesis by (rule that(1))
  qed
qed (use assms in \<open>simp add: legacy_or_free_amnezia_address_def\<close>)

lemma legacy_or_free_fresh:
  assumes "legacy_or_free_amnezia_address cfg d cid = Inr a"
  shows "a \<noteq> [] \<and> a \<notin> set (used_addresses d)"
  using assms
proof (cases rule: legacy_or_free_cases)
  case (2 net)
  then show ?thesis by (auto simp: used_addresses_def List.map_filter_def)
qed (simp add: allocate_fresh)

text \<open>No two rows, client or peer, living or deleted, hold the same address.\<close>

definition addresses_ok :: "db \<Rightarrow> bool" where
  "addresses_ok d \<longleftrightarrow> distinct (used_addresses d)"

lemma used_addresses_bump [simp]: "used_addresses (bump_revision now d) = used_addresses d"
  by (simp add: used_addresses_def frame_simps)

lemma used_addresses_new_client:
  assumes "cl_awg_ipv4 c = Some a" and "a \<noteq> []"
  obtains xs ys where "used_addresses d = xs @ ys"
    and "used_addresses (d\<lparr>clients := clients d @ [c], client_seq := n\<rparr>) = xs @ a # ys"
  using assms
  by (intro that [of "filter (\<lambda>a. a \<noteq> []) (List.map_filter cl_awg_ipv4 (clients d))"
        "filter (\<lambda>a. a \<noteq> []) (map pe_ipv4 (peers d))"])
     (simp_all add: used_addresses_def List.map_filter_def)

lemma used_addresses_new_peer:
  "used_addresses (d\<lparr>peers := peers d @ [p]\<rparr>) =
     used_addresses d @ filter (\<lambda>a. a \<noteq> []) [pe_ipv4 p]"
  by (simp add: used_addresses_def)

section \<open>Clients: what the operations do\<close>

lemma create_client_result:
  assumes "create_client cfg pub created now sec name d = Inr (row, d')"
  obtains ipv4 where "allocate_amnezia_address cfg d = Inr ipv4"
    and "cs_token sec \<notin> cl_token ` set (clients d)"
    and "d' = bump_revision now (d\<lparr>clients := clients d @ [row], client_seq := client_seq d + 1\<rparr>)"
    and "cl_id row = client_seq d + 1" "cl_name row = name" "cl_token row = cs_token sec"
      "cl_enabled row" "cl_awg_ipv4 row = Some ipv4" "cl_deleted_at row = None"
      "cl_deleted_revision row = None" "cl_awg_public row = Some (pub (cs_private_key sec))"
  using assms
  by (cases "allocate_amnezia_address cfg d") (auto simp: create_client_def Let_def split: if_splits)

lemma create_client_ok:
  assumes "create_client cfg pub created now sec name d = Inr (row, d')"
    and "clients_ok d" and "addresses_ok d"
  shows "clients_ok d'" and "addresses_ok d'"
proof -
  obtain ipv4 where ip: "allocate_amnezia_address cfg d = Inr ipv4"
    and tok: "cs_token sec \<notin> cl_token ` set (clients d)"
    and d': "d' = bump_revision now (d\<lparr>clients := clients d @ [row], client_seq := client_seq d + 1\<rparr>)"
    and row: "cl_id row = client_seq d + 1" "cl_token row = cs_token sec" "cl_awg_ipv4 row = Some ipv4"
    using assms(1) by (rule create_client_result)
  have "client_seq d + 1 \<notin> cl_id ` set (clients d)"
    using assms(2) by (force simp: clients_ok_def)
  with tok assms(2) row show "clients_ok d'"
    by (auto simp: d' clients_ok_def frame_simps)
  obtain xs ys where "used_addresses d = xs @ ys"
    "used_addresses (d\<lparr>clients := clients d @ [row], client_seq := client_seq d + 1\<rparr>) = xs @ ipv4 # ys"
    using row(3) allocate_fresh(1) [OF ip] by (rule used_addresses_new_client)
  with allocate_fresh [OF ip] assms(3) show "addresses_ok d'"
    by (simp add: d' addresses_ok_def)
qed

lemma peer_ok:
  assumes "create_router_amnezia_peer cfg pub priv psk rid d = Inr ((p, created), d')"
    and "addresses_ok d"
  shows "addresses_ok d'"
proof (cases created)
  case False
  with assms show ?thesis
    by (cases "allocate_amnezia_address cfg d")
       (auto simp: create_router_amnezia_peer_def Let_def split: option.splits if_splits)
next
  case True
  then obtain a where "allocate_amnezia_address cfg d = Inr a" "pe_ipv4 p = a"
      "d' = d\<lparr>peers := peers d @ [p]\<rparr>"
    using assms(1)
    by (cases "allocate_amnezia_address cfg d")
       (auto simp: create_router_amnezia_peer_def Let_def split: option.splits if_splits)
  with allocate_fresh [of cfg d a] assms(2) show ?thesis
    by (auto simp: addresses_ok_def used_addresses_new_peer)
qed

lemma get_client_by_id_unique:
  assumes "clients_ok d" and "c \<in> set (clients d)" and "cl_deleted_at c = None"
  shows "get_client_by_id (cl_id c) d = Some c"
proof -
  have "select_first (live_client (cl_id c)) (clients d) \<noteq> None"
    using assms by (auto simp: select_first_None_iff live_client_def)
  then obtain x where x: "select_first (live_client (cl_id c)) (clients d) = Some x" by auto
  then have "x \<in> set (clients d)" "cl_id x = cl_id c"
    using select_first_SomeD [OF x] by (auto simp: live_client_def)
  then have "x = c" using assms row_key_inj [of cl_id "clients d" x c] by (simp add: clients_ok_def)
  with x show ?thesis by (simp add: get_client_by_id_def)
qed

lemma set_client_enabled_cases:
  obtains (unchanged) "set_client_enabled now cid en d = d"
      "\<forall>c. get_client_by_id cid d = Some c \<longrightarrow> cl_enabled c = en"
  | (changed) c where "get_client_by_id cid d = Some c" "cl_enabled c \<noteq> en"
      "set_client_enabled now cid en d = bump_revision now
         (d\<lparr>clients := update_where (live_client cid) (\<lambda>c. c\<lparr>cl_enabled := en\<rparr>) (clients d)\<rparr>)"
  by (cases "get_client_by_id cid d"; cases "cl_enabled (the (get_client_by_id cid d)) = en")
     (auto simp: set_client_enabled_def get_client_by_id_def)

lemma delete_client_Some:
  assumes "get_client_by_id cid d = Some c"
  shows "clients (delete_client now t cid d) =
      update_where (live_client cid) (\<lambda>c. c\<lparr>cl_deleted_at := Some (iso t),
        cl_deleted_revision := Some (desired_revision (vpn_state d) + 1)\<rparr>) (clients d)"
    and "desired_revision (vpn_state (delete_client now t cid d)) = desired_revision (vpn_state d) + 1"
    and "applied_revision (vpn_state (delete_client now t cid d)) = applied_revision (vpn_state d)"
  using assms
  by (simp_all add: delete_client_def get_client_by_id_def mark_vpn_config_updated_eq frame_simps)

lemma deleted_client_hidden: "get_client_by_id cid (delete_client now t cid d) = None"
proof (cases "get_client_by_id cid d")
  case None
  then have "delete_client now t cid d = d" by (simp add: delete_client_def get_client_by_id_def)
  with None show ?thesis by simp
next
  case (Some c)
  have "\<forall>x \<in> set (clients (delete_client now t cid d)). \<not> live_client cid x"
    unfolding delete_client_Some(1) [OF Some]
    by (rule update_where_ballI) (simp_all add: live_client_def)
  then show ?thesis by (simp add: get_client_by_id_def select_first_None_iff)
qed

lemma delete_client_keeps_row:
  "map cl_id (clients (delete_client now t cid d)) = map cl_id (clients d)"
proof (cases "get_client_by_id cid d")
  case (Some c)
  then show ?thesis by (simp add: delete_client_Some)
qed (simp add: delete_client_def get_client_by_id_def)

section \<open>Purging\<close>

lemma purge_clients:
  "clients (snd (purge_applied_deleted_clients d)) =
     (case applied_revision (vpn_state d) of
        None \<Rightarrow> clients d
      | Some applied \<Rightarrow> delete_where (purgeable applied) (clients d))"
  by (simp add: purge_applied_deleted_clients_def frame_simps split: option.split)

lemma purge_frame [frame_simps]:
  "settings (snd (purge_applied_deleted_clients d)) = settings d"
  "vpn_state (snd (purge_applied_deleted_clients d)) = vpn_state d"
  "snapshots (snd (purge_applied_deleted_clients d)) = snapshots d"
  "install_ops (snd (purge_applied_deleted_clients d)) = install_ops d"
  "ip_ops (snd (purge_applied_deleted_clients d)) = ip_ops d"
  "server_ops (snd (purge_applied_deleted_clients d)) = server_ops d"
  "leases (snd (purge_applied_deleted_clients d)) = leases d"
  by (simp_all add: purge_applied_deleted_clients_def frame_simps split: option.split)

lemma purge_refs_ok: "refs_ok d \<Longrightarrow> refs_ok (snd (purge_applied_deleted_clients d))"
  by (simp add: purge_applied_deleted_clients_def drop_clients_refs split: option.split)

lemma default_network:
  assumes "setting d ''config.amnezia_network_prefix'' = []"
  shows "amnezia_network default_config d = Inr (10, 66, 66)"
proof -
  have "map parse_octet (split_on (CHR ''.'') (c_amnezia_network_prefix default_config)) =
      [Some 10, Some 66, Some 66]"
    by code_simp
  then show ?thesis using assms by (simp add: amnezia_network_def)
qed

section \<open>Properties\<close>

text \<open>\<open>set_setting\<close> stores the value, leaves every other setting alone except the time stamp of
  the VPN configuration, and moves the desired revision on by one exactly when a setting of the VPN
  configuration gets a different value.\<close>

theorem set_setting_contract:
  "setting (set_setting now k v d) k = v \<and>
   (\<forall>k'. setting (set_setting now k v d) k' = setting d k' \<or> k' \<in> {k, ''vpn.config_updated_at''}) \<and>
   desired_revision (vpn_state (set_setting now k v d)) =
     desired_revision (vpn_state d) + (if is_vpn_setting k \<and> setting d k \<noteq> v then 1 else 0)"
  by (auto simp: set_setting_reads set_setting_revision)

text \<open>A new client gets the lowest free host address of the AmneziaWG network, which no client,
  deleted ones included, and no router peer holds; allocation fails exactly when the addresses
  from .2 to .254 are all taken.\<close>

theorem allocation_is_lowest_free:
  assumes "amnezia_network cfg d = Inr net"
  shows "case allocate_amnezia_address cfg d of
     Inr a \<Rightarrow> a \<notin> set (used_addresses d) \<and>
        (\<exists>k \<in> {2..<255}. a = host_address net k \<and> (\<forall>j \<in> {2..<k}. host_address net j \<in> set (used_addresses d)))
   | Inl e \<Rightarrow> e = RuntimeError (''AmneziaWG address pool '' @ host_address net 0 @ ''/24 is exhausted'') \<and>
        (\<forall>k \<in> {2..<255}. host_address net k \<in> set (used_addresses d))"
proof (cases rule: allocate_cases [of cfg d])
  case (free net' k)
  with assms have "net' = net" by simp
  with free show ?thesis by auto
qed (use assms in auto)

theorem allocation_is_lowest_free_witness:
  "allocate_amnezia_address default_config empty_db = Inr ''10.66.66.2''"
proof -
  have net: "amnezia_network default_config empty_db = Inr (10, 66, 66)"
    by (rule default_network) (simp add: setting_def empty_db_def)
  have none: "used_addresses empty_db = []" by (simp add: used_addresses_def empty_db_def)
  have two: "host_address (10, 66, 66) 2 = ''10.66.66.2''" by code_simp
  from allocation_is_lowest_free [OF net] show ?thesis
    unfolding none by (cases "allocate_amnezia_address default_config empty_db") (auto simp: two)
qed



text \<open>A deleted client disappears from every lookup and list at once, but its row stays, bound to
  the revision that drops it, until exactly that revision or a later one is applied; other clients
  are untouched.\<close>

theorem deleted_client_awaits_revision:
  assumes "get_client_by_id cid d = Some c"
  shows "get_client_by_id cid (delete_client now t cid d) = None \<and>
     (\<forall>c' \<in> set (list_clients (delete_client now t cid d)). cl_id c' \<noteq> cid) \<and>
     (\<exists>c' \<in> set (clients (delete_client now t cid d)). cl_id c' = cid \<and> cl_token c' = cl_token c \<and>
        (\<forall>n. purgeable n c' \<longleftrightarrow> desired_revision (vpn_state (delete_client now t cid d)) \<le> n)) \<and>
     filter (\<lambda>c. cl_id c \<noteq> cid) (clients (delete_client now t cid d)) = filter (\<lambda>c. cl_id c \<noteq> cid) (clients d)"
proof -
  let ?d = "delete_client now t cid d"
  note del = delete_client_Some [OF assms, of now t]
  have c: "c \<in> set (clients d)" "live_client cid c"
    using assms by (auto simp: get_client_by_id_def dest: select_first_SomeD)
  have gone: "get_client_by_id cid ?d = None" by (rule deleted_client_hidden)
  then have "\<forall>c' \<in> set (clients ?d). \<not> live_client cid c'"
    by (simp add: get_client_by_id_def select_first_None_iff)
  then have hidden: "\<forall>c' \<in> set (list_clients ?d). cl_id c' \<noteq> cid"
    by (auto simp: list_clients_def live_client_def)
  have "\<exists>c' \<in> set (clients ?d). cl_id c' = cid \<and> cl_token c' = cl_token c \<and>
      (\<forall>n. purgeable n c' \<longleftrightarrow> desired_revision (vpn_state ?d) \<le> n)"
    using c unfolding del(1,2) set_update_where
    by (intro bexI [OF _ imageI [OF c(1)]]) (auto simp: purgeable_def live_client_def)
  moreover have "filter (\<lambda>c. cl_id c \<noteq> cid) (update_where (live_client cid) f rows) =
      filter (\<lambda>c. cl_id c \<noteq> cid) rows"
    if "\<And>c. cl_id (f c) = cl_id c" for f rows
    by (induction rows) (auto simp: live_client_def that)
  then have "filter (\<lambda>c. cl_id c \<noteq> cid) (clients ?d) = filter (\<lambda>c. cl_id c \<noteq> cid) (clients d)"
    unfolding del(1) by simp
  ultimately show ?thesis using gone hidden by blast
qed

text \<open>Once a revision is applied the purge removes exactly the clients whose deletion that
  revision or an earlier one carries, and the foreign keys of statistics, routers, credentials,
  peers and apply results keep pointing at rows that exist.\<close>

theorem purge_removes_exactly_applied_deletions:
  assumes "refs_ok d" and "applied_revision (vpn_state d) = Some n"
  shows "clients (snd (purge_applied_deleted_clients d)) =
       filter (\<lambda>c. \<not> (\<exists>r. cl_deleted_revision c = Some r \<and> r \<le> n)) (clients d) \<and>
     fst (purge_applied_deleted_clients d) =
       length (filter (\<lambda>c. \<exists>r. cl_deleted_revision c = Some r \<and> r \<le> n) (clients d)) \<and>
     refs_ok (snd (purge_applied_deleted_clients d))"
proof -
  have p: "purgeable n c \<longleftrightarrow> (\<exists>r. cl_deleted_revision c = Some r \<and> r \<le> n)" for c
    by (auto simp: purgeable_def split: option.split)
  show ?thesis
    using purge_refs_ok [OF assms(1)] assms(2)
    by (simp add: purge_applied_deleted_clients_def row_count_def frame_simps delete_where_def p cong: filter_cong)
qed

theorem deleted_client_awaits_revision_witness:
  "get_client_by_id 1 (delete_client 0 0 1 (empty_db\<lparr>clients := [\<lparr>cl_id = 1, cl_name = ''n'',
     cl_token = ''t'', cl_enabled = True, cl_vless_uuid = [], cl_hysteria_password = [], cl_created_at = 0,
     cl_awg_private = None, cl_awg_public = None, cl_awg_preshared = None, cl_awg_ipv4 = None,
     cl_deleted_at = None, cl_deleted_revision = None\<rparr>]\<rparr>)) = None"
  by (rule deleted_client_awaits_revision [THEN conjunct1]) (simp add: get_client_by_id_def live_client_def)

theorem purge_removes_exactly_applied_deletions_witness:
  "refs_ok (snd (purge_applied_deleted_clients (empty_db\<lparr>vpn_state := \<lparr>desired_revision = 3,
     applied_revision = Some 2, desired_updated_at = None, applied_updated_at = None\<rparr>\<rparr>)))"
  by (rule purge_removes_exactly_applied_deletions [where n = 2, THEN conjunct2, THEN conjunct2])
     (simp_all add: refs_ok_def hangs_def empty_db_def)

end
