(* ===== verification/Operations.thy ===== *)
theory Operations
  imports Database
begin

text \<open>
  The part of \<open>app/db.py\<close> about operations: the field updates of IP changes and installs with
  the lease kept or released in the same transaction, the reconciliation of an operation that
  needs it, the start-up recovery, the reset of the server state and the initialisation of the
  key material.
\<close>

section \<open>Updating an IP change\<close>

text \<open>The keyword arguments of \<open>update_operation\<close>: each is a column and its new value.\<close>

datatype ip_field =
    IpStatus op_status | IpStep string | IpError string | IpAction ip_action
  | IpPurchase phase_state | IpMakeMain phase_state | IpApply phase_state
  | IpOldIp string | IpOldIpId string | IpNewIp string | IpNewIpId string
  | IpServerReachableAt ts | IpNewIpCreatedAt ts | IpNewMainAt ts | IpApplyCompletedAt ts
  | IpRollback string | IpCleanupWarning string | IpPublishedRevision int

fun set_ip_field :: "ip_field \<Rightarrow> ip_row \<Rightarrow> ip_row" where
  "set_ip_field (IpStatus s) r = r\<lparr>ip_status := s\<rparr>"
| "set_ip_field (IpStep s) r = r\<lparr>ip_current_step := s\<rparr>"
| "set_ip_field (IpError s) r = r\<lparr>ip_error_message := Some s\<rparr>"
| "set_ip_field (IpAction a) r = r\<lparr>ip_action_state := a\<rparr>"
| "set_ip_field (IpPurchase p) r = r\<lparr>ip_purchase_state := p\<rparr>"
| "set_ip_field (IpMakeMain p) r = r\<lparr>ip_make_main_state := p\<rparr>"
| "set_ip_field (IpApply p) r = r\<lparr>ip_apply_state := p\<rparr>"
| "set_ip_field (IpOldIp s) r = r\<lparr>ip_old_ip := Some s\<rparr>"
| "set_ip_field (IpOldIpId s) r = r\<lparr>ip_old_ip_id := Some s\<rparr>"
| "set_ip_field (IpNewIp s) r = r\<lparr>ip_new_ip := Some s\<rparr>"
| "set_ip_field (IpNewIpId s) r = r\<lparr>ip_new_ip_id := Some s\<rparr>"
| "set_ip_field (IpServerReachableAt t) r = r\<lparr>ip_server_reachable_at := Some t\<rparr>"
| "set_ip_field (IpNewIpCreatedAt t) r = r\<lparr>ip_new_ip_created_at := Some t\<rparr>"
| "set_ip_field (IpNewMainAt t) r = r\<lparr>ip_new_main_at := Some t\<rparr>"
| "set_ip_field (IpApplyCompletedAt t) r = r\<lparr>ip_apply_completed_at := Some t\<rparr>"
| "set_ip_field (IpRollback s) r = r\<lparr>ip_rollback_outcome := Some s\<rparr>"
| "set_ip_field (IpCleanupWarning s) r = r\<lparr>ip_cleanup_warning := Some s\<rparr>"
| "set_ip_field (IpPublishedRevision n) r = r\<lparr>ip_published_revision := Some n\<rparr>"

text \<open>\<open>fields.get("status") in TERMINAL_STATUSES\<close>.\<close>

fun ip_new_status :: "ip_field list \<Rightarrow> op_status option" where
  "ip_new_status [] = None"
| "ip_new_status (IpStatus s # fs) = (case ip_new_status fs of None \<Rightarrow> Some s | Some t \<Rightarrow> Some t)"
| "ip_new_status (_ # fs) = ip_new_status fs"

definition ends :: "op_status option \<Rightarrow> bool" where
  "ends s = (case s of None \<Rightarrow> False | Some s \<Rightarrow> terminal s)"

definition set_ip_fields :: "ip_field list \<Rightarrow> ip_row \<Rightarrow> ip_row" where
  "set_ip_fields fs r = fold set_ip_field fs r"

definition update_operation :: "int \<Rightarrow> int \<Rightarrow> ip_field list \<Rightarrow> db \<Rightarrow> db" where
  "update_operation now oid fs d =
     (if fs = [] then d
      else
        (let d1 = d\<lparr>ip_ops := update_where (\<lambda>r. ip_id r = oid)
                      (\<lambda>r. (set_ip_fields fs r)\<lparr>ip_updated_at := iso now\<rparr>) (ip_ops d)\<rparr>
         in if ends (ip_new_status fs) then snd (release_vps_lease (LeaseOwner IpChange oid) d1)
            else snd (heartbeat_vps_lease now (LeaseOwner IpChange oid) default_lease_seconds d1)))"

definition get_operation :: "int \<Rightarrow> db \<Rightarrow> ip_row option" where
  "get_operation oid d = select_first (\<lambda>r. ip_id r = oid) (ip_ops d)"

text \<open>\<open>ORDER BY id DESC LIMIT ?\<close>: a negative limit is no limit.\<close>

definition sql_limit :: "int \<Rightarrow> 'a list \<Rightarrow> 'a list" where
  "sql_limit n xs = (if n < 0 then xs else take (nat n) xs)"

definition list_operations :: "int \<Rightarrow> db \<Rightarrow> ip_row list" where
  "list_operations limit d = sql_limit limit (rev (ip_ops d))"

definition get_latest_operation :: "db \<Rightarrow> ip_row option" where
  "get_latest_operation d = select_last (\<lambda>_. True) (ip_ops d)"

definition has_running_operation :: "db \<Rightarrow> bool" where
  "has_running_operation d = list_ex (\<lambda>r. active (ip_status r)) (ip_ops d)"

definition reconcile_ip_operation :: "int \<Rightarrow> int \<Rightarrow> string \<Rightarrow> db \<Rightarrow> exn + db" where
  "reconcile_ip_operation now oid note d =
     (case get_operation oid d of
        None \<Rightarrow> Inl (LookupError ''IP operation not found'')
      | Some r \<Rightarrow>
          if \<not> terminal (ip_status r) then
            Inl (ValueError ''Only a terminal IP operation can be reconciled'')
          else if \<not> (ip_status r = Ambiguous \<or> ip_action_state r \<in> {CleanupAmbiguous, AwaitingAwgCheck})
               \<or> ip_action_state r = Reconciled then
            Inl (ValueError ''IP operation does not require reconciliation'')
          else Inr (d\<lparr>ip_ops := update_where (\<lambda>r. ip_id r = oid)
                 (\<lambda>r. r\<lparr>ip_action_state := Reconciled, ip_reconciled_at := Some (iso now),
                        ip_reconciliation_note := Some (py_take 500 (py_strip note)),
                        ip_updated_at := iso now\<rparr>) (ip_ops d)\<rparr>))"

section \<open>Installs\<close>

datatype install_field =
    InStatus op_status | InStep string | InOutput string | InError string | InTargetHost string

fun set_install_field :: "install_field \<Rightarrow> install_row \<Rightarrow> install_row" where
  "set_install_field (InStatus s) r = r\<lparr>in_status := s\<rparr>"
| "set_install_field (InStep s) r = r\<lparr>in_current_step := s\<rparr>"
| "set_install_field (InOutput s) r = r\<lparr>in_output := Some s\<rparr>"
| "set_install_field (InError s) r = r\<lparr>in_error_message := Some s\<rparr>"
| "set_install_field (InTargetHost s) r = r\<lparr>in_target_host := Some s\<rparr>"

fun install_new_status :: "install_field list \<Rightarrow> op_status option" where
  "install_new_status [] = None"
| "install_new_status (InStatus s # fs) =
     (case install_new_status fs of None \<Rightarrow> Some s | Some t \<Rightarrow> Some t)"
| "install_new_status (_ # fs) = install_new_status fs"

definition update_install_operation :: "int \<Rightarrow> int \<Rightarrow> install_field list \<Rightarrow> db \<Rightarrow> db" where
  "update_install_operation now oid fs d =
     (if fs = [] then d
      else
        (let d1 = d\<lparr>install_ops := update_where (\<lambda>r. in_id r = oid)
                      (\<lambda>r. (fold set_install_field fs r)\<lparr>in_updated_at := iso now\<rparr>) (install_ops d)\<rparr>
         in if ends (install_new_status fs) then snd (release_vps_lease (LeaseOwner Install oid) d1)
            else snd (heartbeat_vps_lease now (LeaseOwner Install oid) default_lease_seconds d1)))"

definition list_install_operations :: "int \<Rightarrow> db \<Rightarrow> install_row list" where
  "list_install_operations limit d = sql_limit limit (rev (install_ops d))"

definition get_latest_install_operation :: "db \<Rightarrow> install_row option" where
  "get_latest_install_operation d = select_last (\<lambda>_. True) (install_ops d)"

definition has_running_install_operation :: "db \<Rightarrow> bool" where
  "has_running_install_operation d = list_ex (\<lambda>r. active (in_status r)) (install_ops d)"

definition heartbeat_install_operation :: "int \<Rightarrow> int \<Rightarrow> db \<Rightarrow> bool \<times> db" where
  "heartbeat_install_operation now oid d =
     (case select_first (\<lambda>r. in_id r = oid) (install_ops d) of
        None \<Rightarrow> (False, d)
      | Some r \<Rightarrow>
          if active (in_status r) then
            heartbeat_vps_lease now (LeaseOwner Install oid) default_lease_seconds d
          else (False, d))"

definition fail_incomplete_install_operations :: "int \<Rightarrow> string \<Rightarrow> db \<Rightarrow> db" where
  "fail_incomplete_install_operations now reason d = recover_incomplete_vps_operations now reason d"

section \<open>Resetting the server state\<close>

text \<open>
  The keys \<open>LIKE\<close> picks: \<open>_\<close> matches any one character and letters compare without case.
\<close>

definition vpn_config_key :: "string \<Rightarrow> bool" where
  "vpn_config_key key \<longleftrightarrow>
     list_ex (\<lambda>p. sql_like p key) [''config.vless_%'', ''config.hysteria_%'', ''config.amnezia_%'']"

definition server_state_key :: "string \<Rightarrow> bool" where
  "server_state_key key \<longleftrightarrow>
     key \<in> set [''current_ip'', ''last_healthcheck_status'', ''ssh.known_host_reset_last_output'',
              ''stats.last_refresh_at'', ''stats.last_error'', ''config.vps_provider''] \<or>
     list_ex (\<lambda>p. sql_like p key)
       [''config.eu_%'', ''config.aeza_%'', ''config.sprintbox_%'', ''ip_change.%.provider'',
        ''ip_change.%.sprintbox'', ''server_operation.%.sprintbox_task'', ''protocol.%'']"

definition clear_server_and_aeza_state :: "int \<Rightarrow> db \<Rightarrow> db" where
  "clear_server_and_aeza_state now d =
     (let vpn_changed = list_ex (\<lambda>(k, v). (k = ''current_ip'' \<and> v \<noteq> []) \<or> vpn_config_key k) (settings d);
          d1 = d\<lparr>settings := filter (\<lambda>(k, v). \<not> server_state_key k) (settings d),
                 ip_ops := [], install_ops := [], server_ops := [], client_stats := []\<rparr>;
          d2 = insert_or_ignore_setting ''last_healthcheck_status'' ''UNKNOWN''
                 (insert_or_ignore_setting ''current_ip'' [] d1)
      in if vpn_changed then bump_revision now d2 else d2)"

definition reset_server_and_aeza_state :: "int \<Rightarrow> db \<Rightarrow> exn + db" where
  "reset_server_and_aeza_state now d =
     (case active_operation_owner d of
        Some owner \<Rightarrow> Inl (OperationBusyError owner)
      | None \<Rightarrow> Inr (clear_server_and_aeza_state now d))"

section \<open>Key material at start-up\<close>

definition put_if_empty :: "string \<Rightarrow> string \<Rightarrow> bool \<times> db \<Rightarrow> bool \<times> db" where
  "put_if_empty key v cd =
     (case cd of (changed, d) \<Rightarrow>
        if setting d key = [] then (True, put_setting key v d) else (changed, d))"

definition ensure_amnezia_settings ::
  "(string \<Rightarrow> string) \<Rightarrow> string \<Rightarrow> (string \<times> int) list \<Rightarrow> db \<Rightarrow> bool \<times> db" where
  "ensure_amnezia_settings pub fresh obfuscation d =
     (let cd1 = put_if_empty ''amnezia.server_private_key'' fresh (False, d);
          private = setting (snd cd1) ''amnezia.server_private_key'';
          cd2 = put_if_empty ''amnezia.server_public_key'' (pub private) cd1
      in fold (\<lambda>(k, v). put_if_empty (''amnezia.'' @ k) (int_str v)) obfuscation cd2)"

definition ensure_reality_settings ::
  "(string \<Rightarrow> string) \<Rightarrow> string \<Rightarrow> string \<Rightarrow> db \<Rightarrow> bool \<times> db" where
  "ensure_reality_settings pub fresh short_id d =
     (let cd1 = put_if_empty ''vless.reality_private_key'' fresh (False, d);
          private = setting (snd cd1) ''vless.reality_private_key'';
          cd2 = put_if_empty ''vless.reality_public_key'' (pub private) cd1
      in put_if_empty ''vless.reality_short_id'' short_id cd2)"

definition ensure_hysteria_settings :: "string \<Rightarrow> string \<Rightarrow> db \<Rightarrow> bool \<times> db" where
  "ensure_hysteria_settings password obfs d =
     put_if_empty ''hysteria.obfs_password'' obfs (put_if_empty ''hysteria.password'' password (False, d))"

text \<open>
  \<open>_ensure_client_amnezia_material\<close>: \<open>priv\<close> and \<open>psk\<close> give the fresh keys of a client.  The rows
  are read once, each update sees the addresses the earlier ones assigned.
\<close>

definition or_else :: "string option \<Rightarrow> string \<Rightarrow> string" where
  "or_else s v = (if filled s then the s else v)"

definition ensure_client_material ::
  "config \<Rightarrow> (string \<Rightarrow> string) \<Rightarrow> (int \<Rightarrow> string) \<Rightarrow> (int \<Rightarrow> string) \<Rightarrow> client_row \<Rightarrow> db \<Rightarrow> exn + bool \<times> db" where
  "ensure_client_material cfg pub priv psk c d =
     (let private = or_else (cl_awg_private c) (priv (cl_id c));
          public = or_else (cl_awg_public c) (pub private);
          preshared = or_else (cl_awg_preshared c) (psk (cl_id c));
          complete = filled (cl_awg_private c) \<and> filled (cl_awg_public c) \<and>
                     filled (cl_awg_preshared c) \<and> filled (cl_awg_ipv4 c)
      in bind_result
           (if filled (cl_awg_ipv4 c) then Inr (the (cl_awg_ipv4 c))
            else legacy_or_free_amnezia_address cfg d (cl_id c))
           (\<lambda>address. Inr (\<not> complete, d\<lparr>clients := update_where (\<lambda>r. cl_id r = cl_id c)
              (\<lambda>r. r\<lparr>cl_awg_private := Some private, cl_awg_public := Some public,
                     cl_awg_preshared := Some preshared, cl_awg_ipv4 := Some address\<rparr>) (clients d)\<rparr>)))"

fun ensure_all :: "('r \<Rightarrow> db \<Rightarrow> exn + bool \<times> db) \<Rightarrow> 'r list \<Rightarrow> db \<Rightarrow> exn + bool \<times> db" where
  "ensure_all f [] d = Inr (False, d)"
| "ensure_all f (r # rs) d =
     bind_result (f r d) (\<lambda>(changed, d1).
       bind_result (ensure_all f rs d1) (\<lambda>(more, d2). Inr (changed \<or> more, d2)))"

definition ensure_client_amnezia_material ::
  "config \<Rightarrow> (string \<Rightarrow> string) \<Rightarrow> (int \<Rightarrow> string) \<Rightarrow> (int \<Rightarrow> string) \<Rightarrow> db \<Rightarrow> exn + bool \<times> db" where
  "ensure_client_amnezia_material cfg pub priv psk d =
     ensure_all (ensure_client_material cfg pub priv psk) (clients d) d"

definition ensure_router_amnezia_peers ::
  "config \<Rightarrow> (string \<Rightarrow> string) \<Rightarrow> (string \<Rightarrow> string) \<Rightarrow> (string \<Rightarrow> string) \<Rightarrow> db \<Rightarrow> exn + bool \<times> db" where
  "ensure_router_amnezia_peers cfg pub priv psk d =
     ensure_all
       (\<lambda>rid d. bind_result (create_router_amnezia_peer cfg pub (priv rid) (psk rid) rid d)
          (\<lambda>((_, created), d1). Inr (created, d1)))
       (sort (map ro_router_id (routers d))) d"

record init_material =
  im_amnezia_private :: string
  im_obfuscation :: "(string \<times> int) list"
  im_reality_private :: string
  im_reality_short_id :: string
  im_hysteria_password :: string
  im_hysteria_obfs :: string
  im_client_private :: "int \<Rightarrow> string"
  im_client_psk :: "int \<Rightarrow> string"
  im_router_private :: "string \<Rightarrow> string"
  im_router_psk :: "string \<Rightarrow> string"

text \<open>The transaction of \<open>init_db\<close> after the migrations; every \<open>_ensure_\<close> runs before \<open>any\<close> looks.\<close>

definition init_db ::
  "config \<Rightarrow> (string \<Rightarrow> string) \<Rightarrow> (string \<Rightarrow> string) \<Rightarrow> int \<Rightarrow> init_material \<Rightarrow> db \<Rightarrow> exn + db" where
  "init_db cfg pub reality_pub now m d =
     (let d0 = insert_or_ignore_setting ''last_healthcheck_status'' ''UNKNOWN''
                 (insert_or_ignore_setting ''current_ip'' [] d);
          (c1, d1) = ensure_amnezia_settings pub (im_amnezia_private m) (im_obfuscation m) d0;
          (c2, d2) = ensure_reality_settings reality_pub (im_reality_private m) (im_reality_short_id m) d1;
          (c3, d3) = ensure_hysteria_settings (im_hysteria_password m) (im_hysteria_obfs m) d2
      in bind_result (ensure_client_amnezia_material cfg pub (im_client_private m) (im_client_psk m) d3)
           (\<lambda>(c4, d4).
         bind_result (ensure_router_amnezia_peers cfg pub (im_router_private m) (im_router_psk m) d4)
           (\<lambda>(c5, d5). Inr (if c1 \<or> c2 \<or> c3 \<or> c4 \<or> c5 then bump_revision now d5 else d5))))"

section \<open>What an update does\<close>

lemma set_ip_field_id [simp]: "ip_id (set_ip_field f r) = ip_id r"
  by (cases f) simp_all

lemma set_ip_fields_id [simp]: "ip_id (set_ip_fields fs r) = ip_id r"
  unfolding set_ip_fields_def by (induction fs arbitrary: r) simp_all

lemma set_ip_fields_status:
  "ip_status (set_ip_fields fs r) = (case ip_new_status fs of None \<Rightarrow> ip_status r | Some s \<Rightarrow> s)"
  unfolding set_ip_fields_def
proof (induction fs arbitrary: r rule: ip_new_status.induct)
  case (2 s fs)
  then show ?case by (simp split: option.split)
qed (simp_all split: option.split)

lemma update_operation_ops:
  "ip_ops (update_operation now oid fs d) =
     (if fs = [] then ip_ops d
      else update_where (\<lambda>r. ip_id r = oid) (\<lambda>r. (set_ip_fields fs r)\<lparr>ip_updated_at := iso now\<rparr>) (ip_ops d))"
  by (simp add: update_operation_def Let_def frame_simps)

lemma update_operation_frame [frame_simps]:
  "settings (update_operation now oid fs d) = settings d"
  "clients (update_operation now oid fs d) = clients d"
  "vpn_state (update_operation now oid fs d) = vpn_state d"
  "snapshots (update_operation now oid fs d) = snapshots d"
  "install_ops (update_operation now oid fs d) = install_ops d"
  "server_ops (update_operation now oid fs d) = server_ops d"
  by (simp_all add: update_operation_def Let_def frame_simps)

lemma update_operation_get:
  "get_operation i (update_operation now oid fs d) =
     map_option (\<lambda>r. if i = oid \<and> fs \<noteq> [] then (set_ip_fields fs r)\<lparr>ip_updated_at := iso now\<rparr> else r)
       (get_operation i d)"
proof (cases "fs = []")
  case False
  have "get_operation i (update_operation now oid fs d) =
      map_option (\<lambda>r. if ip_id r = oid then (set_ip_fields fs r)\<lparr>ip_updated_at := iso now\<rparr> else r)
        (get_operation i d)"
    unfolding get_operation_def update_operation_ops using False
    by (simp add: select_first_map_key)
  with False show ?thesis
    by (cases "get_operation i d") (auto simp: get_operation_def dest: select_first_SomeD)
qed (simp add: update_operation_def option.map_ident)

lemma update_operation_lease:
  assumes "leases_ok d"
  shows "leases_ok (update_operation now oid fs d)"
    and "holder (update_operation now oid fs d) =
      (if ends (ip_new_status fs) \<and> holder d = Some (LeaseOwner IpChange oid) then None else holder d)"
proof -
  have ok: "leases_ok (d\<lparr>ip_ops := x\<rparr>)" for x using assms by (simp add: leases_ok_def)
  have h: "holder (d\<lparr>ip_ops := x\<rparr>) = holder d" for x by (simp add: holder_def lease_of_def)
  show "leases_ok (update_operation now oid fs d)"
    using assms ok by (auto simp: update_operation_def Let_def)
  have "ip_new_status fs = None" if "fs = []" using that by simp
  then show "holder (update_operation now oid fs d) =
      (if ends (ip_new_status fs) \<and> holder d = Some (LeaseOwner IpChange oid) then None else holder d)"
    by (auto simp: update_operation_def Let_def holder_release [OF ok] h holder_heartbeat ends_def)
qed

lemma update_operation_active:
  "is_active (update_operation now oid fs d) ow \<longleftrightarrow>
     (if ow = LeaseOwner IpChange oid then
        (case ip_new_status fs of
           None \<Rightarrow> is_active d ow
         | Some s \<Rightarrow> active s \<and> oid \<in> ip_id ` set (ip_ops d))
      else is_active d ow)"
proof (cases "fs = []")
  case True
  then show ?thesis by (simp add: update_operation_def)
next
  case False
  show ?thesis
  proof (cases "(d, ow)" rule: is_active.cases)
    case (2 d' i)
    then have "is_active (update_operation now oid fs d) ow \<longleftrightarrow>
        (\<exists>r \<in> set (ip_ops d). ip_id r = i \<and> active (ip_status
          (if i = oid then (set_ip_fields fs r)\<lparr>ip_updated_at := iso now\<rparr> else r)))"
      using False by (simp add: is_active.simps update_operation_ops bex_update_where_key)
    with 2 show ?thesis
      by (auto simp: is_active.simps set_ip_fields_status image_iff split: option.splits) metis
  qed (use False in \<open>simp_all add: is_active.simps frame_simps\<close>)
qed

text \<open>
  Ending an operation keeps the exclusion, and so does any update of an operation that is still
  active or still holds the lease.
\<close>

lemma update_operation_exclusive:
  assumes "exclusive d"
    and "ends (ip_new_status fs) \<or> ip_new_status fs = None \<or> is_active d (LeaseOwner IpChange oid)
         \<or> holder d = Some (LeaseOwner IpChange oid)"
  shows "exclusive (update_operation now oid fs d)"
proof -
  have ok: "leases_ok d" and own: "\<And>ow. is_active d ow \<Longrightarrow> holder d = Some ow"
    using assms(1) by (auto simp: exclusive_def)
  have "holder (update_operation now oid fs d) = Some ow"
    if "is_active (update_operation now oid fs d) ow" for ow
  proof (cases "ow = LeaseOwner IpChange oid")
    case True
    with that assms(2) own show ?thesis
      by (cases "ip_new_status fs")
         (auto simp: update_operation_active update_operation_lease [OF ok] ends_def active_iff_not_terminal)
  next
    case False
    with that own have "holder d = Some ow" by (simp add: update_operation_active)
    with False show ?thesis by (simp add: update_operation_lease [OF ok])
  qed
  then show ?thesis using ok by (simp add: exclusive_def update_operation_lease)
qed

section \<open>Recovery and reset\<close>

lemma recover_exclusive:
  assumes "leases_ok d"
  shows "exclusive (recover_incomplete_vps_operations now reason d)"
proof -
  have "leases_ok (recover_incomplete_vps_operations now reason d)"
    using assms by (simp add: recover_incomplete_vps_operations_def Let_def leases_ok_def fold_fail_frame)
  then show ?thesis
    using recover_none_active by (auto simp: exclusive_iff intro: vps.idle_guarded)
qed

lemma active_operation_owner_None_iff:
  "active_operation_owner d = None \<longleftrightarrow> lease_of d = None \<and> (\<forall>ow. \<not> is_active d ow)"
proof -
  have "(\<forall>ow. \<not> is_active d ow) \<longleftrightarrow>
      select_first (\<lambda>r. active (in_status r)) (install_ops d) = None \<and>
      select_first (\<lambda>r. active (ip_status r)) (ip_ops d) = None \<and>
      select_first (\<lambda>r. active (sv_status r)) (server_ops d) = None"
    (is "?L = ?R")
  proof
    assume ?R
    then show ?L unfolding select_first_None_iff by (auto simp: is_active.simps elim!: is_active.elims)
  next
    assume no: ?L
    then show ?R
      using no [rule_format, of "LeaseOwner Install _"] no [rule_format, of "LeaseOwner IpChange _"]
        no [rule_format, of "LeaseOwner Server _"]
      unfolding select_first_None_iff by (auto simp: is_active.simps)
  qed
  then show ?thesis
    by (auto simp: active_operation_owner_def split: option.split)
qed

lemma insert_or_ignore_frame [frame_simps]:
  "clients (insert_or_ignore_setting k v d) = clients d"
  "vpn_state (insert_or_ignore_setting k v d) = vpn_state d"
  "snapshots (insert_or_ignore_setting k v d) = snapshots d"
  "install_ops (insert_or_ignore_setting k v d) = install_ops d"
  "ip_ops (insert_or_ignore_setting k v d) = ip_ops d"
  "server_ops (insert_or_ignore_setting k v d) = server_ops d"
  "leases (insert_or_ignore_setting k v d) = leases d"
  "routers (insert_or_ignore_setting k v d) = routers d"
  "peers (insert_or_ignore_setting k v d) = peers d"
  "client_stats (insert_or_ignore_setting k v d) = client_stats d"
  by (simp_all add: insert_or_ignore_setting_def frame_simps)

lemma clear_tables:
  "ip_ops (clear_server_and_aeza_state now d) = []"
  "install_ops (clear_server_and_aeza_state now d) = []"
  "server_ops (clear_server_and_aeza_state now d) = []"
  "client_stats (clear_server_and_aeza_state now d) = []"
  "clients (clear_server_and_aeza_state now d) = clients d"
  "snapshots (clear_server_and_aeza_state now d) = snapshots d"
  "leases (clear_server_and_aeza_state now d) = leases d"
  by (simp_all add: clear_server_and_aeza_state_def Let_def frame_simps)

lemma map_of_filter_keys:
  "map_of (filter (\<lambda>(k, v). p k) kvs) k = (if p k then map_of kvs k else None)"
  by (induction kvs) auto

lemma setting_insert_or_ignore:
  "setting (insert_or_ignore_setting k v d) k' =
     (if k' = k \<and> map_of (settings d) k = None then v else setting d k')"
  by (simp add: insert_or_ignore_setting_def setting_put)

lemma clear_settings:
  "setting (clear_server_and_aeza_state now d) ''current_ip'' = []"
  "setting (clear_server_and_aeza_state now d) ''last_healthcheck_status'' = ''UNKNOWN''"
  "server_state_key k \<Longrightarrow> k \<noteq> ''last_healthcheck_status'' \<Longrightarrow>
     setting (clear_server_and_aeza_state now d) k = [] \<or> k = ''vpn.config_updated_at''"
  "\<not> server_state_key k \<Longrightarrow> k \<noteq> ''vpn.config_updated_at'' \<Longrightarrow>
     setting (clear_server_and_aeza_state now d) k = setting d k"
proof -
  let ?d1 = "d\<lparr>settings := filter (\<lambda>(k, v). \<not> server_state_key k) (settings d),
    ip_ops := [], install_ops := [], server_ops := [], client_stats := []\<rparr>"
  let ?d2 = "insert_or_ignore_setting ''last_healthcheck_status'' ''UNKNOWN''
    (insert_or_ignore_setting ''current_ip'' [] ?d1)"
  have keys: "server_state_key ''current_ip''" "server_state_key ''last_healthcheck_status''"
    by (simp_all add: server_state_key_def)
  have none: "map_of (settings ?d1) k = (if server_state_key k then None else map_of (settings d) k)" for k
    using map_of_filter_keys [of "\<lambda>k. \<not> server_state_key k" "settings d" k] by simp
  have "map_of (settings (insert_or_ignore_setting ''current_ip'' [] ?d1)) ''last_healthcheck_status'' = None"
    using none [of "''last_healthcheck_status''"] keys
    by (simp add: insert_or_ignore_setting_def put_setting_def update_conv')
  then have s2: "setting ?d2 k = (if k = ''last_healthcheck_status'' then ''UNKNOWN''
      else if k = ''current_ip'' \<or> server_state_key k then [] else setting d k)" for k
    using none [of k] none [of "''current_ip''"] keys
    by (simp add: setting_insert_or_ignore) (simp add: setting_def)
  have clear: "setting (clear_server_and_aeza_state now d) k =
      (if k = ''vpn.config_updated_at'' then setting (clear_server_and_aeza_state now d) k else setting ?d2 k)" for k
    by (simp add: clear_server_and_aeza_state_def Let_def setting_bump_revision)
  show "setting (clear_server_and_aeza_state now d) ''current_ip'' = []"
    using clear [of "''current_ip''"] s2 [of "''current_ip''"] by simp
  show "setting (clear_server_and_aeza_state now d) ''last_healthcheck_status'' = ''UNKNOWN''"
    using clear [of "''last_healthcheck_status''"] s2 [of "''last_healthcheck_status''"] by simp
  show "setting (clear_server_and_aeza_state now d) k = [] \<or> k = ''vpn.config_updated_at''"
    if "server_state_key k" "k \<noteq> ''last_healthcheck_status''"
    using clear [of k] s2 [of k] that by (cases "k = ''vpn.config_updated_at''") simp_all
  show "setting (clear_server_and_aeza_state now d) k = setting d k"
    if "\<not> server_state_key k" "k \<noteq> ''vpn.config_updated_at''"
    using clear [of k] s2 [of k] keys that by auto
qed

section \<open>Initialisation is idempotent\<close>

lemma put_if_empty_settings:
  "setting (snd (put_if_empty k v cd)) k' =
     (if k' = k \<and> setting (snd cd) k = [] then v else setting (snd cd) k')"
  by (auto simp: put_if_empty_def setting_put split: prod.split)

lemma put_if_empty_noop: "setting (snd cd) k \<noteq> [] \<Longrightarrow> put_if_empty k v cd = cd"
  by (cases cd) (simp add: put_if_empty_def)

lemma put_if_empty_frame [frame_simps]:
  "clients (snd (put_if_empty k v cd)) = clients (snd cd)"
  "routers (snd (put_if_empty k v cd)) = routers (snd cd)"
  "peers (snd (put_if_empty k v cd)) = peers (snd cd)"
  "vpn_state (snd (put_if_empty k v cd)) = vpn_state (snd cd)"
  by (auto simp: put_if_empty_def frame_simps split: prod.split)

text \<open>The settings that \<open>put_if_empty\<close> steps leave filled stay filled.\<close>

definition put_each :: "(string \<times> string) list \<Rightarrow> bool \<times> db \<Rightarrow> bool \<times> db" where
  "put_each kvs cd = fold (\<lambda>(k, v). put_if_empty k v) kvs cd"

lemma put_each_keeps: "setting (snd cd) k \<noteq> [] \<Longrightarrow> setting (snd (put_each kvs cd)) k = setting (snd cd) k"
proof (induction kvs arbitrary: cd)
  case (Cons kv kvs)
  have "setting (snd (put_if_empty (fst kv) (snd kv) cd)) k = setting (snd cd) k"
    using Cons.prems by (auto simp: put_if_empty_settings)
  then show ?case
    using Cons.IH [of "put_if_empty (fst kv) (snd kv) cd"] Cons.prems
    by (simp add: put_each_def case_prod_beta)
qed (simp add: put_each_def)

lemma put_each_fills:
  assumes "\<forall>v \<in> snd ` set kvs. v \<noteq> []" and "k \<in> fst ` set kvs"
  shows "setting (snd (put_each kvs cd)) k \<noteq> []"
  using assms
proof (induction kvs arbitrary: cd)
  case (Cons kv kvs)
  show ?case
  proof (cases "k = fst kv")
    case True
    then have "setting (snd (put_if_empty (fst kv) (snd kv) cd)) k \<noteq> []"
      using Cons.prems by (simp add: put_if_empty_settings)
    then show ?thesis
      using put_each_keeps [of "put_if_empty (fst kv) (snd kv) cd" k kvs]
      by (simp add: put_each_def case_prod_beta)
  next
    case False
    with Cons show ?thesis by (simp add: put_each_def case_prod_beta)
  qed
qed simp

lemma put_each_noop: "\<forall>k \<in> fst ` set kvs. setting (snd cd) k \<noteq> [] \<Longrightarrow> put_each kvs cd = cd"
  unfolding put_each_def
  by (induction kvs) (auto simp: put_if_empty_noop)

lemma put_each_frame [frame_simps]:
  "clients (snd (put_each kvs cd)) = clients (snd cd)"
  "routers (snd (put_each kvs cd)) = routers (snd cd)"
  "peers (snd (put_each kvs cd)) = peers (snd cd)"
  "vpn_state (snd (put_each kvs cd)) = vpn_state (snd cd)"
  unfolding put_each_def by (induction kvs arbitrary: cd; simp add: frame_simps case_prod_beta)+

definition key_settings :: "(string \<times> int) list \<Rightarrow> string list" where
  "key_settings obf = [''amnezia.server_private_key'', ''amnezia.server_public_key''] @
     map (\<lambda>k. ''amnezia.'' @ k) (map fst obf) @
     [''vless.reality_private_key'', ''vless.reality_public_key'', ''vless.reality_short_id'',
      ''hysteria.password'', ''hysteria.obfs_password'']"

lemma ensure_amnezia_put_each:
  "\<exists>p. ensure_amnezia_settings pub fresh obf d =
     put_each ([(''amnezia.server_private_key'', fresh), (''amnezia.server_public_key'', pub p)] @
       map (\<lambda>(k, v). (''amnezia.'' @ k, int_str v)) obf) (False, d) \<and>
     (fresh \<noteq> [] \<longrightarrow> p \<noteq> [])"
proof -
  let ?cd = "put_if_empty ''amnezia.server_private_key'' fresh (False, d)"
  have "fold (\<lambda>(k, v). put_if_empty (''amnezia.'' @ k) (int_str v)) obf cd =
      put_each (map (\<lambda>(k, v). (''amnezia.'' @ k, int_str v)) obf) cd" for cd
    unfolding put_each_def by (induction obf arbitrary: cd) (auto simp: case_prod_beta)
  moreover have "fresh \<noteq> [] \<longrightarrow> setting (snd ?cd) ''amnezia.server_private_key'' \<noteq> []"
    by (simp add: put_if_empty_settings)
  ultimately show ?thesis
    by (intro exI [of _ "setting (snd ?cd) ''amnezia.server_private_key''"])
       (simp add: ensure_amnezia_settings_def put_each_def Let_def)
qed

text \<open>The three groups of settings, as lists of keys, are \<open>key_settings\<close>.\<close>

lemma key_settings_groups:
  "key_settings obf = map fst ([(''amnezia.server_private_key'', a), (''amnezia.server_public_key'', b)] @
       map (\<lambda>(k, v). (''amnezia.'' @ k, int_str v)) obf) @
     map fst [(''vless.reality_private_key'', c), (''vless.reality_public_key'', d), (''vless.reality_short_id'', e)] @
     map fst [(''hysteria.password'', f), (''hysteria.obfs_password'', g)]"
proof -
  have "map fst (map (\<lambda>(k, v). (''amnezia.'' @ k, int_str v)) obf) = map (\<lambda>k. ''amnezia.'' @ k) (map fst obf)"
    by (induction obf) auto
  then show ?thesis by (simp only: key_settings_def map_append list.map fst_conv append.simps append_assoc)
qed

lemma key_settings_sets:
  "fst ` set kv1 \<subseteq> set (key_settings obf)" "fst ` set kv2 \<subseteq> set (key_settings obf)"
  "fst ` set kv3 \<subseteq> set (key_settings obf)"
  "set (key_settings obf) = fst ` set kv1 \<union> fst ` set kv2 \<union> fst ` set kv3"
  if "kv1 = [(''amnezia.server_private_key'', a), (''amnezia.server_public_key'', b)] @
       map (\<lambda>(k, v). (''amnezia.'' @ k, int_str v)) obf"
    and "kv2 = [(''vless.reality_private_key'', c), (''vless.reality_public_key'', d), (''vless.reality_short_id'', e)]"
    and "kv3 = [(''hysteria.password'', f), (''hysteria.obfs_password'', g)]"
  for a b c d e f g :: string and kv1 kv2 kv3
proof -
  have "key_settings obf = map fst kv1 @ map fst kv2 @ map fst kv3"
    unfolding that by (rule key_settings_groups)
  then show 4: "set (key_settings obf) = fst ` set kv1 \<union> fst ` set kv2 \<union> fst ` set kv3"
    by (simp only: set_append set_map Un_assoc)
  show "fst ` set kv1 \<subseteq> set (key_settings obf)" "fst ` set kv2 \<subseteq> set (key_settings obf)"
    "fst ` set kv3 \<subseteq> set (key_settings obf)"
    unfolding 4 by blast+
qed

lemma ensure_reality_put_each:
  "\<exists>p. ensure_reality_settings pub fresh sid d =
     put_each [(''vless.reality_private_key'', fresh), (''vless.reality_public_key'', pub p),
       (''vless.reality_short_id'', sid)] (False, d) \<and> (fresh \<noteq> [] \<longrightarrow> p \<noteq> [])"
proof -
  let ?cd = "put_if_empty ''vless.reality_private_key'' fresh (False, d)"
  have "fresh \<noteq> [] \<longrightarrow> setting (snd ?cd) ''vless.reality_private_key'' \<noteq> []"
    by (simp add: put_if_empty_settings)
  then show ?thesis
    by (intro exI [of _ "setting (snd ?cd) ''vless.reality_private_key''"])
       (simp add: ensure_reality_settings_def put_each_def Let_def)
qed

lemma ensure_hysteria_put_each:
  "ensure_hysteria_settings pw obfs d =
     put_each [(''hysteria.password'', pw), (''hysteria.obfs_password'', obfs)] (False, d)"
  by (simp add: ensure_hysteria_settings_def put_each_def)

text \<open>Clients and routers whose material is complete.\<close>

definition client_complete :: "client_row \<Rightarrow> bool" where
  "client_complete c \<longleftrightarrow> filled (cl_awg_private c) \<and> filled (cl_awg_public c) \<and>
     filled (cl_awg_preshared c) \<and> filled (cl_awg_ipv4 c)"

lemma update_where_same: "(\<And>r. r \<in> set rows \<Longrightarrow> p r \<Longrightarrow> f r = r) \<Longrightarrow> update_where p f rows = rows"
  by (induction rows) auto

lemma ensure_client_noop:
  assumes "client_complete c" and "c \<in> set (clients d)" and "distinct (map cl_id (clients d))"
  shows "ensure_client_material cfg pub priv psk c d = Inr (False, d)"
proof -
  have "update_where (\<lambda>r. cl_id r = cl_id c)
      (\<lambda>r. r\<lparr>cl_awg_private := cl_awg_private c, cl_awg_public := cl_awg_public c,
             cl_awg_preshared := cl_awg_preshared c, cl_awg_ipv4 := cl_awg_ipv4 c\<rparr>) (clients d) = clients d"
  proof (rule update_where_same)
    fix r assume "r \<in> set (clients d)" "cl_id r = cl_id c"
    then have "r = c" using assms row_key_inj by metis
    then show "r\<lparr>cl_awg_private := cl_awg_private c, cl_awg_public := cl_awg_public c,
             cl_awg_preshared := cl_awg_preshared c, cl_awg_ipv4 := cl_awg_ipv4 c\<rparr> = r" by simp
  qed
  moreover have "Some (or_else s v) = s" if "filled s" for s v
    using that by (auto simp: or_else_def filled_def)
  ultimately show ?thesis
    using assms(1) by (auto simp: ensure_client_material_def client_complete_def filled_def or_else_def Let_def)
qed

lemma ensure_all_noop: "(\<And>r. r \<in> set rs \<Longrightarrow> f r d = Inr (False, d)) \<Longrightarrow> ensure_all f rs d = Inr (False, d)"
  by (induction rs) auto

lemma ensure_client_result:
  assumes "ensure_client_material cfg pub priv psk c d = Inr (b, d')"
    and "\<And>i. priv i \<noteq> []" "\<And>p. pub p \<noteq> []" "\<And>i. psk i \<noteq> []"
  shows "map cl_id (clients d') = map cl_id (clients d)"
    and "\<forall>r \<in> set (clients d'). cl_id r = cl_id c \<longrightarrow> client_complete r"
    and "\<forall>r \<in> set (clients d'). cl_id r \<noteq> cl_id c \<longrightarrow> r \<in> set (clients d)"
    and "settings d' = settings d" "routers d' = routers d" "peers d' = peers d"
proof -
  define k1 where "k1 = or_else (cl_awg_private c) (priv (cl_id c))"
  define k2 where "k2 = or_else (cl_awg_public c) (pub k1)"
  define k3 where "k3 = or_else (cl_awg_preshared c) (psk (cl_id c))"
  obtain a where a: "a \<noteq> []" and d': "d' = d\<lparr>clients := update_where (\<lambda>r. cl_id r = cl_id c)
      (\<lambda>r. r\<lparr>cl_awg_private := Some k1, cl_awg_public := Some k2,
             cl_awg_preshared := Some k3, cl_awg_ipv4 := Some a\<rparr>) (clients d)\<rparr>"
  proof (cases "filled (cl_awg_ipv4 c)")
    case True
    with assms(1) show ?thesis
      by (intro that [of "the (cl_awg_ipv4 c)"])
         (auto simp: ensure_client_material_def k1_def k2_def k3_def filled_def Let_def)
  next
    case False
    with assms(1) obtain a where "legacy_or_free_amnezia_address cfg d (cl_id c) = Inr a"
      by (cases "legacy_or_free_amnezia_address cfg d (cl_id c)")
         (auto simp: ensure_client_material_def Let_def)
    with False assms(1) legacy_or_free_fresh show ?thesis
      by (intro that [of a])
         (auto simp: ensure_client_material_def k1_def k2_def k3_def Let_def)
  qed
  have ne: "or_else s v \<noteq> []" if "v \<noteq> []" for s v
    using that by (auto simp: or_else_def filled_def)
  have "k1 \<noteq> []" "k2 \<noteq> []" "k3 \<noteq> []"
    unfolding k1_def k2_def k3_def by (intro ne assms)+
  with a show "map cl_id (clients d') = map cl_id (clients d)"
    and "\<forall>r \<in> set (clients d'). cl_id r = cl_id c \<longrightarrow> client_complete r"
    and "\<forall>r \<in> set (clients d'). cl_id r \<noteq> cl_id c \<longrightarrow> r \<in> set (clients d)"
    and "settings d' = settings d" "routers d' = routers d" "peers d' = peers d"
    by (auto simp: d' set_update_where client_complete_def filled_def)
qed

lemma ensure_clients_result:
  assumes "ensure_all (ensure_client_material cfg pub priv psk) cs d = Inr (b, d')"
    and "\<And>i. priv i \<noteq> []" "\<And>p. pub p \<noteq> []" "\<And>i. psk i \<noteq> []"
    and "\<forall>r \<in> set (clients d). client_complete r \<or> cl_id r \<in> cl_id ` set cs"
  shows "map cl_id (clients d') = map cl_id (clients d) \<and> (\<forall>r \<in> set (clients d'). client_complete r) \<and>
     settings d' = settings d \<and> routers d' = routers d \<and> peers d' = peers d"
  using assms(1,5)
proof (induction cs arbitrary: d b)
  case Nil
  then show ?case by simp
next
  case (Cons c cs)
  then obtain b1 d1 b2 where step: "ensure_client_material cfg pub priv psk c d = Inr (b1, d1)"
    and rest: "ensure_all (ensure_client_material cfg pub priv psk) cs d1 = Inr (b2, d')"
    by (auto simp: bind_result_Inr_iff)
  note r = ensure_client_result [OF step assms(2-4)]
  have "\<forall>r \<in> set (clients d1). client_complete r \<or> cl_id r \<in> cl_id ` set cs"
    using r(2,3) Cons.prems(2) by auto
  from Cons.IH [OF rest this] r show ?case by simp
qed

lemma ensure_peers_result:
  assumes "ensure_all (\<lambda>rid d. bind_result (create_router_amnezia_peer cfg pub (priv rid) (psk rid) rid d)
      (\<lambda>((_, created), d1). Inr (created, d1))) rids d = Inr (b, d')"
  shows "clients d' = clients d \<and> settings d' = settings d \<and> routers d' = routers d \<and>
     set (peers d) \<subseteq> set (peers d') \<and> (\<forall>rid \<in> set rids. peer_of rid d' \<noteq> None)"
  using assms
proof (induction rids arbitrary: d b)
  case Nil
  then show ?case by simp
next
  case (Cons rid rids)
  then obtain b1 d1 b2 p where step: "create_router_amnezia_peer cfg pub (priv rid) (psk rid) rid d = Inr ((p, b1), d1)"
    and rest: "ensure_all (\<lambda>rid d. bind_result (create_router_amnezia_peer cfg pub (priv rid) (psk rid) rid d)
      (\<lambda>((_, created), d1). Inr (created, d1))) rids d1 = Inr (b2, d')"
    by (auto simp: bind_result_Inr_iff)
  have "clients d1 = clients d \<and> settings d1 = settings d \<and> routers d1 = routers d \<and>
      set (peers d) \<subseteq> set (peers d1) \<and> rid \<in> pe_router_id ` set (peers d1)"
  proof (cases "peer_of rid d")
    case (Some q)
    with step have "d1 = d" by (simp add: create_router_amnezia_peer_def)
    with Some show ?thesis by (auto simp: peer_of_def dest!: select_first_SomeD)
  next
    case None
    with step show ?thesis
      by (cases "allocate_amnezia_address cfg d")
         (auto simp: create_router_amnezia_peer_def Let_def split: if_splits)
  qed
  moreover have "peer_of rid d' \<noteq> None" if "rid \<in> pe_router_id ` set (peers d')"
    using that by (auto simp: peer_of_def select_first_None_iff)
  ultimately show ?case using Cons.IH [OF rest] by auto
qed

lemma ensure_peers_noop:
  "(\<forall>r \<in> set (routers d). peer_of (ro_router_id r) d \<noteq> None) \<Longrightarrow>
     ensure_router_amnezia_peers cfg pub priv psk d = Inr (False, d)"
  unfolding ensure_router_amnezia_peers_def
  by (rule ensure_all_noop) (auto simp: create_router_amnezia_peer_def)

text \<open>What a start-up leaves: nothing for the next one to generate.\<close>

definition initialised :: "(string \<times> int) list \<Rightarrow> db \<Rightarrow> bool" where
  "initialised obf d \<longleftrightarrow>
     (\<forall>k \<in> set (key_settings obf). setting d k \<noteq> []) \<and>
     map_of (settings d) ''current_ip'' \<noteq> None \<and>
     map_of (settings d) ''last_healthcheck_status'' \<noteq> None \<and>
     (\<forall>c \<in> set (clients d). client_complete c) \<and>
     (\<forall>r \<in> set (routers d). peer_of (ro_router_id r) d \<noteq> None)"

lemma init_db_noop:
  assumes "initialised obf d" and "distinct (map cl_id (clients d))"
    and "map fst (im_obfuscation m) = map fst obf"
  shows "init_db cfg pub rpub now m d = Inr d"
proof -
  have keys: "key_settings (im_obfuscation m) = key_settings obf"
    by (simp only: key_settings_def assms(3))
  then have ne: "k \<in> set (key_settings (im_obfuscation m)) \<Longrightarrow> setting d k \<noteq> []" for k
    using assms(1) by (simp add: initialised_def)
  have 0: "insert_or_ignore_setting ''last_healthcheck_status'' ''UNKNOWN''
      (insert_or_ignore_setting ''current_ip'' [] d) = d"
    using assms(1) by (auto simp: initialised_def insert_or_ignore_setting_def)
  have 1: "ensure_amnezia_settings pub (im_amnezia_private m) (im_obfuscation m) d = (False, d)"
  proof -
    obtain p where p: "ensure_amnezia_settings pub (im_amnezia_private m) (im_obfuscation m) d =
      put_each ([(''amnezia.server_private_key'', im_amnezia_private m), (''amnezia.server_public_key'', pub p)] @
       map (\<lambda>(k, v). (''amnezia.'' @ k, int_str v)) (im_obfuscation m)) (False, d)"
      using ensure_amnezia_put_each by metis
    show ?thesis
      unfolding p
      by (rule put_each_noop) (use ne key_settings_sets(1) [OF refl refl refl] in \<open>unfold snd_conv, blast\<close>)
  qed
  have 2: "ensure_reality_settings rpub (im_reality_private m) (im_reality_short_id m) d = (False, d)"
  proof -
    obtain p where p: "ensure_reality_settings rpub (im_reality_private m) (im_reality_short_id m) d =
      put_each [(''vless.reality_private_key'', im_reality_private m), (''vless.reality_public_key'', rpub p),
       (''vless.reality_short_id'', im_reality_short_id m)] (False, d)"
      using ensure_reality_put_each by metis
    show ?thesis
      unfolding p
      by (rule put_each_noop) (use ne key_settings_sets(2) [OF refl refl refl] in \<open>unfold snd_conv, blast\<close>)
  qed
  have 3: "ensure_hysteria_settings (im_hysteria_password m) (im_hysteria_obfs m) d = (False, d)"
    unfolding ensure_hysteria_put_each 
    by (rule put_each_noop) (use ne key_settings_sets(3) [OF refl refl refl] in \<open>unfold snd_conv, blast\<close>)
  have 4: "ensure_client_amnezia_material cfg pub (im_client_private m) (im_client_psk m) d = Inr (False, d)"
    unfolding ensure_client_amnezia_material_def
    by (rule ensure_all_noop) (use assms in \<open>auto simp: initialised_def intro: ensure_client_noop\<close>)
  have 5: "ensure_router_amnezia_peers cfg pub (im_router_private m) (im_router_psk m) d = Inr (False, d)"
    by (rule ensure_peers_noop) (use assms in \<open>simp add: initialised_def\<close>)
  show ?thesis by (simp add: init_db_def 0 1 2 3 4 5)
qed

definition material_ok :: "init_material \<Rightarrow> bool" where
  "material_ok m \<longleftrightarrow> im_amnezia_private m \<noteq> [] \<and> im_reality_private m \<noteq> [] \<and>
     im_reality_short_id m \<noteq> [] \<and> im_hysteria_password m \<noteq> [] \<and> im_hysteria_obfs m \<noteq> [] \<and>
     (\<forall>i. im_client_private m i \<noteq> []) \<and> (\<forall>i. im_client_psk m i \<noteq> [])"

lemma map_of_put_setting:
  "map_of (settings (put_setting k v d)) k' = (if k' = k then Some v else map_of (settings d) k')"
  by (simp add: put_setting_def update_conv')

lemma present_put_if_empty:
  "map_of (settings (snd cd)) k' \<noteq> None \<Longrightarrow> map_of (settings (snd (put_if_empty k v cd))) k' \<noteq> None"
  by (auto simp: put_if_empty_def map_of_put_setting split: prod.split)

lemma present_put_each:
  "map_of (settings (snd cd)) k' \<noteq> None \<Longrightarrow> map_of (settings (snd (put_each kvs cd))) k' \<noteq> None"
proof (induction kvs arbitrary: cd)
  case (Cons kv kvs)
  then show ?case
    using present_put_if_empty [of cd k' "fst kv" "snd kv"]
      Cons.IH [of "put_if_empty (fst kv) (snd kv) cd"]
    by (simp add: put_each_def case_prod_beta)
qed (simp add: put_each_def)

lemma present_insert_or_ignore:
  "map_of (settings (insert_or_ignore_setting k v d)) k \<noteq> None"
  "map_of (settings d) k' \<noteq> None \<Longrightarrow> map_of (settings (insert_or_ignore_setting k v d)) k' \<noteq> None"
  by (auto simp: insert_or_ignore_setting_def map_of_put_setting)

lemma setting_eq_settings: "settings d = settings d' \<Longrightarrow> setting d k = setting d' k"
  by (simp add: setting_def)

lemma init_db_steps:
  assumes "init_db cfg pub rpub now m d = Inr d'"
    and "d0 = insert_or_ignore_setting ''last_healthcheck_status'' ''UNKNOWN''
      (insert_or_ignore_setting ''current_ip'' [] d)"
    and "d1 = snd (ensure_amnezia_settings pub (im_amnezia_private m) (im_obfuscation m) d0)"
    and "d2 = snd (ensure_reality_settings rpub (im_reality_private m) (im_reality_short_id m) d1)"
    and "d3 = snd (ensure_hysteria_settings (im_hysteria_password m) (im_hysteria_obfs m) d2)"
  obtains b4 d4 b5 d5 where
    "ensure_client_amnezia_material cfg pub (im_client_private m) (im_client_psk m) d3 = Inr (b4, d4)"
    and "ensure_router_amnezia_peers cfg pub (im_router_private m) (im_router_psk m) d4 = Inr (b5, d5)"
    and "d' = d5 \<or> d' = bump_revision now d5"
proof -
  obtain x4 x5 where
    "ensure_client_amnezia_material cfg pub (im_client_private m) (im_client_psk m) d3 = Inr x4"
    and "ensure_router_amnezia_peers cfg pub (im_router_private m) (im_router_psk m) (snd x4) = Inr x5"
    and "Inr (if fst (ensure_amnezia_settings pub (im_amnezia_private m) (im_obfuscation m) d0) \<or>
           fst (ensure_reality_settings rpub (im_reality_private m) (im_reality_short_id m) d1) \<or>
           fst (ensure_hysteria_settings (im_hysteria_password m) (im_hysteria_obfs m) d2) \<or> fst x4 \<or> fst x5
         then bump_revision now (snd x5) else snd x5) = (Inr d' :: exn + db)"
    using assms(1)
    unfolding init_db_def Let_def case_prod_beta bind_result_Inr_iff assms(2-) [symmetric] by blast
  then show ?thesis
    by (intro that [of "fst x4" "snd x4" "fst x5" "snd x5"]) (simp_all split: if_splits)
qed

lemma init_db_initialises:
  assumes ok: "init_db cfg pub rpub now m d = Inr d'" and m: "material_ok m"
    and pub: "\<And>p. pub p \<noteq> []" "\<And>p. rpub p \<noteq> []"
  shows "initialised (im_obfuscation m) d'" and "map cl_id (clients d') = map cl_id (clients d)"
proof -
  define d0 where "d0 = insert_or_ignore_setting ''last_healthcheck_status'' ''UNKNOWN''
      (insert_or_ignore_setting ''current_ip'' [] d)"
  define d1 where "d1 = snd (ensure_amnezia_settings pub (im_amnezia_private m) (im_obfuscation m) d0)"
  define d2 where "d2 = snd (ensure_reality_settings rpub (im_reality_private m) (im_reality_short_id m) d1)"
  define d3 where "d3 = snd (ensure_hysteria_settings (im_hysteria_password m) (im_hysteria_obfs m) d2)"
  obtain b4 d4 b5 d5 where
    e4: "ensure_client_amnezia_material cfg pub (im_client_private m) (im_client_psk m) d3 = Inr (b4, d4)"
    and e5: "ensure_router_amnezia_peers cfg pub (im_router_private m) (im_router_psk m) d4 = Inr (b5, d5)"
    and d': "d' = d5 \<or> d' = bump_revision now d5"
    using ok d0_def d1_def d2_def d3_def by (rule init_db_steps)
  obtain p1 where e1: "d1 = snd (put_each ([(''amnezia.server_private_key'', im_amnezia_private m),
       (''amnezia.server_public_key'', pub p1)] @
       map (\<lambda>(k, v). (''amnezia.'' @ k, int_str v)) (im_obfuscation m)) (False, d0))"
    unfolding d1_def using ensure_amnezia_put_each by metis
  define kv1 where "kv1 = [(''amnezia.server_private_key'', im_amnezia_private m), (''amnezia.server_public_key'', pub p1)] @
       map (\<lambda>(k, v). (''amnezia.'' @ k, int_str v)) (im_obfuscation m)"
  note d1 = e1 [folded kv1_def]
  obtain p2 where e2: "d2 = snd (put_each [(''vless.reality_private_key'', im_reality_private m),
       (''vless.reality_public_key'', rpub p2), (''vless.reality_short_id'', im_reality_short_id m)] (False, d1))"
    unfolding d2_def using ensure_reality_put_each by metis
  define kv2 where "kv2 = [(''vless.reality_private_key'', im_reality_private m), (''vless.reality_public_key'', rpub p2),
       (''vless.reality_short_id'', im_reality_short_id m)]"
  note d2 = e2 [folded kv2_def]
  define kv3 where "kv3 = [(''hysteria.password'', im_hysteria_password m), (''hysteria.obfs_password'', im_hysteria_obfs m)]"
  have d3: "d3 = snd (put_each kv3 (False, d2))"
    by (simp add: d3_def ensure_hysteria_put_each kv3_def)
  note r4 = ensure_clients_result [OF e4 [unfolded ensure_client_amnezia_material_def]]
  have r4: "map cl_id (clients d4) = map cl_id (clients d3)" "\<forall>c \<in> set (clients d4). client_complete c"
      "settings d4 = settings d3" "routers d4 = routers d3"
    using r4 m pub by (auto simp: material_ok_def)
  have r5: "clients d5 = clients d4" "settings d5 = settings d4" "routers d5 = routers d4"
      "\<forall>rid \<in> ro_router_id ` set (routers d4). peer_of rid d5 \<noteq> None"
    using ensure_peers_result [OF e5 [unfolded ensure_router_amnezia_peers_def]] by auto
  have f1: "k \<in> fst ` set kv1 \<Longrightarrow> setting d1 k \<noteq> []" for k
    unfolding d1 by (rule put_each_fills) (use m pub in \<open>auto simp: kv1_def material_ok_def\<close>)
  have f2: "k \<in> fst ` set kv2 \<Longrightarrow> setting d2 k \<noteq> []" for k
    unfolding d2 by (rule put_each_fills) (use m pub in \<open>auto simp: kv2_def material_ok_def\<close>)
  have f3: "k \<in> fst ` set kv3 \<Longrightarrow> setting d3 k \<noteq> []" for k
    unfolding d3 by (rule put_each_fills) (use m in \<open>auto simp: kv3_def material_ok_def\<close>)
  have k12: "setting d1 k \<noteq> [] \<Longrightarrow> setting d2 k \<noteq> []" for k
    unfolding d2 by (subst put_each_keeps) simp_all
  have k23: "setting d2 k \<noteq> [] \<Longrightarrow> setting d3 k \<noteq> []" for k
    unfolding d3 by (subst put_each_keeps) simp_all
  have "set (key_settings (im_obfuscation m)) = fst ` set kv1 \<union> fst ` set kv2 \<union> fst ` set kv3"
    using kv1_def kv2_def kv3_def by (rule key_settings_sets(4))
  then have keys: "\<forall>k \<in> set (key_settings (im_obfuscation m)). setting d3 k \<noteq> []"
    using f1 f2 f3 k12 k23 by blast
  have pres: "map_of (settings d3) k \<noteq> None" if "map_of (settings d0) k \<noteq> None" for k
    using that unfolding d3 d2 d1 by (simp add: present_put_each)
  have here: "map_of (settings d3) ''current_ip'' \<noteq> None" "map_of (settings d3) ''last_healthcheck_status'' \<noteq> None"
    by (rule pres; simp add: d0_def present_insert_or_ignore)+
  have s5: "setting d5 k = setting d3 k" for k by (rule setting_eq_settings) (simp only: r4(3) r5(2))
  have 5: "initialised (im_obfuscation m) d5"
    unfolding initialised_def s5 r5(1-3) r4(3) using keys here r4(2) r5(4) by blast
  have ids: "map cl_id (clients d5) = map cl_id (clients d)"
    unfolding r5(1) r4(1) d3 d2 d1 d0_def by (simp add: frame_simps)
  show "map cl_id (clients d') = map cl_id (clients d)"
    using d' by (elim disjE) (simp_all only: ids bump_revision_frame)
  have "initialised (im_obfuscation m) (bump_revision now d5)"
  proof -
    have "setting (bump_revision now d5) k \<noteq> []" if "k \<in> set (key_settings (im_obfuscation m))" for k
    proof -
      have "k \<noteq> ''vpn.config_updated_at''" using that by (auto simp: key_settings_def)
      with 5 that show ?thesis by (simp add: setting_bump_revision initialised_def)
    qed
    then show ?thesis
      using 5
      by (simp add: initialised_def frame_simps peer_of_def bump_revision_def
          mark_vpn_config_updated_def Let_def map_of_put_setting)
  qed
  with 5 d' show "initialised (im_obfuscation m) d'" by auto
qed

lemma ensure_settings_frame [frame_simps]:
  "clients (snd (ensure_amnezia_settings pub k obf d)) = clients d"
  "routers (snd (ensure_amnezia_settings pub k obf d)) = routers d"
  "clients (snd (ensure_reality_settings pub k sid d)) = clients d"
  "routers (snd (ensure_reality_settings pub k sid d)) = routers d"
  "clients (snd (ensure_hysteria_settings pw ob d)) = clients d"
  "routers (snd (ensure_hysteria_settings pw ob d)) = routers d"
  using ensure_amnezia_put_each [of pub k obf d] ensure_reality_put_each [of pub k sid d]
  by (auto simp: ensure_hysteria_put_each put_each_frame)

lemma first_start_succeeds:
  "clients d = [] \<Longrightarrow> routers d = [] \<Longrightarrow> succeeds (init_db cfg pub rpub now m d)"
  by (simp add: init_db_def split_beta Let_def ensure_client_amnezia_material_def
      ensure_router_amnezia_peers_def frame_simps)

section \<open>Properties\<close>



text \<open>C38.  Start-up is idempotent: after \<open>init_db\<close> has once filled in the missing keys, secrets,
  addresses and router peers, a second start-up with other fresh random material changes nothing.\<close>

theorem second_start_changes_nothing:
  assumes "init_db cfg pub rpub now m d = Inr d'" and "material_ok m"
    and "\<And>p. pub p \<noteq> []" and "\<And>p. rpub p \<noteq> []" and "clients_ok d"
    and "map fst (im_obfuscation m') = map fst (im_obfuscation m)"
  shows "init_db cfg pub rpub now' m' d' = Inr d'"
proof -
  note once = init_db_initialises [OF assms(1-4)]
  have "distinct (map cl_id (clients d'))" using assms(5) once(2) by (simp add: clients_ok_def)
  with once(1) show ?thesis using assms(6) by (rule init_db_noop)
qed

theorem second_start_changes_nothing_witness:
  "\<exists>d'. init_db default_config (\<lambda>p. ''P'' @ p) (\<lambda>p. ''R'' @ p) 1 \<lparr>im_amnezia_private = ''b'',
     im_obfuscation = [(''jc'', 9)], im_reality_private = ''b'', im_reality_short_id = ''b'',
     im_hysteria_password = ''b'', im_hysteria_obfs = ''b'', im_client_private = (\<lambda>_. ''b''),
     im_client_psk = (\<lambda>_. ''b''), im_router_private = (\<lambda>_. ''b''), im_router_psk = (\<lambda>_. ''b'')\<rparr> d' = Inr d'"
proof -
  define m where "m = \<lparr>im_amnezia_private = ''a'', im_obfuscation = [(''jc'', 3)],
     im_reality_private = ''a'', im_reality_short_id = ''a'', im_hysteria_password = ''a'',
     im_hysteria_obfs = ''a'', im_client_private = (\<lambda>_. ''a''), im_client_psk = (\<lambda>_. ''a''),
     im_router_private = (\<lambda>_. ''a''), im_router_psk = (\<lambda>_. ''a'')\<rparr>"
  have "succeeds (init_db default_config (\<lambda>p. ''P'' @ p) (\<lambda>p. ''R'' @ p) 0 m empty_db)"
    by (rule first_start_succeeds) (simp_all add: empty_db_def)
  then obtain d' where d': "init_db default_config (\<lambda>p. ''P'' @ p) (\<lambda>p. ''R'' @ p) 0 m empty_db = Inr d'"
    by (auto simp: succeeds_def split: sum.splits)
  have "material_ok m" "clients_ok empty_db" by (simp_all add: m_def material_ok_def clients_ok_def empty_db_def)
  then show ?thesis
    by (intro exI [of _ d'] second_start_changes_nothing [OF d']) (simp_all add: m_def)
qed

text \<open>C36.  A progress report of a worker is never refused: when it says \<open>RUNNING\<close> for an operation
  that has lost its lease to another owner, the operation becomes active again beside the new
  owner's, and the exclusion of the VPS is broken.\<close>

theorem late_progress_report_breaks_exclusion:
  assumes "oid \<in> ip_id ` set (ip_ops d)" and "holder d \<noteq> Some (LeaseOwner IpChange oid)"
    and "leases_ok d" and "ip_new_status fs = Some Running"
  shows "is_active (update_operation now oid fs d) (LeaseOwner IpChange oid) \<and>
     holder (update_operation now oid fs d) = holder d \<and> \<not> exclusive (update_operation now oid fs d)"
proof -
  have "is_active (update_operation now oid fs d) (LeaseOwner IpChange oid)"
    using assms(1,4) by (simp add: update_operation_active)
  moreover have "holder (update_operation now oid fs d) = holder d"
    using update_operation_lease(2) [OF assms(3)] assms(4) by (simp add: ends_def)
  ultimately show ?thesis using assms(2) by (auto simp: exclusive_def)
qed

theorem late_progress_report_breaks_exclusion_witness:
  "\<exists>d. exclusive d \<and> holder d = Some (LeaseOwner Server 1) \<and> \<not> exclusive (update_operation 0 1 [IpStatus Running] d)"
proof -
  let ?d = "empty_db\<lparr>ip_ops := [\<lparr>ip_id = 1, ip_status = Failed, ip_old_ip = None, ip_new_ip = None,
      ip_old_ip_id = None, ip_new_ip_id = None, ip_current_step = ''interrupted'', ip_error_message = None,
      ip_created_at = 0, ip_updated_at = 0, ip_server_reachable_at = None, ip_healthcheck_result = None,
      ip_revision = Some 0, ip_published_revision = None, ip_action_state = IpNotStarted,
      ip_purchase_state = NotStarted, ip_make_main_state = NotStarted, ip_apply_state = NotStarted,
      ip_cleanup_warning = None, ip_rollback_outcome = None, ip_new_ip_created_at = None,
      ip_new_main_at = None, ip_apply_completed_at = None, ip_published_at = None,
      ip_reconciled_at = None, ip_reconciliation_note = None\<rparr>],
     leases := [fresh_lease 0 (LeaseOwner Server 1) 60]\<rparr>"
  have inactive: "\<not> is_active ?d ow" for ow
    by (cases "(?d, ow)" rule: is_active.cases) (simp_all add: is_active.simps empty_db_def)
  then have h: "holder ?d = Some (LeaseOwner Server 1)" "leases_ok ?d" "exclusive ?d"
    by (simp_all add: holder_def lease_of_def leases_ok_def exclusive_def)
  then show ?thesis
    by (intro exI [of _ ?d] conjI late_progress_report_breaks_exclusion [THEN conjunct2, THEN conjunct2])
       simp_all
qed

end
