(* ===== verification/VpnConfig.thy ===== *)
theory VpnConfig
  imports Database
begin

text \<open>
  \<open>app/vpn_config.py\<close>: the VPN configuration captured from the database in one read, its
  canonical JSON and the reading of a stored snapshot.  The dataclasses are records.  A member
  of a stored payload whose JSON type is not the one the dataclass declares is a \<open>TypeError\<close>
  here; Python would carry such a value on unchecked.  The schema is taken to be current, so
  the table of router peers is always read.
\<close>

section \<open>The configuration\<close>

record protocol_config =
  pc_enabled :: bool
  pc_port :: int

record vless_config =
  vl_protocol :: protocol_config
  vl_private_key :: string
  vl_public_key :: string
  vl_short_id :: string
  vl_target :: string
  vl_server_names :: "string list"
  vl_server_name :: string
  vl_fingerprint :: string
  vl_spider_x :: string

record hysteria_config =
  hy_protocol :: protocol_config
  hy_password :: string
  hy_obfs_password :: string
  hy_auth_type :: string

record amnezia_obfuscation =
  ob_jc :: int
  ob_jmin :: int
  ob_jmax :: int
  ob_s1 :: int
  ob_s2 :: int
  ob_h1 :: int
  ob_h2 :: int
  ob_h3 :: int
  ob_h4 :: int

record amnezia_config =
  am_protocol :: protocol_config
  am_server_private_key :: string
  am_server_public_key :: string
  am_obfuscation :: amnezia_obfuscation
  am_network_prefix :: string
  am_dns :: string

record vpn_client =
  vc_id :: int
  vc_name :: string
  vc_token :: string
  vc_enabled :: bool
  vc_vless_uuid :: string
  vc_hysteria_password :: string
  vc_amnezia_private_key :: string
  vc_amnezia_public_key :: string
  vc_amnezia_preshared_key :: string
  vc_amnezia_ipv4 :: string
  vc_created_at :: string

record router_peer =
  rp_router_id :: string
  rp_client_id :: int
  rp_private_key :: string
  rp_public_key :: string
  rp_preshared_key :: string
  rp_ipv4 :: string

record captured_config =
  cc_current_ip :: string
  cc_config_updated_at :: string
  cc_vless :: vless_config
  cc_hysteria :: hysteria_config
  cc_amnezia :: amnezia_config
  cc_clients :: "vpn_client list"
  cc_revision :: int
  cc_router_peers :: "router_peer list"

definition enabled_clients :: "captured_config \<Rightarrow> vpn_client list" where
  "enabled_clients c = filter vc_enabled (cc_clients c)"

definition client_by_token :: "string \<Rightarrow> captured_config \<Rightarrow> vpn_client option" where
  "client_by_token token c = List.find (\<lambda>v. vc_token v = token) (cc_clients c)"

section \<open>Capture\<close>

definition configured_value :: "db \<Rightarrow> string \<Rightarrow> string \<Rightarrow> string" where
  "configured_value d key dflt =
     (let v = setting d (''config.'' @ key) in if v = [] then dflt else v)"

definition to_int :: "string \<Rightarrow> exn + int" where
  "to_int s = (case parse_int s of None \<Rightarrow> Inl (ValueError s) | Some i \<Rightarrow> Inr i)"

definition protocol :: "db \<Rightarrow> string \<Rightarrow> int \<Rightarrow> exn + protocol_config" where
  "protocol d name default_port =
     (let raw_port = map_of (settings d) (''config.'' @ name @ ''_port'');
          enabled = (case map_of (settings d) (''config.'' @ name @ ''_enabled'') of
              Some e \<Rightarrow> truthy_text e
            | None \<Rightarrow> raw_port \<noteq> Some [])
      in bind_result
           (if raw_port = None \<or> raw_port = Some [] then Inr default_port else to_int (the raw_port))
           (\<lambda>port. Inr \<lparr>pc_enabled = enabled, pc_port = port\<rparr>))"

definition capture_client :: "client_row \<Rightarrow> vpn_client" where
  "capture_client c =
     \<lparr>vc_id = cl_id c, vc_name = cl_name c, vc_token = cl_token c, vc_enabled = cl_enabled c,
      vc_vless_uuid = cl_vless_uuid c, vc_hysteria_password = cl_hysteria_password c,
      vc_amnezia_private_key = (case cl_awg_private c of None \<Rightarrow> [] | Some k \<Rightarrow> k),
      vc_amnezia_public_key = (case cl_awg_public c of None \<Rightarrow> [] | Some k \<Rightarrow> k),
      vc_amnezia_preshared_key = (case cl_awg_preshared c of None \<Rightarrow> [] | Some k \<Rightarrow> k),
      vc_amnezia_ipv4 = (case cl_awg_ipv4 c of None \<Rightarrow> [] | Some k \<Rightarrow> k),
      vc_created_at = iso_text (cl_created_at c)\<rparr>"

definition capture_router_peers :: "db \<Rightarrow> router_peer list" where
  "capture_router_peers d =
     map (\<lambda>(cid, p). \<lparr>rp_router_id = pe_router_id p, rp_client_id = cid, rp_private_key = pe_private_key p,
                      rp_public_key = pe_public_key p, rp_preshared_key = pe_preshared_key p,
                      rp_ipv4 = pe_ipv4 p\<rparr>)
       (sort_key (\<lambda>(cid, p). pe_router_id p) (List.map_filter (served_peer d) (peers d)))"

definition int_setting :: "db \<Rightarrow> string \<Rightarrow> string \<Rightarrow> exn + int" where
  "int_setting d key dflt = to_int (case map_of (settings d) key of None \<Rightarrow> dflt | Some v \<Rightarrow> v)"

definition capture_obfuscation :: "db \<Rightarrow> exn + amnezia_obfuscation" where
  "capture_obfuscation d =
     bind_result (int_setting d ''amnezia.jc'' ''5'') (\<lambda>jc.
     bind_result (int_setting d ''amnezia.jmin'' ''40'') (\<lambda>jmin.
     bind_result (int_setting d ''amnezia.jmax'' ''1000'') (\<lambda>jmax.
     bind_result (int_setting d ''amnezia.s1'' ''64'') (\<lambda>s1.
     bind_result (int_setting d ''amnezia.s2'' ''128'') (\<lambda>s2.
     bind_result (int_setting d ''amnezia.h1'' ''1'') (\<lambda>h1.
     bind_result (int_setting d ''amnezia.h2'' ''2'') (\<lambda>h2.
     bind_result (int_setting d ''amnezia.h3'' ''3'') (\<lambda>h3.
     bind_result (int_setting d ''amnezia.h4'' ''4'') (\<lambda>h4.
       Inr \<lparr>ob_jc = jc, ob_jmin = jmin, ob_jmax = jmax, ob_s1 = s1, ob_s2 = s2, ob_h1 = h1,
            ob_h2 = h2, ob_h3 = h3, ob_h4 = h4\<rparr>)))))))))"

definition capture_vpn_config :: "config \<Rightarrow> db \<Rightarrow> exn + captured_config" where
  "capture_vpn_config cfg d =
     bind_result (protocol d ''vless'' (c_vless_port cfg)) (\<lambda>vless.
     bind_result (protocol d ''hysteria'' (c_hysteria_port cfg)) (\<lambda>hysteria.
     bind_result (protocol d ''amnezia'' (c_amnezia_port cfg)) (\<lambda>amnezia.
     bind_result (capture_obfuscation d) (\<lambda>obfuscation.
       Inr \<lparr>cc_current_ip = setting d ''current_ip'',
            cc_config_updated_at = setting d ''vpn.config_updated_at'',
            cc_vless = \<lparr>vl_protocol = vless,
              vl_private_key = setting d ''vless.reality_private_key'',
              vl_public_key = setting d ''vless.reality_public_key'',
              vl_short_id = setting d ''vless.reality_short_id'',
              vl_target = configured_value d ''vless_reality_target'' (c_vless_reality_target cfg),
              vl_server_names = csv_items (configured_value d ''vless_reality_server_names''
                (join '','' (c_vless_reality_server_names cfg))),
              vl_server_name = configured_value d ''vless_reality_server_name'' (c_vless_reality_server_name cfg),
              vl_fingerprint = configured_value d ''vless_reality_fingerprint'' (c_vless_reality_fingerprint cfg),
              vl_spider_x = configured_value d ''vless_reality_spider_x'' (c_vless_reality_spider_x cfg)\<rparr>,
            cc_hysteria = \<lparr>hy_protocol = hysteria, hy_password = setting d ''hysteria.password'',
              hy_obfs_password = setting d ''hysteria.obfs_password'', hy_auth_type = ''userpass''\<rparr>,
            cc_amnezia = \<lparr>am_protocol = amnezia,
              am_server_private_key = setting d ''amnezia.server_private_key'',
              am_server_public_key = setting d ''amnezia.server_public_key'',
              am_obfuscation = obfuscation,
              am_network_prefix = configured_value d ''amnezia_network_prefix'' (c_amnezia_network_prefix cfg),
              am_dns = configured_value d ''amnezia_dns'' (c_amnezia_dns cfg)\<rparr>,
            cc_clients = map capture_client (list_clients d),
            cc_revision = desired_revision (vpn_state d),
            cc_router_peers = capture_router_peers d\<rparr>))))"

section \<open>Canonical JSON\<close>

definition protocol_json :: "protocol_config \<Rightarrow> json" where
  "protocol_json p = JObj [(''enabled'', JBool (pc_enabled p)), (''port'', JInt (pc_port p))]"

definition vless_json :: "vless_config \<Rightarrow> json" where
  "vless_json v = JObj
    [(''protocol'', protocol_json (vl_protocol v)), (''private_key'', JStr (vl_private_key v)),
     (''public_key'', JStr (vl_public_key v)), (''short_id'', JStr (vl_short_id v)),
     (''target'', JStr (vl_target v)), (''server_names'', JList (map JStr (vl_server_names v))),
     (''server_name'', JStr (vl_server_name v)), (''fingerprint'', JStr (vl_fingerprint v)),
     (''spider_x'', JStr (vl_spider_x v))]"

definition hysteria_json :: "hysteria_config \<Rightarrow> json" where
  "hysteria_json h = JObj
    [(''protocol'', protocol_json (hy_protocol h)), (''password'', JStr (hy_password h)),
     (''obfs_password'', JStr (hy_obfs_password h)), (''auth_type'', JStr (hy_auth_type h))]"

definition obfuscation_json :: "amnezia_obfuscation \<Rightarrow> json" where
  "obfuscation_json o' = JObj
    [(''jc'', JInt (ob_jc o')), (''jmin'', JInt (ob_jmin o')), (''jmax'', JInt (ob_jmax o')),
     (''s1'', JInt (ob_s1 o')), (''s2'', JInt (ob_s2 o')), (''h1'', JInt (ob_h1 o')),
     (''h2'', JInt (ob_h2 o')), (''h3'', JInt (ob_h3 o')), (''h4'', JInt (ob_h4 o'))]"

definition amnezia_json :: "amnezia_config \<Rightarrow> json" where
  "amnezia_json a = JObj
    [(''protocol'', protocol_json (am_protocol a)),
     (''server_private_key'', JStr (am_server_private_key a)),
     (''server_public_key'', JStr (am_server_public_key a)),
     (''obfuscation'', obfuscation_json (am_obfuscation a)),
     (''network_prefix'', JStr (am_network_prefix a)), (''dns'', JStr (am_dns a))]"

definition client_json :: "vpn_client \<Rightarrow> json" where
  "client_json c = JObj
    [(''id'', JInt (vc_id c)), (''name'', JStr (vc_name c)), (''token'', JStr (vc_token c)),
     (''enabled'', JBool (vc_enabled c)), (''vless_uuid'', JStr (vc_vless_uuid c)),
     (''hysteria_password'', JStr (vc_hysteria_password c)),
     (''amnezia_private_key'', JStr (vc_amnezia_private_key c)),
     (''amnezia_public_key'', JStr (vc_amnezia_public_key c)),
     (''amnezia_preshared_key'', JStr (vc_amnezia_preshared_key c)),
     (''amnezia_ipv4'', JStr (vc_amnezia_ipv4 c)), (''created_at'', JStr (vc_created_at c))]"

definition peer_json :: "router_peer \<Rightarrow> json" where
  "peer_json p = JObj
    [(''router_id'', JStr (rp_router_id p)), (''client_id'', JInt (rp_client_id p)),
     (''private_key'', JStr (rp_private_key p)), (''public_key'', JStr (rp_public_key p)),
     (''preshared_key'', JStr (rp_preshared_key p)), (''ipv4'', JStr (rp_ipv4 p))]"

definition config_json :: "captured_config \<Rightarrow> json" where
  "config_json c = JObj
    ([(''schema_version'', JInt 1), (''revision'', JInt (cc_revision c)),
      (''current_ip'', JStr (cc_current_ip c)),
      (''config_updated_at'', JStr (cc_config_updated_at c)), (''vless'', vless_json (cc_vless c)),
      (''hysteria'', hysteria_json (cc_hysteria c)), (''amnezia'', amnezia_json (cc_amnezia c)),
      (''clients'', JList (map client_json (enabled_clients c)))] @
     (if cc_router_peers c = [] then []
      else [(''router_amnezia_peers'', JList (map peer_json (cc_router_peers c)))]))"

definition canonical_vpn_config_json :: "captured_config \<Rightarrow> string" where
  "canonical_vpn_config_json c = dumps (config_json c)"

section \<open>Reading a stored snapshot\<close>

definition req :: "string \<Rightarrow> json \<Rightarrow> exn + json" where
  "req k v = (case v of
       JObj kvs \<Rightarrow> (case map_of kvs k of None \<Rightarrow> Inl (KeyError k) | Some x \<Rightarrow> Inr x)
     | _ \<Rightarrow> Inl (TypeError k))"

fun as_str :: "json \<Rightarrow> exn + string" where
  "as_str (JStr s) = Inr s"
| "as_str _ = Inl (TypeError ''str'')"

fun as_int :: "json \<Rightarrow> exn + int" where
  "as_int (JInt i) = Inr i"
| "as_int _ = Inl (TypeError ''int'')"

fun as_bool :: "json \<Rightarrow> exn + bool" where
  "as_bool (JBool b) = Inr b"
| "as_bool _ = Inl (TypeError ''bool'')"

fun as_list :: "json \<Rightarrow> exn + json list" where
  "as_list (JList vs) = Inr vs"
| "as_list _ = Inl (TypeError ''list'')"

definition req_str :: "string \<Rightarrow> json \<Rightarrow> exn + string" where
  "req_str k v = bind_result (req k v) as_str"

definition req_int :: "string \<Rightarrow> json \<Rightarrow> exn + int" where
  "req_int k v = bind_result (req k v) as_int"

definition get_str :: "string \<Rightarrow> string \<Rightarrow> json \<Rightarrow> exn + string" where
  "get_str k dflt v = (case member_of v k of None \<Rightarrow> Inr dflt | Some x \<Rightarrow> as_str x)"

text \<open>\<open>Dataclass(**members)\<close>: exactly the declared names.\<close>

definition exactly :: "string list \<Rightarrow> json \<Rightarrow> exn + json" where
  "exactly names v = (case v of
       JObj kvs \<Rightarrow> if set (map fst kvs) = set names then Inr v else Inl (TypeError ''__init__'')
     | _ \<Rightarrow> Inl (TypeError ''__init__''))"

definition protocol_from :: "json \<Rightarrow> exn + protocol_config" where
  "protocol_from v =
     bind_result (exactly [''enabled'', ''port''] v) (\<lambda>v.
     bind_result (bind_result (req ''enabled'' v) as_bool) (\<lambda>e.
     bind_result (req_int ''port'' v) (\<lambda>p. Inr \<lparr>pc_enabled = e, pc_port = p\<rparr>)))"

definition vless_from :: "json \<Rightarrow> exn + vless_config" where
  "vless_from v =
     bind_result (bind_result (req ''protocol'' v) protocol_from) (\<lambda>pr.
     bind_result (req_str ''private_key'' v) (\<lambda>private.
     bind_result (req_str ''public_key'' v) (\<lambda>public.
     bind_result (req_str ''short_id'' v) (\<lambda>sid.
     bind_result (req_str ''target'' v) (\<lambda>target.
     bind_result (bind_result (bind_result (req ''server_names'' v) as_list) (map_result as_str)) (\<lambda>names.
     bind_result (req_str ''server_name'' v) (\<lambda>name.
     bind_result (req_str ''fingerprint'' v) (\<lambda>fp.
     bind_result (req_str ''spider_x'' v) (\<lambda>sx.
       Inr \<lparr>vl_protocol = pr, vl_private_key = private, vl_public_key = public, vl_short_id = sid,
            vl_target = target, vl_server_names = names, vl_server_name = name,
            vl_fingerprint = fp, vl_spider_x = sx\<rparr>)))))))))"

definition hysteria_from :: "json \<Rightarrow> exn + hysteria_config" where
  "hysteria_from v =
     bind_result (bind_result (req ''protocol'' v) protocol_from) (\<lambda>pr.
     bind_result (req_str ''password'' v) (\<lambda>pw.
     bind_result (req_str ''obfs_password'' v) (\<lambda>obfs.
     bind_result (get_str ''auth_type'' ''password'' v) (\<lambda>at.
       Inr \<lparr>hy_protocol = pr, hy_password = pw, hy_obfs_password = obfs, hy_auth_type = at\<rparr>))))"

definition obfuscation_from :: "json \<Rightarrow> exn + amnezia_obfuscation" where
  "obfuscation_from v =
     bind_result (exactly [''jc'', ''jmin'', ''jmax'', ''s1'', ''s2'', ''h1'', ''h2'', ''h3'', ''h4''] v) (\<lambda>v.
     bind_result (req_int ''jc'' v) (\<lambda>jc.
     bind_result (req_int ''jmin'' v) (\<lambda>jmin.
     bind_result (req_int ''jmax'' v) (\<lambda>jmax.
     bind_result (req_int ''s1'' v) (\<lambda>s1.
     bind_result (req_int ''s2'' v) (\<lambda>s2.
     bind_result (req_int ''h1'' v) (\<lambda>h1.
     bind_result (req_int ''h2'' v) (\<lambda>h2.
     bind_result (req_int ''h3'' v) (\<lambda>h3.
     bind_result (req_int ''h4'' v) (\<lambda>h4.
       Inr \<lparr>ob_jc = jc, ob_jmin = jmin, ob_jmax = jmax, ob_s1 = s1, ob_s2 = s2, ob_h1 = h1,
            ob_h2 = h2, ob_h3 = h3, ob_h4 = h4\<rparr>))))))))))"

definition amnezia_from :: "json \<Rightarrow> exn + amnezia_config" where
  "amnezia_from v =
     bind_result (bind_result (req ''protocol'' v) protocol_from) (\<lambda>pr.
     bind_result (req_str ''server_private_key'' v) (\<lambda>private.
     bind_result (req_str ''server_public_key'' v) (\<lambda>public.
     bind_result (bind_result (req ''obfuscation'' v) obfuscation_from) (\<lambda>obf.
     bind_result (req_str ''network_prefix'' v) (\<lambda>prefix.
     bind_result (req_str ''dns'' v) (\<lambda>dns.
       Inr \<lparr>am_protocol = pr, am_server_private_key = private, am_server_public_key = public,
            am_obfuscation = obf, am_network_prefix = prefix, am_dns = dns\<rparr>))))))"

definition client_names :: "string list" where
  "client_names = [''id'', ''name'', ''token'', ''enabled'', ''vless_uuid'', ''hysteria_password'',
     ''amnezia_private_key'', ''amnezia_public_key'', ''amnezia_preshared_key'', ''amnezia_ipv4'',
     ''created_at'']"

definition client_from :: "json \<Rightarrow> exn + vpn_client" where
  "client_from v =
     bind_result (exactly client_names v) (\<lambda>v.
     bind_result (req_int ''id'' v) (\<lambda>i.
     bind_result (req_str ''name'' v) (\<lambda>name.
     bind_result (req_str ''token'' v) (\<lambda>token.
     bind_result (bind_result (req ''enabled'' v) as_bool) (\<lambda>en.
     bind_result (req_str ''vless_uuid'' v) (\<lambda>uuid.
     bind_result (req_str ''hysteria_password'' v) (\<lambda>pw.
     bind_result (req_str ''amnezia_private_key'' v) (\<lambda>private.
     bind_result (req_str ''amnezia_public_key'' v) (\<lambda>public.
     bind_result (req_str ''amnezia_preshared_key'' v) (\<lambda>psk.
     bind_result (req_str ''amnezia_ipv4'' v) (\<lambda>ip.
     bind_result (req_str ''created_at'' v) (\<lambda>created.
       Inr \<lparr>vc_id = i, vc_name = name, vc_token = token, vc_enabled = en, vc_vless_uuid = uuid,
            vc_hysteria_password = pw, vc_amnezia_private_key = private,
            vc_amnezia_public_key = public, vc_amnezia_preshared_key = psk, vc_amnezia_ipv4 = ip,
            vc_created_at = created\<rparr>))))))))))))"

definition peer_from :: "json \<Rightarrow> exn + router_peer" where
  "peer_from v =
     bind_result (exactly [''router_id'', ''client_id'', ''private_key'', ''public_key'', ''preshared_key'', ''ipv4''] v) (\<lambda>v.
     bind_result (req_str ''router_id'' v) (\<lambda>rid.
     bind_result (req_int ''client_id'' v) (\<lambda>cid.
     bind_result (req_str ''private_key'' v) (\<lambda>private.
     bind_result (req_str ''public_key'' v) (\<lambda>public.
     bind_result (req_str ''preshared_key'' v) (\<lambda>psk.
     bind_result (req_str ''ipv4'' v) (\<lambda>ip.
       Inr \<lparr>rp_router_id = rid, rp_client_id = cid, rp_private_key = private, rp_public_key = public,
            rp_preshared_key = psk, rp_ipv4 = ip\<rparr>)))))))"

definition config_from :: "json \<Rightarrow> exn + captured_config" where
  "config_from v =
     (if member_of v ''schema_version'' \<noteq> Some (JInt 1) then
        Inl (ValueError ''Unsupported captured VPN configuration schema'')
      else
        bind_result (req ''vless'' v) (\<lambda>vless.
        bind_result (req ''hysteria'' v) (\<lambda>hysteria.
        bind_result (req ''amnezia'' v) (\<lambda>amnezia.
        bind_result (req_str ''current_ip'' v) (\<lambda>ip.
        bind_result (get_str ''config_updated_at'' [] v) (\<lambda>updated.
        bind_result (vless_from vless) (\<lambda>vl.
        bind_result (hysteria_from hysteria) (\<lambda>hy.
        bind_result (amnezia_from amnezia) (\<lambda>am.
        bind_result (bind_result (bind_result (req ''clients'' v) as_list) (map_result client_from)) (\<lambda>cs.
        bind_result (req_int ''revision'' v) (\<lambda>revision.
        bind_result (case member_of v ''router_amnezia_peers'' of
             None \<Rightarrow> Inr [] | Some ps \<Rightarrow> bind_result (as_list ps) (map_result peer_from)) (\<lambda>ps.
          Inr \<lparr>cc_current_ip = ip, cc_config_updated_at = updated, cc_vless = vl, cc_hysteria = hy,
               cc_amnezia = am, cc_clients = cs, cc_revision = revision,
               cc_router_peers = ps\<rparr>))))))))))))"

definition captured_vpn_config_from_json :: "string \<Rightarrow> exn + captured_config" where
  "captured_vpn_config_from_json text =
     (case loads text of
        None \<Rightarrow> Inl (ValueError ''Invalid JSON'')
      | Some v \<Rightarrow> config_from v)"

section \<open>The round trip\<close>

text \<open>
  A snapshot keeps the enabled clients only; everything else comes back as it was captured.
\<close>

definition snapshot_of :: "captured_config \<Rightarrow> captured_config" where
  "snapshot_of c = c\<lparr>cc_clients := enabled_clients c\<rparr>"

lemma map_of_sorted_members:
  "distinct (map fst kvs) \<Longrightarrow>
     map_of (sort_key fst (canon_members kvs)) k = map_option canon (map_of kvs k)"
  by (simp add: map_of_sort_key map_of_canon_members)

lemma req_canon:
  "distinct (map fst kvs) \<Longrightarrow>
     req k (canon (JObj kvs)) = (case map_of kvs k of None \<Rightarrow> Inl (KeyError k) | Some x \<Rightarrow> Inr (canon x))"
  by (simp add: req_def map_of_sorted_members split: option.split)

lemma member_of_canon_obj:
  "distinct (map fst kvs) \<Longrightarrow> member_of (canon (JObj kvs)) k = map_option canon (map_of kvs k)"
  by (simp add: map_of_sorted_members)

lemma exactly_canon:
  "set (map fst kvs) = set names \<Longrightarrow> exactly names (canon (JObj kvs)) = Inr (canon (JObj kvs))"
proof -
  have "set (map fst (sort_key fst (canon_members kvs))) = set (map fst kvs)"
    by (metis map_fst_canon_members set_map set_sort)
  then show "set (map fst kvs) = set names \<Longrightarrow> exactly names (canon (JObj kvs)) = Inr (canon (JObj kvs))"
    by (simp only: exactly_def canon.simps json.case) simp
qed

lemma canon_list_map: "canon_list vs = map canon vs"
  by (induction vs) simp_all

lemmas decode_simps = req_str_def req_int_def get_str_def req_canon member_of_canon_obj exactly_canon

lemma protocol_round: "protocol_from (canon (protocol_json p)) = Inr p"
  unfolding protocol_from_def protocol_json_def
  by (simp add: decode_simps del: canon.simps(2))

lemma strings_round: "map_result as_str (map JStr ss) = Inr ss"
  by (induction ss) simp_all

lemma vless_round: "vless_from (canon (vless_json v)) = Inr v"
  unfolding vless_from_def vless_json_def
  by (simp add: decode_simps protocol_round canon_list_map comp_def strings_round del: canon.simps(2))

lemma hysteria_round: "hysteria_from (canon (hysteria_json h)) = Inr h"
  unfolding hysteria_from_def hysteria_json_def
  by (simp add: decode_simps protocol_round del: canon.simps(2))

lemma obfuscation_round: "obfuscation_from (canon (obfuscation_json o')) = Inr o'"
  unfolding obfuscation_from_def obfuscation_json_def
  by (simp add: decode_simps del: canon.simps(2))

lemma amnezia_round: "amnezia_from (canon (amnezia_json a)) = Inr a"
  unfolding amnezia_from_def amnezia_json_def
  by (simp add: decode_simps protocol_round obfuscation_round del: canon.simps(2))

lemma client_round: "client_from (canon (client_json c)) = Inr c"
  unfolding client_from_def client_json_def client_names_def
  by (simp add: decode_simps del: canon.simps(2))

lemma peer_round: "peer_from (canon (peer_json p)) = Inr p"
  unfolding peer_from_def peer_json_def
  by (simp add: decode_simps del: canon.simps(2))

lemma map_round: "(\<And>x. from (canon (to x)) = Inr x) \<Longrightarrow> map_result from (map (canon \<circ> to) xs) = Inr xs"
  by (induction xs) simp_all

lemma wf_config_json: "wf_json (config_json c)"
proof -
  have l: "wf_list (\<lambda>_. True) (map f xs)" if "\<And>x. wf_json (f x)" for f :: "'a \<Rightarrow> json" and xs
    using that by (induction xs) simp_all
  have l2: "wf_list (\<lambda>_. True) (map f xs)" if "\<And>x. wf_json (f x)" for f :: "'b \<Rightarrow> json" and xs
    using that by (induction xs) simp_all
  have pr: "wf_json (protocol_json p)" for p by (simp add: protocol_json_def)
  have vl: "wf_json (vless_json v)" for v by (simp add: vless_json_def pr l)
  have hy: "wf_json (hysteria_json h)" for h by (simp add: hysteria_json_def pr)
  have ob: "wf_json (obfuscation_json o')" for o' by (simp add: obfuscation_json_def)
  have am: "wf_json (amnezia_json a)" for a by (simp add: amnezia_json_def pr ob)
  have cl: "wf_json (client_json c)" for c by (simp add: client_json_def)
  have pe: "wf_json (peer_json p)" for p by (simp add: peer_json_def)
  show ?thesis by (simp add: config_json_def vl hy am l2 cl pe)
qed

lemma config_round: "config_from (canon (config_json c)) = Inr (snapshot_of c)"
proof (cases "cc_router_peers c = []")
  case True
  then show ?thesis
    unfolding config_from_def config_json_def
    by (simp add: decode_simps vless_round hysteria_round amnezia_round canon_list_map
        map_round [OF client_round] snapshot_of_def del: canon.simps(2))
next
  case False
  then show ?thesis
    unfolding config_from_def config_json_def
    by (simp add: decode_simps vless_round hysteria_round amnezia_round canon_list_map
        map_round [OF client_round] map_round [OF peer_round] snapshot_of_def del: canon.simps(2))
qed

lemma snapshot_round_trip:
  "captured_vpn_config_from_json (canonical_vpn_config_json c) = Inr (snapshot_of c)"
  by (simp add: captured_vpn_config_from_json_def canonical_vpn_config_json_def
      loads_dumps [OF wf_config_json] config_round)

lemma canonical_snapshot_of: "canonical_vpn_config_json (snapshot_of c) = canonical_vpn_config_json c"
  by (simp add: canonical_vpn_config_json_def config_json_def snapshot_of_def enabled_clients_def)

text \<open>
  What a stored encoding promises its readers: decoding gives a normal form of what was
  encoded, and the normal form has the same encoding.
\<close>

locale codec =
  fixes encode :: "'a \<Rightarrow> 'b" and decode :: "'b \<Rightarrow> 'e + 'a" and norm :: "'a \<Rightarrow> 'a"
  assumes decode_encode: "decode (encode x) = Inr (norm x)"
    and encode_norm: "encode (norm x) = encode x"
begin

lemma norm_idem: "norm (norm x) = norm x"
  using decode_encode [of "norm x"] decode_encode [of x] by (simp add: encode_norm)

lemma encode_eq_iff: "encode x = encode y \<longleftrightarrow> norm x = norm y"
proof
  assume "encode x = encode y"
  then have "decode (encode x) = decode (encode y)" by simp
  then show "norm x = norm y" by (simp add: decode_encode)
next
  assume "norm x = norm y"
  then have "encode (norm x) = encode (norm y)" by simp
  then show "encode x = encode y" by (simp add: encode_norm)
qed

lemma reencode: "decode b = Inr x \<Longrightarrow> b = encode y \<Longrightarrow> encode x = b"
  by (auto simp: decode_encode encode_norm)

end

interpretation snap: codec canonical_vpn_config_json captured_vpn_config_from_json snapshot_of
  by unfold_locales (simp_all add: snapshot_round_trip canonical_snapshot_of)

text \<open>Two captures are stored as the same text exactly when their snapshots agree.\<close>

lemmas same_payload_iff = snap.encode_eq_iff

section \<open>What a capture reads\<close>

lemma capture_fields:
  assumes "capture_vpn_config cfg d = Inr c"
  shows "cc_revision c = desired_revision (vpn_state d)"
    and "cc_clients c = map capture_client (list_clients d)"
    and "cc_current_ip c = setting d ''current_ip''"
    and "cc_config_updated_at c = setting d ''vpn.config_updated_at''"
    and "cc_router_peers c = capture_router_peers d"
    and "hy_auth_type (cc_hysteria c) = ''userpass''"
  using assms by (auto simp: capture_vpn_config_def bind_result_Inr_iff)

lemma capture_cong:
  assumes "settings d = settings d'" and "clients d = clients d'" and "vpn_state d = vpn_state d'"
    and "routers d = routers d'" and "peers d = peers d'"
  shows "capture_vpn_config cfg d = capture_vpn_config cfg d'"
proof -
  have "setting d = setting d'" using assms by (intro ext) (simp add: setting_def)
  moreover have "router_client d = router_client d'"
    using assms by (intro ext) (simp add: router_client_def)
  moreover from this have "served_peer d = served_peer d'"
    using assms unfolding served_peer_def peer_router_def by (simp cong: option.case_cong)
  moreover have "protocol d = protocol d'" using assms by (intro ext) (simp add: protocol_def)
  moreover have "capture_obfuscation d = capture_obfuscation d'"
    using assms by (simp add: capture_obfuscation_def int_setting_def)
  moreover have "configured_value d = configured_value d'"
    using \<open>setting d = setting d'\<close> by (intro ext) (simp add: configured_value_def)
  ultimately show ?thesis
    using assms by (simp add: capture_vpn_config_def capture_router_peers_def list_clients_def)
qed

section \<open>Properties\<close>

text \<open>C39.  The canonical JSON of a captured configuration reads back as that configuration with the
  disabled clients left out, and two configurations have the same canonical JSON exactly when they
  agree in everything but their disabled clients.\<close>

theorem snapshot_json_round_trip:
  "captured_vpn_config_from_json (canonical_vpn_config_json c) = Inr (snapshot_of c) \<and>
   (canonical_vpn_config_json c = canonical_vpn_config_json c' \<longleftrightarrow> snapshot_of c = snapshot_of c')"
  using snapshot_round_trip snap.encode_eq_iff by blast

end
