(* ===== verification/Runtime.thy ===== *)
theory Runtime
  imports Database
begin

text \<open>
  \<open>app/runtime_config.py\<close>, \<open>app/ssh_credentials.py\<close> and \<open>app/vps_provider.py\<close>: a value set in
  the panel overrides the one of the environment.  \<open>creds\<close> is the SSH identity an operation in
  progress has put in force (\<open>use_ssh_credentials\<close>), \<open>sha\<close> the SHA-256 hex digest.
\<close>

section \<open>Values\<close>

definition bool_str :: "bool \<Rightarrow> string" where
  "bool_str b = (if b then ''True'' else ''False'')"

text \<open>\<open>getattr(settings, key)\<close>, as text; a list is joined by commas.\<close>

definition config_fields :: "config \<Rightarrow> (string \<times> string) list" where
  "config_fields cfg =
     [(''database_path'', database_path cfg), (''admin_username'', admin_username cfg),
      (''admin_password'', admin_password cfg), (''aeza_api_base'', c_aeza_api_base cfg),
      (''vps_provider'', c_vps_provider cfg), (''sprintbox_login'', c_sprintbox_login cfg),
      (''sprintbox_key'', c_sprintbox_key cfg), (''sprintbox_box_name'', c_sprintbox_box_name cfg),
      (''sprintbox_service'', c_sprintbox_service cfg),
      (''sprintbox_distributive'', c_sprintbox_distributive cfg),
      (''sprintbox_ssh_key_path'', c_sprintbox_ssh_key_path cfg),
      (''aeza_token'', c_aeza_token cfg), (''aeza_service_id'', c_aeza_service_id cfg),
      (''aeza_ipv4_payment_method'', c_aeza_ipv4_payment_method cfg),
      (''aeza_ipv4_domain'', c_aeza_ipv4_domain cfg),
      (''aeza_ipv4_after_purchase_delay_seconds'', int_str (c_aeza_ipv4_after_purchase_delay_seconds cfg)),
      (''eu_ssh_host'', c_eu_ssh_host cfg), (''eu_ssh_user'', c_eu_ssh_user cfg),
      (''eu_ssh_port'', int_str (c_eu_ssh_port cfg)), (''eu_ssh_key_path'', c_eu_ssh_key_path cfg),
      (''eu_ssh_password'', c_eu_ssh_password cfg),
      (''ssh_connect_timeout_seconds'', int_str (c_ssh_connect_timeout_seconds cfg)),
      (''server_status_timeout_seconds'', int_str (c_server_status_timeout_seconds cfg)),
      (''server_reboot_timeout_seconds'', int_str (c_server_reboot_timeout_seconds cfg)),
      (''server_poll_interval_seconds'', int_str (c_server_poll_interval_seconds cfg)),
      (''server_ssh_probe_timeout_seconds'', int_str (c_server_ssh_probe_timeout_seconds cfg)),
      (''server_command_timeout_seconds'', int_str (c_server_command_timeout_seconds cfg)),
      (''vpn_deploy_timeout_seconds'', int_str (c_vpn_deploy_timeout_seconds cfg)),
      (''vpn_lease_heartbeat_seconds'', int_str (c_vpn_lease_heartbeat_seconds cfg)),
      (''enable_transactional_vpn_apply'', bool_str (c_enable_transactional_vpn_apply cfg)),
      (''enable_safe_aeza_ip_rotation'', bool_str (c_enable_safe_aeza_ip_rotation cfg)),
      (''enable_router_api'', bool_str (c_enable_router_api cfg)),
      (''vless_port'', int_str (c_vless_port cfg)),
      (''vless_reality_target'', c_vless_reality_target cfg),
      (''vless_reality_server_names'', join '','' (c_vless_reality_server_names cfg)),
      (''vless_reality_server_name'', c_vless_reality_server_name cfg),
      (''vless_reality_fingerprint'', c_vless_reality_fingerprint cfg),
      (''vless_reality_spider_x'', c_vless_reality_spider_x cfg),
      (''hysteria_port'', int_str (c_hysteria_port cfg)),
      (''amnezia_port'', int_str (c_amnezia_port cfg)),
      (''amnezia_network_prefix'', c_amnezia_network_prefix cfg),
      (''amnezia_dns'', c_amnezia_dns cfg), (''ssh_port'', int_str (c_ssh_port cfg)),
      (''ip_appear_timeout_seconds'', int_str (c_ip_appear_timeout_seconds cfg)),
      (''ip_appear_interval_seconds'', int_str (c_ip_appear_interval_seconds cfg)),
      (''reboot_wait_seconds'', int_str (c_reboot_wait_seconds cfg)),
      (''healthcheck_timeout_seconds'', int_str (c_healthcheck_timeout_seconds cfg)),
      (''healthcheck_interval_seconds'', int_str (c_healthcheck_interval_seconds cfg))]"

definition config_value :: "config \<Rightarrow> db \<Rightarrow> string \<Rightarrow> string \<Rightarrow> string" where
  "config_value cfg d key dflt =
     (let v = setting d (''config.'' @ key) in
      if v \<noteq> [] then v
      else (case map_of (config_fields cfg) key of None \<Rightarrow> dflt | Some f \<Rightarrow> f))"

definition int_of :: "string \<Rightarrow> exn + int" where
  "int_of s = (case parse_int s of None \<Rightarrow> Inl (ValueError s) | Some i \<Rightarrow> Inr i)"

definition config_int :: "config \<Rightarrow> db \<Rightarrow> string \<Rightarrow> int \<Rightarrow> exn + int" where
  "config_int cfg d key dflt =
     (let v = config_value cfg d key [] in if v = [] then Inr dflt else int_of v)"

definition optional_config_int :: "db \<Rightarrow> string \<Rightarrow> int \<Rightarrow> exn + int option" where
  "optional_config_int d key dflt =
     (case map_of (settings d) (''config.'' @ key) of
        None \<Rightarrow> Inr (Some dflt)
      | Some v \<Rightarrow> if v = [] then Inr None else bind_result (int_of v) (\<lambda>i. Inr (Some i)))"

definition config_bool :: "db \<Rightarrow> string \<Rightarrow> bool \<Rightarrow> bool" where
  "config_bool d key dflt =
     (case map_of (settings d) (''config.'' @ key) of None \<Rightarrow> dflt | Some v \<Rightarrow> truthy_text v)"

definition protocol_port_value :: "db \<Rightarrow> string \<Rightarrow> int \<Rightarrow> exn + int" where
  "protocol_port_value d key dflt =
     (case map_of (settings d) (''config.'' @ key @ ''_port'') of
        None \<Rightarrow> Inr dflt
      | Some v \<Rightarrow> if v = [] then Inr dflt else int_of v)"

definition protocol_enabled :: "db \<Rightarrow> string \<Rightarrow> bool \<Rightarrow> bool" where
  "protocol_enabled d key dflt =
     (case map_of (settings d) (''config.'' @ key @ ''_enabled'') of
        Some v \<Rightarrow> truthy_text v
      | None \<Rightarrow> if map_of (settings d) (''config.'' @ key @ ''_port'') = Some [] then False else dflt)"

definition protocol_port :: "db \<Rightarrow> string \<Rightarrow> int \<Rightarrow> bool \<Rightarrow> exn + int option" where
  "protocol_port d key default_port default_enabled =
     (if \<not> protocol_enabled d key default_enabled then Inr None
      else bind_result (protocol_port_value d key default_port) (\<lambda>p. Inr (Some p)))"

definition config_csv :: "config \<Rightarrow> db \<Rightarrow> string \<Rightarrow> string list \<Rightarrow> string list" where
  "config_csv cfg d key dflt =
     (let v = config_value cfg d key [] in if v = [] then dflt else csv_items v)"

definition runtime_admin_username :: "config \<Rightarrow> db \<Rightarrow> string" where
  "runtime_admin_username cfg d =
     (let v = config_value cfg d ''admin_username'' ''admin'' in if v = [] then ''admin'' else v)"

definition runtime_admin_password :: "config \<Rightarrow> db \<Rightarrow> string" where
  "runtime_admin_password cfg d = config_value cfg d ''admin_password'' []"

definition setup_complete :: "config \<Rightarrow> db \<Rightarrow> bool" where
  "setup_complete cfg d \<longleftrightarrow> runtime_admin_password cfg d \<noteq> []"

definition eu_ssh_host :: "config \<Rightarrow> db \<Rightarrow> string" where
  "eu_ssh_host cfg d =
     (case map_of (settings d) ''config.eu_ssh_host'' of
        Some v \<Rightarrow> v | None \<Rightarrow> config_value cfg d ''eu_ssh_host'' [])"

record ssh_credentials =
  sc_user :: string
  sc_port :: int
  sc_key_path :: string
  sc_password :: string

definition eu_ssh_user :: "ssh_credentials option \<Rightarrow> config \<Rightarrow> db \<Rightarrow> string" where
  "eu_ssh_user creds cfg d =
     (case creds of
        Some c \<Rightarrow> sc_user c
      | None \<Rightarrow> (let v = config_value cfg d ''eu_ssh_user'' ''root'' in if v = [] then ''root'' else v))"

definition eu_ssh_port :: "ssh_credentials option \<Rightarrow> config \<Rightarrow> db \<Rightarrow> exn + int" where
  "eu_ssh_port creds cfg d =
     (case creds of Some c \<Rightarrow> Inr (sc_port c) | None \<Rightarrow> config_int cfg d ''eu_ssh_port'' 22)"

definition eu_ssh_key_path :: "ssh_credentials option \<Rightarrow> config \<Rightarrow> db \<Rightarrow> string" where
  "eu_ssh_key_path creds cfg d =
     (case creds of Some c \<Rightarrow> sc_key_path c | None \<Rightarrow> config_value cfg d ''eu_ssh_key_path'' [])"

definition eu_ssh_password :: "ssh_credentials option \<Rightarrow> config \<Rightarrow> db \<Rightarrow> string" where
  "eu_ssh_password creds cfg d =
     (case creds of
        Some c \<Rightarrow> sc_password c
      | None \<Rightarrow> (case map_of (settings d) ''config.eu_ssh_password'' of
            Some v \<Rightarrow> v | None \<Rightarrow> config_value cfg d ''eu_ssh_password'' []))"

definition transactional_vpn_apply_enabled :: "config \<Rightarrow> db \<Rightarrow> bool" where
  "transactional_vpn_apply_enabled cfg d =
     config_bool d ''enable_transactional_vpn_apply'' (c_enable_transactional_vpn_apply cfg)"

definition safe_aeza_ip_rotation_enabled :: "config \<Rightarrow> db \<Rightarrow> bool" where
  "safe_aeza_ip_rotation_enabled cfg d =
     config_bool d ''enable_safe_aeza_ip_rotation'' (c_enable_safe_aeza_ip_rotation cfg)"

definition router_api_enabled :: "config \<Rightarrow> db \<Rightarrow> bool" where
  "router_api_enabled cfg d = config_bool d ''enable_router_api'' (c_enable_router_api cfg)"

section \<open>The provider\<close>

definition provider_name :: "config \<Rightarrow> db \<Rightarrow> string" where
  "provider_name cfg d = config_value cfg d ''vps_provider'' ''aeza''"

record sprintbox_config =
  sb_login :: string
  sb_key :: string
  sb_box_name :: string
  sb_service :: string
  sb_distributive :: string

definition sprintbox_config :: "config \<Rightarrow> db \<Rightarrow> sprintbox_config" where
  "sprintbox_config cfg d =
     \<lparr>sb_login = config_value cfg d ''sprintbox_login'' [], sb_key = config_value cfg d ''sprintbox_key'' [],
      sb_box_name = (case map_of (settings d) ''config.sprintbox_box_name'' of
          Some v \<Rightarrow> v | None \<Rightarrow> config_value cfg d ''sprintbox_box_name'' []),
      sb_service = config_value cfg d ''sprintbox_service'' [],
      sb_distributive = config_value cfg d ''sprintbox_distributive'' []\<rparr>"

definition provider_available :: "config \<Rightarrow> db \<Rightarrow> bool" where
  "provider_available cfg d =
     (if provider_name cfg d = ''sprintbox'' then
        (let c = sprintbox_config cfg d in sb_login c \<noteq> [] \<and> sb_key c \<noteq> [] \<and> sb_box_name c \<noteq> [])
      else provider_name cfg d = ''aeza'' \<and> config_value cfg d ''aeza_token'' [] \<noteq> [] \<and>
           config_value cfg d ''aeza_service_id'' [] \<noteq> [])"

definition ip_rotation_available :: "config \<Rightarrow> db \<Rightarrow> bool" where
  "ip_rotation_available cfg d =
     (if provider_name cfg d = ''sprintbox'' then
        (let c = sprintbox_config cfg d in
         sb_login c \<noteq> [] \<and> sb_key c \<noteq> [] \<and> sb_service c \<noteq> [] \<and> sb_distributive c \<noteq> [])
      else provider_available cfg d)"

definition first_sprintbox_box :: "config \<Rightarrow> db \<Rightarrow> bool" where
  "first_sprintbox_box cfg d \<longleftrightarrow>
     provider_name cfg d = ''sprintbox'' \<and> sb_box_name (sprintbox_config cfg d) = []"

definition provider_service_id :: "config \<Rightarrow> db \<Rightarrow> string" where
  "provider_service_id cfg d =
     (if provider_name cfg d = ''sprintbox'' then sb_box_name (sprintbox_config cfg d)
      else config_value cfg d ''aeza_service_id'' [])"

text \<open>
  The reader inside \<open>bind_provider\<close> and \<open>sprintbox_review._value\<close>: an empty row falls back to the
  environment, except for the box name, where an empty row means no box.
\<close>

definition bound_value :: "config \<Rightarrow> db \<Rightarrow> string \<Rightarrow> string \<Rightarrow> string" where
  "bound_value cfg d key dflt =
     (case map_of (settings d) (''config.'' @ key) of
        Some v \<Rightarrow>
          if key = ''sprintbox_box_name'' \<or> v \<noteq> [] then v
          else (case map_of (config_fields cfg) key of None \<Rightarrow> dflt | Some f \<Rightarrow> f)
      | None \<Rightarrow> (case map_of (config_fields cfg) key of None \<Rightarrow> dflt | Some f \<Rightarrow> f))"

definition insert_setting :: "string \<Rightarrow> string \<Rightarrow> db \<Rightarrow> exn + db" where
  "insert_setting k v d =
     (if map_of (settings d) k = None then Inr (put_setting k v d)
      else Inl (IntegrityError ''settings.key''))"

definition ip_change_key :: "int \<Rightarrow> string \<Rightarrow> string" where
  "ip_change_key oid part = ''ip_change.'' @ int_str oid @ ''.'' @ part"

definition bind_provider :: "(string \<Rightarrow> string) \<Rightarrow> config \<Rightarrow> int \<Rightarrow> db \<Rightarrow> exn + db" where
  "bind_provider sha cfg oid d =
     (let provider = bound_value cfg d ''vps_provider'' ''aeza'' in
      if provider \<notin> {''aeza'', ''sprintbox''} then
        Inl (ValueError ''Unknown VPS provider; configure Setup before rotating IP'')
      else
        insert_setting (ip_change_key oid ''provider'')
          (dumps_plain (JObj ((''provider'', JStr provider) #
            (if provider = ''sprintbox'' then
               [(''login'', JStr (bound_value cfg d ''sprintbox_login'' [])),
                (''box_name'', JStr (bound_value cfg d ''sprintbox_box_name'' [])),
                (''service'', JStr (bound_value cfg d ''sprintbox_service'' [])),
                (''distributive'', JStr (bound_value cfg d ''sprintbox_distributive'' [])),
                (''credential_hash'', JStr (sha (bound_value cfg d ''sprintbox_key'' [])))]
             else [])))) d)"

text \<open>What \<open>json.loads\<close> of a stored object gives; a text that is not JSON raises.\<close>

definition loads_obj :: "string \<Rightarrow> exn + json" where
  "loads_obj text = (case loads text of None \<Rightarrow> Inl (ValueError ''Invalid JSON'') | Some v \<Rightarrow> Inr v)"

definition bound_provider :: "db \<Rightarrow> int \<Rightarrow> exn + json" where
  "bound_provider d oid =
     (case map_of (settings d) (ip_change_key oid ''provider'') of
        None \<Rightarrow> Inr (JObj [(''provider'', JStr ''aeza'')])
      | Some text \<Rightarrow> loads_obj text)"

definition text_member :: "string \<Rightarrow> json \<Rightarrow> string option" where
  "text_member k v = (case member_of v k of Some (JStr s) \<Rightarrow> Some s | _ \<Rightarrow> None)"

lemma bind_provider_Inr:
  assumes "bind_provider sha cfg oid d = Inr d'"
  obtains body where "d' = put_setting (ip_change_key oid ''provider'') body d"
    and "map_of (settings d) (ip_change_key oid ''provider'') = None"
  using assms by (auto simp: bind_provider_def insert_setting_def Let_def split: if_splits)

lemma bound_after_bind:
  assumes "bind_provider sha cfg oid d = Inr d'"
    and "\<And>key. ascii (bound_value cfg d key [])" and "\<And>s. ascii (sha s)"
  shows "\<exists>v. bound_provider d' oid = Inr v \<and>
     text_member ''provider'' v = Some (bound_value cfg d ''vps_provider'' ''aeza'') \<and>
     (bound_value cfg d ''vps_provider'' ''aeza'' = ''sprintbox'' \<longrightarrow>
        text_member ''login'' v = Some (bound_value cfg d ''sprintbox_login'' []) \<and>
        text_member ''credential_hash'' v = Some (sha (bound_value cfg d ''sprintbox_key'' [])))"
proof -
  define provider where "provider = bound_value cfg d ''vps_provider'' ''aeza''"
  define v where "v = JObj ((''provider'', JStr provider) #
            (if provider = ''sprintbox'' then
               [(''login'', JStr (bound_value cfg d ''sprintbox_login'' [])),
                (''box_name'', JStr (bound_value cfg d ''sprintbox_box_name'' [])),
                (''service'', JStr (bound_value cfg d ''sprintbox_service'' [])),
                (''distributive'', JStr (bound_value cfg d ''sprintbox_distributive'' [])),
                (''credential_hash'', JStr (sha (bound_value cfg d ''sprintbox_key'' [])))]
             else []))"
  have pr: "provider = ''aeza'' \<or> provider = ''sprintbox''"
    and d': "d' = put_setting (ip_change_key oid ''provider'') (dumps_plain v) d"
    using assms(1)
    by (auto simp: bind_provider_def insert_setting_def v_def provider_def [symmetric] Let_def split: if_splits)
  have "wf_with ascii v"
    using pr assms(2,3) by (auto simp: v_def ascii_def byte_def)
  then have "bound_provider d' oid = Inr v"
    by (simp add: bound_provider_def d' put_setting_def update_conv' loads_obj_def loads_dumps_plain)
  then show ?thesis
    unfolding provider_def [symmetric] by (intro exI [of _ v]) (simp add: v_def text_member_def)
qed

lemma config_value_override: "setting d (''config.'' @ key) \<noteq> [] \<Longrightarrow>
   config_value cfg d key dflt = setting d (''config.'' @ key)"
  by (simp add: config_value_def Let_def)

end
