(* ===== verification/Review.thy ===== *)
theory Review
  imports Runtime
begin

text \<open>
  \<open>app/sprintbox_review.py\<close>: the decisions a user takes on a finished SprintBOX rotation, each
  valid only while the operation still describes the active server and account.
\<close>

definition utf8_bytes :: "nat list \<Rightarrow> string" where
  "utf8_bytes ns = map char_of ns"

section \<open>Stored contexts\<close>

definition stored_object :: "db \<Rightarrow> int \<Rightarrow> string \<Rightarrow> exn + json" where
  "stored_object d oid part =
     (case map_of (settings d) (ip_change_key oid part) of
        None \<Rightarrow> Inr (JObj [])
      | Some body \<Rightarrow> loads_obj body)"

definition operation_context :: "db \<Rightarrow> int \<Rightarrow> exn + json" where
  "operation_context d oid = stored_object d oid ''sprintbox''"

definition bound_data :: "db \<Rightarrow> int \<Rightarrow> exn + json" where
  "bound_data d oid = stored_object d oid ''provider''"

text \<open>\<open>dict(context.get("retained_boxes", {}))\<close>: box names with their addresses.\<close>

definition retained_of :: "json \<Rightarrow> (string \<times> json) list" where
  "retained_of c = (case member_of c ''retained_boxes'' of Some (JObj kvs) \<Rightarrow> kvs | _ \<Rightarrow> [])"

definition find_ip_row :: "int \<Rightarrow> db \<Rightarrow> ip_row option" where
  "find_ip_row oid d = select_first (\<lambda>r. ip_id r = oid) (ip_ops d)"

definition review_value :: "config \<Rightarrow> db \<Rightarrow> string \<Rightarrow> string" where
  "review_value cfg d key = bound_value cfg d key []"

text \<open>A column that Python's truth test accepts.\<close>

definition set_revision :: "int option \<Rightarrow> bool" where
  "set_revision r \<longleftrightarrow> r \<noteq> None \<and> r \<noteq> Some 0"

section \<open>Validation\<close>

definition validate_target :: "(string \<Rightarrow> string) \<Rightarrow> config \<Rightarrow> db \<Rightarrow> int \<Rightarrow> exn + ip_row" where
  "validate_target sha cfg d oid =
     bind_result (bound_data d oid) (\<lambda>bound.
       let stale = ValueError ''This SprintBOX decision no longer matches the active VPN server/account'' in
       case find_ip_row oid d of
         None \<Rightarrow> Inl stale
       | Some r \<Rightarrow>
           if text_member ''provider'' bound \<noteq> Some ''sprintbox''
              \<or> review_value cfg d ''vps_provider'' \<noteq> ''sprintbox''
              \<or> \<not> set_revision (ip_published_revision r)
              \<or> map_of (settings d) ''current_ip'' = None
              \<or> ip_new_ip r \<noteq> map_of (settings d) ''current_ip''
              \<or> ip_new_ip_id r \<noteq> Some (review_value cfg d ''sprintbox_box_name'')
              \<or> text_member ''login'' bound \<noteq> Some (review_value cfg d ''sprintbox_login'')
              \<or> text_member ''credential_hash'' bound \<noteq> Some (sha (review_value cfg d ''sprintbox_key''))
           then Inl stale else Inr r)"

definition validate_review :: "(string \<Rightarrow> string) \<Rightarrow> config \<Rightarrow> db \<Rightarrow> int \<Rightarrow> exn + ip_row" where
  "validate_review sha cfg d oid =
     bind_result (validate_target sha cfg d oid) (\<lambda>r.
       if ip_status r \<noteq> Done \<or> ip_action_state r \<noteq> AwaitingUserReview then
         Inl (ValueError ''This SprintBOX decision was already submitted'')
       else Inr r)"

definition validate_ssh_decision ::
  "(string \<Rightarrow> string) \<Rightarrow> config \<Rightarrow> bool \<Rightarrow> db \<Rightarrow> int \<Rightarrow> exn + ip_row" where
  "validate_ssh_decision sha cfg queued d oid =
     (let expected = (if queued then (Pending, SshWaitQueued) else (Done, SshUnreachable));
          submitted = Inl (ValueError ''This SSH decision was already submitted'')
      in case find_ip_row oid d of
           None \<Rightarrow> submitted
         | Some r \<Rightarrow>
             if (ip_status r, ip_action_state r) \<noteq> expected then submitted
             else bind_result (bound_data d oid) (\<lambda>bound.
               if text_member ''provider'' bound \<noteq> Some ''sprintbox''
                  \<or> review_value cfg d ''vps_provider'' \<noteq> ''sprintbox''
                  \<or> list_ex (\<lambda>key. text_member key bound \<noteq> Some (review_value cfg d (''sprintbox_'' @ key)))
                      [''login'', ''box_name'', ''service'', ''distributive'']
                  \<or> text_member ''credential_hash'' bound \<noteq> Some (sha (review_value cfg d ''sprintbox_key''))
                  \<or> ip_revision r \<noteq> Some (desired_revision (vpn_state d))
                  \<or> ip_old_ip r \<noteq> Some (setting d ''current_ip'')
                  \<or> set_revision (ip_published_revision r)
                  \<or> ip_purchase_state r \<noteq> PhConfirmed
                  \<or> ip_apply_state r \<noteq> NotStarted
                  \<or> ip_make_main_state r \<noteq> NotStarted
                  \<or> \<not> filled (ip_new_ip_id r) \<or> \<not> filled (ip_new_ip r)
                  \<or> ip_new_ip_id r = text_member ''box_name'' bound
               then Inl (ValueError ''VPN configuration/account changed; cancel this SSH decision first'')
               else Inr r))"

section \<open>Queries\<close>

fun first_review ::
  "(string \<Rightarrow> string) \<Rightarrow> config \<Rightarrow> db \<Rightarrow> ip_row list \<Rightarrow> (ip_row \<times> (string \<times> json) list) option" where
  "first_review sha cfg d [] = None"
| "first_review sha cfg d (r # rs) =
     (case bind_result (validate_review sha cfg d (ip_id r)) (\<lambda>row.
             bind_result (operation_context d (ip_id r)) (\<lambda>c. Inr (row, retained_of c))) of
        Inl _ \<Rightarrow> first_review sha cfg d rs
      | Inr x \<Rightarrow> Some x)"

definition pending_review ::
  "(string \<Rightarrow> string) \<Rightarrow> config \<Rightarrow> db \<Rightarrow> (ip_row \<times> (string \<times> json) list) option" where
  "pending_review sha cfg d =
     first_review sha cfg d
       (rev (filter (\<lambda>r. ip_status r = Done \<and> ip_action_state r = AwaitingUserReview) (ip_ops d)))"

definition pending_ssh_decision ::
  "(string \<Rightarrow> string) \<Rightarrow> config \<Rightarrow> db \<Rightarrow> (ip_row \<times> bool) option" where
  "pending_ssh_decision sha cfg d =
     map_option (\<lambda>r. (r, \<not> succeeds (validate_ssh_decision sha cfg False d (ip_id r))))
       (select_last (\<lambda>r. ip_status r = Done \<and> ip_action_state r = SshUnreachable) (ip_ops d))"

text \<open>\<open>retained[old_name] = old_ip\<close> keeps the place of a key that is there.\<close>

fun chain_boxes :: "db \<Rightarrow> json \<Rightarrow> ip_row list \<Rightarrow> exn + (string \<times> json) list" where
  "chain_boxes d bound [] = Inr []"
| "chain_boxes d bound (r # rs) =
     bind_result (bound_data d (ip_id r)) (\<lambda>previous.
       if list_all (\<lambda>k. member_of previous k = member_of bound k) [''provider'', ''login'', ''credential_hash'']
       then bind_result (operation_context d (ip_id r)) (\<lambda>c. Inr (retained_of c))
       else chain_boxes d bound rs)"

definition retained_boxes :: "db \<Rightarrow> string \<Rightarrow> string \<Rightarrow> json \<Rightarrow> exn + (string \<times> json) list" where
  "retained_boxes d old_name old_ip bound =
     bind_result
       (chain_boxes d bound
         (rev (filter (\<lambda>r. ip_new_ip_id r = Some old_name \<and> ip_new_ip r = Some old_ip \<and>
                          ip_published_revision r \<noteq> None) (ip_ops d))))
       (\<lambda>kept. Inr (AList.update old_name (JStr old_ip) kept))"

section \<open>Decisions\<close>

definition set_ip_row :: "int \<Rightarrow> (ip_row \<Rightarrow> ip_row) \<Rightarrow> db \<Rightarrow> db" where
  "set_ip_row oid f d = d\<lparr>ip_ops := update_where (\<lambda>r. ip_id r = oid) f (ip_ops d)\<rparr>"

definition prepare_cleanup :: "(string \<Rightarrow> string) \<Rightarrow> config \<Rightarrow> int \<Rightarrow> int \<Rightarrow> int \<Rightarrow> db \<Rightarrow> exn + db" where
  "prepare_cleanup sha cfg lease_now now oid d =
     bind_result (validate_review sha cfg d oid) (\<lambda>_.
     bind_result (acquire_vps_lease lease_now (LeaseOwner IpChange oid) default_lease_seconds d) (\<lambda>d1.
       Inr (set_ip_row oid (\<lambda>r. r\<lparr>ip_status := Pending, ip_action_state := CleanupQueued,
              ip_current_step := ''cleanup_queued'', ip_updated_at := iso now\<rparr>) d1)))"

definition prepare_ssh_wait :: "(string \<Rightarrow> string) \<Rightarrow> config \<Rightarrow> int \<Rightarrow> int \<Rightarrow> int \<Rightarrow> db \<Rightarrow> exn + db" where
  "prepare_ssh_wait sha cfg lease_now now oid d =
     bind_result (validate_ssh_decision sha cfg False d oid) (\<lambda>_.
     bind_result (acquire_vps_lease lease_now (LeaseOwner IpChange oid) default_lease_seconds d) (\<lambda>d1.
       Inr (set_ip_row oid (\<lambda>r. r\<lparr>ip_status := Pending, ip_action_state := SshWaitQueued,
              ip_current_step := ''wait_ssh'', ip_updated_at := iso now\<rparr>) d1)))"

text \<open>The warning's Russian text, as its UTF-8 bytes.\<close>

definition cancel_warning :: string where
  "cancel_warning =
     utf8_bytes [208, 159, 208, 190, 208, 191, 209, 139, 209, 130, 208, 186, 208, 176] @ '' '' @
     utf8_bytes [208, 190, 209, 130, 208, 188, 208, 181, 208, 189, 208, 181, 208, 189, 208, 176]
       @ ''. '' @ utf8_bytes [208, 145, 208, 190, 208, 186, 209, 129, 209, 139] @ '' '' @
     utf8_bytes [209, 129, 208, 190, 209, 133, 209, 128, 208, 176, 208, 189, 208, 181, 208, 189,
       209, 139] @ ''; '' @ utf8_bytes [208, 191, 209, 128, 208, 184] @ '' '' @
     utf8_bytes [208, 189, 208, 181, 208, 190, 208, 177, 209, 133, 208, 190, 208, 180, 208, 184,
       208, 188, 208, 190, 209, 129, 209, 130, 208, 184] @ '' '' @
     utf8_bytes [209, 131, 208, 180, 208, 176, 208, 187, 208, 184, 209, 130, 208, 181] @ '' '' @
     utf8_bytes [208, 178, 209, 128, 209, 131, 209, 135, 208, 189, 209, 131, 209, 142] @ '' '' @
     utf8_bytes [208, 178] @ '' SprintBOX: ''"

definition cancel_ssh_wait :: "config \<Rightarrow> int \<Rightarrow> int \<Rightarrow> db \<Rightarrow> exn + db" where
  "cancel_ssh_wait cfg now oid d =
     (case select_first (\<lambda>r. ip_id r = oid \<and> ip_status r = Done \<and> ip_action_state r = SshUnreachable)
             (ip_ops d) of
        None \<Rightarrow> Inl (ValueError ''This SSH decision was already submitted'')
      | Some r \<Rightarrow>
          bind_result (operation_context d oid) (\<lambda>c.
            let active = review_value cfg d ''sprintbox_box_name'';
                kept = map fst (retained_of c) @ (case ip_new_ip_id r of None \<Rightarrow> [] | Some n \<Rightarrow> [n]);
                names = sort (filter (\<lambda>n. n \<noteq> [] \<and> n \<noteq> active) (remdups kept))
            in Inr (set_ip_row oid (\<lambda>r. r\<lparr>ip_action_state := Cancelled, ip_current_step := ''cancelled'',
                 ip_error_message := Some [], ip_cleanup_warning := Some (cancel_warning @ join '', '' names),
                 ip_updated_at := iso now\<rparr>) d)))"

section \<open>What the validations guarantee\<close>

lemma validate_review_Inr:
  assumes "validate_review sha cfg d oid = Inr r"
  shows "find_ip_row oid d = Some r" and "ip_status r = Done" and "ip_action_state r = AwaitingUserReview"
    and "set_revision (ip_published_revision r)" and "ip_new_ip r = map_of (settings d) ''current_ip''"
  using assms
  by (auto simp: validate_review_def validate_target_def bind_result_Inr_iff Let_def
      split: option.splits if_splits)

lemma validate_ssh_decision_Inr:
  assumes "validate_ssh_decision sha cfg queued d oid = Inr r"
  shows "find_ip_row oid d = Some r"
    and "(ip_status r, ip_action_state r) = (if queued then (Pending, SshWaitQueued) else (Done, SshUnreachable))"
    and "ip_revision r = Some (desired_revision (vpn_state d))"
    and "ip_purchase_state r = PhConfirmed" and "ip_apply_state r = NotStarted"
    and "ip_make_main_state r = NotStarted" and "filled (ip_new_ip_id r)" and "filled (ip_new_ip r)"
    and "\<not> set_revision (ip_published_revision r)"
  using assms
  by (auto simp: validate_ssh_decision_def bind_result_Inr_iff Let_def split: option.splits if_splits)

lemma set_ip_row_frame [frame_simps]:
  "settings (set_ip_row oid f d) = settings d" "clients (set_ip_row oid f d) = clients d"
  "vpn_state (set_ip_row oid f d) = vpn_state d" "leases (set_ip_row oid f d) = leases d"
  "snapshots (set_ip_row oid f d) = snapshots d" "install_ops (set_ip_row oid f d) = install_ops d"
  "server_ops (set_ip_row oid f d) = server_ops d" "ip_seq (set_ip_row oid f d) = ip_seq d"
  by (simp_all add: set_ip_row_def)

lemma set_ip_row_active:
  assumes "\<And>r. ip_id (f r) = ip_id r" and "\<And>r. ip_status (f r) = s"
  shows "is_active (set_ip_row oid f d) ow \<longleftrightarrow>
     (if ow = LeaseOwner IpChange oid then active s \<and> oid \<in> ip_id ` set (ip_ops d) else is_active d ow)"
proof (cases "(d, ow)" rule: is_active.cases)
  case (2 d' i)
  then show ?thesis
    using assms by (auto simp: is_active.simps set_ip_row_def bex_update_where_key)
qed (simp_all add: is_active.simps frame_simps)

text \<open>A decision that restarts an operation takes the lease in the same transaction.\<close>

lemma restart_exclusive:
  assumes "exclusive d" and "acquire_vps_lease now (LeaseOwner IpChange oid) s d = Inr d1"
    and "\<And>r. ip_id (f r) = ip_id r" and "\<And>r. ip_status (f r) = Pending"
  shows "exclusive (set_ip_row oid f d1)"
proof -
  have ok: "leases_ok d" using assms(1) by (simp add: exclusive_def)
  note g = vps.granted [OF ok assms(2)]
  have "is_active d1 v \<Longrightarrow> False" for v
    using vps.evicts [OF ok assms(2), of v] assms(1) by (auto simp: exclusive_def)
  then show ?thesis
    using g set_ip_row_active [of f Pending oid d1] assms(3,4)
    by (auto simp: exclusive_def leases_ok_def holder_def lease_of_def frame_simps split: if_splits)
qed

end
