(* ===== verification/VpnState.thy ===== *)
theory VpnState
  imports VpnConfig Review
begin

text \<open>
  \<open>app/vpn_state.py\<close>: the immutable snapshots of the configuration and the transactions that
  bind an install or an IP change to one, publish a new address and record the outcome of an
  install.  \<open>sha\<close> is SHA-256 of a text, as hex digits.
\<close>

record prepared =
  pp_operation_id :: int
  pp_revision :: int
  pp_sha256 :: string

definition snapshot_payload ::
  "(string \<Rightarrow> string) \<Rightarrow> config \<Rightarrow> db \<Rightarrow> exn + captured_config \<times> string \<times> string" where
  "snapshot_payload sha cfg d =
     bind_result (capture_vpn_config cfg d) (\<lambda>c.
       let payload = canonical_vpn_config_json c in Inr (c, payload, sha payload))"

definition snapshot_at :: "int \<Rightarrow> db \<Rightarrow> snapshot_row option" where
  "snapshot_at revn d = select_first (\<lambda>s. sn_revision s = revn) (snapshots d)"

definition fresh_snapshot :: "int \<Rightarrow> string \<Rightarrow> string \<Rightarrow> ts \<Rightarrow> snapshot_row" where
  "fresh_snapshot revn payload digest t =
     \<lparr>sn_revision = revn, sn_payload_json = payload, sn_payload_sha256 = digest,
      sn_lifecycle = SnapPrepared, sn_prepared_at = t, sn_applied_at = None, sn_failed_at = None,
      sn_error_message = None\<rparr>"

definition ensure_snapshot :: "captured_config \<Rightarrow> string \<Rightarrow> string \<Rightarrow> ts \<Rightarrow> bool \<Rightarrow> db \<Rightarrow> exn + db" where
  "ensure_snapshot c payload digest t reprepare_failed d =
     (case snapshot_at (cc_revision c) d of
        Some s \<Rightarrow>
          if sn_payload_json s \<noteq> payload \<or> sn_payload_sha256 s \<noteq> digest then
            Inl (RuntimeError (''VPN revision '' @ int_str (cc_revision c) @
                 '' already has different immutable content''))
          else if reprepare_failed \<and> sn_lifecycle s \<noteq> SnapApplied then
            Inr (d\<lparr>snapshots := update_where (\<lambda>s. sn_revision s = cc_revision c)
                   (\<lambda>s. s\<lparr>sn_lifecycle := SnapPrepared, sn_failed_at := None, sn_error_message := None\<rparr>)
                   (snapshots d)\<rparr>)
          else Inr d
      | None \<Rightarrow>
          Inr (d\<lparr>snapshots := snapshots d @ [fresh_snapshot (cc_revision c) payload digest t]\<rparr>))"

section \<open>Preparing operations\<close>

definition new_install :: "int \<Rightarrow> string \<Rightarrow> int \<Rightarrow> ts \<Rightarrow> install_row" where
  "new_install oid host revn t =
     \<lparr>in_id = oid, in_status = Pending, in_target_host = Some host, in_current_step = ''queued'',
      in_output = None, in_error_message = None, in_created_at = t, in_updated_at = t,
      in_revision = Some revn\<rparr>"

definition prepare_install_operation ::
  "(string \<Rightarrow> string) \<Rightarrow> config \<Rightarrow> int \<Rightarrow> int \<Rightarrow> string \<Rightarrow> prepared tx" where
  "prepare_install_operation sha cfg now lease_now host d =
     bind_result (snapshot_payload sha cfg d) (\<lambda>(c, payload, digest).
     bind_result (ensure_snapshot c payload digest (iso now) True d) (\<lambda>d1.
       let oid = install_seq d1 + 1;
           d2 = d1\<lparr>install_ops := install_ops d1 @ [new_install oid host (cc_revision c) (iso now)],
                   install_seq := oid\<rparr>
       in bind_result (acquire_vps_lease lease_now (LeaseOwner Install oid) default_lease_seconds d2)
            (\<lambda>d3. Inr (\<lparr>pp_operation_id = oid, pp_revision = cc_revision c, pp_sha256 = digest\<rparr>, d3))))"

definition new_ip_change :: "int \<Rightarrow> int \<Rightarrow> ts \<Rightarrow> ip_row" where
  "new_ip_change oid revn t =
     \<lparr>ip_id = oid, ip_status = Pending, ip_old_ip = None, ip_new_ip = None, ip_old_ip_id = None,
      ip_new_ip_id = None, ip_current_step = ''queued'', ip_error_message = None, ip_created_at = t,
      ip_updated_at = t, ip_server_reachable_at = None, ip_healthcheck_result = None,
      ip_revision = Some revn, ip_published_revision = None, ip_action_state = IpNotStarted,
      ip_purchase_state = NotStarted, ip_make_main_state = NotStarted, ip_apply_state = NotStarted,
      ip_cleanup_warning = None, ip_rollback_outcome = None, ip_new_ip_created_at = None,
      ip_new_main_at = None, ip_apply_completed_at = None, ip_published_at = None,
      ip_reconciled_at = None, ip_reconciliation_note = None\<rparr>"

text \<open>An earlier operation whose external effect nobody has verified holds every new one.\<close>

definition unresolved :: "ip_row \<Rightarrow> bool" where
  "unresolved r \<longleftrightarrow> (ip_status r = Ambiguous \<and> ip_action_state r \<noteq> Reconciled) \<or>
     ip_action_state r \<in> {IpAmbiguous, CleanupAmbiguous, AwaitingAwgCheck}"

definition open_decision :: "int option \<Rightarrow> ip_row \<Rightarrow> bool" where
  "open_decision ssh r \<longleftrightarrow> ip_status r = Done \<and> ip_action_state r = SshUnreachable \<and>
     ip_id r \<noteq> (case ssh of None \<Rightarrow> 0 | Some i \<Rightarrow> i)"

definition ip_change_allowed ::
  "(string \<Rightarrow> string) \<Rightarrow> config \<Rightarrow> int option \<Rightarrow> int option \<Rightarrow> db \<Rightarrow> exn + unit" where
  "ip_change_allowed sha cfg review ssh d =
     (if review \<noteq> None \<and> ssh \<noteq> None then Inl (ValueError ''Choose one SprintBOX decision'')
      else bind_result (case ssh of None \<Rightarrow> Inr ()
             | Some i \<Rightarrow> bind_result (validate_ssh_decision sha cfg False d i) (\<lambda>_. Inr ())) (\<lambda>_.
        if list_ex (open_decision ssh) (ip_ops d) then
          Inl (IpChangeSafetyHoldError ''Choose whether to wait, create another box or cancel first'')
        else bind_result (case review of None \<Rightarrow> Inr ()
               | Some i \<Rightarrow> bind_result (validate_review sha cfg d i) (\<lambda>_. Inr ())) (\<lambda>_.
          case select_last unresolved (ip_ops d) of
            Some r \<Rightarrow> Inl (IpChangeSafetyHoldError
              (''A previous IP operation requires manual verification (operation '' @ int_str (ip_id r) @ '')''))
          | None \<Rightarrow> Inr ())))"

definition retry_requested :: "int option \<Rightarrow> ts \<Rightarrow> db \<Rightarrow> db" where
  "retry_requested i t d =
     (case i of None \<Rightarrow> d
      | Some i \<Rightarrow> set_ip_row i (\<lambda>r. r\<lparr>ip_action_state := RetryRequested, ip_updated_at := t\<rparr>) d)"

text \<open>The boxes of the decision's chain and the one it created, kept for the new operation.\<close>

definition keep_boxes :: "int \<Rightarrow> int option \<Rightarrow> db \<Rightarrow> exn + db" where
  "keep_boxes oid ssh d =
     (case ssh of
        None \<Rightarrow> Inr d
      | Some i \<Rightarrow>
          (case find_ip_row i d of
             None \<Rightarrow> Inl (TypeError ''NoneType'')
           | Some r \<Rightarrow>
               bind_result (operation_context d i) (\<lambda>c.
                 let box_ip = (case ip_new_ip r of None \<Rightarrow> JNull | Some a \<Rightarrow> JStr a);
                     kept = (case ip_new_ip_id r of
                       None \<Rightarrow> retained_of c @ [(''null'', box_ip)]
                     | Some n \<Rightarrow> AList.update n box_ip (retained_of c))
                 in insert_setting (ip_change_key oid ''sprintbox'')
                      (dumps_plain (JObj [(''retained_boxes'', JObj kept)])) d)))"

definition prepare_ip_change_operation ::
  "(string \<Rightarrow> string) \<Rightarrow> config \<Rightarrow> int \<Rightarrow> int \<Rightarrow> int option \<Rightarrow> int option \<Rightarrow> prepared tx" where
  "prepare_ip_change_operation sha cfg now lease_now review ssh d =
     bind_result (ip_change_allowed sha cfg review ssh d) (\<lambda>_.
     bind_result (snapshot_payload sha cfg d) (\<lambda>(c, payload, digest).
     bind_result (ensure_snapshot c payload digest (iso now) False d) (\<lambda>d1.
       let oid = ip_seq d1 + 1;
           d2 = d1\<lparr>ip_ops := ip_ops d1 @ [new_ip_change oid (cc_revision c) (iso now)], ip_seq := oid\<rparr>
       in bind_result (acquire_vps_lease lease_now (LeaseOwner IpChange oid) default_lease_seconds d2) (\<lambda>d3.
          bind_result (bind_provider sha cfg oid d3) (\<lambda>d4.
          bind_result (keep_boxes oid ssh d4) (\<lambda>d5.
            Inr (\<lparr>pp_operation_id = oid, pp_revision = cc_revision c, pp_sha256 = digest\<rparr>,
                 retry_requested review (iso now) (retry_requested ssh (iso now) d5))))))))"

section \<open>The bound snapshot\<close>

definition load_ip_change_snapshot :: "int \<Rightarrow> db \<Rightarrow> exn + ip_row \<times> captured_config" where
  "load_ip_change_snapshot oid d =
     (let missing = Inl (RuntimeError (''IP change operation '' @ int_str oid @ '' has no bound VPN snapshot''))
      in case find_ip_row oid d of
           None \<Rightarrow> missing
         | Some r \<Rightarrow>
             (case ip_revision r of
                None \<Rightarrow> missing
              | Some revn \<Rightarrow>
                  (case snapshot_at revn d of
                     None \<Rightarrow> missing
                   | Some s \<Rightarrow> bind_result (captured_vpn_config_from_json (sn_payload_json s)) (\<lambda>c. Inr (r, c)))))"

definition load_install_snapshot :: "int \<Rightarrow> db \<Rightarrow> exn + install_row \<times> captured_config" where
  "load_install_snapshot oid d =
     (let missing = Inl (RuntimeError (''Install operation '' @ int_str oid @ '' has no prepared VPN snapshot''))
      in case select_first (\<lambda>r. in_id r = oid) (install_ops d) of
           None \<Rightarrow> missing
         | Some r \<Rightarrow>
             (case in_revision r of
                None \<Rightarrow> missing
              | Some revn \<Rightarrow>
                  (case snapshot_at revn d of
                     None \<Rightarrow> missing
                   | Some s \<Rightarrow> bind_result (captured_vpn_config_from_json (sn_payload_json s)) (\<lambda>c. Inr (r, c)))))"

section \<open>Publishing a new address\<close>

definition published_settings :: "string \<Rightarrow> ts \<Rightarrow> string option \<Rightarrow> string option \<Rightarrow> (string \<times> string) list" where
  "published_settings ip t box_name key_path =
     [(''current_ip'', ip), (''vpn.config_updated_at'', iso_text t), (''last_healthcheck_status'', ''OK'')] @
     (case box_name of
        None \<Rightarrow> []
      | Some b \<Rightarrow>
          [(''config.sprintbox_box_name'', b), (''config.eu_ssh_host'', [])] @
          (case key_path of
             None \<Rightarrow> []
           | Some k \<Rightarrow> [(''config.eu_ssh_user'', ''root''), (''config.eu_ssh_port'', ''22''),
                        (''config.eu_ssh_key_path'', k), (''config.eu_ssh_password'', [])]))"

definition insert_snapshot :: "snapshot_row \<Rightarrow> db \<Rightarrow> exn + db" where
  "insert_snapshot s d =
     (if snapshot_at (sn_revision s) d \<noteq> None then Inl (IntegrityError ''vpn_snapshots.revision'')
      else Inr (d\<lparr>snapshots := snapshots d @ [s]\<rparr>))"

definition mark_applied :: "int \<Rightarrow> ts \<Rightarrow> db \<Rightarrow> db" where
  "mark_applied revn t d =
     d\<lparr>snapshots := update_where (\<lambda>s. sn_revision s = revn)
        (\<lambda>s. s\<lparr>sn_lifecycle := SnapApplied,
               sn_applied_at := (case sn_applied_at s of None \<Rightarrow> Some t | Some a \<Rightarrow> Some a),
               sn_failed_at := None, sn_error_message := None\<rparr>) (snapshots d)\<rparr>"

definition publish_ip_change ::
  "(string \<Rightarrow> string) \<Rightarrow> int \<Rightarrow> int \<Rightarrow> string \<Rightarrow> string \<Rightarrow> string option \<Rightarrow> string option \<Rightarrow> int tx" where
  "publish_ip_change sha now oid new_ip health box_name key_path d =
     (let t = iso now;
          missing = Inl (RuntimeError (''IP change operation '' @ int_str oid @ '' has no bound VPN snapshot''))
      in case find_ip_row oid d of
           None \<Rightarrow> missing
         | Some r \<Rightarrow>
             (case ip_revision r of
                None \<Rightarrow> missing
              | Some bound \<Rightarrow>
                  (case snapshot_at bound d of
                     None \<Rightarrow> missing
                   | Some s \<Rightarrow>
                       if desired_revision (vpn_state d) \<noteq> bound then
                         Inl (RuntimeError ''VPN configuration changed during IP rotation; refusing to publish'')
                       else
                         bind_result (captured_vpn_config_from_json (sn_payload_json s)) (\<lambda>c.
                         let published = bound + 1;
                             payload = canonical_vpn_config_json
                               (c\<lparr>cc_current_ip := new_ip, cc_config_updated_at := iso_text t,
                                  cc_revision := published\<rparr>);
                             row = (fresh_snapshot published payload (sha payload) t)
                               \<lparr>sn_lifecycle := SnapApplied, sn_applied_at := Some t\<rparr>
                         in bind_result (insert_snapshot row d) (\<lambda>d1.
                            let d2 = put_settings (published_settings new_ip t box_name key_path)
                                       (mark_applied bound t d1);
                                d3 = snd (purge_applied_deleted_clients
                                  (d2\<lparr>vpn_state := \<lparr>desired_revision = published, applied_revision = Some published,
                                     desired_updated_at = Some t, applied_updated_at = Some t\<rparr>\<rparr>))
                            in Inr (published, set_ip_row oid (\<lambda>r. r\<lparr>ip_status := Running,
                                 ip_current_step := ''delete_old_ipv4'', ip_action_state := Published,
                                 ip_published_revision := Some published, ip_published_at := Some t,
                                 ip_healthcheck_result := Some health, ip_updated_at := t\<rparr>) d3))))))"

section \<open>The outcome of an install\<close>

definition set_install_row :: "int \<Rightarrow> (install_row \<Rightarrow> install_row) \<Rightarrow> db \<Rightarrow> db" where
  "set_install_row oid f d = d\<lparr>install_ops := update_where (\<lambda>r. in_id r = oid) f (install_ops d)\<rparr>"

definition install_revision :: "int \<Rightarrow> db \<Rightarrow> int option" where
  "install_revision oid d =
     (case select_first (\<lambda>r. in_id r = oid) (install_ops d) of None \<Rightarrow> None | Some r \<Rightarrow> in_revision r)"

definition complete_install_operation :: "int \<Rightarrow> int \<Rightarrow> string \<Rightarrow> db \<Rightarrow> exn + db" where
  "complete_install_operation now oid output d =
     (case install_revision oid d of
        None \<Rightarrow> Inl (RuntimeError (''Install operation '' @ int_str oid @ '' has no revision''))
      | Some revn \<Rightarrow>
          if row_count (\<lambda>s. sn_revision s = revn) (snapshots d) \<noteq> 1 then
            Inl (RuntimeError (''VPN snapshot '' @ int_str revn @ '' does not exist''))
          else
            (let t = iso now;
                 d1 = d\<lparr>snapshots := update_where (\<lambda>s. sn_revision s = revn)
                        (\<lambda>s. s\<lparr>sn_lifecycle := SnapApplied, sn_applied_at := Some t,
                               sn_failed_at := None, sn_error_message := None\<rparr>) (snapshots d)\<rparr>;
                 d2 = d1\<lparr>vpn_state := (vpn_state d1)
                        \<lparr>applied_revision := (case applied_revision (vpn_state d1) of
                             None \<Rightarrow> Some revn
                           | Some a \<Rightarrow> if a < revn then Some revn else Some a),
                         applied_updated_at := Some t\<rparr>\<rparr>;
                 d3 = snd (purge_applied_deleted_clients d2);
                 d4 = set_install_row oid (\<lambda>r. r\<lparr>in_status := Done, in_current_step := ''done'',
                        in_output := Some output, in_error_message := None, in_updated_at := t\<rparr>) d3
             in Inr (snd (release_vps_lease (LeaseOwner Install oid) d4))))"

definition fail_bound_snapshot :: "int \<Rightarrow> ts \<Rightarrow> string \<Rightarrow> db \<Rightarrow> db" where
  "fail_bound_snapshot oid t msg d =
     (case install_revision oid d of
        None \<Rightarrow> d
      | Some revn \<Rightarrow>
          d\<lparr>snapshots := update_where (\<lambda>s. sn_revision s = revn \<and> sn_lifecycle s \<noteq> SnapApplied)
             (\<lambda>s. s\<lparr>sn_lifecycle := SnapFailed, sn_failed_at := Some t, sn_error_message := Some msg\<rparr>)
             (snapshots d)\<rparr>)"

definition fail_install_operation :: "int \<Rightarrow> int \<Rightarrow> string \<Rightarrow> db \<Rightarrow> db" where
  "fail_install_operation now oid msg d =
     (let t = iso now;
          d1 = set_install_row oid (\<lambda>r. r\<lparr>in_status := Failed, in_current_step := ''failed'',
                 in_error_message := Some msg, in_updated_at := t\<rparr>) (fail_bound_snapshot oid t msg d)
      in snd (release_vps_lease (LeaseOwner Install oid) d1))"

definition mark_install_operation_ambiguous :: "int \<Rightarrow> int \<Rightarrow> string \<Rightarrow> db \<Rightarrow> db" where
  "mark_install_operation_ambiguous now oid msg d =
     (let t = iso now;
          d1 = fail_bound_snapshot oid t msg d;
          d2 = d1\<lparr>install_ops := update_where (\<lambda>r. in_id r = oid \<and> active (in_status r))
                 (\<lambda>r. r\<lparr>in_status := Ambiguous, in_current_step := ''ambiguous'',
                        in_error_message := Some msg, in_updated_at := t\<rparr>) (install_ops d1)\<rparr>
      in snd (release_vps_lease (LeaseOwner Install oid) d2))"

section \<open>Snapshots are immutable\<close>

definition contents :: "db \<Rightarrow> (int \<times> string \<times> string) list" where
  "contents d = map (\<lambda>s. (sn_revision s, sn_payload_json s, sn_payload_sha256 s)) (snapshots d)"

text \<open>
  Nothing a stored snapshot says changes, and one that was applied stays applied.
\<close>

definition kept :: "snapshot_row \<Rightarrow> snapshot_row \<Rightarrow> bool" where
  "kept s s' \<longleftrightarrow> sn_revision s' = sn_revision s \<and> sn_payload_json s' = sn_payload_json s \<and>
     sn_payload_sha256 s' = sn_payload_sha256 s \<and>
     (sn_lifecycle s = SnapApplied \<longrightarrow> sn_lifecycle s' = SnapApplied)"

definition history_kept :: "db \<Rightarrow> db \<Rightarrow> bool" where
  "history_kept d d' \<longleftrightarrow>
     (\<exists>old new. snapshots d' = old @ new \<and> list_all2 kept (snapshots d) old)"

lemma kept_refl [simp]: "kept s s" by (simp add: kept_def)

lemma kept_trans: "kept s t \<Longrightarrow> kept t u \<Longrightarrow> kept s u" by (simp add: kept_def)

lemma history_kept_same [simp]: "snapshots d' = snapshots d \<Longrightarrow> history_kept d d'"
  unfolding history_kept_def by (intro exI [of _ "snapshots d"] exI [of _ "[]"]) (simp add: list.rel_refl)

lemma history_kept_append: "snapshots d' = snapshots d @ new \<Longrightarrow> history_kept d d'"
  unfolding history_kept_def by (intro exI [of _ "snapshots d"] exI [of _ new]) (simp add: list.rel_refl)

lemma history_kept_update:
  assumes "snapshots d' = update_where p f (snapshots d)" and "\<And>s. s \<in> set (snapshots d) \<Longrightarrow> p s \<Longrightarrow> kept s (f s)"
  shows "history_kept d d'"
  unfolding history_kept_def
  using assms
  by (intro exI [of _ "snapshots d'"] exI [of _ "[]"])
     (auto simp: update_where_def list_all2_conv_all_nth)

lemma history_kept_trans:
  assumes "history_kept d d'" and "history_kept d' d''"
  shows "history_kept d d''"
proof -
  obtain old new where 1: "snapshots d' = old @ new" "list_all2 kept (snapshots d) old"
    using assms(1) by (auto simp: history_kept_def)
  obtain old' new' where 2: "snapshots d'' = old' @ new'" "list_all2 kept (snapshots d') old'"
    using assms(2) by (auto simp: history_kept_def)
  from 2(2) obtain a b where ab: "old' = a @ b" "list_all2 kept old a"
    unfolding 1(1) by (auto simp: list_all2_append1)
  have "list_all2 kept (snapshots d) a"
    by (rule list_all2_trans [OF _ 1(2) ab(2)]) (rule kept_trans)
  with 2(1) ab show ?thesis
    unfolding history_kept_def by (intro exI [of _ a] exI [of _ "b @ new'"]) simp
qed

lemma history_kept_snapshot:
  assumes "history_kept d d'" and "s \<in> set (snapshots d)"
  shows "\<exists>s' \<in> set (snapshots d'). kept s s'"
proof -
  obtain old new where h: "snapshots d' = old @ new" "list_all2 kept (snapshots d) old"
    using assms(1) by (auto simp: history_kept_def)
  obtain i where "i < length (snapshots d)" "s = snapshots d ! i"
    using assms(2) by (auto simp: in_set_conv_nth)
  with h show ?thesis
    by (intro bexI [of _ "old ! i"]) (auto simp: list_all2_conv_all_nth)
qed

lemma snapshot_at_unique:
  assumes "snapshots_ok d" and "snapshot_at revn d = Some s" and "x \<in> set (snapshots d)"
    and "sn_revision x = revn"
  shows "x = s"
  using assms select_first_SomeD [of "\<lambda>s. sn_revision s = revn" "snapshots d" s]
    row_key_inj [of sn_revision "snapshots d" x s]
  by (simp add: snapshots_ok_def snapshot_at_def)

lemma snapshot_at_in:
  "snapshot_at revn d = Some s \<Longrightarrow> s \<in> set (snapshots d) \<and> sn_revision s = revn"
  unfolding snapshot_at_def by (rule select_first_SomeD)

lemma ensure_snapshot_cases:
  assumes "ensure_snapshot c payload digest t b d = Inr d'"
  obtains (fresh) "snapshot_at (cc_revision c) d = None"
      "d' = d\<lparr>snapshots := snapshots d @ [fresh_snapshot (cc_revision c) payload digest t]\<rparr>"
  | (again) s where "snapshot_at (cc_revision c) d = Some s" "sn_payload_json s = payload"
      "sn_payload_sha256 s = digest" "d' = d"
  | (reprepared) s where "snapshot_at (cc_revision c) d = Some s" "sn_payload_json s = payload"
      "sn_payload_sha256 s = digest" "sn_lifecycle s \<noteq> SnapApplied"
      "d' = d\<lparr>snapshots := update_where (\<lambda>s. sn_revision s = cc_revision c)
         (\<lambda>s. s\<lparr>sn_lifecycle := SnapPrepared, sn_failed_at := None, sn_error_message := None\<rparr>)
         (snapshots d)\<rparr>"
  using assms that by (auto simp: ensure_snapshot_def split: option.splits if_splits)

lemma ensure_snapshot_history:
  assumes "ensure_snapshot c payload digest t b d = Inr d'" and "snapshots_ok d"
  shows "history_kept d d'"
  using assms(1)
proof (cases rule: ensure_snapshot_cases)
  case fresh
  then show ?thesis by (intro history_kept_append) auto
next
  case (again s)
  then show ?thesis by simp
next
  case (reprepared s)
  have "x = s" if "x \<in> set (snapshots d)" "sn_revision x = cc_revision c" for x
    using assms(2) reprepared(1) that by (rule snapshot_at_unique)
  with reprepared show ?thesis
    by (intro history_kept_update [where p = "\<lambda>s. sn_revision s = cc_revision c"
          and f = "\<lambda>s. s\<lparr>sn_lifecycle := SnapPrepared, sn_failed_at := None, sn_error_message := None\<rparr>"])
       (auto simp: kept_def)
qed

lemma ensure_snapshot_ok:
  assumes "ensure_snapshot c payload digest t b d = Inr d'" and "snapshots_ok d"
  shows "snapshots_ok d'"
    and "\<exists>s. snapshot_at (cc_revision c) d' = Some s \<and> sn_payload_json s = payload \<and> sn_payload_sha256 s = digest"
proof -
  show "snapshots_ok d'"
    using assms(1)
  proof (cases rule: ensure_snapshot_cases)
    case fresh
    then have "cc_revision c \<notin> sn_revision ` set (snapshots d)"
      by (auto simp: snapshot_at_def select_first_None_iff)
    with fresh assms(2) show ?thesis by (simp add: snapshots_ok_def fresh_snapshot_def)
  qed (use assms(2) in \<open>simp_all add: snapshots_ok_def\<close>)
  show "\<exists>s. snapshot_at (cc_revision c) d' = Some s \<and> sn_payload_json s = payload \<and> sn_payload_sha256 s = digest"
    using assms(1)
  proof (cases rule: ensure_snapshot_cases)
    case fresh
    then show ?thesis by (simp add: snapshot_at_def table_simps fresh_snapshot_def)
  next
    case (reprepared s)
    then show ?thesis by (simp add: snapshot_at_def select_first_map_key)
  qed simp
qed

lemma ensure_snapshot_frame [frame_simps]:
  assumes "ensure_snapshot c payload digest t b d = Inr d'"
  shows "settings d' = settings d" "clients d' = clients d" "vpn_state d' = vpn_state d"
    "install_ops d' = install_ops d" "ip_ops d' = ip_ops d" "server_ops d' = server_ops d"
    "leases d' = leases d" "install_seq d' = install_seq d" "ip_seq d' = ip_seq d"
    "routers d' = routers d" "peers d' = peers d"
  by (rule ensure_snapshot_cases [OF assms]; simp)+

lemma fail_owner_history: "history_kept d (fail_owner ow m t d)"
proof (cases "(ow, m, t, d)" rule: fail_owner.cases)
  case (1 i m' t' d')
  have "history_kept d (fail_install i m t d)"
  proof (cases "install_revision i d")
    case None
    then show ?thesis
      by (intro history_kept_same) (auto simp: fail_install_def install_revision_def Let_def split: option.splits)
  next
    case (Some revn)
    then show ?thesis
      by (intro history_kept_update [where p = "\<lambda>s. sn_revision s = revn \<and> sn_lifecycle s = SnapPrepared"
            and f = "\<lambda>s. s\<lparr>sn_lifecycle := SnapFailed, sn_failed_at := Some t, sn_error_message := Some m\<rparr>"])
         (auto simp: fail_install_def install_revision_def kept_def Let_def split: option.splits)
  qed
  with 1 show ?thesis by simp
qed (simp_all add: frame_simps)

lemma evicted_history: "history_kept d (evicted now d)"
proof (cases "holder d")
  case (Some ow)
  then show ?thesis
    using fail_owner_history [of d ow "''Operation lease expired before completion''" "iso now"]
    by (simp add: evicted_def history_kept_def frame_simps)
qed (simp add: evicted_def)

lemma acquire_history:
  assumes "leases_ok d" and "acquire_vps_lease now ow n d = Inr d'"
  shows "history_kept d d'"
  using evicted_history [of d now] acquire_result(4) [OF assms] by (simp add: history_kept_def)

lemma snapshots_ok_history:
  assumes "snapshots_ok d" and "map sn_revision (snapshots d') = map sn_revision (snapshots d)"
  shows "snapshots_ok d'"
  using assms by (simp add: snapshots_ok_def)

text \<open>A snapshot that is there keeps its text through anything that keeps the history.\<close>

lemma snapshot_at_kept:
  assumes "history_kept d d'" and "snapshot_at revn d = Some s"
  shows "\<exists>s'. snapshot_at revn d' = Some s' \<and> kept s s'"
proof -
  obtain old new where h: "snapshots d' = old @ new" "list_all2 kept (snapshots d) old"
    using assms(1) by (auto simp: history_kept_def)
  have "\<exists>s'. select_first (\<lambda>s. sn_revision s = revn) ys = Some s' \<and> kept s s'"
    if "list_all2 kept xs ys" "select_first (\<lambda>s. sn_revision s = revn) xs = Some s" for xs ys
    using that by (induction xs ys rule: list_all2_induct) (auto simp: kept_def split: if_splits)
  from this [OF h(2)] assms(2) obtain s' where
    "select_first (\<lambda>s. sn_revision s = revn) old = Some s'" "kept s s'"
    by (auto simp: snapshot_at_def)
  then show ?thesis by (simp add: snapshot_at_def h(1) table_simps)
qed

section \<open>Prepared operations\<close>

lemma is_active_cong:
  "install_ops d = install_ops d' \<Longrightarrow> ip_ops d = ip_ops d' \<Longrightarrow> server_ops d = server_ops d' \<Longrightarrow>
     is_active d ow = is_active d' ow"
  by (cases "(d, ow)" rule: is_active.cases) (simp_all add: is_active.simps)

lemma lease_cong: "leases d = leases d' \<Longrightarrow> holder d = holder d' \<and> leases_ok d = leases_ok d'"
  by (simp add: holder_def lease_of_def leases_ok_def)

lemma exclusive_cong:
  assumes "install_ops d = install_ops d'" "ip_ops d = ip_ops d'" "server_ops d = server_ops d'"
    "leases d = leases d'"
  shows "exclusive d = exclusive d'"
  using is_active_cong [OF assms(1-3)] lease_cong [OF assms(4)] by (simp add: exclusive_def)

lemma is_active_new_install:
  "is_active (d\<lparr>install_ops := install_ops d @ [r], install_seq := n\<rparr>) ow \<longleftrightarrow>
     is_active d ow \<or> (ow = LeaseOwner Install (in_id r) \<and> active (in_status r))"
  by (cases "(d, ow)" rule: is_active.cases) (auto simp: is_active.simps)

lemma is_active_new_ip_change:
  "is_active (d\<lparr>ip_ops := ip_ops d @ [r], ip_seq := n\<rparr>) ow \<longleftrightarrow>
     is_active d ow \<or> (ow = LeaseOwner IpChange (ip_id r) \<and> active (ip_status r))"
  by (cases "(d, ow)" rule: is_active.cases) (auto simp: is_active.simps)

text \<open>Registering an operation and taking the lease for it.\<close>

lemma register_exclusive:
  assumes "exclusive d" and "\<And>v. is_active d2 v \<longleftrightarrow> is_active d v \<or> v = ow"
    and "leases d2 = leases d" and "acquire_vps_lease now ow n d2 = Inr d3"
  shows "exclusive d3" and "holder d3 = Some ow" and "expired_at now d"
proof -
  have l: "holder d2 = holder d" "leases_ok d2" "lease_of d2 = lease_of d"
    using lease_cong [OF assms(3)] assms(1,3) by (auto simp: exclusive_def lease_of_def)
  have "v = ow \<or> holder d2 = Some v" if "is_active d2 v" for v
    using that assms(1,2) l by (auto simp: exclusive_def)
  then show "exclusive d3"
    unfolding exclusive_iff using vps.take_over l(2) assms(4) by blast
  show "holder d3 = Some ow" using vps.granted [OF l(2) assms(4)] by simp
  show "expired_at now d" using acquire_result(3) [OF l(2) assms(4)] l(3) by (simp add: expired_at_def)
qed

lemma prepare_install_result:
  assumes "prepare_install_operation sha cfg now lease_now host d = Inr (p, d')"
  obtains c d1 where "capture_vpn_config cfg d = Inr c"
    and "ensure_snapshot c (canonical_vpn_config_json c) (sha (canonical_vpn_config_json c)) (iso now) True d = Inr d1"
    and "acquire_vps_lease lease_now (LeaseOwner Install (install_seq d + 1)) default_lease_seconds
      (d1\<lparr>install_ops := install_ops d @ [new_install (install_seq d + 1) host (cc_revision c) (iso now)],
          install_seq := install_seq d + 1\<rparr>) = Inr d'"
    and "p = \<lparr>pp_operation_id = install_seq d + 1, pp_revision = cc_revision c,
      pp_sha256 = sha (canonical_vpn_config_json c)\<rparr>"
proof -
  obtain c d1 where c: "capture_vpn_config cfg d = Inr c"
    and e: "ensure_snapshot c (canonical_vpn_config_json c) (sha (canonical_vpn_config_json c)) (iso now) True d = Inr d1"
    and rest: "bind_result (acquire_vps_lease lease_now (LeaseOwner Install (install_seq d1 + 1)) default_lease_seconds
      (d1\<lparr>install_ops := install_ops d1 @ [new_install (install_seq d1 + 1) host (cc_revision c) (iso now)],
          install_seq := install_seq d1 + 1\<rparr>)) (\<lambda>d3. Inr (\<lparr>pp_operation_id = install_seq d1 + 1, pp_revision = cc_revision c,
      pp_sha256 = sha (canonical_vpn_config_json c)\<rparr>, d3)) = Inr (p, d')"
    using assms
    by (auto simp: prepare_install_operation_def snapshot_payload_def bind_result_Inr_iff Let_def)
  note f = ensure_snapshot_frame [OF e]
  show ?thesis
    using rest f by (intro that [OF c e]) (auto simp: bind_result_Inr_iff)
qed

lemma prepare_install_exclusive:
  assumes "prepare_install_operation sha cfg now lease_now host d = Inr (p, d')" and "exclusive d"
  shows "exclusive d'" and "holder d' = Some (LeaseOwner Install (pp_operation_id p))"
    and "expired_at lease_now d" and "pp_revision p = desired_revision (vpn_state d)"
proof -
  obtain c d1 where c: "capture_vpn_config cfg d = Inr c"
    and e: "ensure_snapshot c (canonical_vpn_config_json c) (sha (canonical_vpn_config_json c)) (iso now) True d = Inr d1"
    and a: "acquire_vps_lease lease_now (LeaseOwner Install (install_seq d + 1)) default_lease_seconds
      (d1\<lparr>install_ops := install_ops d @ [new_install (install_seq d + 1) host (cc_revision c) (iso now)],
          install_seq := install_seq d + 1\<rparr>) = Inr d'" (is "acquire_vps_lease _ ?ow _ ?d2 = _")
    and p: "p = \<lparr>pp_operation_id = install_seq d + 1, pp_revision = cc_revision c,
      pp_sha256 = sha (canonical_vpn_config_json c)\<rparr>"
    using assms(1) by (rule prepare_install_result)
  note f = ensure_snapshot_frame [OF e]
  have act: "is_active ?d2 v \<longleftrightarrow> is_active d v \<or> v = ?ow" for v
    using is_active_new_install [where d = d1 and n = "install_seq d + 1" and ow = v] is_active_cong [of d1 d v] f
    by (simp add: new_install_def)
  have le: "leases ?d2 = leases d" using f by simp
  show "exclusive d'" "expired_at lease_now d"
    using register_exclusive [OF assms(2) act le a] by simp_all
  show "holder d' = Some (LeaseOwner Install (pp_operation_id p))"
    using register_exclusive(2) [OF assms(2) act le a] p by simp
  show "pp_revision p = desired_revision (vpn_state d)" using p capture_fields [OF c] by simp
qed

lemma acquire_keeps_install:
  assumes "leases_ok d" and "acquire_vps_lease now ow n d = Inr d'" and "holder d \<noteq> Some (LeaseOwner Install i)"
    and "select_first (\<lambda>r. in_id r = i) (install_ops d) = Some r"
  shows "select_first (\<lambda>r. in_id r = i) (install_ops d') = Some r"
proof -
  have "select_first (\<lambda>r. in_id r = i) (install_ops (fail_owner h m t d)) = Some r" if "h \<noteq> LeaseOwner Install i" for h m t
  proof (cases "(h, m, t, d)" rule: fail_owner.cases)
    case (1 j m' t' d')
    with that have "j \<noteq> i" by auto
    let ?p = "\<lambda>r. in_id r = j \<and> active (in_status r)"
    let ?f = "\<lambda>r. r\<lparr>in_status := Failed, in_current_step := ''interrupted'',
                    in_error_message := Some m, in_updated_at := t\<rparr>"
    have "install_ops (fail_install j m t d) = update_where ?p ?f (install_ops d)"
      by (simp add: fail_install_def Let_def split: option.split)
    moreover have "select_first (\<lambda>r. in_id r = i) (update_where ?p ?f (install_ops d)) =
        map_option (\<lambda>r. if ?p r then ?f r else r) (select_first (\<lambda>r. in_id r = i) (install_ops d))"
      by (rule select_first_map_key) simp
    moreover have "in_id r = i" using select_first_SomeD [OF assms(4)] by simp
    ultimately show ?thesis using 1 \<open>j \<noteq> i\<close> assms(4) by simp
  qed (use assms(4) in \<open>simp_all add: frame_simps\<close>)
  then have "select_first (\<lambda>r. in_id r = i) (install_ops (evicted now d)) = Some r"
    using assms(3,4) by (auto simp: evicted_def frame_simps split: option.split)
  then show ?thesis using acquire_result(4) [OF assms(1,2)] by simp
qed

text \<open>Loading the snapshot of an install just prepared gives what was captured.\<close>

lemma prepare_install_loads:
  assumes prep: "prepare_install_operation sha cfg now lease_now host d = Inr (p, d')"
    and c: "capture_vpn_config cfg d = Inr c"
    and ok: "leases_ok d" "snapshots_ok d" "ops_ok d"
    and fresh: "holder d \<noteq> Some (LeaseOwner Install (install_seq d + 1))"
  shows "load_install_snapshot (pp_operation_id p) d' =
     Inr (new_install (pp_operation_id p) host (cc_revision c) (iso now), snapshot_of c)"
proof -
  obtain c' d1 where c': "capture_vpn_config cfg d = Inr c'"
    and e: "ensure_snapshot c' (canonical_vpn_config_json c') (sha (canonical_vpn_config_json c')) (iso now) True d = Inr d1"
    and a: "acquire_vps_lease lease_now (LeaseOwner Install (install_seq d + 1)) default_lease_seconds
      (d1\<lparr>install_ops := install_ops d @ [new_install (install_seq d + 1) host (cc_revision c') (iso now)],
          install_seq := install_seq d + 1\<rparr>) = Inr d'" (is "acquire_vps_lease _ _ _ ?d2 = _")
    and p: "p = \<lparr>pp_operation_id = install_seq d + 1, pp_revision = cc_revision c',
      pp_sha256 = sha (canonical_vpn_config_json c')\<rparr>"
    using prep by (rule prepare_install_result)
  with c have [simp]: "c' = c" by simp
  note f = ensure_snapshot_frame [OF e]
  have l2: "leases_ok ?d2" "holder ?d2 = holder d"
    using lease_cong [of ?d2 d] ok(1) f by simp_all
  obtain s where s: "snapshot_at (cc_revision c) d1 = Some s" "sn_payload_json s = canonical_vpn_config_json c"
    using ensure_snapshot_ok(2) [OF e ok(2)] by auto
  have "snapshot_at (cc_revision c) ?d2 = Some s" using s by (simp add: snapshot_at_def)
  then obtain s' where s': "snapshot_at (cc_revision c) d' = Some s'" "kept s s'"
    using snapshot_at_kept [OF acquire_history [OF l2(1) a]] by blast
  have "select_first (\<lambda>r. in_id r = install_seq d + 1) (install_ops d) = None"
    using ok(3) by (force simp: select_first_None_iff ops_ok_def)
  then have "select_first (\<lambda>r. in_id r = install_seq d + 1) (install_ops ?d2) =
      Some (new_install (install_seq d + 1) host (cc_revision c) (iso now))"
    by (simp add: table_simps new_install_def)
  then have "select_first (\<lambda>r. in_id r = install_seq d + 1) (install_ops d') =
      Some (new_install (install_seq d + 1) host (cc_revision c) (iso now))"
    using acquire_keeps_install [OF l2(1) a] fresh l2(2) by simp
  with s s' show ?thesis
    by (simp add: load_install_snapshot_def p kept_def snapshot_round_trip new_install_def)
qed

section \<open>Prepared IP changes\<close>

lemma insert_setting_frame:
  assumes "insert_setting k v d = Inr d'"
  shows "clients d' = clients d" "vpn_state d' = vpn_state d" "snapshots d' = snapshots d"
    "install_ops d' = install_ops d" "ip_ops d' = ip_ops d" "server_ops d' = server_ops d"
    "leases d' = leases d" "ip_seq d' = ip_seq d"
  using assms by (auto simp: insert_setting_def frame_simps split: if_splits)

lemma bind_provider_frame:
  assumes "bind_provider sha cfg oid d = Inr d'"
  shows "clients d' = clients d" "vpn_state d' = vpn_state d" "snapshots d' = snapshots d"
    "install_ops d' = install_ops d" "ip_ops d' = ip_ops d" "server_ops d' = server_ops d"
    "leases d' = leases d"
  by (rule bind_provider_Inr [OF assms]; simp add: frame_simps)+

lemma keep_boxes_frame:
  assumes "keep_boxes oid ssh d = Inr d'"
  shows "clients d' = clients d" "vpn_state d' = vpn_state d" "snapshots d' = snapshots d"
    "install_ops d' = install_ops d" "ip_ops d' = ip_ops d" "server_ops d' = server_ops d"
    "leases d' = leases d"
  using assms insert_setting_frame
  by (auto simp: keep_boxes_def bind_result_Inr_iff Let_def split: option.splits)

lemma retry_requested_frame [frame_simps]:
  "install_ops (retry_requested i t d) = install_ops d" "server_ops (retry_requested i t d) = server_ops d"
  "leases (retry_requested i t d) = leases d" "snapshots (retry_requested i t d) = snapshots d"
  "vpn_state (retry_requested i t d) = vpn_state d" "clients (retry_requested i t d) = clients d"
  "settings (retry_requested i t d) = settings d"
  by (simp_all add: retry_requested_def frame_simps split: option.split)

lemma is_active_retry [simp]: "is_active (retry_requested i t d) ow = is_active d ow"
  by (cases "(d, ow)" rule: is_active.cases)
     (auto simp: is_active.simps frame_simps retry_requested_def set_ip_row_def bex_update_where_key
        split: option.split)

lemma prepare_ip_change_result:
  assumes "prepare_ip_change_operation sha cfg now lease_now review ssh d = Inr (p, d')"
  obtains c d1 d3 d4 d5 where "ip_change_allowed sha cfg review ssh d = Inr ()"
    and "capture_vpn_config cfg d = Inr c"
    and "ensure_snapshot c (canonical_vpn_config_json c) (sha (canonical_vpn_config_json c)) (iso now) False d = Inr d1"
    and "acquire_vps_lease lease_now (LeaseOwner IpChange (ip_seq d + 1)) default_lease_seconds
      (d1\<lparr>ip_ops := ip_ops d @ [new_ip_change (ip_seq d + 1) (cc_revision c) (iso now)],
          ip_seq := ip_seq d + 1\<rparr>) = Inr d3"
    and "bind_provider sha cfg (ip_seq d + 1) d3 = Inr d4" and "keep_boxes (ip_seq d + 1) ssh d4 = Inr d5"
    and "d' = retry_requested review (iso now) (retry_requested ssh (iso now) d5)"
    and "p = \<lparr>pp_operation_id = ip_seq d + 1, pp_revision = cc_revision c,
      pp_sha256 = sha (canonical_vpn_config_json c)\<rparr>"
proof -
  obtain c d1 where al: "ip_change_allowed sha cfg review ssh d = Inr ()"
    and c: "capture_vpn_config cfg d = Inr c"
    and e: "ensure_snapshot c (canonical_vpn_config_json c) (sha (canonical_vpn_config_json c)) (iso now) False d = Inr d1"
    and rest: "bind_result (acquire_vps_lease lease_now (LeaseOwner IpChange (ip_seq d1 + 1)) default_lease_seconds
      (d1\<lparr>ip_ops := ip_ops d1 @ [new_ip_change (ip_seq d1 + 1) (cc_revision c) (iso now)],
          ip_seq := ip_seq d1 + 1\<rparr>)) (\<lambda>d3.
        bind_result (bind_provider sha cfg (ip_seq d1 + 1) d3) (\<lambda>d4.
        bind_result (keep_boxes (ip_seq d1 + 1) ssh d4) (\<lambda>d5.
          Inr (\<lparr>pp_operation_id = ip_seq d1 + 1, pp_revision = cc_revision c,
            pp_sha256 = sha (canonical_vpn_config_json c)\<rparr>,
            retry_requested review (iso now) (retry_requested ssh (iso now) d5))))) = Inr (p, d')"
    using assms
    by (auto simp: prepare_ip_change_operation_def snapshot_payload_def bind_result_Inr_iff Let_def)
  note f = ensure_snapshot_frame [OF e]
  show ?thesis
    using rest f by (auto simp: bind_result_Inr_iff intro: that [OF al c e])
qed

lemma ip_change_allowed_clear:
  assumes "ip_change_allowed sha cfg review ssh d = Inr u"
  shows "\<forall>r \<in> set (ip_ops d). \<not> unresolved r" and "\<forall>r \<in> set (ip_ops d). \<not> open_decision ssh r"
    and "review = None \<or> ssh = None"
  using assms
  by (auto simp: ip_change_allowed_def bind_result_Inr_iff select_last_None_iff list_ex_iff
      split: if_splits option.splits)

lemma ip_change_hold:
  assumes "r \<in> set (ip_ops d)" and "unresolved r"
  shows "\<not> succeeds (prepare_ip_change_operation sha cfg now lease_now review ssh d)"
proof (cases "prepare_ip_change_operation sha cfg now lease_now review ssh d")
  case (Inr x)
  then have "prepare_ip_change_operation sha cfg now lease_now review ssh d = Inr (fst x, snd x)" by simp
  then obtain u where "ip_change_allowed sha cfg review ssh d = Inr u"
    by (rule prepare_ip_change_result) blast
  from ip_change_allowed_clear(1) [OF this] assms show ?thesis by blast
qed simp

lemma prepare_ip_change_exclusive:
  assumes "prepare_ip_change_operation sha cfg now lease_now review ssh d = Inr (p, d')" and "exclusive d"
  shows "exclusive d'" and "holder d' = Some (LeaseOwner IpChange (pp_operation_id p))"
    and "expired_at lease_now d" and "pp_revision p = desired_revision (vpn_state d)"
proof -
  obtain c d1 d3 d4 d5 where c: "capture_vpn_config cfg d = Inr c"
    and e: "ensure_snapshot c (canonical_vpn_config_json c) (sha (canonical_vpn_config_json c)) (iso now) False d = Inr d1"
    and a: "acquire_vps_lease lease_now (LeaseOwner IpChange (ip_seq d + 1)) default_lease_seconds
      (d1\<lparr>ip_ops := ip_ops d @ [new_ip_change (ip_seq d + 1) (cc_revision c) (iso now)],
          ip_seq := ip_seq d + 1\<rparr>) = Inr d3" (is "acquire_vps_lease _ ?ow _ ?d2 = _")
    and b: "bind_provider sha cfg (ip_seq d + 1) d3 = Inr d4" and k: "keep_boxes (ip_seq d + 1) ssh d4 = Inr d5"
    and d': "d' = retry_requested review (iso now) (retry_requested ssh (iso now) d5)"
    and p: "p = \<lparr>pp_operation_id = ip_seq d + 1, pp_revision = cc_revision c,
      pp_sha256 = sha (canonical_vpn_config_json c)\<rparr>"
    using assms(1) by (rule prepare_ip_change_result)
  note f = ensure_snapshot_frame [OF e]
  have act: "is_active ?d2 v \<longleftrightarrow> is_active d v \<or> v = ?ow" for v
    using is_active_new_ip_change [where d = d1 and n = "ip_seq d + 1" and ow = v] is_active_cong [of d1 d v] f
    by (simp add: new_ip_change_def)
  have le: "leases ?d2 = leases d" using f by simp
  note r = register_exclusive [OF assms(2) act le a]
  have 5: "exclusive d5 = exclusive d3" "holder d5 = holder d3"
    using bind_provider_frame [OF b] keep_boxes_frame [OF k] exclusive_cong [of d5 d3] lease_cong [of d5 d3]
    by simp_all
  have "holder d' = holder d5" "leases_ok d' = leases_ok d5"
    using lease_cong [of d' d5] by (simp_all add: d' frame_simps)
  then show "exclusive d'" "holder d' = Some (LeaseOwner IpChange (pp_operation_id p))"
    using r(1,2) 5 p by (simp_all add: exclusive_def) (simp add: d')
  show "expired_at lease_now d" using r(3) by simp
  show "pp_revision p = desired_revision (vpn_state d)" using p capture_fields [OF c] by simp
qed

section \<open>Publishing\<close>

text \<open>The configuration, the snapshot and the database a publication produces.\<close>

definition republished :: "captured_config \<Rightarrow> string \<Rightarrow> int \<Rightarrow> int \<Rightarrow> captured_config" where
  "republished c ip now bound =
     c\<lparr>cc_current_ip := ip, cc_config_updated_at := iso_text (iso now), cc_revision := bound + 1\<rparr>"

definition published_row :: "(string \<Rightarrow> string) \<Rightarrow> captured_config \<Rightarrow> string \<Rightarrow> int \<Rightarrow> int \<Rightarrow> snapshot_row" where
  "published_row sha c ip now bound =
     (fresh_snapshot (bound + 1) (canonical_vpn_config_json (republished c ip now bound))
        (sha (canonical_vpn_config_json (republished c ip now bound))) (iso now))
       \<lparr>sn_lifecycle := SnapApplied, sn_applied_at := Some (iso now)\<rparr>"

definition published_op :: "int \<Rightarrow> int \<Rightarrow> string \<Rightarrow> ip_row \<Rightarrow> ip_row" where
  "published_op now bound health r =
     r\<lparr>ip_status := Running, ip_current_step := ''delete_old_ipv4'', ip_action_state := Published,
       ip_published_revision := Some (bound + 1), ip_published_at := Some (iso now),
       ip_healthcheck_result := Some health, ip_updated_at := iso now\<rparr>"

definition published_state :: "int \<Rightarrow> int \<Rightarrow> state_row" where
  "published_state now bound =
     \<lparr>desired_revision = bound + 1, applied_revision = Some (bound + 1),
      desired_updated_at = Some (iso now), applied_updated_at = Some (iso now)\<rparr>"

lemma publish_cases:
  assumes "publish_ip_change sha now oid ip health box key d = Inr (n, d')"
  obtains r bound s c d1 where "find_ip_row oid d = Some r" "ip_revision r = Some bound"
    "snapshot_at bound d = Some s" "desired_revision (vpn_state d) = bound"
    "captured_vpn_config_from_json (sn_payload_json s) = Inr c" "n = bound + 1"
    "insert_snapshot (published_row sha c ip now bound) d = Inr d1"
    "d' = set_ip_row oid (published_op now bound health)
      (snd (purge_applied_deleted_clients
        ((put_settings (published_settings ip (iso now) box key) (mark_applied bound (iso now) d1))
          \<lparr>vpn_state := published_state now bound\<rparr>)))"
proof -
  have eq: "(\<lambda>r. published_op now b health r) = (\<lambda>r. r\<lparr>ip_status := Running, ip_current_step := ''delete_old_ipv4'',
      ip_action_state := Published, ip_published_revision := Some (b + 1), ip_published_at := Some (iso now),
      ip_healthcheck_result := Some health, ip_updated_at := iso now\<rparr>)" for b
    by (rule ext) (simp add: published_op_def)
  show ?thesis
    using assms
    by (auto simp: publish_ip_change_def bind_result_Inr_iff Let_def published_row_def republished_def
        published_state_def eq intro: that split: option.splits if_splits)
qed

lemma publish_refused:
  assumes "find_ip_row oid d = Some r" and "ip_revision r = Some bound" and "snapshot_at bound d = Some s"
    and "desired_revision (vpn_state d) \<noteq> bound"
  shows "publish_ip_change sha now oid ip health box key d =
     Inl (RuntimeError ''VPN configuration changed during IP rotation; refusing to publish'')"
  using assms by (simp add: publish_ip_change_def Let_def)

lemma insert_snapshot_Inr:
  assumes "insert_snapshot s d = Inr d'"
  shows "snapshot_at (sn_revision s) d = None" and "d' = d\<lparr>snapshots := snapshots d @ [s]\<rparr>"
  using assms by (auto simp: insert_snapshot_def split: if_splits)

lemma setting_purge [simp]: "setting (snd (purge_applied_deleted_clients d)) k = setting d k"
  by (simp add: setting_def frame_simps)

lemma setting_set_ip_row [simp]: "setting (set_ip_row oid f d) k = setting d k"
  by (simp add: setting_def frame_simps)

lemma published_settings_keys: "distinct (map fst (published_settings ip t box key))"
  by (cases box; cases key) (simp_all add: published_settings_def)

lemma published_op_id [simp]: "ip_id (published_op now b h r) = ip_id r"
  by (simp add: published_op_def)

lemma publish_result:
  assumes "publish_ip_change sha now oid ip health box key d = Inr (n, d')"
  shows "desired_revision (vpn_state d') = n" and "applied_revision (vpn_state d') = Some n"
    and "n = desired_revision (vpn_state d) + 1"
    and "setting d' ''current_ip'' = ip" and "setting d' ''last_healthcheck_status'' = ''OK''"
    and "find_ip_row oid d' = map_option (published_op now (n - 1) health) (find_ip_row oid d)"
    and "\<forall>c \<in> set (clients d'). \<not> purgeable n c"
proof -
  obtain bound c d1 where des: "desired_revision (vpn_state d) = bound" and n: "n = bound + 1"
    and ins: "insert_snapshot (published_row sha c ip now bound) d = Inr d1"
    and d': "d' = set_ip_row oid (published_op now bound health)
      (snd (purge_applied_deleted_clients
        ((put_settings (published_settings ip (iso now) box key) (mark_applied bound (iso now) d1))
          \<lparr>vpn_state := published_state now bound\<rparr>)))"
    using assms by (rule publish_cases)
  let ?ps = "put_settings (published_settings ip (iso now) box key) (mark_applied bound (iso now) d1)"
  note d1 = insert_snapshot_Inr(2) [OF ins]
  show "desired_revision (vpn_state d') = n" "applied_revision (vpn_state d') = Some n"
    "n = desired_revision (vpn_state d) + 1"
    using des n by (simp_all add: d' frame_simps published_state_def)
  have set: "setting d' k = setting ?ps k" for k by (simp add: d')
  show "setting d' ''current_ip'' = ip" "setting d' ''last_healthcheck_status'' = ''OK''"
    unfolding set put_settings_eq
    by (rule st.get_put_all_distinct [OF published_settings_keys]; simp add: published_settings_def)+
  have "ip_ops d' = update_where (\<lambda>r. ip_id r = oid) (published_op now bound health) (ip_ops d)"
    by (simp add: d' set_ip_row_def frame_simps mark_applied_def d1)
  then show "find_ip_row oid d' = map_option (published_op now (n - 1) health) (find_ip_row oid d)"
    unfolding find_ip_row_def n by (simp add: select_first_update_same)
  show "\<forall>c \<in> set (clients d'). \<not> purgeable n c"
    by (simp add: d' purge_clients frame_simps n published_state_def)
qed

lemma mark_applied_kept: "history_kept d (mark_applied revn t d)"
  by (rule history_kept_update [where p = "\<lambda>s. sn_revision s = revn"
        and f = "\<lambda>s. s\<lparr>sn_lifecycle := SnapApplied,
               sn_applied_at := (case sn_applied_at s of None \<Rightarrow> Some t | Some a \<Rightarrow> Some a),
               sn_failed_at := None, sn_error_message := None\<rparr>"])
     (simp_all add: mark_applied_def kept_def)

lemma publish_snapshots:
  assumes "publish_ip_change sha now oid ip health box key d = Inr (n, d')"
  shows "history_kept d d'"
    and "\<exists>s c. snapshot_at n d' = Some s \<and> sn_lifecycle s = SnapApplied \<and>
      sn_payload_sha256 s = sha (sn_payload_json s) \<and>
      captured_vpn_config_from_json (sn_payload_json s) = Inr c \<and>
      cc_current_ip c = ip \<and> cc_revision c = n"
proof -
  obtain bound c d1 where n: "n = bound + 1"
    and ins: "insert_snapshot (published_row sha c ip now bound) d = Inr d1"
    and d': "d' = set_ip_row oid (published_op now bound health)
      (snd (purge_applied_deleted_clients
        ((put_settings (published_settings ip (iso now) box key) (mark_applied bound (iso now) d1))
          \<lparr>vpn_state := published_state now bound\<rparr>)))"
    using assms by (rule publish_cases)
  have none: "snapshot_at (bound + 1) d = None" and d1: "snapshots d1 = snapshots d @ [published_row sha c ip now bound]"
    using insert_snapshot_Inr [OF ins] by (simp_all add: fresh_snapshot_def published_row_def)
  have h1: "history_kept d d1" using d1 by (rule history_kept_append)
  have h2: "history_kept d1 d'"
    using mark_applied_kept [of d1 bound "iso now"] by (simp add: history_kept_def d' frame_simps)
  from h1 h2 show "history_kept d d'" by (rule history_kept_trans)
  have "snapshot_at (bound + 1) d1 = Some (published_row sha c ip now bound)"
    using none by (simp add: snapshot_at_def d1 table_simps fresh_snapshot_def published_row_def)
  then obtain s' where s': "snapshot_at (bound + 1) d' = Some s'" "kept (published_row sha c ip now bound) s'"
    using snapshot_at_kept [OF h2] by blast
  have "cc_current_ip (snapshot_of (republished c ip now bound)) = ip"
    "cc_revision (snapshot_of (republished c ip now bound)) = n"
    by (simp_all add: snapshot_of_def republished_def n)
  with s' show "\<exists>s c. snapshot_at n d' = Some s \<and> sn_lifecycle s = SnapApplied \<and>
      sn_payload_sha256 s = sha (sn_payload_json s) \<and>
      captured_vpn_config_from_json (sn_payload_json s) = Inr c \<and>
      cc_current_ip c = ip \<and> cc_revision c = n"
    by (intro exI [of _ s'] exI [of _ "snapshot_of (republished c ip now bound)"])
       (simp add: n kept_def fresh_snapshot_def published_row_def snapshot_round_trip)
qed

lemma set_ip_row_lease [simp]:
  "holder (set_ip_row oid f d) = holder d" "leases_ok (set_ip_row oid f d) = leases_ok d"
  using lease_cong [of "set_ip_row oid f d" d] by (simp_all add: frame_simps)

lemma publish_exclusive:
  assumes "publish_ip_change sha now oid ip health box key d = Inr (n, d')" and "exclusive d"
    and "holder d = Some (LeaseOwner IpChange oid)"
  shows "exclusive d'" and "holder d' = Some (LeaseOwner IpChange oid)"
proof -
  obtain bound c d1 where ins: "insert_snapshot (published_row sha c ip now bound) d = Inr d1"
    and d': "d' = set_ip_row oid (published_op now bound health)
      (snd (purge_applied_deleted_clients
        ((put_settings (published_settings ip (iso now) box key) (mark_applied bound (iso now) d1))
          \<lparr>vpn_state := published_state now bound\<rparr>)))" (is "_ = set_ip_row _ _ ?d2")
    using assms(1) by (rule publish_cases)
  have 2: "install_ops ?d2 = install_ops d" "ip_ops ?d2 = ip_ops d" "server_ops ?d2 = server_ops d"
    "leases ?d2 = leases d"
    by (simp_all add: insert_snapshot_Inr(2) [OF ins] frame_simps mark_applied_def)
  have h: "holder ?d2 = holder d" "leases_ok ?d2"
    using lease_cong [OF 2(4)] assms(2) by (simp_all add: exclusive_def)
  have a: "is_active ?d2 v = is_active d v" for v using 2 by (intro is_active_cong)
  have st: "ip_status (published_op now bound health r) = Running" for r by (simp add: published_op_def)
  show "holder d' = Some (LeaseOwner IpChange oid)" using h assms(3) by (simp add: d')
  show "exclusive d'"
    using h a assms(2,3)
    by (auto simp: exclusive_def d' set_ip_row_active [OF published_op_id st] split: if_splits)
qed

section \<open>The outcome of an install: what is recorded\<close>

lemma set_install_row_frame [frame_simps]:
  "settings (set_install_row oid f d) = settings d" "clients (set_install_row oid f d) = clients d"
  "vpn_state (set_install_row oid f d) = vpn_state d" "leases (set_install_row oid f d) = leases d"
  "snapshots (set_install_row oid f d) = snapshots d" "ip_ops (set_install_row oid f d) = ip_ops d"
  "server_ops (set_install_row oid f d) = server_ops d"
  by (simp_all add: set_install_row_def)

lemma set_install_row_active:
  assumes "\<And>r. in_id (f r) = in_id r" and "\<And>r. in_status (f r) = s"
  shows "is_active (set_install_row oid f d) ow \<longleftrightarrow>
     (if ow = LeaseOwner Install oid then active s \<and> oid \<in> in_id ` set (install_ops d) else is_active d ow)"
proof (cases "(d, ow)" rule: is_active.cases)
  case (1 d' i)
  then show ?thesis
    using assms by (auto simp: is_active.simps set_install_row_def bex_update_where_key)
qed (simp_all add: is_active.simps frame_simps)

lemma end_install_exclusive:
  assumes "exclusive d" and "leases d2 = leases d"
    and "\<And>v. is_active d2 v \<Longrightarrow> is_active d v \<and> v \<noteq> LeaseOwner Install oid"
  shows "exclusive (snd (release_vps_lease (LeaseOwner Install oid) d2))"
proof -
  have l: "leases_ok d2" "holder d2 = holder d"
    using lease_cong [OF assms(2)] assms(1) by (simp_all add: exclusive_def)
  have "v \<noteq> LeaseOwner Install oid \<and> holder d2 = Some v" if "is_active d2 v" for v
    using assms(1,3) that l by (auto simp: exclusive_def)
  then show ?thesis unfolding exclusive_iff using l(1) by (intro vps.finish) auto
qed

lemma complete_install_cases:
  assumes "complete_install_operation now oid output d = Inr d'"
  obtains revn d3 where "install_revision oid d = Some revn"
    and "row_count (\<lambda>s. sn_revision s = revn) (snapshots d) = 1"
    and "d3 = snd (purge_applied_deleted_clients
        (d\<lparr>snapshots := update_where (\<lambda>s. sn_revision s = revn)
                (\<lambda>s. s\<lparr>sn_lifecycle := SnapApplied, sn_applied_at := Some (iso now),
                       sn_failed_at := None, sn_error_message := None\<rparr>) (snapshots d),
           vpn_state := (vpn_state d)\<lparr>applied_revision := (case applied_revision (vpn_state d) of
                             None \<Rightarrow> Some revn
                           | Some a \<Rightarrow> if a < revn then Some revn else Some a),
                         applied_updated_at := Some (iso now)\<rparr>\<rparr>))"
    and "d' = snd (release_vps_lease (LeaseOwner Install oid)
        (set_install_row oid (\<lambda>r. r\<lparr>in_status := Done, in_current_step := ''done'',
           in_output := Some output, in_error_message := None, in_updated_at := iso now\<rparr>) d3))"
  using assms
  by (auto simp: complete_install_operation_def Let_def intro: that split: option.splits if_splits)

lemma complete_install_result:
  assumes "complete_install_operation now oid output d = Inr d'"
  obtains revn where "install_revision oid d = Some revn"
    and "applied_revision (vpn_state d') = Some (case applied_revision (vpn_state d) of
        None \<Rightarrow> revn | Some a \<Rightarrow> max a revn)"
    and "desired_revision (vpn_state d') = desired_revision (vpn_state d)"
    and "\<forall>s \<in> set (snapshots d'). sn_revision s = revn \<longrightarrow> sn_lifecycle s = SnapApplied"
    and "revn \<in> sn_revision ` set (snapshots d')"
    and "history_kept d d'"
    and "\<forall>r \<in> set (install_ops d'). in_id r = oid \<longrightarrow> in_status r = Done \<and> in_output r = Some output"
proof (rule complete_install_cases [OF assms])
  fix revn d3
  let ?f = "\<lambda>s. s\<lparr>sn_lifecycle := SnapApplied, sn_applied_at := Some (iso now),
                       sn_failed_at := None, sn_error_message := None\<rparr>"
  assume rv: "install_revision oid d = Some revn"
    and one: "row_count (\<lambda>s. sn_revision s = revn) (snapshots d) = 1"
    and d3: "d3 = snd (purge_applied_deleted_clients
        (d\<lparr>snapshots := update_where (\<lambda>s. sn_revision s = revn) ?f (snapshots d),
           vpn_state := (vpn_state d)\<lparr>applied_revision := (case applied_revision (vpn_state d) of
                             None \<Rightarrow> Some revn
                           | Some a \<Rightarrow> if a < revn then Some revn else Some a),
                         applied_updated_at := Some (iso now)\<rparr>\<rparr>))"
    and d': "d' = snd (release_vps_lease (LeaseOwner Install oid)
        (set_install_row oid (\<lambda>r. r\<lparr>in_status := Done, in_current_step := ''done'',
           in_output := Some output, in_error_message := None, in_updated_at := iso now\<rparr>) d3))"
  have sn: "snapshots d' = update_where (\<lambda>s. sn_revision s = revn) ?f (snapshots d)"
    by (simp add: d' d3 frame_simps)
  have io: "install_ops d' = update_where (\<lambda>r. in_id r = oid) (\<lambda>r. r\<lparr>in_status := Done, in_current_step := ''done'',
           in_output := Some output, in_error_message := None, in_updated_at := iso now\<rparr>) (install_ops d)"
    by (simp add: d' d3 frame_simps set_install_row_def)
  show thesis
  proof (rule that [OF rv])
    show "applied_revision (vpn_state d') = Some (case applied_revision (vpn_state d) of
        None \<Rightarrow> revn | Some a \<Rightarrow> max a revn)"
      by (auto simp: d' d3 frame_simps max_def split: option.split)
    show "desired_revision (vpn_state d') = desired_revision (vpn_state d)"
      by (simp add: d' d3 frame_simps)
    show "\<forall>s \<in> set (snapshots d'). sn_revision s = revn \<longrightarrow> sn_lifecycle s = SnapApplied"
      unfolding sn by (rule update_where_ballI) simp_all
    have "map sn_revision (snapshots d') = map sn_revision (snapshots d)"
      unfolding sn by (rule map_update_where) simp
    then have "sn_revision ` set (snapshots d') = sn_revision ` set (snapshots d)"
      by (metis list.set_map)
    moreover have "row_count (\<lambda>s. sn_revision s = revn) (snapshots d) \<noteq> 0" using one by simp
    then have "revn \<in> sn_revision ` set (snapshots d)" unfolding row_count_0_iff by blast
    ultimately show "revn \<in> sn_revision ` set (snapshots d')" by simp
    show "history_kept d d'" using sn by (rule history_kept_update) (simp add: kept_def)
    show "\<forall>r \<in> set (install_ops d'). in_id r = oid \<longrightarrow> in_status r = Done \<and> in_output r = Some output"
      unfolding io by (rule update_where_ballI) simp_all
  qed
qed

lemma complete_install_exclusive:
  assumes "complete_install_operation now oid output d = Inr d'" and "exclusive d"
  shows "exclusive d'" and "\<not> is_active d' (LeaseOwner Install oid)"
proof -
  let ?g = "\<lambda>r. r\<lparr>in_status := Done, in_current_step := ''done'',
           in_output := Some output, in_error_message := None, in_updated_at := iso now\<rparr>"
  obtain d3 where ops: "install_ops d3 = install_ops d" "ip_ops d3 = ip_ops d"
      "server_ops d3 = server_ops d" "leases d3 = leases d"
    and d': "d' = snd (release_vps_lease (LeaseOwner Install oid) (set_install_row oid ?g d3))"
  proof (rule complete_install_cases [OF assms(1)], goal_cases)
    case (1 revn d3)
    show ?case
    proof (rule 1(1) [of d3])
      show "install_ops d3 = install_ops d" "ip_ops d3 = ip_ops d" "server_ops d3 = server_ops d"
        "leases d3 = leases d" by (simp_all add: 1(4) frame_simps)
    qed (rule 1(5))
  qed
  have g: "is_active (set_install_row oid ?g d3) v \<longleftrightarrow> is_active d v \<and> v \<noteq> LeaseOwner Install oid" for v
    using set_install_row_active [of ?g Done oid d3 v] is_active_cong [OF ops(1-3), of v] by simp
  have l: "leases (set_install_row oid ?g d3) = leases d" using ops(4) by (simp add: frame_simps)
  show "exclusive d'"
    unfolding d' by (rule end_install_exclusive [OF assms(2) l]) (simp_all only: g simp_thms)
  show "\<not> is_active d' (LeaseOwner Install oid)" by (simp add: d' g)
qed

lemma fail_install_history: "history_kept d (fail_install_operation now oid msg d)"
proof (cases "install_revision oid d")
  case None
  then show ?thesis
    by (intro history_kept_same) (simp add: fail_install_operation_def fail_bound_snapshot_def frame_simps Let_def)
next
  case (Some revn)
  then show ?thesis
    by (intro history_kept_update [where p = "\<lambda>s. sn_revision s = revn \<and> sn_lifecycle s \<noteq> SnapApplied"
          and f = "\<lambda>s. s\<lparr>sn_lifecycle := SnapFailed, sn_failed_at := Some (iso now), sn_error_message := Some msg\<rparr>"])
       (simp_all add: fail_install_operation_def fail_bound_snapshot_def frame_simps kept_def Let_def)
qed

lemma fail_bound_snapshot_frame [frame_simps]:
  "install_ops (fail_bound_snapshot oid t m d) = install_ops d"
  "ip_ops (fail_bound_snapshot oid t m d) = ip_ops d"
  "server_ops (fail_bound_snapshot oid t m d) = server_ops d"
  "leases (fail_bound_snapshot oid t m d) = leases d"
  "vpn_state (fail_bound_snapshot oid t m d) = vpn_state d"
  by (simp_all add: fail_bound_snapshot_def split: option.split)

lemma fail_install_exclusive:
  assumes "exclusive d"
  shows "exclusive (fail_install_operation now oid msg d)"
    and "\<not> is_active (fail_install_operation now oid msg d) (LeaseOwner Install oid)"
proof -
  let ?d1 = "fail_bound_snapshot oid (iso now) msg d"
  let ?g = "\<lambda>r. r\<lparr>in_status := Failed, in_current_step := ''failed'',
                 in_error_message := Some msg, in_updated_at := iso now\<rparr>"
  have a: "is_active ?d1 v = is_active d v" for v by (rule is_active_cong) (simp_all add: frame_simps)
  have g: "is_active (set_install_row oid ?g ?d1) v \<longleftrightarrow> is_active d v \<and> v \<noteq> LeaseOwner Install oid" for v
    using set_install_row_active [of ?g Failed oid ?d1 v] a [of v] by simp
  have eq: "fail_install_operation now oid msg d =
      snd (release_vps_lease (LeaseOwner Install oid) (set_install_row oid ?g ?d1))"
    by (simp add: fail_install_operation_def Let_def)
  have l: "leases (set_install_row oid ?g ?d1) = leases d" by (simp add: frame_simps)
  show "exclusive (fail_install_operation now oid msg d)"
    unfolding eq by (rule end_install_exclusive [OF assms l]) (simp_all only: g simp_thms)
  show "\<not> is_active (fail_install_operation now oid msg d) (LeaseOwner Install oid)"
    by (simp add: eq g)
qed

section \<open>Properties\<close>

lemma ensure_snapshot_new: "snapshot_at (cc_revision c) d = None \<Longrightarrow> succeeds (ensure_snapshot c p g t re d)"
  by (simp add: ensure_snapshot_def)

lemma prepare_install_succeeds:
  assumes "capture_vpn_config cfg d = Inr c" and "snapshot_at (cc_revision c) d = None"
    and "leases_ok d" and "lease_of d = None"
  shows "succeeds (prepare_install_operation sha cfg now lease_now host d)"
proof -
  let ?p = "canonical_vpn_config_json c"
  obtain d1 where d1: "ensure_snapshot c ?p (sha ?p) (iso now) True d = Inr d1"
    using ensure_snapshot_new [OF assms(2), of ?p "sha ?p" "iso now" True]
    unfolding succeeds_def by (auto split: sum.splits)
  then have "leases d1 = leases d" by (auto simp: ensure_snapshot_def assms(2))
  then have "leases_ok (d1\<lparr>install_ops := x, install_seq := y\<rparr>) \<and> lease_of (d1\<lparr>install_ops := x, install_seq := y\<rparr>) = None"
    for x y using assms(3,4) by (simp add: leases_ok_def lease_of_def)
  then show ?thesis
    using assms(1) d1
    by (simp add: prepare_install_operation_def snapshot_payload_def bind_result_def Let_def
        acquire_granted(1) expired_at_def)
qed

lemma prepare_install_history:
  assumes "prepare_install_operation sha cfg now lease_now host d = Inr (p, d')"
    and "leases_ok d" and "snapshots_ok d"
  shows "history_kept d d'" and "snapshots_ok d'"
proof -
  let ?d2 = "\<lambda>d1 c. d1\<lparr>install_ops := install_ops d @ [new_install (install_seq d + 1) host (cc_revision c) (iso now)],
          install_seq := install_seq d + 1\<rparr>"
  obtain c d1
    where s: "ensure_snapshot c (canonical_vpn_config_json c) (sha (canonical_vpn_config_json c)) (iso now) True d = Inr d1"
    and a: "acquire_vps_lease lease_now (LeaseOwner Install (install_seq d + 1)) default_lease_seconds (?d2 d1 c) = Inr d'"
    using assms(1) by (rule prepare_install_result) blast
  have ok: "leases_ok (?d2 d1 c)" using ensure_snapshot_frame [OF s] assms(2) by (simp add: leases_ok_def)
  have "history_kept d1 (?d2 d1 c)" by simp
  with ensure_snapshot_history [OF s assms(3)] acquire_history [OF ok a]
  show "history_kept d d'" using history_kept_trans by blast
  have "map sn_revision (snapshots d') = map sn_revision (snapshots d1)"
    using acquire_result(4) [OF ok a] by (simp add: frame_simps)
  with ensure_snapshot_ok(1) [OF s assms(3)] show "snapshots_ok d'" by (rule snapshots_ok_history)
qed

lemma prepare_ip_change_history:
  assumes "prepare_ip_change_operation sha cfg now lease_now review ssh d = Inr (p, d')"
    and "leases_ok d" and "snapshots_ok d"
  shows "history_kept d d'" and "snapshots_ok d'"
proof -
  let ?d2 = "\<lambda>d1 c. d1\<lparr>ip_ops := ip_ops d @ [new_ip_change (ip_seq d + 1) (cc_revision c) (iso now)],
          ip_seq := ip_seq d + 1\<rparr>"
  obtain c d1 d3 d4 d5
    where s: "ensure_snapshot c (canonical_vpn_config_json c) (sha (canonical_vpn_config_json c)) (iso now) False d = Inr d1"
    and a: "acquire_vps_lease lease_now (LeaseOwner IpChange (ip_seq d + 1)) default_lease_seconds (?d2 d1 c) = Inr d3"
    and b: "bind_provider sha cfg (ip_seq d + 1) d3 = Inr d4" and k: "keep_boxes (ip_seq d + 1) ssh d4 = Inr d5"
    and d': "d' = retry_requested review (iso now) (retry_requested ssh (iso now) d5)"
    using assms(1) by (rule prepare_ip_change_result) blast
  have ok: "leases_ok (?d2 d1 c)" using ensure_snapshot_frame [OF s] assms(2) by (simp add: leases_ok_def)
  have same: "snapshots d' = snapshots d3"
    using bind_provider_frame(3) [OF b] keep_boxes_frame(3) [OF k] by (simp add: d' frame_simps)
  have "history_kept d1 (?d2 d1 c)" "history_kept d3 d'" using same by simp_all
  with ensure_snapshot_history [OF s assms(3)] acquire_history [OF ok a]
  show "history_kept d d'" using history_kept_trans by blast
  have "map sn_revision (snapshots d') = map sn_revision (snapshots d1)"
    using acquire_result(4) [OF ok a] same by (simp add: frame_simps)
  with ensure_snapshot_ok(1) [OF s assms(3)] show "snapshots_ok d'" by (rule snapshots_ok_history)
qed

lemma default_capture:
  obtains c where "capture_vpn_config default_config empty_db = Inr c" and "cc_revision c = 0"
proof -
  have "succeeds (capture_vpn_config default_config empty_db)" by code_simp
  then obtain c where c: "capture_vpn_config default_config empty_db = Inr c"
    by (auto simp: succeeds_def split: sum.splits)
  from capture_fields(1) [OF this] have "cc_revision c = 0" by (simp add: empty_db_def)
  with c show ?thesis by (rule that)
qed

lemma empty_db_ok [simp]:
  "leases_ok empty_db" "snapshots_ok empty_db" "ops_ok empty_db" "holder empty_db = None"
  "lease_of empty_db = None" "\<not> is_active empty_db ow" "exclusive empty_db"
proof -
  show idle: "\<not> is_active empty_db ow" for ow
    by (cases "(empty_db, ow)" rule: is_active.cases) (simp_all add: is_active.simps empty_db_def)
  show "leases_ok empty_db" "snapshots_ok empty_db" "ops_ok empty_db" "holder empty_db = None"
    "lease_of empty_db = None"
    by (simp_all add: leases_ok_def snapshots_ok_def ops_ok_def holder_def lease_of_def empty_db_def)
  with idle show "exclusive empty_db" by (simp add: exclusive_def)
qed



text \<open>C13.  While any earlier IP change has an external effect nobody has verified (ambiguous and not
  reconciled, an ambiguous clean-up, or an address awaiting its check) no new IP change can be
  prepared, whatever decision it is started from.\<close>

theorem unverified_rotation_holds_new_ones:
  assumes "r \<in> set (ip_ops d)"
    and "(ip_status r = Ambiguous \<and> ip_action_state r \<noteq> Reconciled) \<or>
       ip_action_state r \<in> {IpAmbiguous, CleanupAmbiguous, AwaitingAwgCheck}"
  shows "\<not> succeeds (prepare_ip_change_operation sha cfg now lease_now review ssh d)"
  using assms by (intro ip_change_hold) (simp_all add: unresolved_def)

theorem unverified_rotation_holds_new_ones_witness:
  "\<not> succeeds (prepare_ip_change_operation (\<lambda>s. s) default_config 0 0 None None
     (empty_db\<lparr>ip_ops := [(new_ip_change 1 0 0)\<lparr>ip_status := Ambiguous\<rparr>]\<rparr>))"
  by (rule unverified_rotation_holds_new_ones [where r = "(new_ip_change 1 0 0)\<lparr>ip_status := Ambiguous\<rparr>"])
     (simp_all add: new_ip_change_def)


lemma prepare_ip_change_succeeds:
  assumes "capture_vpn_config cfg d = Inr c" and "snapshots d = []" and "ip_ops d = []" and "leases d = []"
    and "settings d = []" and "c_vps_provider cfg = ''aeza''"
  shows "succeeds (prepare_ip_change_operation sha cfg now lease_now None None d)"
proof -
  let ?p = "canonical_vpn_config_json c"
  have "snapshot_at (cc_revision c) d = None" by (simp add: snapshot_at_def assms(2))
  then obtain d1 where d1: "ensure_snapshot c ?p (sha ?p) (iso now) False d = Inr d1"
    using ensure_snapshot_new [of c d ?p "sha ?p" "iso now" False]
    unfolding succeeds_def by (auto split: sum.splits)
  let ?d2 = "d1\<lparr>ip_ops := ip_ops d @ [new_ip_change (ip_seq d + 1) (cc_revision c) (iso now)],
          ip_seq := ip_seq d + 1\<rparr>"
  have l: "leases_ok ?d2" "expired_at lease_now ?d2"
    using ensure_snapshot_frame(7) [OF d1] assms(4) by (simp_all add: leases_ok_def expired_at_def lease_of_def)
  obtain d3 where a: "acquire_vps_lease lease_now (LeaseOwner IpChange (ip_seq d + 1)) default_lease_seconds ?d2 = Inr d3"
    using acquire_granted(1) [OF l] by blast
  have "settings d3 = []"
    using acquire_result(4) [OF l(1) a] ensure_snapshot_frame(1) [OF d1] assms(5) by (simp add: frame_simps)
  then have "bound_value cfg d3 ''vps_provider'' ''aeza'' = ''aeza''"
    using assms(6) by (simp add: bound_value_def config_fields_def)
  then have "\<exists>d4. bind_provider sha cfg (ip_seq d + 1) d3 = Inr d4"
    using \<open>settings d3 = []\<close> by (simp add: bind_provider_def insert_setting_def Let_def)
  then show ?thesis
    using assms(1,3) d1 a ensure_snapshot_frame(5,9) [OF d1]
    by (simp add: prepare_ip_change_operation_def ip_change_allowed_def snapshot_payload_def succeeds_bind
        select_last_def keep_boxes_def Let_def)
qed



text \<open>A database in which one IP change is bound to the stored snapshot of the captured configuration.\<close>

definition bound_ip_change :: "captured_config \<Rightarrow> db" where
  "bound_ip_change c = empty_db\<lparr>
     snapshots := [fresh_snapshot 0 (canonical_vpn_config_json c) (canonical_vpn_config_json c) 0],
     ip_ops := [(new_ip_change 1 0 0)\<lparr>ip_status := Running\<rparr>], ip_seq := 1,
     leases := [fresh_lease 0 (LeaseOwner IpChange 1) 60]\<rparr>"

lemma bound_ip_change_ok:
  "exclusive (bound_ip_change c)" "holder (bound_ip_change c) = Some (LeaseOwner IpChange 1)"
proof -
  show h: "holder (bound_ip_change c) = Some (LeaseOwner IpChange 1)"
    by (simp add: holder_def lease_of_def bound_ip_change_def)
  have "is_active (bound_ip_change c) ow \<Longrightarrow> ow = LeaseOwner IpChange 1" for ow
    by (cases "(bound_ip_change c, ow)" rule: is_active.cases)
       (simp_all add: is_active.simps bound_ip_change_def empty_db_def new_ip_change_def)
  then show "exclusive (bound_ip_change c)"
    using h by (auto simp: exclusive_def leases_ok_def bound_ip_change_def)
qed




end
