(* ===== verification/Sanitize.thy ===== *)
theory Sanitize
  imports Schema
begin

text \<open>
  \<open>app/secret_sanitization.py\<close>: what is left of an error message before it is stored or shown.  The
  regular expressions are matchers that give the length of the match at the start of a text.
  Letters compare without case as ASCII letters do, and white space is ASCII white space.
\<close>

section \<open>Substitution\<close>

text \<open>\<open>re.sub\<close> from left to right; \<open>rep\<close> gets the matched text.  No pattern here matches the empty text.\<close>

function sub_all :: "(string \<Rightarrow> nat option) \<Rightarrow> (string \<Rightarrow> string) \<Rightarrow> string \<Rightarrow> string" where
  "sub_all m rep [] = []"
| "sub_all m rep (c # cs) =
     (case m (c # cs) of
        Some (Suc n) \<Rightarrow> rep (c # take n cs) @ sub_all m rep (drop n cs)
      | _ \<Rightarrow> c # sub_all m rep cs)"
  by pat_completeness auto
termination by (relation "measure (\<lambda>(_, _, s). length s)") auto

definition literal :: "string \<Rightarrow> string \<Rightarrow> nat option" where
  "literal p s = (if starts_with p s then Some (length p) else None)"

definition py_replace :: "string \<Rightarrow> string \<Rightarrow> string \<Rightarrow> string" where
  "py_replace old new s = sub_all (literal old) (\<lambda>_. new) s"

definition literal_nocase :: "string \<Rightarrow> string \<Rightarrow> nat option" where
  "literal_nocase p s = literal (py_lower p) (py_lower (take (length p) s))"

section \<open>The patterns\<close>

text \<open>
  \<open>-----BEGIN [^-\r\n]{0,64}PRIVATE KEY-----\<close>: no dash before the closing ones, so the part in
  between is everything up to the first dash.
\<close>

definition key_marker :: "string \<Rightarrow> string \<Rightarrow> nat option" where
  "key_marker word s =
     (let start = ''-----'' @ word @ '' '';
          rest = drop (length start) s;
          body = takeWhile (\<lambda>c. c \<noteq> CHR ''-'') rest;
          kind = take (length body - 11) body
      in if literal_nocase start s \<noteq> None \<and> 11 \<le> length body \<and>
            py_lower (drop (length body - 11) body) = ''private key'' \<and>
            CHR 0x0D \<notin> set kind \<and> CHR 0x0A \<notin> set kind \<and> py_len kind \<le> 64 \<and>
            starts_with ''-----'' (drop (length body) rest)
         then Some (length start + length body + 5) else None)"

text \<open>The end of the earliest match in a text.\<close>

fun first_end :: "(string \<Rightarrow> nat option) \<Rightarrow> string \<Rightarrow> nat option" where
  "first_end m [] = m []"
| "first_end m (c # cs) =
     (case m (c # cs) of Some n \<Rightarrow> Some n | None \<Rightarrow> map_option Suc (first_end m cs))"

definition private_key_block :: "string \<Rightarrow> nat option" where
  "private_key_block s =
     (case key_marker ''BEGIN'' s of
        None \<Rightarrow> None
      | Some n \<Rightarrow> map_option (\<lambda>k. n + k) (first_end (key_marker ''END'') (drop n s)))"

definition private_key_marker :: "string \<Rightarrow> nat option" where
  "private_key_marker s =
     (case key_marker ''BEGIN'' s of Some n \<Rightarrow> Some n | None \<Rightarrow> key_marker ''END'' s)"

definition token_char :: "char \<Rightarrow> bool" where
  "token_char c \<longleftrightarrow>
     (48 \<le> byte c \<and> byte c \<le> 57) \<or> (65 \<le> byte c \<and> byte c \<le> 90) \<or> (97 \<le> byte c \<and> byte c \<le> 122) \<or>
     c = CHR ''_'' \<or> c = CHR ''-''"

definition router_token :: "string \<Rightarrow> nat option" where
  "router_token s =
     (let name = takeWhile token_char (drop 5 s);
          secret = takeWhile token_char (drop (6 + length name) s)
      in if starts_with ''avrt_'' s \<and> 8 \<le> length name \<and> length name \<le> 64 \<and>
            starts_with ''.'' (drop (5 + length name) s) \<and> 20 \<le> length secret
         then Some (6 + length name + min 128 (length secret)) else None)"

text \<open>\<open>(password|passwd|authorization)\s*[:=]\s*\S+\<close>, and its first group.\<close>

definition credential_word :: "string \<Rightarrow> nat option" where
  "credential_word s =
     (case literal_nocase ''password'' s of
        Some n \<Rightarrow> Some n
      | None \<Rightarrow> (case literal_nocase ''passwd'' s of
            Some n \<Rightarrow> Some n | None \<Rightarrow> literal_nocase ''authorization'' s))"

definition credential :: "string \<Rightarrow> nat option" where
  "credential s =
     (case credential_word s of
        None \<Rightarrow> None
      | Some n \<Rightarrow>
          (case dropWhile is_space (drop n s) of
             [] \<Rightarrow> None
           | c # cs \<Rightarrow>
               (let v = takeWhile (\<lambda>c. \<not> is_space c) (dropWhile is_space cs) in
                if (c = CHR '':'' \<or> c = CHR ''='') \<and> v \<noteq> [] then
                  Some (length s - length (dropWhile (\<lambda>c. \<not> is_space c) (dropWhile is_space cs)))
                else None)))"

definition redacted_credential :: "string \<Rightarrow> string" where
  "redacted_credential t =
     (case credential_word t of None \<Rightarrow> t | Some n \<Rightarrow> take n t @ ''=[redacted]'')"

definition is_control :: "char \<Rightarrow> bool" where
  "is_control c \<longleftrightarrow> byte c < 32 \<or> byte c = 127"

definition control_run :: "string \<Rightarrow> nat option" where
  "control_run s = (let n = length (takeWhile is_control s) in if n = 0 then None else Some n)"

text \<open>\<open>text.split()\<close>.\<close>

function words :: "string \<Rightarrow> string list" where
  "words [] = []"
| "words (c # cs) =
     (if is_space c then words cs
      else (c # takeWhile (\<lambda>c. \<not> is_space c) cs) # words (dropWhile (\<lambda>c. \<not> is_space c) cs))"
  by pat_completeness auto
termination by (relation "measure length") (auto simp: le_imp_less_Suc length_dropWhile_le)

section \<open>Sanitizing\<close>

definition one_line :: "string \<Rightarrow> string" where
  "one_line s = join '' '' (words (sub_all control_run (\<lambda>_. '' '') s))"

definition sanitize_error :: "string list \<Rightarrow> nat \<Rightarrow> string \<Rightarrow> string" where
  "sanitize_error secrets limit value =
     (let m1 = fold (\<lambda>secret m. if secret = [] then m else py_replace secret ''[redacted]'' m) secrets value;
          m2 = sub_all private_key_block (\<lambda>_. ''[redacted-private-key]'') m1;
          m3 = sub_all private_key_marker (\<lambda>_. ''[redacted-private-key]'') m2;
          m4 = sub_all router_token (\<lambda>_. ''[redacted-router-token]'') m3;
          m5 = sub_all credential redacted_credential m4
      in py_take limit (one_line m5))"

text \<open>\<open>str\<close> of an exception, and the name of its class.\<close>

fun owner_text :: "owner_type \<Rightarrow> string" where
  "owner_text Install = ''INSTALL''"
| "owner_text IpChange = ''IP_CHANGE''"
| "owner_text Server = ''SERVER''"

fun exn_text :: "exn \<Rightarrow> string" where
  "exn_text (OperationBusyError ow) =
     ''VPN VPS is busy with '' @ owner_text (owner_type ow) @ '' operation '' @ int_str (owner_id ow)"
| "exn_text (IpChangeSafetyHoldError m) = m"
| "exn_text (IpChangeError m) = m"
| "exn_text (RuntimeError m) = m"
| "exn_text (ValueError m) = m"
| "exn_text (LookupError m) = m"
| "exn_text (KeyError m) = [CHR 0x27] @ m @ [CHR 0x27]"
| "exn_text (TypeError m) = m"
| "exn_text (OverflowError m) = m"
| "exn_text (IntegrityError m) = m"
| "exn_text (RouterCredentialError m) = m"
| "exn_text (RouterApplyValidationError m) = m"
| "exn_text (RouterApplyConflictError m _) = m"
| "exn_text (SprintboxApiError code m) = ''SprintBOX API '' @ code @ '': '' @ m"
| "exn_text (SprintboxTaskIdMissing m) = m"
| "exn_text (EuInstallError m) = m"
| "exn_text (EuInstallStateUncertainError m) = m"
| "exn_text (OSError m) = m"
| "exn_text TimeoutError = []"
| "exn_text (TaskTimeout m) = m"
| "exn_text CancelledError = []"

fun exn_class :: "exn \<Rightarrow> string" where
  "exn_class (OperationBusyError _) = ''OperationBusyError''"
| "exn_class (IpChangeSafetyHoldError _) = ''IpChangeSafetyHoldError''"
| "exn_class (IpChangeError _) = ''IpChangeError''"
| "exn_class (RuntimeError _) = ''RuntimeError''"
| "exn_class (ValueError _) = ''ValueError''"
| "exn_class (LookupError _) = ''LookupError''"
| "exn_class (KeyError _) = ''KeyError''"
| "exn_class (TypeError _) = ''TypeError''"
| "exn_class (OverflowError _) = ''OverflowError''"
| "exn_class (IntegrityError _) = ''IntegrityError''"
| "exn_class (RouterCredentialError _) = ''RouterCredentialError''"
| "exn_class (RouterApplyValidationError _) = ''RouterApplyValidationError''"
| "exn_class (RouterApplyConflictError _ _) = ''RouterApplyConflictError''"
| "exn_class (SprintboxApiError _ _) = ''SprintboxApiError''"
| "exn_class (SprintboxTaskIdMissing _) = ''SprintboxTaskIdMissing''"
| "exn_class (EuInstallError _) = ''EuInstallError''"
| "exn_class (EuInstallStateUncertainError _) = ''EuInstallStateUncertainError''"
| "exn_class (OSError _) = ''OSError''"
| "exn_class TimeoutError = ''TimeoutError''"
| "exn_class (TaskTimeout m) = ''TimeoutError''"
| "exn_class CancelledError = ''CancelledError''"

section \<open>What a sanitized message looks like\<close>

lemma no_control_left: "c \<in> set (sub_all control_run (\<lambda>_. '' '') s) \<Longrightarrow> \<not> is_control c"
proof (induction s rule: length_induct)
  case (1 s)
  show ?case
  proof (cases s)
    case (Cons d ds)
    show ?thesis
    proof (cases "is_control d")
      case True
      then have "control_run s = Some (Suc (length (takeWhile is_control ds)))"
        by (simp add: control_run_def Cons)
      then show ?thesis
        using 1 by (auto simp: Cons is_control_def byte_def)
    next
      case False
      then have "control_run s = None" by (simp add: control_run_def Cons)
      then show ?thesis using 1 False by (auto simp: Cons)
    qed
  qed (use 1 in simp)
qed

lemma set_words: "w \<in> set (words s) \<Longrightarrow> w \<noteq> [] \<and> set w \<subseteq> set s \<and> (\<forall>c \<in> set w. \<not> is_space c)"
proof (induction s rule: words.induct)
  case (2 c cs)
  show ?case
  proof (cases "is_space c")
    case True
    with 2 show ?thesis by auto
  next
    case False
    then consider "w = c # takeWhile (\<lambda>c. \<not> is_space c) cs"
      | "w \<in> set (words (dropWhile (\<lambda>c. \<not> is_space c) cs))" using "2.prems" by auto
    then show ?thesis
    proof cases
      case 1
      then show ?thesis using False by (auto dest: set_takeWhileD)
    next
      case 2
      note ih = "2.IH"(2) [OF False 2]
      moreover have "set (dropWhile (\<lambda>c. \<not> is_space c) cs) \<subseteq> set cs" by (auto dest: set_dropWhileD)
      ultimately show ?thesis by auto
    qed
  qed
qed simp

lemma space_is_space [simp]: "is_space (CHR '' '')"
  by (simp add: is_space_def byte_def)

lemma set_join: "set (join sep ws) \<subseteq> set sep \<union> (\<Union>w \<in> set ws. set w)"
  by (induction sep ws rule: join.induct) auto

lemma set_py_take: "set (py_take n s) \<subseteq> set s"
  by (induction n s rule: py_take.induct) (auto split: nat.split)

lemma one_line_chars: "c \<in> set (one_line s) \<Longrightarrow> \<not> is_control c \<and> (is_space c \<longrightarrow> c = CHR '' '')"
proof -
  assume "c \<in> set (one_line s)"
  then consider "c = CHR '' ''" | w where "w \<in> set (words (sub_all control_run (\<lambda>_. '' '') s))" "c \<in> set w"
    using set_join unfolding one_line_def by fastforce
  then show ?thesis
  proof cases
    case 2
    then show ?thesis using set_words [OF 2(1)] no_control_left by blast
  qed (simp add: is_control_def byte_def)
qed

lemma contains_iff: "contains p s \<longleftrightarrow> (\<exists>t u. s = t @ p @ u)"
proof
  show "contains p s \<Longrightarrow> \<exists>t u. s = t @ p @ u"
  proof (induction s)
    case (Cons c cs)
    show ?case
    proof (cases "starts_with p (c # cs)")
      case True
      then have "c # cs = [] @ p @ drop (length p) (c # cs)"
        unfolding starts_with_def by (metis append_Nil append_take_drop_id)
      then show ?thesis by blast
    next
      case False
      with Cons obtain t u where "cs = t @ p @ u" by auto
      then have "c # cs = (c # t) @ p @ u" by simp
      then show ?thesis by blast
    qed
  qed simp
qed (auto intro: contains_infix)

lemma split_double: "[] \<in> set (tl (split_on c (t @ c # c # u)))"
proof (induction t)
  case (Cons x t)
  then show ?case by (cases "split_on c (t @ c # c # u)") auto
qed simp

lemma one_line_single_spaces: "\<not> contains ''  '' (one_line s)"
proof
  define ws where "ws = words (sub_all control_run (\<lambda>_. '' '') s)"
  assume "contains ''  '' (one_line s)"
  then obtain t u where line: "join '' '' ws = t @ CHR '' '' # CHR '' '' # u"
    by (auto simp: contains_iff one_line_def ws_def)
  have w: "w \<noteq> []" "CHR '' '' \<notin> set w" if "w \<in> set ws" for w
    using set_words [of w "sub_all control_run (\<lambda>_. '' '') s"] space_is_space that
    by (auto simp del: space_is_space simp: ws_def)
  have "ws \<noteq> []" using line by auto
  then have "split_on (CHR '' '') (join '' '' ws) = ws" using w by (intro split_on_join) auto
  then have "[] \<in> set (tl ws)" using split_double [of "CHR '' ''" t u] by (simp add: line)
  then have "[] \<in> set ws" by (cases ws) auto
  then show False using w(1) by blast
qed

lemma py_take_prefix: "\<exists>rest. s = py_take n s @ rest"
  by (induction n s rule: py_take.induct) (auto split: nat.split)

section \<open>Property\<close>

text \<open>A sanitized message is one bounded line: at most the given number of characters, no
  control character, and single blanks as its only white space, whatever the exception said and
  whatever secrets were replaced.\<close>

theorem sanitized_message_is_one_bounded_line:
  "py_len (sanitize_error secrets limit value) \<le> limit \<and>
   set (sanitize_error secrets limit value) \<inter> {c. is_control c \<or> is_space c \<and> c \<noteq> CHR '' ''} = {} \<and>
   \<not> contains ''  '' (sanitize_error secrets limit value)"
proof -
  obtain m where m: "sanitize_error secrets limit value = py_take limit (one_line m)"
    by (simp add: sanitize_error_def Let_def)
  have "\<not> contains ''  '' (py_take limit (one_line m))"
    using py_take_prefix [of "one_line m" limit] one_line_single_spaces [of m]
    by (metis append.assoc contains_iff)
  then show ?thesis
    by (auto simp: m py_len_take dest!: set_mp [OF set_py_take] one_line_chars)
qed

end
