(* ===== verification/RouterCred.thy ===== *)
theory RouterCred
  imports Database Sanitize
begin

text \<open>
  Routers and their credentials (\<open>app/router_credentials.py\<close>).  A token is
  \<open>avrt_<credential id>.<secret>\<close>; the table keeps the SHA-256 digest of the secret only.
  Parameters of the operations: \<open>sha\<close> is \<open>hashlib.sha256(...).hexdigest()\<close>, \<open>reading\<close> what
  \<open>datetime.fromisoformat\<close> makes of a text, \<open>pub\<close> and \<open>cfg\<close> those of the address pool.  What the
  operations draw from \<open>secrets\<close> is a list of random bytes, \<open>token_urlsafe\<close> its text; \<open>at\<close> is the
  instant of the time stamp a transaction writes, \<open>clock\<close> that of \<open>datetime.now(UTC)\<close> and \<open>now\<close>
  that of the revision's time stamp, all in microseconds.
\<close>

section \<open>Random texts\<close>

definition urlsafe_char :: "nat \<Rightarrow> char" where
  "urlsafe_char n =
     (if n < 26 then char_of (65 + n) else if n < 52 then char_of (71 + n)
      else if n < 62 then char_of (n - 4) else if n = 62 then CHR ''-'' else CHR ''_'')"

text \<open>\<open>secrets.token_urlsafe\<close>: URL-safe base64 of the drawn bytes, the padding taken off.\<close>

fun token_urlsafe :: "nat list \<Rightarrow> string" where
  "token_urlsafe [] = []"
| "token_urlsafe [a] = [urlsafe_char (a div 4), urlsafe_char (a mod 4 * 16)]"
| "token_urlsafe [a, b] =
     [urlsafe_char (a div 4), urlsafe_char (a mod 4 * 16 + b div 16), urlsafe_char (b mod 16 * 4)]"
| "token_urlsafe (a # b # c # rest) =
     urlsafe_char (a div 4) # urlsafe_char (a mod 4 * 16 + b div 16) #
     urlsafe_char (b mod 16 * 4 + c div 64) # urlsafe_char (c mod 64) # token_urlsafe rest"

section \<open>Values\<close>

definition known_scopes :: "string list" where
  "known_scopes = [''apply:write'', ''snapshot:read'']"

definition normalize_scopes :: "string list \<Rightarrow> exn + string list" where
  "normalize_scopes scopes =
     (let normalized = sort (remdups (filter (\<lambda>s. s \<noteq> []) (map py_strip scopes))) in
      if \<not> set normalized \<subseteq> set known_scopes then
        Inl (RouterCredentialError ''Unknown router credential scope'')
      else if normalized = [] then
        Inl (RouterCredentialError ''At least one router credential scope is required'')
      else Inr normalized)"

definition encode_scopes :: "string list \<Rightarrow> string" where
  "encode_scopes scopes = join '' '' scopes"

definition decode_scopes :: "string \<Rightarrow> string list" where
  "decode_scopes v = filter (\<lambda>s. s \<noteq> []) (split_on (CHR '' '') v)"

definition normalized_label :: "string \<Rightarrow> exn + string" where
  "normalized_label label =
     (let normalized = py_strip label in
      if 100 < py_len normalized \<or> list_ex (\<lambda>c. byte c < 32) normalized then
        Inl (RouterCredentialError ''Router credential label is invalid'')
      else Inr normalized)"

definition router_id_pattern :: "string \<Rightarrow> bool" where
  "router_id_pattern s \<longleftrightarrow> 8 \<le> length s \<and> length s \<le> 64 \<and> list_all token_char s"

definition validated_router_id :: "string \<Rightarrow> exn + string" where
  "validated_router_id rid =
     (if router_id_pattern rid then Inr rid
      else Inl (RouterCredentialError ''Router does not exist''))"

text \<open>The last instant a \<open>datetime\<close> can hold.\<close>

definition last_instant :: int where
  "last_instant = 253402300799999999"

definition validated_expiry ::
  "(string \<Rightarrow> iso_text) \<Rightarrow> int \<Rightarrow> string option \<Rightarrow> exn + iso_text option" where
  "validated_expiry reading clock expires_at = (case expires_at of
       None \<Rightarrow> Inr None
     | Some e \<Rightarrow>
         if py_strip e = [] then Inr None
         else if 64 < py_len e then
           Inl (RouterCredentialError ''expires_at must be an ISO 8601 timestamp'')
         else (case reading (py_replace ''Z'' ''+00:00'' (py_strip e)) of
             IsoInvalid \<Rightarrow> Inl (RouterCredentialError ''expires_at must be an ISO 8601 timestamp'')
           | IsoNaive _ \<Rightarrow> Inl (RouterCredentialError ''expires_at must include a timezone'')
           | IsoAware t \<Rightarrow>
               if t \<le> clock then Inl (RouterCredentialError ''expires_at must be in the future'')
               else if last_instant < t then Inl (OverflowError ''date value out of range'')
               else Inr (Some (IsoAware (micros (iso t))))))"

definition token_of :: "string \<Rightarrow> string \<Rightarrow> string" where
  "token_of cid secret = ''avrt_'' @ cid @ ''.'' @ secret"

definition new_token :: "(string \<Rightarrow> string) \<Rightarrow> nat list \<Rightarrow> string \<Rightarrow> string \<times> string" where
  "new_token sha bytes cid = (token_of cid (token_urlsafe bytes), sha (token_urlsafe bytes))"

text \<open>\<open>_TOKEN_PATTERN.fullmatch\<close> and its two groups.\<close>

definition match_token :: "string \<Rightarrow> (string \<times> string) option" where
  "match_token token =
     (if starts_with ''avrt_'' token then
        (case partition_at (CHR ''.'') (drop 5 token) of
           (cid, found, secret) \<Rightarrow>
             if found \<and> 8 \<le> length cid \<and> length cid \<le> 64 \<and> list_all token_char cid \<and>
                43 \<le> length secret \<and> length secret \<le> 128 \<and> list_all token_char secret
             then Some (cid, secret) else None)
      else None)"

section \<open>Rows\<close>

text \<open>\<open>INSERT\<close> with the constraints of the tables: the primary key, the \<open>CHECK\<close>s, the foreign keys.\<close>

definition insert_router :: "router_row \<Rightarrow> db \<Rightarrow> exn + db" where
  "insert_router r d =
     (if ro_router_id r \<notin> ro_router_id ` set (routers d) \<and> 8 \<le> py_len (ro_router_id r) \<and>
         py_len (ro_router_id r) \<le> 64 \<and> py_len (ro_label r) \<le> 100 \<and>
         ro_client_id r \<in> cl_id ` set (clients d)
      then Inr (d\<lparr>routers := routers d @ [r]\<rparr>) else Inl (IntegrityError ''routers''))"

definition insert_credential :: "credential_row \<Rightarrow> db \<Rightarrow> exn + db" where
  "insert_credential c d =
     (if cr_credential_id c \<notin> cr_credential_id ` set (credentials d) \<and>
         8 \<le> py_len (cr_credential_id c) \<and> py_len (cr_credential_id c) \<le> 64 \<and>
         py_len (cr_label c) \<le> 100 \<and> py_len (cr_secret_digest c) = 64 \<and>
         1 \<le> py_len (cr_scopes c) \<and> py_len (cr_scopes c) \<le> 256 \<and>
         cr_router_id c \<in> ro_router_id ` set (routers d) \<and> cr_client_id c \<in> cl_id ` set (clients d)
      then Inr (d\<lparr>credentials := credentials d @ [c]\<rparr>) else Inl (IntegrityError ''router_credentials''))"

definition router_at :: "string \<Rightarrow> db \<Rightarrow> router_row option" where
  "router_at rid d = select_first (\<lambda>r. ro_router_id r = rid) (routers d)"

definition credential_at :: "string \<Rightarrow> db \<Rightarrow> credential_row option" where
  "credential_at cid d = select_first (\<lambda>c. cr_credential_id c = cid) (credentials d)"

definition result_router :: "db \<Rightarrow> apply_row \<Rightarrow> string option" where
  "result_router d a = map_option cr_router_id (credential_at (ap_credential_id a) d)"

section \<open>Routers\<close>

text \<open>What one call draws: the two identifiers, the secret and the keys of the router's peer.\<close>

record router_draws =
  rd_router :: "nat list"
  rd_credential :: "nat list"
  rd_secret :: "nat list"
  rd_private_key :: string
  rd_preshared_key :: string

definition new_router :: "string \<Rightarrow> int \<Rightarrow> string \<Rightarrow> int \<Rightarrow> router_row" where
  "new_router rid cid label at =
     \<lparr>ro_router_id = rid, ro_client_id = cid, ro_label = label, ro_enabled = True,
      ro_created_at = iso at, ro_updated_at = iso at, ro_last_seen_at = None\<rparr>"

definition add_router :: "int \<Rightarrow> string \<Rightarrow> string \<Rightarrow> int \<Rightarrow> db \<Rightarrow> exn + db" where
  "add_router at rid label cid d =
     (if cid \<in> ro_client_id ` set (routers d) then
        Inl (RouterCredentialError ''Client already belongs to another router'')
      else insert_router (new_router rid cid label at) d)"

definition create_router ::
  "config \<Rightarrow> (string \<Rightarrow> string) \<Rightarrow> int \<Rightarrow> int \<Rightarrow> router_draws \<Rightarrow> string \<Rightarrow> int \<Rightarrow> router_row tx" where
  "create_router cfg pub at now dr name cid d =
     bind_result (normalized_label name) (\<lambda>label.
       let rid = token_urlsafe (rd_router dr) in
       if get_client_by_id cid d = None then Inl (RouterCredentialError ''Client does not exist'')
       else bind_result (add_router at rid label cid d) (\<lambda>d1.
         bind_result
           (ensure_router_amnezia_peer cfg pub now (rd_private_key dr) (rd_preshared_key dr) rid d1)
           (\<lambda>(_, d2). Inr (new_router rid cid label at, d2))))"

definition get_router :: "string \<Rightarrow> db \<Rightarrow> exn + router_row option" where
  "get_router rid d = bind_result (validated_router_id rid) (\<lambda>rid. Inr (router_at rid d))"

text \<open>A credential as it is listed: no digest, the scopes decoded.\<close>

record credential_view =
  cv_credential_id :: string
  cv_router_id :: string
  cv_label :: string
  cv_scopes :: "string list"
  cv_enabled :: bool
  cv_created_at :: ts
  cv_updated_at :: ts
  cv_last_used_at :: "ts option"
  cv_expires_at :: "iso_text option"
  cv_revoked_at :: "ts option"

record owned_credential_view = credential_view +
  cv_client_id :: int

definition view_credential :: "credential_row \<Rightarrow> credential_view" where
  "view_credential c =
     \<lparr>cv_credential_id = cr_credential_id c, cv_router_id = cr_router_id c, cv_label = cr_label c,
      cv_scopes = decode_scopes (cr_scopes c), cv_enabled = cr_enabled c,
      cv_created_at = cr_created_at c, cv_updated_at = cr_updated_at c,
      cv_last_used_at = cr_last_used_at c, cv_expires_at = cr_expires_at c,
      cv_revoked_at = cr_revoked_at c\<rparr>"

text \<open>\<open>ORDER BY created_at, credential_id\<close>.\<close>

definition ordered_credentials :: "db \<Rightarrow> credential_row list" where
  "ordered_credentials d = sort_key cr_created_at (sort_key cr_credential_id (credentials d))"

definition list_router_credentials :: "db \<Rightarrow> owned_credential_view list" where
  "list_router_credentials d =
     map (\<lambda>c. credential_view.extend (view_credential c) (owned_credential_view.fields (cr_client_id c)))
       (ordered_credentials d)"

text \<open>The newest result any credential of a router has reported.\<close>

record result_summary =
  rs_router_id :: string
  rs_id :: int
  rs_credential_id :: string
  rs_revision :: int
  rs_outcome :: apply_outcome
  rs_active_profile :: "string option"
  rs_created_at :: ts

definition latest_apply_result :: "db \<Rightarrow> string \<Rightarrow> result_summary option" where
  "latest_apply_result d rid =
     map_option (\<lambda>a. \<lparr>rs_router_id = rid, rs_id = ap_id a, rs_credential_id = ap_credential_id a,
         rs_revision = ap_revision a, rs_outcome = ap_outcome a,
         rs_active_profile = ap_active_profile a, rs_created_at = ap_created_at a\<rparr>)
       (select_last (\<lambda>a. result_router d a = Some rid) (apply_results d))"

definition list_routers :: "db \<Rightarrow> (router_row \<times> credential_view list \<times> result_summary option) list" where
  "list_routers d =
     map (\<lambda>r. (r, map view_credential
                   (filter (\<lambda>c. cr_router_id c = ro_router_id r) (ordered_credentials d)),
              latest_apply_result d (ro_router_id r)))
       (sort_key ro_created_at (sort_key ro_router_id (routers d)))"

definition set_router_enabled :: "int \<Rightarrow> int \<Rightarrow> string \<Rightarrow> bool \<Rightarrow> unit tx" where
  "set_router_enabled at now rid enabled d =
     bind_result (validated_router_id rid) (\<lambda>rid. case router_at rid d of
         None \<Rightarrow> Inl (RouterCredentialError ''Router does not exist'')
       | Some r \<Rightarrow>
           if ro_enabled r = enabled then Inr ((), d)
           else Inr ((), bump_revision now
             (d\<lparr>routers := update_where (\<lambda>r. ro_router_id r = rid)
                 (\<lambda>r. r\<lparr>ro_enabled := enabled, ro_updated_at := iso at\<rparr>) (routers d)\<rparr>)))"

definition update_router_label :: "int \<Rightarrow> string \<Rightarrow> string \<Rightarrow> unit tx" where
  "update_router_label at rid name d =
     bind_result (validated_router_id rid) (\<lambda>rid. bind_result (normalized_label name) (\<lambda>label.
       if row_count (\<lambda>r. ro_router_id r = rid) (routers d) \<noteq> 1 then
         Inl (RouterCredentialError ''Router does not exist'')
       else Inr ((), d\<lparr>routers := update_where (\<lambda>r. ro_router_id r = rid)
                (\<lambda>r. r\<lparr>ro_label := label, ro_updated_at := iso at\<rparr>) (routers d)\<rparr>)))"

definition delete_router :: "int \<Rightarrow> string \<Rightarrow> unit tx" where
  "delete_router now rid d =
     bind_result (validated_router_id rid) (\<lambda>rid.
       if router_at rid d = None then Inl (RouterCredentialError ''Router does not exist'')
       else
         (let d1 = bump_revision now d in
          if row_count (\<lambda>r. ro_router_id r = rid) (routers d1) \<noteq> 1 then
            Inl (RouterCredentialError ''Router does not exist'')
          else Inr ((), drop_routers (\<lambda>r. ro_router_id r = rid) d1)))"

section \<open>Credentials\<close>

record issued_credential =
  is_credential_id :: string
  is_router_id :: string
  is_client_id :: int
  is_scopes :: "string list"
  is_label :: string
  is_token :: string
  is_created_at :: ts

text \<open>The router a new credential is for: one the client gets now, or one it has.\<close>

definition assigned_router ::
  "int \<Rightarrow> router_draws \<Rightarrow> string \<Rightarrow> int \<Rightarrow> string option \<Rightarrow> string tx" where
  "assigned_router at dr label cid router d = (case router of
       None \<Rightarrow>
         (let rid = token_urlsafe (rd_router dr) in
          bind_result (add_router at rid label cid d) (\<lambda>d1. Inr (rid, d1)))
     | Some rid \<Rightarrow>
         bind_result (validated_router_id rid) (\<lambda>rid.
           if select_first (\<lambda>r. ro_router_id r = rid \<and> ro_client_id r = cid) (routers d) = None then
             Inl (RouterCredentialError ''Router does not belong to client'')
           else Inr (rid, d)))"

definition new_credential ::
  "string \<Rightarrow> string \<Rightarrow> int \<Rightarrow> string \<Rightarrow> string \<Rightarrow> string list \<Rightarrow> int \<Rightarrow> iso_text option \<Rightarrow> credential_row" where
  "new_credential crid rid cid label digest scopes at expiry =
     \<lparr>cr_credential_id = crid, cr_router_id = rid, cr_client_id = cid, cr_label = label,
      cr_secret_digest = digest, cr_scopes = encode_scopes scopes, cr_enabled = True,
      cr_created_at = iso at, cr_updated_at = iso at, cr_last_used_at = None,
      cr_expires_at = expiry, cr_revoked_at = None\<rparr>"

definition issue_router_credential ::
  "config \<Rightarrow> (string \<Rightarrow> string) \<Rightarrow> (string \<Rightarrow> string) \<Rightarrow> (string \<Rightarrow> iso_text) \<Rightarrow> int \<Rightarrow> int \<Rightarrow> int \<Rightarrow>
   router_draws \<Rightarrow> int \<Rightarrow> string list \<Rightarrow> string option \<Rightarrow> string \<Rightarrow> string option \<Rightarrow> issued_credential tx" where
  "issue_router_credential cfg pub sha reading clock at now dr cid scopes expires_at label router d =
     bind_result (normalize_scopes scopes) (\<lambda>scopes.
     bind_result (normalized_label label) (\<lambda>label.
     bind_result (validated_expiry reading clock expires_at) (\<lambda>expiry.
       let credential = token_urlsafe (rd_credential dr);
           (token, digest) = new_token sha (rd_secret dr) credential in
       if get_client_by_id cid d = None then Inl (RouterCredentialError ''Client does not exist'')
       else bind_result (assigned_router at dr label cid router d) (\<lambda>(rid, d1).
         bind_result
           (ensure_router_amnezia_peer cfg pub now (rd_private_key dr) (rd_preshared_key dr) rid d1)
           (\<lambda>(_, d2).
         bind_result
           (insert_credential (new_credential credential rid cid label digest scopes at expiry) d2)
           (\<lambda>d3.
         Inr (\<lparr>is_credential_id = credential, is_router_id = rid, is_client_id = cid,
               is_scopes = scopes, is_label = label, is_token = token, is_created_at = iso at\<rparr>, d3)))))))"

definition not_yet_expired :: "int \<Rightarrow> iso_text option \<Rightarrow> exn + bool" where
  "not_yet_expired clock expiry = (case expiry of
       None \<Rightarrow> Inr True
     | Some IsoInvalid \<Rightarrow> Inr False
     | Some (IsoNaive _) \<Rightarrow> Inl (TypeError ''can't compare offset-naive and offset-aware datetimes'')
     | Some (IsoAware t) \<Rightarrow> Inr (clock < t))"

definition rotate_router_credential ::
  "(string \<Rightarrow> string) \<Rightarrow> int \<Rightarrow> int \<Rightarrow> nat list \<Rightarrow> string \<Rightarrow> string tx" where
  "rotate_router_credential sha clock at bytes cid d =
     (if py_len cid < 8 \<or> 64 < py_len cid then
        Inl (RouterCredentialError ''Router credential does not exist'')
      else let (token, digest) = new_token sha bytes cid in
        case credential_at cid d of
          None \<Rightarrow> Inl (RouterCredentialError ''Router credential does not exist'')
        | Some c \<Rightarrow>
            if \<not> cr_enabled c \<or> cr_revoked_at c \<noteq> None then
              Inl (RouterCredentialError ''Revoked router credential cannot be rotated'')
            else bind_result (not_yet_expired clock (cr_expires_at c)) (\<lambda>valid.
              if \<not> valid then
                Inl (RouterCredentialError ''Expired router credential cannot be rotated'')
              else if row_count (\<lambda>c. cr_credential_id c = cid) (credentials d) \<noteq> 1 then
                Inl (RouterCredentialError ''Router credential does not exist'')
              else Inr (token, d\<lparr>credentials := update_where (\<lambda>c. cr_credential_id c = cid)
                  (\<lambda>c. c\<lparr>cr_secret_digest := digest, cr_last_used_at := None, cr_updated_at := iso at\<rparr>)
                  (credentials d)\<rparr>)))"

definition revoke_router_credential :: "int \<Rightarrow> string \<Rightarrow> unit tx" where
  "revoke_router_credential at cid d =
     (if py_len cid < 8 \<or> 64 < py_len cid \<or>
         row_count (\<lambda>c. cr_credential_id c = cid) (credentials d) \<noteq> 1
      then Inl (RouterCredentialError ''Router credential does not exist'')
      else Inr ((), d\<lparr>credentials := update_where (\<lambda>c. cr_credential_id c = cid)
          (\<lambda>c. c\<lparr>cr_enabled := False,
               cr_revoked_at := (case cr_revoked_at c of None \<Rightarrow> Some (iso at) | Some t \<Rightarrow> Some t),
               cr_updated_at := iso at\<rparr>) (credentials d)\<rparr>))"

section \<open>Authentication\<close>

record authenticated =
  au_credential_id :: string
  au_router_id :: string
  au_client_id :: int
  au_scopes :: "string list"

datatype auth_failure =
    InvalidToken | CredentialForbidden | ClientForbidden | RouterForbidden | InsufficientScope

datatype auth_result = Authenticated authenticated | AuthenticationFailure auth_failure

text \<open>The row with its router and that router's client (two \<open>JOIN\<close>s).\<close>

definition credential_row_of ::
  "string \<Rightarrow> db \<Rightarrow> (credential_row \<times> router_row \<times> client_row) option" where
  "credential_row_of cid d = (case credential_at cid d of
       None \<Rightarrow> None
     | Some c \<Rightarrow> (case router_at (cr_router_id c) d of
           None \<Rightarrow> None
         | Some r \<Rightarrow> map_option (\<lambda>k. (c, r, k)) (router_client d r)))"

definition expired :: "int \<Rightarrow> iso_text option \<Rightarrow> bool" where
  "expired clock expiry = (case expiry of
       None \<Rightarrow> False
     | Some IsoInvalid \<Rightarrow> True
     | Some (IsoNaive t) \<Rightarrow> t \<le> clock
     | Some (IsoAware t) \<Rightarrow> t \<le> clock)"

definition auth_check ::
  "int \<Rightarrow> string \<Rightarrow> string \<Rightarrow> credential_row \<Rightarrow> router_row \<Rightarrow> client_row \<Rightarrow> auth_failure option" where
  "auth_check clock supplied scope c r k =
     (if cr_secret_digest c \<noteq> supplied then Some InvalidToken
      else if expired clock (cr_expires_at c) then Some InvalidToken
      else if \<not> cr_enabled c \<or> cr_revoked_at c \<noteq> None then Some CredentialForbidden
      else if \<not> cl_enabled k \<or> cl_deleted_at k \<noteq> None then Some ClientForbidden
      else if \<not> ro_enabled r then Some RouterForbidden
      else if scope \<notin> set (decode_scopes (cr_scopes c)) then Some InsufficientScope
      else None)"

definition authenticate_router_credential ::
  "(string \<Rightarrow> string) \<Rightarrow> int \<Rightarrow> int \<Rightarrow> string \<Rightarrow> string \<Rightarrow> auth_result tx" where
  "authenticate_router_credential sha clock at token scope d =
     (if scope \<notin> set known_scopes then Inl (ValueError ''Unknown required router API scope'')
      else
        (case (if py_len token \<le> 256 then match_token token else None) of
           None \<Rightarrow> Inr (AuthenticationFailure InvalidToken, d)
         | Some (cid, secret) \<Rightarrow>
             (case credential_row_of cid d of
                None \<Rightarrow> Inr (AuthenticationFailure InvalidToken, d)
              | Some (c, r, k) \<Rightarrow>
                  (case auth_check clock (sha secret) scope c r k of
                     Some failure \<Rightarrow> Inr (AuthenticationFailure failure, d)
                   | None \<Rightarrow>
                       Inr (Authenticated
                             \<lparr>au_credential_id = cid, au_router_id = ro_router_id r,
                              au_client_id = ro_client_id r,
                              au_scopes = decode_scopes (cr_scopes c)\<rparr>,
                         d\<lparr>credentials := update_where (\<lambda>c. cr_credential_id c = cid)
                               (\<lambda>c. c\<lparr>cr_last_used_at := Some (iso at)\<rparr>) (credentials d),
                           routers := update_where (\<lambda>q. ro_router_id q = ro_router_id r)
                               (\<lambda>q. q\<lparr>ro_last_seen_at := Some (iso at), ro_updated_at := iso at\<rparr>)
                               (routers d)\<rparr>)))))"

section \<open>Transactions on clients, routers and credentials\<close>

text \<open>
  One transaction of the panel that touches these tables, with what the caller passes and draws.
  The three readings of the clock are \<open>datetime.now(UTC)\<close>, the row's time stamp and the revision's.
\<close>

datatype router_call =
    CreateRouter router_draws string int
  | SetRouterEnabled string bool
  | UpdateRouterLabel string string
  | DeleteRouter string
  | IssueCredential router_draws int "string list" "string option" string "string option"
  | RotateCredential "nat list" string
  | RevokeCredential string
  | Authenticate string string
  | CreateClient client_secrets string
  | SetClientEnabled int bool
  | DeleteClient int
  | PurgeDeletedClients

record clocks =
  ck_clock :: int
  ck_at :: int
  ck_now :: int

record crypto =
  cy_pub :: "string \<Rightarrow> string"
  cy_sha :: "string \<Rightarrow> string"
  cy_reading :: "string \<Rightarrow> iso_text"

fun router_step :: "config \<Rightarrow> crypto \<Rightarrow> clocks \<times> router_call \<Rightarrow> db \<Rightarrow> db" where
  "router_step cfg y (k, CreateRouter dr name cid) d =
     after_tx (create_router cfg (cy_pub y) (ck_at k) (ck_now k) dr name cid) d"
| "router_step cfg y (k, SetRouterEnabled rid e) d =
     after_tx (set_router_enabled (ck_at k) (ck_now k) rid e) d"
| "router_step cfg y (k, UpdateRouterLabel rid name) d =
     after_tx (update_router_label (ck_at k) rid name) d"
| "router_step cfg y (k, DeleteRouter rid) d = after_tx (delete_router (ck_now k) rid) d"
| "router_step cfg y (k, IssueCredential dr cid scopes expiry label router) d =
     after_tx (issue_router_credential cfg (cy_pub y) (cy_sha y) (cy_reading y) (ck_clock k) (ck_at k)
       (ck_now k) dr cid scopes expiry label router) d"
| "router_step cfg y (k, RotateCredential bytes cid) d =
     after_tx (rotate_router_credential (cy_sha y) (ck_clock k) (ck_at k) bytes cid) d"
| "router_step cfg y (k, RevokeCredential cid) d = after_tx (revoke_router_credential (ck_at k) cid) d"
| "router_step cfg y (k, Authenticate token scope) d =
     after_tx (authenticate_router_credential (cy_sha y) (ck_clock k) (ck_at k) token scope) d"
| "router_step cfg y (k, CreateClient sec name) d =
     after_tx (create_client cfg (cy_pub y) (ck_at k) (ck_now k) sec name) d"
| "router_step cfg y (k, SetClientEnabled cid e) d = set_client_enabled (ck_now k) cid e d"
| "router_step cfg y (k, DeleteClient cid) d = delete_client (ck_now k) (ck_at k) cid d"
| "router_step cfg y (k, PurgeDeletedClients) d = snd (purge_applied_deleted_clients d)"

definition router_steps :: "config \<Rightarrow> crypto \<Rightarrow> (clocks \<times> router_call) list \<Rightarrow> db \<Rightarrow> db" where
  "router_steps cfg y calls d = fold (router_step cfg y) calls d"

section \<open>Texts\<close>

lemma urlsafe_token_char: "n < 64 \<Longrightarrow> token_char (urlsafe_char n)"
  by (auto simp: urlsafe_char_def token_char_def byte_def)

lemma token_urlsafe_chars: "list_all (\<lambda>b. b < 256) bs \<Longrightarrow> list_all token_char (token_urlsafe bs)"
  by (induction bs rule: token_urlsafe.induct) (auto intro!: urlsafe_token_char)

lemma length_token_urlsafe: "length (token_urlsafe bs) = (length bs * 4 + 2) div 3"
  by (induction bs rule: token_urlsafe.induct) auto

lemma token_char_plain: "token_char c \<Longrightarrow> c \<noteq> CHR ''.'' \<and> \<not> is_continuation c"
  by (auto simp: token_char_def is_continuation_def byte_def)

lemma py_len_token: "list_all token_char s \<Longrightarrow> py_len s = length s"
  by (induction s) (auto simp: py_len_def dest: token_char_plain)

lemma match_token_of:
  assumes "router_id_pattern cid" and "43 \<le> length secret" "length secret \<le> 128" "list_all token_char secret"
  shows "match_token (token_of cid secret) = Some (cid, secret)" and "py_len (token_of cid secret) \<le> 256"
proof -
  have "CHR ''.'' \<notin> set cid"
    using assms(1) by (auto simp: router_id_pattern_def list_all_iff dest: token_char_plain)
  then have "partition_at (CHR ''.'') (cid @ CHR ''.'' # secret) = (cid, True, secret)"
    by (rule partition_at_found)
  then show "match_token (token_of cid secret) = Some (cid, secret)"
    using assms by (simp add: match_token_def token_of_def router_id_pattern_def starts_with_def)
  show "py_len (token_of cid secret) \<le> 256"
    by (rule order_trans [OF py_len_le_length]) (use assms in \<open>simp add: token_of_def router_id_pattern_def\<close>)
qed

lemma known_scopes_plain: "s \<in> set known_scopes \<Longrightarrow> CHR '' '' \<notin> set s \<and> s \<noteq> [] \<and> length s \<le> 13"
  by (auto simp: known_scopes_def)

definition scopes_ok :: "string list \<Rightarrow> bool" where
  "scopes_ok ss \<longleftrightarrow> ss \<noteq> [] \<and> sorted ss \<and> distinct ss \<and> set ss \<subseteq> set known_scopes"

lemma normalize_scopes_ok: "normalize_scopes scopes = Inr ss \<Longrightarrow> scopes_ok ss"
  by (auto simp: normalize_scopes_def scopes_ok_def Let_def split: if_splits)

lemma decode_encode: "scopes_ok ss \<Longrightarrow> decode_scopes (encode_scopes ss) = ss"
  unfolding decode_scopes_def encode_scopes_def scopes_ok_def
  by (subst split_on_join) (auto dest: known_scopes_plain intro: filter_True)

section \<open>The tables of routers and credentials\<close>

definition credential_ok :: "credential_row \<Rightarrow> bool" where
  "credential_ok c \<longleftrightarrow>
     router_id_pattern (cr_credential_id c) \<and> scopes_ok (decode_scopes (cr_scopes c)) \<and>
     py_len (cr_secret_digest c) = 64 \<and> (cr_revoked_at c \<noteq> None \<longrightarrow> \<not> cr_enabled c) \<and>
     (cr_expires_at c = None \<or> (\<exists>t. cr_expires_at c = Some (IsoAware (micros t))))"

definition links_ok :: "db \<Rightarrow> bool" where
  "links_ok d \<longleftrightarrow>
     distinct (map ro_router_id (routers d)) \<and> distinct (map ro_client_id (routers d)) \<and>
     distinct (map cr_credential_id (credentials d)) \<and>
     (\<forall>r \<in> set (routers d). router_id_pattern (ro_router_id r) \<and>
        ro_router_id r \<in> pe_router_id ` set (peers d)) \<and>
     (\<forall>c \<in> set (credentials d). credential_ok c \<and>
        (cr_router_id c, cr_client_id c) \<in> (\<lambda>r. (ro_router_id r, ro_client_id r)) ` set (routers d))"

definition router_tables_ok :: "db \<Rightarrow> bool" where
  "router_tables_ok d \<longleftrightarrow> refs_ok d \<and> links_ok d"

text \<open>What the invariant looks at: the keys of the rows, and each credential by itself.\<close>

definition router_keys :: "db \<Rightarrow> (string \<times> int) list" where
  "router_keys d = map (\<lambda>r. (ro_router_id r, ro_client_id r)) (routers d)"

definition credential_keys :: "db \<Rightarrow> (string \<times> string \<times> int) list" where
  "credential_keys d = map (\<lambda>c. (cr_credential_id c, cr_router_id c, cr_client_id c)) (credentials d)"

lemma router_keys_map:
  "map ro_router_id (routers d) = map fst (router_keys d)"
  "map ro_client_id (routers d) = map snd (router_keys d)"
  by (simp_all add: router_keys_def)

lemma credential_keys_map:
  "map cr_credential_id (credentials d) = map fst (credential_keys d)"
  "map cr_router_id (credentials d) = map (fst \<circ> snd) (credential_keys d)"
  "map cr_client_id (credentials d) = map (snd \<circ> snd) (credential_keys d)"
  by (simp_all add: credential_keys_def)

lemma ball_image: "(\<forall>x \<in> set xs. P (f x)) \<longleftrightarrow> (\<forall>y \<in> set (map f xs). P y)"
  by simp

lemma hangs_sets: "hangs key rows fk refs \<longleftrightarrow> set (map fk refs) \<subseteq> set (map key rows)"
  by (auto simp: hangs_def)

lemma refs_ok_keys:
  "refs_ok d \<longleftrightarrow>
     st_client_id ` set (client_stats d) \<subseteq> cl_id ` set (clients d) \<and>
     snd ` set (router_keys d) \<subseteq> cl_id ` set (clients d) \<and>
     (fst \<circ> snd) ` set (credential_keys d) \<subseteq> fst ` set (router_keys d) \<and>
     (snd \<circ> snd) ` set (credential_keys d) \<subseteq> cl_id ` set (clients d) \<and>
     pe_router_id ` set (peers d) \<subseteq> fst ` set (router_keys d) \<and>
     ap_credential_id ` set (apply_results d) \<subseteq> fst ` set (credential_keys d)"
  unfolding refs_ok_def hangs_sets router_keys_map credential_keys_map set_map ..

lemma links_ok_keys:
  "links_ok d \<longleftrightarrow>
     distinct (map fst (router_keys d)) \<and> distinct (map snd (router_keys d)) \<and>
     distinct (map fst (credential_keys d)) \<and>
     (\<forall>k \<in> set (router_keys d). router_id_pattern (fst k) \<and> fst k \<in> pe_router_id ` set (peers d)) \<and>
     (\<forall>c \<in> set (credentials d). credential_ok c) \<and>
     snd ` set (credential_keys d) \<subseteq> set (router_keys d)"
proof -
  have 1: "(\<forall>r \<in> set (routers d). router_id_pattern (ro_router_id r)) \<longleftrightarrow>
      (\<forall>k \<in> set (router_keys d). router_id_pattern (fst k))"
    "(\<forall>r \<in> set (routers d). ro_router_id r \<in> S) \<longleftrightarrow> (\<forall>k \<in> set (router_keys d). fst k \<in> S)" for S
    by (simp_all add: router_keys_def)
  have 2: "(\<lambda>r. (ro_router_id r, ro_client_id r)) ` set (routers d) = set (router_keys d)"
    by (simp add: router_keys_def)
  have 3: "(\<forall>c \<in> set (credentials d). (cr_router_id c, cr_client_id c) \<in> S) \<longleftrightarrow>
      snd ` set (credential_keys d) \<subseteq> S" for S
    by (simp add: credential_keys_def image_image image_subset_iff)
  show ?thesis
    unfolding links_ok_def router_keys_map credential_keys_map 1 2 3 ball_conj_distrib
    by (simp only: conj_assoc)
qed

lemmas tables_keys = router_tables_ok_def refs_ok_keys links_ok_keys

lemma tables_keep:
  assumes "router_tables_ok d" and "router_keys d' = router_keys d"
    and "credential_keys d' = credential_keys d" and "\<forall>c \<in> set (credentials d'). credential_ok c"
    and "peers d' = peers d" and "client_stats d' = client_stats d"
    and "apply_results d' = apply_results d"
    and "cl_id ` set (clients d) \<subseteq> cl_id ` set (clients d')"
  shows "router_tables_ok d'"
  using assms(1,4) unfolding tables_keys assms(2,3,5,6,7)
  by (elim conjE, intro conjI) (assumption | erule subset_trans [OF _ assms(8)])+

lemma tables_bump [simp]: "router_tables_ok (bump_revision now d) = router_tables_ok d"
  by (simp add: tables_keys router_keys_def credential_keys_def frame_simps)

lemma tables_credentials: "router_tables_ok d \<Longrightarrow> \<forall>c \<in> set (credentials d). credential_ok c"
  unfolding tables_keys by blast

lemma tables_update_routers:
  assumes "router_tables_ok d"
    and "\<And>r. ro_router_id (f r) = ro_router_id r" "\<And>r. ro_client_id (f r) = ro_client_id r"
  shows "router_tables_ok (d\<lparr>routers := update_where p f (routers d)\<rparr>)"
  by (rule tables_keep [OF assms(1)])
     (use tables_credentials [OF assms(1)] assms(2,3) in
      \<open>simp_all add: router_keys_def credential_keys_def\<close>)

lemma tables_update_credentials:
  assumes "router_tables_ok d"
    and "\<And>c. cr_credential_id (f c) = cr_credential_id c" "\<And>c. cr_router_id (f c) = cr_router_id c"
      "\<And>c. cr_client_id (f c) = cr_client_id c" "\<And>c. p c \<Longrightarrow> credential_ok c \<Longrightarrow> credential_ok (f c)"
  shows "router_tables_ok (d\<lparr>credentials := update_where p f (credentials d)\<rparr>)"
proof (rule tables_keep [OF assms(1)])
  show "\<forall>c \<in> set (credentials (d\<lparr>credentials := update_where p f (credentials d)\<rparr>)). credential_ok c"
    using tables_credentials [OF assms(1)] assms(5) by (auto simp: set_update_where)
qed (use assms(2-4) in \<open>simp_all add: router_keys_def credential_keys_def\<close>)

subsection \<open>New rows\<close>

text \<open>A router that has no peer yet: what holds between the two insertions.\<close>

definition tables_but :: "string \<Rightarrow> db \<Rightarrow> bool" where
  "tables_but rid d \<longleftrightarrow>
     refs_ok d \<and> links_ok (d\<lparr>peers := peers d @
       [\<lparr>pe_router_id = rid, pe_private_key = [], pe_public_key = [], pe_preshared_key = [], pe_ipv4 = []\<rparr>]\<rparr>)"

lemma tables_but_keys:
  "tables_but rid d \<longleftrightarrow> refs_ok d \<and>
     distinct (map fst (router_keys d)) \<and> distinct (map snd (router_keys d)) \<and>
     distinct (map fst (credential_keys d)) \<and>
     (\<forall>k \<in> set (router_keys d). router_id_pattern (fst k) \<and>
        (fst k = rid \<or> fst k \<in> pe_router_id ` set (peers d))) \<and>
     (\<forall>c \<in> set (credentials d). credential_ok c) \<and>
     snd ` set (credential_keys d) \<subseteq> set (router_keys d)"
  unfolding tables_but_def links_ok_keys by (simp add: router_keys_def credential_keys_def)

lemma tables_butD:
  "tables_but rid d \<Longrightarrow> \<forall>k \<in> set (router_keys d). router_id_pattern (fst k) \<and>
     (fst k = rid \<or> fst k \<in> pe_router_id ` set (peers d))"
  unfolding tables_but_keys by (elim conjE)

lemma tables_linked: "router_tables_ok d \<Longrightarrow> links_ok d"
  by (simp only: router_tables_ok_def)

lemma links_okD:
  "links_ok d \<Longrightarrow> \<forall>k \<in> set (router_keys d). router_id_pattern (fst k) \<and> fst k \<in> pe_router_id ` set (peers d)"
  unfolding links_ok_keys by (elim conjE)

lemma insert_router_tables:
  assumes "router_tables_ok d" and "add_router at rid label cid d = Inr d'" and "router_id_pattern rid"
  shows "tables_but rid d'"
proof -
  have new: "cid \<notin> snd ` set (router_keys d)" "rid \<notin> fst ` set (router_keys d)" "cid \<in> cl_id ` set (clients d)"
    and d': "d' = d\<lparr>routers := routers d @ [new_router rid cid label at]\<rparr>"
    using assms(2)
    by (auto simp: add_router_def insert_router_def new_router_def router_keys_def image_image split: if_splits)
  have k: "router_keys d' = router_keys d @ [(rid, cid)]" "credential_keys d' = credential_keys d"
      "peers d' = peers d" "credentials d' = credentials d" "client_stats d' = client_stats d"
      "clients d' = clients d" "apply_results d' = apply_results d"
    by (simp_all add: d' router_keys_def credential_keys_def new_router_def)
  show ?thesis
    using assms(1,3) new unfolding tables_but_keys tables_keys refs_ok_keys k by auto
qed

lemma peer_row_added:
  assumes "ensure_router_amnezia_peer cfg pub now priv psk rid d = Inr (p, d')"
  obtains ps where "peers d' = peers d @ ps" "\<forall>q \<in> set ps. pe_router_id q = rid"
    "rid \<in> pe_router_id ` set (peers d')" "routers d' = routers d" "credentials d' = credentials d"
    "clients d' = clients d" "client_stats d' = client_stats d" "apply_results d' = apply_results d"
    "ps = [] \<or> rid \<in> ro_router_id ` set (routers d)"
proof (cases "peer_of rid d")
  case (Some q)
  then have "d' = d" "rid \<in> pe_router_id ` set (peers d)"
    using assms
    by (auto simp: ensure_router_amnezia_peer_def create_router_amnezia_peer_def peer_of_def
        dest!: select_first_SomeD)
  then show ?thesis by (intro that [of "[]"]) simp_all
next
  case None
  obtain a where "allocate_amnezia_address cfg d = Inr a"
    using assms None
    by (cases "allocate_amnezia_address cfg d")
       (auto simp: ensure_router_amnezia_peer_def create_router_amnezia_peer_def split: if_splits)
  with None assms show ?thesis
    by (intro that [of "[p]"])
       (auto simp: ensure_router_amnezia_peer_def create_router_amnezia_peer_def frame_simps Let_def
         split: if_splits)
qed

lemma peer_keeps_routers:
  assumes "ensure_router_amnezia_peer cfg pub now priv psk rid d = Inr (p, d')"
  shows "routers d' = routers d" and "credentials d' = credentials d" and "clients d' = clients d"
  by (rule peer_row_added [OF assms]; assumption)+

lemma peer_completes_tables:
  assumes "ensure_router_amnezia_peer cfg pub now priv psk rid d = Inr (p, d')"
    and "tables_but rid d"
  shows "router_tables_ok d'"
proof -
  obtain ps where k1: "peers d' = peers d @ ps"
    and new: "\<forall>q \<in> set ps. pe_router_id q = rid" "rid \<in> pe_router_id ` set (peers d')"
    and k2: "routers d' = routers d" "credentials d' = credentials d"
      "clients d' = clients d" "client_stats d' = client_stats d" "apply_results d' = apply_results d"
    and old: "ps = [] \<or> rid \<in> ro_router_id ` set (routers d)"
    using assms(1) by (rule peer_row_added)
  have keys: "router_keys d' = router_keys d" "credential_keys d' = credential_keys d"
    by (simp_all add: router_keys_def credential_keys_def k2)
  have ps: "pe_router_id ` set ps \<subseteq> fst ` set (router_keys d)"
    using new(1) old by (cases ps) (auto simp: router_keys_def image_image)
  have peers: "pe_router_id ` set (peers d') = pe_router_id ` set (peers d) \<union> pe_router_id ` set ps"
    by (simp add: k1 image_Un)
  have "\<forall>k \<in> set (router_keys d). router_id_pattern (fst k) \<and> fst k \<in> pe_router_id ` set (peers d')"
    using tables_butD [OF assms(2)] new(2) unfolding peers by blast
  moreover have "pe_router_id ` set (peers d') \<subseteq> fst ` set (router_keys d)"
  proof -
    have "refs_ok d" using assms(2) by (simp only: tables_but_keys)
    then have "pe_router_id ` set (peers d) \<subseteq> fst ` set (router_keys d)" by (simp only: refs_ok_keys)
    with ps show ?thesis unfolding peers by blast
  qed
  ultimately show ?thesis
    using assms(2) unfolding tables_but_keys tables_keys refs_ok_keys keys k2
    by - (elim conjE, intro conjI; assumption)
qed

lemma tables_but_weaken:
  assumes "router_tables_ok d"
  shows "tables_but rid d"
proof -
  have "\<forall>k \<in> set (router_keys d). router_id_pattern (fst k) \<and>
      (fst k = rid \<or> fst k \<in> pe_router_id ` set (peers d))"
    using links_okD [OF tables_linked [OF assms]] by blast
  then show ?thesis
    using assms unfolding tables_but_keys tables_keys by - (elim conjE, intro conjI; assumption)
qed

lemma add_router_then_peer:
  assumes "router_tables_ok d" and "add_router at rid label cid d = Inr d1" and "router_id_pattern rid"
    and "ensure_router_amnezia_peer cfg pub now priv psk rid d1 = Inr (p, d2)"
  shows "router_tables_ok d2"
  using peer_completes_tables [OF assms(4)] insert_router_tables [OF assms(1-3)] by simp

lemma insert_credential_tables:
  assumes "router_tables_ok d" and "insert_credential c d = Inr d'" and "credential_ok c"
    and "(cr_router_id c, cr_client_id c) \<in> set (router_keys d)"
  shows "router_tables_ok d'"
proof -
  have new: "cr_credential_id c \<notin> fst ` set (credential_keys d)"
    and cl: "cr_client_id c \<in> cl_id ` set (clients d)"
    and d': "d' = d\<lparr>credentials := credentials d @ [c]\<rparr>"
    using assms(2) by (auto simp: insert_credential_def credential_keys_def image_image split: if_splits)
  have k: "router_keys d' = router_keys d" "peers d' = peers d" "client_stats d' = client_stats d"
      "clients d' = clients d" "apply_results d' = apply_results d"
      "credential_keys d' = credential_keys d @ [(cr_credential_id c, cr_router_id c, cr_client_id c)]"
      "set (credentials d') = insert c (set (credentials d))"
    by (simp_all add: d' router_keys_def credential_keys_def)
  have "cr_router_id c \<in> fst ` set (router_keys d)" using assms(4) by force
  with assms(1,3,4) new cl show ?thesis unfolding tables_keys k by (simp add: subset_insertI2)
qed

subsection \<open>Deletions\<close>

lemma drop_routers_tables_ok:
  assumes "router_tables_ok d"
  shows "router_tables_ok (drop_routers p d)"
proof -
  let ?gone = "set (map ro_router_id (filter p (routers d)))"
  have L: "links_ok d" and R: "refs_ok d" using assms by (simp_all only: router_tables_ok_def)
  note keys = L [unfolded links_ok_def]
  have peer: "ro_router_id r \<in> pe_router_id ` set (peers (drop_routers p d))"
    if "r \<in> set (routers d)" "\<not> p r" for r
  proof -
    obtain q where q: "q \<in> set (peers d)" "pe_router_id q = ro_router_id r"
      using keys \<open>r \<in> set (routers d)\<close> by force
    have "ro_router_id r \<notin> ?gone"
    proof
      assume "ro_router_id r \<in> ?gone"
      then obtain r' where "r' \<in> set (routers d)" "p r'" "ro_router_id r' = ro_router_id r" by auto
      with keys that row_key_inj [of ro_router_id "routers d" r' r] show False by simp
    qed
    with q show ?thesis by (intro image_eqI [of _ _ q]) (simp_all add: drop_routers_tables)
  qed
  have link: "(cr_router_id c, cr_client_id c) \<in> (\<lambda>r. (ro_router_id r, ro_client_id r)) ` {r \<in> set (routers d). \<not> p r}"
    if "c \<in> set (credentials d)" "cr_router_id c \<notin> ?gone" for c
  proof -
    have "(cr_router_id c, cr_client_id c) \<in> (\<lambda>r. (ro_router_id r, ro_client_id r)) ` set (routers d)"
      using keys \<open>c \<in> set (credentials d)\<close> by simp
    then obtain r where "r \<in> set (routers d)" "cr_router_id c = ro_router_id r" "cr_client_id c = ro_client_id r"
      by auto
    with that(2) show ?thesis by (intro image_eqI [of _ _ r]) auto
  qed
  have "links_ok (drop_routers p d)"
    unfolding links_ok_def drop_routers_tables(1,3) set_delete_where
    using keys peer link by simp
  with drop_routers_refs [OF R] show ?thesis by (simp add: router_tables_ok_def)
qed

lemma drop_clients_tables_ok:
  assumes "router_tables_ok d"
  shows "router_tables_ok (drop_clients p d)"
proof -
  let ?gone = "set (map cl_id (filter p (clients d)))"
  let ?d1 = "drop_routers (\<lambda>r. ro_client_id r \<in> ?gone) d"
  have ok: "router_tables_ok ?d1" by (rule drop_routers_tables_ok [OF assms])
  then have keys: "links_ok ?d1" by (simp only: router_tables_ok_def)
  have none: "cr_client_id c \<notin> ?gone" if "c \<in> set (credentials ?d1)" for c
  proof -
    have "(cr_router_id c, cr_client_id c) \<in> (\<lambda>r. (ro_router_id r, ro_client_id r)) ` set (routers ?d1)"
      using keys that by (simp add: links_ok_def)
    then obtain r where "r \<in> set (routers ?d1)" "cr_client_id c = ro_client_id r" by auto
    then show ?thesis by (simp add: drop_routers_tables)
  qed
  have same: "credentials (drop_clients p d) = credentials ?d1" "routers (drop_clients p d) = routers ?d1"
      "peers (drop_clients p d) = peers ?d1"
    using none
    by (simp_all add: drop_clients_def Let_def drop_credentials_tables frame_simps delete_where_def
        filter_id_conv)
  have "links_ok (drop_clients p d)" using keys unfolding links_ok_def same .
  moreover have "refs_ok (drop_clients p d)"
    using assms by (intro drop_clients_refs) (simp add: router_tables_ok_def)
  ultimately show ?thesis by (simp add: router_tables_ok_def)
qed

subsection \<open>Every transaction keeps the tables\<close>

definition random_bytes :: "nat \<Rightarrow> nat list \<Rightarrow> bool" where
  "random_bytes n bs \<longleftrightarrow> length bs = n \<and> list_all (\<lambda>b. b < 256) bs"

definition draws_ok :: "router_draws \<Rightarrow> bool" where
  "draws_ok dr \<longleftrightarrow> random_bytes 12 (rd_router dr) \<and> random_bytes 12 (rd_credential dr) \<and>
     random_bytes 32 (rd_secret dr)"

fun well_drawn :: "router_call \<Rightarrow> bool" where
  "well_drawn (CreateRouter dr _ _) = draws_ok dr"
| "well_drawn (IssueCredential dr _ _ _ _ _) = draws_ok dr"
| "well_drawn (RotateCredential bytes _) = random_bytes 32 bytes"
| "well_drawn _ = True"

definition digests :: "(string \<Rightarrow> string) \<Rightarrow> bool" where
  "digests sha \<longleftrightarrow> (\<forall>s. py_len (sha s) = 64)"

lemma drawn_id: "random_bytes 12 bs \<Longrightarrow> router_id_pattern (token_urlsafe bs)"
  by (simp add: random_bytes_def router_id_pattern_def length_token_urlsafe token_urlsafe_chars)

lemma drawn_secret:
  "random_bytes 32 bs \<Longrightarrow> length (token_urlsafe bs) = 43 \<and> list_all token_char (token_urlsafe bs)"
  by (simp add: random_bytes_def length_token_urlsafe token_urlsafe_chars)

lemma create_router_tables:
  assumes "router_tables_ok d" and "draws_ok dr"
  shows "router_tables_ok (after_tx (create_router cfg pub at now dr name cid) d)"
proof (cases "create_router cfg pub at now dr name cid d")
  case (Inr r)
  obtain row d' where res: "create_router cfg pub at now dr name cid d = Inr (row, d')"
    using Inr by (cases r) simp
  let ?rid = "token_urlsafe (rd_router dr)"
  obtain label where 1: "normalized_label name = Inr label"
    using res by (cases "normalized_label name") (simp_all add: create_router_def)
  obtain d1 where 2: "add_router at ?rid label cid d = Inr d1"
    using res 1 by (cases "add_router at ?rid label cid d") (simp_all add: create_router_def Let_def split: if_splits)
  then obtain q where "ensure_router_amnezia_peer cfg pub now (rd_private_key dr) (rd_preshared_key dr) ?rid d1 =
      Inr (q, d')"
    using res 1
    by (cases "ensure_router_amnezia_peer cfg pub now (rd_private_key dr) (rd_preshared_key dr) ?rid d1")
       (auto simp: create_router_def Let_def split: if_splits)
  moreover have "router_id_pattern ?rid" using assms(2) by (simp add: draws_ok_def drawn_id)
  ultimately have "router_tables_ok d'" using add_router_then_peer [OF assms(1) 2] by simp
  then show ?thesis by (simp add: res)
qed (use assms in simp)

lemma assigned_router_tables:
  assumes "router_tables_ok d" and "draws_ok dr" and "assigned_router at dr label cid router d = Inr (rid, d1)"
  shows "tables_but rid d1" and "(rid, cid) \<in> set (router_keys d1)" and "router_id_pattern rid"
proof -
  have "tables_but rid d1 \<and> (rid, cid) \<in> set (router_keys d1) \<and> router_id_pattern rid"
  proof (cases router)
    case None
    with assms(3) have rid: "rid = token_urlsafe (rd_router dr)" and a: "add_router at rid label cid d = Inr d1"
      by (auto simp: assigned_router_def Let_def bind_result_Inr_iff)
    have p: "router_id_pattern rid" using assms(2) by (simp add: rid draws_ok_def drawn_id)
    have "(rid, cid) \<in> set (router_keys d1)"
      using a by (auto simp: add_router_def insert_router_def new_router_def router_keys_def split: if_splits)
    with p insert_router_tables [OF assms(1) a p] show ?thesis by simp
  next
    case (Some r)
    with assms(3) have d1: "d1 = d" and rid: "rid = r" and p: "router_id_pattern r"
      and sel: "select_first (\<lambda>r. ro_router_id r = rid \<and> ro_client_id r = cid) (routers d) \<noteq> None"
      by (auto simp: assigned_router_def validated_router_id_def bind_result_Inr_iff split: if_splits)
    have "(rid, cid) \<in> set (router_keys d)"
    proof -
      obtain r' where "r' \<in> set (routers d)" "ro_router_id r' = rid" "ro_client_id r' = cid"
        using sel by (auto simp: select_first_None_iff)
      then show ?thesis by (auto simp: router_keys_def intro!: image_eqI [of _ _ r'])
    qed
    with p show ?thesis by (simp add: d1 rid tables_but_weaken [OF assms(1)])
  qed
  then show "tables_but rid d1" and "(rid, cid) \<in> set (router_keys d1)" and "router_id_pattern rid" by simp_all
qed

lemma validated_expiry_ok:
  "validated_expiry reading clock e = Inr x \<Longrightarrow>
     x = None \<or> (\<exists>t. x = Some (IsoAware (micros t)))"
  by (auto simp: validated_expiry_def split: option.splits if_splits iso_text.splits)

text \<open>What a successful \<open>issue_router_credential\<close> did.\<close>

lemma issue_result:
  assumes "issue_router_credential cfg pub sha reading clock at now dr cid scopes expiry label router d = Inr (ic, d')"
  obtains ss lb ex rid d1 q d2 where "normalize_scopes scopes = Inr ss" "normalized_label label = Inr lb"
    "validated_expiry reading clock expiry = Inr ex" "get_client_by_id cid d \<noteq> None"
    "assigned_router at dr lb cid router d = Inr (rid, d1)"
    "ensure_router_amnezia_peer cfg pub now (rd_private_key dr) (rd_preshared_key dr) rid d1 = Inr (q, d2)"
    "insert_credential (new_credential (token_urlsafe (rd_credential dr)) rid cid lb
       (sha (token_urlsafe (rd_secret dr))) ss at ex) d2 = Inr d'"
    "ic = \<lparr>is_credential_id = token_urlsafe (rd_credential dr), is_router_id = rid, is_client_id = cid,
           is_scopes = ss, is_label = lb,
           is_token = token_of (token_urlsafe (rd_credential dr)) (token_urlsafe (rd_secret dr)),
           is_created_at = iso at\<rparr>"
proof -
  obtain ss where 1: "normalize_scopes scopes = Inr ss"
    using assms by (cases "normalize_scopes scopes") (simp_all add: issue_router_credential_def)
  obtain lb where 2: "normalized_label label = Inr lb"
    using assms 1 by (cases "normalized_label label") (simp_all add: issue_router_credential_def)
  obtain ex where 3: "validated_expiry reading clock expiry = Inr ex"
    using assms 1 2 by (cases "validated_expiry reading clock expiry") (simp_all add: issue_router_credential_def)
  have 4: "get_client_by_id cid d \<noteq> None"
  proof
    assume "get_client_by_id cid d = None"
    with assms 1 2 3 show False by (simp add: issue_router_credential_def Let_def new_token_def)
  qed
  note rest = assms [unfolded issue_router_credential_def 1 2 3 new_token_def Let_def bind_result_simps
      prod.case if_not_P [OF 4]]
  obtain rid d1 where 5: "assigned_router at dr lb cid router d = Inr (rid, d1)"
    using rest by (cases "assigned_router at dr lb cid router d") auto
  note rest = rest [unfolded 5 bind_result_simps prod.case]
  obtain q d2 where 6: "ensure_router_amnezia_peer cfg pub now (rd_private_key dr) (rd_preshared_key dr) rid d1 =
      Inr (q, d2)"
    using rest
    by (cases "ensure_router_amnezia_peer cfg pub now (rd_private_key dr) (rd_preshared_key dr) rid d1") auto
  note rest = rest [unfolded 6 bind_result_simps prod.case]
  show thesis
    by (rule that [OF 1 2 3 4 5 6]) (use rest in \<open>auto simp: bind_result_Inr_iff\<close>)
qed

lemma issue_tables:
  assumes "router_tables_ok d" and "draws_ok dr" and "digests sha"
  shows "router_tables_ok
    (after_tx (issue_router_credential cfg pub sha reading clock at now dr cid scopes expiry label router) d)"
proof (cases "issue_router_credential cfg pub sha reading clock at now dr cid scopes expiry label router d")
  case (Inr r)
  obtain ic d' where res: "issue_router_credential cfg pub sha reading clock at now dr cid scopes expiry
      label router d = Inr (ic, d')"
    using Inr by (cases r) simp
  obtain ss lb ex rid d1 q d2 where st: "normalize_scopes scopes = Inr ss"
    and "normalized_label label = Inr lb" and ex: "validated_expiry reading clock expiry = Inr ex"
    and "get_client_by_id cid d \<noteq> None"
    and a: "assigned_router at dr lb cid router d = Inr (rid, d1)"
    and p: "ensure_router_amnezia_peer cfg pub now (rd_private_key dr) (rd_preshared_key dr) rid d1 = Inr (q, d2)"
    and i: "insert_credential (new_credential (token_urlsafe (rd_credential dr)) rid cid lb
       (sha (token_urlsafe (rd_secret dr))) ss at ex) d2 = Inr d'"
    using res by (rule issue_result)
  note T = assigned_router_tables [OF assms(1,2) a]
  have ok2: "router_tables_ok d2" by (rule peer_completes_tables [OF p T(1)])
  have key: "(rid, cid) \<in> set (router_keys d2)"
    using T(2) by (simp add: router_keys_def peer_keeps_routers [OF p])
  have "router_tables_ok d'"
    by (rule insert_credential_tables [OF ok2 i])
       (use key assms(2,3) normalize_scopes_ok [OF st] validated_expiry_ok [OF ex] in
         \<open>simp_all add: new_credential_def credential_ok_def draws_ok_def drawn_id digests_def decode_encode\<close>)
  then show ?thesis by (simp add: res)
qed (use assms in simp)

lemma set_router_enabled_tables:
  assumes "router_tables_ok d"
  shows "router_tables_ok (after_tx (set_router_enabled at now rid e) d)"
  using assms
  by (cases "router_id_pattern rid"; cases "router_at rid d")
     (simp_all add: after_tx_def set_router_enabled_def validated_router_id_def tables_update_routers)

lemma update_router_label_tables:
  assumes "router_tables_ok d"
  shows "router_tables_ok (after_tx (update_router_label at rid name) d)"
  using assms
  by (cases "router_id_pattern rid"; cases "normalized_label name")
     (simp_all add: after_tx_def update_router_label_def validated_router_id_def tables_update_routers)

lemma delete_router_tables:
  assumes "router_tables_ok d"
  shows "router_tables_ok (after_tx (delete_router now rid) d)"
  using assms
  by (cases "router_id_pattern rid")
     (simp_all add: after_tx_def delete_router_def validated_router_id_def Let_def drop_routers_tables_ok)

lemma rotate_cases:
  obtains (refused) e where "rotate_router_credential sha clock at bytes cid d = Inl e"
  | (rotated) c where "credential_at cid d = Some c" "cr_enabled c" "cr_revoked_at c = None"
      "not_yet_expired clock (cr_expires_at c) = Inr True"
      "rotate_router_credential sha clock at bytes cid d =
         Inr (token_of cid (token_urlsafe bytes),
           d\<lparr>credentials := update_where (\<lambda>c. cr_credential_id c = cid)
              (\<lambda>c. c\<lparr>cr_secret_digest := sha (token_urlsafe bytes), cr_last_used_at := None,
                   cr_updated_at := iso at\<rparr>) (credentials d)\<rparr>)"
proof (cases "rotate_router_credential sha clock at bytes cid d")
  case (Inr r)
  obtain c where 1: "credential_at cid d = Some c"
    using Inr by (cases "credential_at cid d")
      (simp_all add: rotate_router_credential_def new_token_def split: if_splits)
  have 2: "cr_enabled c \<and> cr_revoked_at c = None"
    using Inr 1 by (rule_tac ccontr) (simp add: rotate_router_credential_def new_token_def split: if_splits)
  obtain v where 3: "not_yet_expired clock (cr_expires_at c) = Inr v"
    using Inr 1 2 by (cases "not_yet_expired clock (cr_expires_at c)")
      (simp_all add: rotate_router_credential_def new_token_def split: if_splits)
  have v
    using Inr 1 2 3 by (rule_tac ccontr) (simp add: rotate_router_credential_def new_token_def split: if_splits)
  with Inr 1 2 3 show thesis
    by (intro rotated [of c]) (simp_all add: rotate_router_credential_def new_token_def split: if_splits)
qed (rule refused)

lemma rotate_tables:
  assumes "router_tables_ok d" and "digests sha"
  shows "router_tables_ok (after_tx (rotate_router_credential sha clock at bytes cid) d)"
proof (cases rule: rotate_cases [of sha clock at bytes cid d])
  case (rotated c)
  have "router_tables_ok (d\<lparr>credentials := update_where (\<lambda>c. cr_credential_id c = cid)
      (\<lambda>c. c\<lparr>cr_secret_digest := sha (token_urlsafe bytes), cr_last_used_at := None,
           cr_updated_at := iso at\<rparr>) (credentials d)\<rparr>)"
    by (rule tables_update_credentials [OF assms(1)])
       (use assms(2) in \<open>simp_all add: credential_ok_def digests_def\<close>)
  then show ?thesis by (simp add: after_tx_def rotated(5))
qed (simp add: assms)

definition revoke_row :: "int \<Rightarrow> credential_row \<Rightarrow> credential_row" where
  "revoke_row at c = c\<lparr>cr_enabled := False,
     cr_revoked_at := (case cr_revoked_at c of None \<Rightarrow> Some (iso at) | Some t \<Rightarrow> Some t),
     cr_updated_at := iso at\<rparr>"

lemma revoke_row_simps [simp]:
  "cr_credential_id (revoke_row at c) = cr_credential_id c" "cr_router_id (revoke_row at c) = cr_router_id c"
  "cr_client_id (revoke_row at c) = cr_client_id c" "\<not> cr_enabled (revoke_row at c)"
  "cr_scopes (revoke_row at c) = cr_scopes c" "cr_secret_digest (revoke_row at c) = cr_secret_digest c"
  "cr_expires_at (revoke_row at c) = cr_expires_at c"
  by (simp_all add: revoke_row_def)

lemma revoke_after:
  "after_tx (revoke_router_credential at cid) d =
     (if succeeds (revoke_router_credential at cid d)
      then d\<lparr>credentials := update_where (\<lambda>c. cr_credential_id c = cid) (revoke_row at) (credentials d)\<rparr> else d)"
  by (simp add: after_tx_def revoke_router_credential_def revoke_row_def [abs_def])

lemma revoke_tables:
  assumes "router_tables_ok d"
  shows "router_tables_ok (after_tx (revoke_router_credential at cid) d)"
  unfolding revoke_after using assms
  by (auto intro!: tables_update_credentials simp: credential_ok_def)

lemma authenticate_cases:
  obtains (bad_scope) e where "authenticate_router_credential sha clock at token scope d = Inl e"
      "scope \<notin> set known_scopes"
  | (failed) f where "scope \<in> set known_scopes"
      "authenticate_router_credential sha clock at token scope d = Inr (AuthenticationFailure f, d)"
  | (passed) cid secret c r k where "match_token token = Some (cid, secret)" "py_len token \<le> 256"
      "scope \<in> set known_scopes" "credential_row_of cid d = Some (c, r, k)"
      "auth_check clock (sha secret) scope c r k = None"
      "authenticate_router_credential sha clock at token scope d =
         Inr (Authenticated \<lparr>au_credential_id = cid, au_router_id = ro_router_id r,
                 au_client_id = ro_client_id r, au_scopes = decode_scopes (cr_scopes c)\<rparr>,
           d\<lparr>credentials := update_where (\<lambda>c. cr_credential_id c = cid)
                 (\<lambda>c. c\<lparr>cr_last_used_at := Some (iso at)\<rparr>) (credentials d),
             routers := update_where (\<lambda>q. ro_router_id q = ro_router_id r)
                 (\<lambda>q. q\<lparr>ro_last_seen_at := Some (iso at), ro_updated_at := iso at\<rparr>) (routers d)\<rparr>)"
proof (cases "scope \<in> set known_scopes")
  case False
  then show thesis by (intro bad_scope) (simp_all add: authenticate_router_credential_def)
next
  case True
  show thesis
  proof (cases "if py_len token \<le> 256 then match_token token else None")
    case None
    with True show thesis by (intro failed) (simp_all add: authenticate_router_credential_def)
  next
    case (Some m)
    obtain cid secret where m: "m = (cid, secret)" by (cases m)
    show thesis
    proof (cases "credential_row_of cid d")
      case None
      with True Some m show thesis by (intro failed) (simp_all add: authenticate_router_credential_def)
    next
      case (Some q)
      obtain c r k where q: "q = (c, r, k)" by (cases q)
      note facts = True \<open>(if py_len token \<le> 256 then match_token token else None) = Some m\<close> m Some q
      show thesis
      proof (cases "auth_check clock (sha secret) scope c r k")
        case None
        with facts show thesis
          by (intro passed [of cid secret c r k])
             (simp_all add: authenticate_router_credential_def split: if_splits)
      next
        case (Some f)
        with facts show thesis by (intro failed [of f]) (simp_all add: authenticate_router_credential_def)
      qed
    qed
  qed
qed

lemma authenticate_tables:
  assumes "router_tables_ok d"
  shows "router_tables_ok (after_tx (authenticate_router_credential sha clock at token scope) d)"
proof (cases rule: authenticate_cases [of sha clock at token scope d])
  case (passed cid secret c r k)
  let ?d1 = "d\<lparr>credentials := update_where (\<lambda>c. cr_credential_id c = cid)
      (\<lambda>c. c\<lparr>cr_last_used_at := Some (iso at)\<rparr>) (credentials d)\<rparr>"
  have 1: "router_tables_ok ?d1"
    by (rule tables_update_credentials [OF assms]) (simp_all add: credential_ok_def)
  have "router_tables_ok (?d1\<lparr>routers := update_where (\<lambda>q. ro_router_id q = ro_router_id r)
      (\<lambda>q. q\<lparr>ro_last_seen_at := Some (iso at), ro_updated_at := iso at\<rparr>) (routers ?d1)\<rparr>)"
    by (rule tables_update_routers [OF 1]) simp_all
  then show ?thesis by (simp add: after_tx_def passed(6))
qed (simp_all add: assms)

lemma client_steps_tables:
  assumes "router_tables_ok d"
  shows "router_tables_ok (after_tx (create_client cfg pub at now sec name) d)"
    and "router_tables_ok (set_client_enabled now cid e d)"
    and "router_tables_ok (delete_client now at cid d)"
    and "router_tables_ok (snd (purge_applied_deleted_clients d))"
proof -
  have cl: "router_tables_ok (d1\<lparr>clients := cs, client_seq := n\<rparr>)"
    if "router_tables_ok d1" "cl_id ` set (clients d1) \<subseteq> cl_id ` set cs" for d1 cs n
    by (rule tables_keep [OF that(1)])
       (use that tables_credentials [OF that(1)] in \<open>simp_all add: router_keys_def credential_keys_def\<close>)
  have same: "router_tables_ok (d1\<lparr>clients := update_where p f (clients d1)\<rparr>)"
    if "router_tables_ok d1" "\<And>c. cl_id (f c) = cl_id c" for d1 p f
  proof -
    have "map cl_id (update_where p f (clients d1)) = map cl_id (clients d1)" using that(2) by simp
    then have "cl_id ` set (clients d1) \<subseteq> cl_id ` set (update_where p f (clients d1))"
      by (metis order_refl set_map)
    from cl [OF that(1) this, of "client_seq d1"] show ?thesis by simp
  qed
  show "router_tables_ok (after_tx (create_client cfg pub at now sec name) d)"
  proof (cases "create_client cfg pub at now sec name d")
    case (Inr r)
    obtain row d' where r: "r = (row, d')" by (cases r)
    have d': "d' = bump_revision now (d\<lparr>clients := clients d @ [row], client_seq := client_seq d + 1\<rparr>)"
      by (rule create_client_result [OF Inr [unfolded r]])
    have "router_tables_ok (d\<lparr>clients := clients d @ [row], client_seq := client_seq d + 1\<rparr>)"
      by (rule cl [OF assms]) auto
    then show ?thesis by (simp add: Inr r d')
  qed (simp add: assms)
  show "router_tables_ok (set_client_enabled now cid e d)"
    using assms same [OF assms, of "\<lambda>c. c\<lparr>cl_enabled := e\<rparr>" "live_client cid"]
    by (simp add: set_client_enabled_def split: option.split)
  show "router_tables_ok (delete_client now at cid d)"
    using assms same [of "bump_revision now d" "\<lambda>c. c\<lparr>cl_deleted_at := Some (iso at),
        cl_deleted_revision := Some (desired_revision (vpn_state d) + 1)\<rparr>" "live_client cid"]
    by (simp add: delete_client_def mark_vpn_config_updated_eq frame_simps split: option.split)
  show "router_tables_ok (snd (purge_applied_deleted_clients d))"
    using assms by (simp add: purge_applied_deleted_clients_def drop_clients_tables_ok split: option.split)
qed

lemma router_step_tables:
  assumes "router_tables_ok d" and "digests (cy_sha y)" and "well_drawn call"
  shows "router_tables_ok (router_step cfg y (k, call) d)"
  using assms
  by (cases call)
     (simp_all add: create_router_tables set_router_enabled_tables update_router_label_tables
        delete_router_tables issue_tables rotate_tables revoke_tables authenticate_tables client_steps_tables)

section \<open>Dead credentials\<close>

definition dead :: "string \<Rightarrow> db \<Rightarrow> bool" where
  "dead cid d \<longleftrightarrow> (\<forall>c \<in> set (credentials d). cr_credential_id c = cid \<longrightarrow> \<not> cr_enabled c)"

lemma dead_fewer: "dead cid d \<Longrightarrow> set (credentials d') \<subseteq> set (credentials d) \<Longrightarrow> dead cid d'"
  by (auto simp: dead_def)

lemma dead_update:
  assumes "dead cid d" and "\<And>c. cr_credential_id (f c) = cr_credential_id c"
    and "\<And>c. cr_enabled (f c) \<Longrightarrow> cr_enabled c"
  shows "dead cid (d\<lparr>credentials := update_where p f (credentials d)\<rparr>)"
  unfolding dead_def using assms by (fastforce simp: dead_def set_update_where split: if_splits)

lemma dead_update_routers: "dead cid d \<Longrightarrow> dead cid (d\<lparr>routers := rs\<rparr>)"
  by (simp add: dead_def)

lemma drop_clients_credentials: "set (credentials (drop_clients p d)) \<subseteq> set (credentials d)"
  by (auto simp: drop_clients_def Let_def drop_credentials_tables drop_routers_tables)

lemma credentials_same:
  "after_tx (create_router cfg pub at now dr name cid) d = d' \<Longrightarrow> credentials d' = credentials d"
  "assigned_router at dr label cid router d = Inr (rid, d1) \<Longrightarrow> credentials d1 = credentials d"
proof -
  have add: "credentials d1 = credentials d" if "add_router at rid label cid d = Inr d1" for at rid label cid d d1
    using that by (auto simp: add_router_def insert_router_def split: if_splits)
  show "assigned_router at dr label cid router d = Inr (rid, d1) \<Longrightarrow> credentials d1 = credentials d"
    by (auto simp: assigned_router_def validated_router_id_def Let_def bind_result_Inr_iff add
        split: option.splits if_splits)
  assume d': "after_tx (create_router cfg pub at now dr name cid) d = d'"
  let ?rid = "token_urlsafe (rd_router dr)"
  show "credentials d' = credentials d"
  proof (cases "create_router cfg pub at now dr name cid d")
    case (Inr r)
    obtain row d2 where r: "r = (row, d2)" by (cases r)
    obtain label where 1: "normalized_label name = Inr label"
      using Inr by (cases "normalized_label name") (simp_all add: create_router_def)
    obtain d1 where 2: "add_router at ?rid label cid d = Inr d1"
      using Inr 1 by (cases "add_router at ?rid label cid d") (simp_all add: create_router_def Let_def split: if_splits)
    obtain q where 3: "ensure_router_amnezia_peer cfg pub now (rd_private_key dr) (rd_preshared_key dr) ?rid d1 =
        Inr (q, d2)"
      using Inr r 1 2
      by (cases "ensure_router_amnezia_peer cfg pub now (rd_private_key dr) (rd_preshared_key dr) ?rid d1")
         (auto simp: create_router_def Let_def split: if_splits)
    show ?thesis using d' add [OF 2] peer_keeps_routers [OF 3] by (simp add: after_tx_def Inr r)
  qed (use d' in simp)
qed

text \<open>The identifier a call gives a new credential.\<close>

fun gives_id :: "string \<Rightarrow> router_call \<Rightarrow> bool" where
  "gives_id cid (IssueCredential dr _ _ _ _ _) = (token_urlsafe (rd_credential dr) = cid)"
| "gives_id cid _ = False"

lemma issue_dead:
  assumes "dead cid d" and "token_urlsafe (rd_credential dr) \<noteq> cid"
  shows "dead cid
    (after_tx (issue_router_credential cfg pub sha reading clock at now dr cl scopes expiry label router) d)"
proof (cases "issue_router_credential cfg pub sha reading clock at now dr cl scopes expiry label router d")
  case (Inr r)
  obtain ic d' where res: "issue_router_credential cfg pub sha reading clock at now dr cl scopes expiry
      label router d = Inr (ic, d')"
    using Inr by (cases r) simp
  obtain ss lb ex rid d1 q d2 where "normalize_scopes scopes = Inr ss"
    and "normalized_label label = Inr lb" and "validated_expiry reading clock expiry = Inr ex"
    and "get_client_by_id cl d \<noteq> None"
    and a: "assigned_router at dr lb cl router d = Inr (rid, d1)"
    and p: "ensure_router_amnezia_peer cfg pub now (rd_private_key dr) (rd_preshared_key dr) rid d1 = Inr (q, d2)"
    and i: "insert_credential (new_credential (token_urlsafe (rd_credential dr)) rid cl lb
       (sha (token_urlsafe (rd_secret dr))) ss at ex) d2 = Inr d'"
    using res by (rule issue_result)
  have "credentials d2 = credentials d"
    using credentials_same(2) [OF a] peer_keeps_routers [OF p] by simp
  then have "dead cid d'"
    using i assms by (auto simp: insert_credential_def dead_def new_credential_def split: if_splits)
  then show ?thesis by (simp add: res)
qed (use assms in simp)

lemma step_dead:
  assumes "dead cid d" and "\<not> gives_id cid call"
  shows "dead cid (router_step cfg y (k, call) d)"
proof -
  have same: "dead cid d'" if "credentials d' = credentials d" for d'
    using assms(1) that by (simp add: dead_def)
  show ?thesis
  proof (cases call)
    case (SetRouterEnabled rid e)
    have "credentials (router_step cfg y (k, call) d) = credentials d"
      by (simp add: SetRouterEnabled after_tx_def set_router_enabled_def validated_router_id_def
          bind_result_def frame_simps split: option.split sum.split)
    then show ?thesis by (rule same)
  next
    case (UpdateRouterLabel rid name)
    have "credentials (router_step cfg y (k, call) d) = credentials d"
      by (simp add: UpdateRouterLabel after_tx_def update_router_label_def validated_router_id_def
          bind_result_def split: option.split sum.split)
    then show ?thesis by (rule same)
  next
    case (DeleteRouter rid)
    have "set (credentials (router_step cfg y (k, call) d)) \<subseteq> set (credentials d)"
      by (simp add: DeleteRouter after_tx_def delete_router_def validated_router_id_def Let_def
          drop_routers_tables frame_simps)
    then show ?thesis by (rule dead_fewer [OF assms(1)])
  next
    case (RotateCredential bytes c)
    show ?thesis
      using dead_update [OF assms(1), of "\<lambda>q. q\<lparr>cr_secret_digest := cy_sha y (token_urlsafe bytes),
          cr_last_used_at := None, cr_updated_at := iso (ck_at k)\<rparr>" "\<lambda>q. cr_credential_id q = c"]
      by (cases rule: rotate_cases [of "cy_sha y" "ck_clock k" "ck_at k" bytes c d])
         (simp_all add: RotateCredential after_tx_def assms)
  next
    case (RevokeCredential c)
    have "dead cid (d\<lparr>credentials := update_where (\<lambda>q. cr_credential_id q = c)
        (revoke_row (ck_at k)) (credentials d)\<rparr>)"
      by (rule dead_update [OF assms(1)]) simp_all
    then show ?thesis by (simp add: RevokeCredential revoke_after assms(1))
  next
    case (Authenticate token scope)
    show ?thesis
    proof (cases rule: authenticate_cases [of "cy_sha y" "ck_clock k" "ck_at k" token scope d])
      case (passed c s cr r kk)
      have "dead cid (d\<lparr>credentials := update_where (\<lambda>q. cr_credential_id q = c)
          (\<lambda>c. c\<lparr>cr_last_used_at := Some (iso (ck_at k))\<rparr>) (credentials d)\<rparr>)"
        by (rule dead_update [OF assms(1)]) simp_all
      from dead_update_routers [OF this] show ?thesis
        by (simp add: Authenticate after_tx_def passed(6))
    qed (simp_all add: Authenticate assms)
  next
    case (CreateRouter dr name c)
    show ?thesis by (rule same) (simp add: CreateRouter credentials_same(1) [OF refl])
  next
    case (IssueCredential dr c ss e l r)
    then show ?thesis using assms by (simp add: issue_dead)
  next
    case (CreateClient sec name)
    have "credentials (router_step cfg y (k, call) d) = credentials d"
    proof (cases "create_client cfg (cy_pub y) (ck_at k) (ck_now k) sec name d")
      case (Inr r)
      then show ?thesis
        by (cases r) (auto simp: CreateClient after_tx_def frame_simps elim!: create_client_result)
    qed (simp add: CreateClient)
    then show ?thesis by (rule same)
  next
    case (SetClientEnabled c e)
    show ?thesis
      by (rule same) (simp add: SetClientEnabled set_client_enabled_def frame_simps split: option.split)
  next
    case (DeleteClient c)
    show ?thesis
      by (rule same)
         (simp add: DeleteClient delete_client_def mark_vpn_config_updated_eq frame_simps split: option.split)
  next
    case PurgeDeletedClients
    show ?thesis
      by (rule dead_fewer [OF assms(1)])
         (simp add: PurgeDeletedClients purge_applied_deleted_clients_def drop_clients_credentials
            split: option.split)
  qed
qed

section \<open>Properties\<close>

definition auth_outcome ::
  "(string \<Rightarrow> string) \<Rightarrow> int \<Rightarrow> string \<Rightarrow> string \<Rightarrow> db \<Rightarrow> auth_result option" where
  "auth_outcome sha clock token scope d =
     (case authenticate_router_credential sha clock 0 token scope d of
        Inl _ \<Rightarrow> None | Inr (r, _) \<Rightarrow> Some r)"

lemma auth_outcome_of:
  assumes "scope \<in> set known_scopes" and "match_token token = Some (cid, secret)" and "py_len token \<le> 256"
    and "credential_row_of cid d = Some (c, r, k)"
  shows "auth_outcome sha clock token scope d = Some
     (case auth_check clock (sha secret) scope c r k of
        Some f \<Rightarrow> AuthenticationFailure f
      | None \<Rightarrow> Authenticated \<lparr>au_credential_id = cid, au_router_id = ro_router_id r,
                 au_client_id = ro_client_id r, au_scopes = decode_scopes (cr_scopes c)\<rparr>)"
  using assms by (simp add: auth_outcome_def authenticate_router_credential_def split: option.split)

lemma credential_joins:
  assumes "router_tables_ok d" and "credential_at cid d = Some c"
  obtains r k where "credential_row_of cid d = Some (c, r, k)" "ro_client_id r = cr_client_id c"
    "ro_router_id r = cr_router_id c" "r \<in> set (routers d)" "k \<in> set (clients d)" "cl_id k = cr_client_id c"
proof -
  have c: "c \<in> set (credentials d)" using assms(2) by (auto simp: credential_at_def dest: select_first_SomeD)
  have L: "links_ok d" and R: "refs_ok d" using assms(1) by (simp_all only: router_tables_ok_def)
  have "(cr_router_id c, cr_client_id c) \<in> (\<lambda>r. (ro_router_id r, ro_client_id r)) ` set (routers d)"
    using L c by (simp add: links_ok_def)
  then obtain r where r: "r \<in> set (routers d)" "ro_router_id r = cr_router_id c" "ro_client_id r = cr_client_id c"
    by auto
  have "distinct (map ro_router_id (routers d))" using L by (simp add: links_ok_def)
  from select_first_key_unique [OF this r(1)] have 1: "router_at (cr_router_id c) d = Some r"
    by (simp add: router_at_def r(2))
  have "cr_client_id c \<in> cl_id ` set (clients d)" using R c by (simp add: refs_ok_def hangs_def)
  then have "router_client d r \<noteq> None" by (auto simp: router_client_def select_first_None_iff r(3))
  then obtain k where k: "router_client d r = Some k" by blast
  then have "k \<in> set (clients d)" "cl_id k = ro_client_id r"
    by (auto simp: router_client_def dest: select_first_SomeD)
  with r k 1 assms(2) show thesis by (intro that [of r k]) (simp_all add: credential_row_of_def)
qed

text \<open>C24.  Whatever transactions on clients, routers and credentials run, in whatever order, the tables
  stay well formed: no foreign key dangles, every router has a well-formed identifier, a client of its
  own and a peer, and every credential names a router together with that router's client, carries a
  non-empty sorted set of known scopes and is disabled once it is revoked.\<close>

theorem router_tables_stay_typed:
  assumes "router_tables_ok d" and "digests (cy_sha y)" and "list_all (\<lambda>(k, call). well_drawn call) calls"
  shows "router_tables_ok (router_steps cfg y calls d)"
  using assms unfolding router_steps_def
  by (induction calls arbitrary: d) (auto simp: router_step_tables)

lemma router_steps_dead:
  assumes "dead cid d" and "list_all (\<lambda>(k, call). \<not> gives_id cid call) calls"
  shows "dead cid (router_steps cfg y calls d)"
  using assms unfolding router_steps_def
  by (induction calls arbitrary: d) (auto simp: step_dead)

text \<open>C21.  Once a credential is revoked, no token that names it is ever accepted again, whatever
  transactions follow, rotation and re-enabling of its router and client included, unless a later
  credential happens to draw the same identifier.\<close>

theorem revoked_credential_stays_refused:
  assumes "revoke_router_credential at cid d = Inr (x, d1)"
    and "list_all (\<lambda>(k, call). \<not> gives_id cid call) calls"
    and "scope \<in> set known_scopes" and "match_token token = Some (cid, secret)"
  shows "\<exists>f. authenticate_router_credential sha clock at2 token scope (router_steps cfg y calls d1) =
     Inr (AuthenticationFailure f, router_steps cfg y calls d1)"
proof -
  let ?d = "router_steps cfg y calls d1"
  have d1: "d1 = d\<lparr>credentials := update_where (\<lambda>c. cr_credential_id c = cid) (revoke_row at) (credentials d)\<rparr>"
    using revoke_after [of at cid d] unfolding assms(1) after_tx_def by simp
  have cs: "credentials d1 = update_where (\<lambda>c. cr_credential_id c = cid) (revoke_row at) (credentials d)"
    by (simp add: d1)
  have "\<forall>c \<in> set (credentials d1). cr_credential_id c = cid \<longrightarrow> \<not> cr_enabled c"
    unfolding cs by (rule update_where_ballI) simp_all
  then have "dead cid d1" by (simp only: dead_def)
  then have dead: "dead cid ?d" using assms(2) by (rule router_steps_dead)
  show ?thesis
  proof (cases rule: authenticate_cases [of sha clock at2 token scope ?d])
    case (passed cid' secret' c r k)
    then have "credential_at cid ?d = Some c"
      using assms(4) by (simp add: credential_row_of_def split: option.splits)
    then have "c \<in> set (credentials ?d)" "cr_credential_id c = cid"
      by (auto simp: credential_at_def dest: select_first_SomeD)
    with dead have "\<not> cr_enabled c" by (simp add: dead_def)
    with passed(5) have False by (auto simp: auth_check_def split: if_splits)
    then show ?thesis ..
  qed (use assms(3) in auto)
qed

text \<open>C23.  Rotating a credential makes its old token worthless (unless the two secrets have one digest)
  and gives a new token that is accepted or refused exactly as the old one was.\<close>

theorem rotation_replaces_the_token:
  assumes "router_tables_ok d" and "rotate_router_credential sha clock at bytes cid d = Inr (token, d1)"
    and "random_bytes 32 bytes" and "match_token old = Some (cid, secret)" "py_len old \<le> 256"
    and "sha secret \<noteq> sha (token_urlsafe bytes)" and "scope \<in> set known_scopes"
    and "auth_outcome sha clock2 old scope d = Some r" "r \<noteq> AuthenticationFailure InvalidToken"
  shows "auth_outcome sha clock2 old scope d1 = Some (AuthenticationFailure InvalidToken) \<and>
    auth_outcome sha clock2 token scope d1 = Some r"
proof -
  let ?f = "\<lambda>c. c\<lparr>cr_secret_digest := sha (token_urlsafe bytes), cr_last_used_at := None, cr_updated_at := iso at\<rparr>"
  obtain c where c: "credential_at cid d = Some c" and token: "token = token_of cid (token_urlsafe bytes)"
    and d1: "d1 = d\<lparr>credentials := update_where (\<lambda>c. cr_credential_id c = cid) ?f (credentials d)\<rparr>"
    by (cases rule: rotate_cases [of sha clock at bytes cid d]) (use assms(2) in simp_all)
  obtain q k where row: "credential_row_of cid d = Some (c, q, k)" and id: "ro_client_id q = cr_client_id c"
    using assms(1) c by (rule credential_joins)
  have "c \<in> set (credentials d)" "cr_credential_id c = cid"
    using c by (auto simp: credential_at_def dest: select_first_SomeD)
  then have pat: "router_id_pattern cid"
    using tables_credentials [OF assms(1)] by (auto simp: credential_ok_def)
  note M = match_token_of [OF pat, of "token_urlsafe bytes"]
  have "credential_at cid d1 = Some (?f c)"
    using c by (auto simp: credential_at_def d1 select_first_map_key dest: select_first_SomeD)
  then have row1: "credential_row_of cid d1 = Some (?f c, q, k)"
    using row c by (simp add: credential_row_of_def router_at_def router_client_def d1 split: option.splits)
  have out: "auth_outcome sha clock2 old scope d = Some r" by (rule assms)
  have digest: "cr_secret_digest c = sha secret"
    using assms(9) out auth_outcome_of [OF assms(7,4,5) row, of sha clock2]
    by (auto simp: auth_check_def split: if_splits)
  have dead: "auth_outcome sha clock2 old scope d1 = Some (AuthenticationFailure InvalidToken)"
    using auth_outcome_of [OF assms(7,4,5) row1, of sha clock2] assms(6) by (auto simp: auth_check_def)
  have len: "43 \<le> length (token_urlsafe bytes)" "length (token_urlsafe bytes) \<le> 128"
      "list_all token_char (token_urlsafe bytes)"
    using drawn_secret [OF assms(3)] by simp_all
  have same: "auth_check clock2 (sha (token_urlsafe bytes)) scope (?f c) q k = auth_check clock2 (sha secret) scope c q k"
    by (simp add: auth_check_def digest)
  have "auth_outcome sha clock2 token scope d1 = Some r"
    unfolding token auth_outcome_of [OF assms(7) M(1) M(2) row1, OF len len] same
    using out auth_outcome_of [OF assms(7,4,5) row, of sha clock2] by (simp split: option.splits)
  with dead show ?thesis ..
qed

text \<open>C22.  The token that \<open>issue_router_credential\<close> returns is the one \<open>authenticate_router_credential\<close>
  accepts: right after the issue it proves the new credential, its router, the client it was issued for
  and the scopes asked for, unless it has expired meanwhile, the client or the router is disabled, or
  the scope is not among them.\<close>

theorem issued_token_round_trip:
  assumes "issue_router_credential cfg pub sha reading clock at now dr cid scopes expiry label router d = Inr (ic, d')"
    and "router_tables_ok d" and "clients_ok d" and "draws_ok dr" and "digests sha" and "scope \<in> set known_scopes"
  shows "\<exists>c r k. credential_row_of (is_credential_id ic) d' = Some (c, r, k) \<and>
     get_client_by_id cid d' = Some k \<and> ro_router_id r = is_router_id ic \<and> ro_client_id r = cid \<and>
     normalize_scopes scopes = Inr (is_scopes ic) \<and>
     auth_outcome sha clock2 (is_token ic) scope d' = Some
       (if expired clock2 (cr_expires_at c) then AuthenticationFailure InvalidToken
        else if \<not> cl_enabled k then AuthenticationFailure ClientForbidden
        else if \<not> ro_enabled r then AuthenticationFailure RouterForbidden
        else if scope \<notin> set (is_scopes ic) then AuthenticationFailure InsufficientScope
        else Authenticated \<lparr>au_credential_id = is_credential_id ic, au_router_id = is_router_id ic,
               au_client_id = cid, au_scopes = is_scopes ic\<rparr>)"
proof -
  let ?id = "token_urlsafe (rd_credential dr)" and ?secret = "token_urlsafe (rd_secret dr)"
  obtain ss lb ex rid d1 q d2 where st: "normalize_scopes scopes = Inr ss"
    and "normalized_label label = Inr lb" and "validated_expiry reading clock expiry = Inr ex"
    and live: "get_client_by_id cid d \<noteq> None"
    and a: "assigned_router at dr lb cid router d = Inr (rid, d1)"
    and p: "ensure_router_amnezia_peer cfg pub now (rd_private_key dr) (rd_preshared_key dr) rid d1 = Inr (q, d2)"
    and i: "insert_credential (new_credential ?id rid cid lb (sha ?secret) ss at ex) d2 = Inr d'"
    and ic: "ic = \<lparr>is_credential_id = ?id, is_router_id = rid, is_client_id = cid, is_scopes = ss,
      is_label = lb, is_token = token_of ?id ?secret, is_created_at = iso at\<rparr>"
    using assms(1) by (rule issue_result)
  let ?c = "new_credential ?id rid cid lb (sha ?secret) ss at ex"
  have ok: "router_tables_ok d'"
    using issue_tables [OF assms(2,4,5), of cfg pub reading clock at now cid scopes expiry label router]
    by (simp add: after_tx_def assms(1))
  have d': "credentials d' = credentials d2 @ [?c]" "clients d' = clients d2" "cr_credential_id ?c = ?id"
    "?id \<notin> cr_credential_id ` set (credentials d2)"
    using i by (auto simp: insert_credential_def new_credential_def split: if_splits)
  have "select_first (\<lambda>c. cr_credential_id c = ?id) (credentials d2) = None"
    using d'(4) by (force simp: select_first_None_iff)
  then have "credential_at ?id d' = Some ?c"
    using d'(3) by (simp add: credential_at_def d'(1) select_first_append)
  with ok obtain r k where row: "credential_row_of ?id d' = Some (?c, r, k)"
    and r: "ro_client_id r = cid" "ro_router_id r = rid" and k: "k \<in> set (clients d')" "cl_id k = cid"
    by (rule credential_joins) (simp add: new_credential_def)
  have "clients d1 = clients d"
    using a by (auto simp: assigned_router_def add_router_def insert_router_def validated_router_id_def
        Let_def bind_result_Inr_iff split: option.splits if_splits)
  then have cl: "clients d' = clients d" using peer_keeps_routers [OF p] d'(2) by simp
  have dist: "distinct (map cl_id (clients d))" using assms(3) by (simp add: clients_ok_def)
  obtain k' where k': "get_client_by_id cid d = Some k'" using live by blast
  then have "k' \<in> set (clients d)" "cl_id k' = cid" "cl_deleted_at k' = None"
    by (auto simp: get_client_by_id_def live_client_def dest: select_first_SomeD)
  with dist k cl have "k = k'" using row_key_inj [of cl_id "clients d" k k'] by simp
  then have client: "get_client_by_id cid d' = Some k" "cl_deleted_at k = None"
    using k' \<open>cl_deleted_at k' = None\<close> by (simp_all add: get_client_by_id_def cl)
  have len: "43 \<le> length ?secret" "length ?secret \<le> 128" "list_all token_char ?secret"
    using drawn_secret [of "rd_secret dr"] assms(4) by (simp_all add: draws_ok_def)
  have id: "router_id_pattern ?id" using assms(4) by (simp add: draws_ok_def drawn_id)
  note out = auth_outcome_of [OF assms(6) match_token_of [OF id len] row, of sha clock2]
  have "decode_scopes (cr_scopes ?c) = ss"
    by (simp add: new_credential_def decode_encode [OF normalize_scopes_ok [OF st]])
  then show ?thesis
    using row client r st out
    by (intro exI [of _ ?c] exI [of _ r] exI [of _ k]) (simp add: ic auth_check_def new_credential_def)
qed

section \<open>Instances\<close>

text \<open>One client with one router and one credential, for the instances of the properties.\<close>

definition sample_client :: client_row where
  "sample_client = \<lparr>cl_id = 1, cl_name = ''home'', cl_token = ''t'', cl_enabled = True, cl_vless_uuid = ''u'',
     cl_hysteria_password = ''h'', cl_created_at = 0, cl_awg_private = None, cl_awg_public = None,
     cl_awg_preshared = None, cl_awg_ipv4 = None, cl_deleted_at = None, cl_deleted_revision = None\<rparr>"

definition sample_sha :: "string \<Rightarrow> string" where
  "sample_sha s = replicate 64 (if s = [] then CHR ''0'' else if hd s = CHR ''A'' then CHR ''a'' else CHR ''b'')"

definition sample_draws :: router_draws where
  "sample_draws = \<lparr>rd_router = replicate 12 0, rd_credential = replicate 12 0, rd_secret = replicate 32 0,
     rd_private_key = ''k'', rd_preshared_key = ''p''\<rparr>"

definition sample_credential :: credential_row where
  "sample_credential = new_credential ''cred-001'' ''router-1'' 1 ''tv'' (replicate 64 (CHR ''a''))
     [''snapshot:read''] 0 None"

definition sample_routers :: db where
  "sample_routers = empty_db\<lparr>clients := [sample_client], client_seq := 1,
     routers := [new_router ''router-1'' 1 ''tv'' 0], credentials := [sample_credential],
     peers := [\<lparr>pe_router_id = ''router-1'', pe_private_key = ''k'', pe_public_key = ''q'',
                pe_preshared_key = ''p'', pe_ipv4 = ''10.66.66.2''\<rparr>]\<rparr>"

definition sample_crypto :: crypto where
  "sample_crypto = \<lparr>cy_pub = (\<lambda>k. k), cy_sha = sample_sha, cy_reading = (\<lambda>_. IsoInvalid)\<rparr>"

definition sample_clocks :: clocks where
  "sample_clocks = \<lparr>ck_clock = 0, ck_at = 0, ck_now = 0\<rparr>"

lemma sample_digests: "digests sample_sha"
proof -
  have "py_len (replicate 64 c) = 64" if "\<not> is_continuation c" for c
    using that by (simp add: py_len_def)
  then show ?thesis by (simp add: digests_def sample_sha_def is_continuation_def byte_def)
qed

lemma sample_tables: "router_tables_ok sample_routers"
proof -
  have "scopes_ok (decode_scopes (encode_scopes [''snapshot:read'']))" by code_simp
  moreover have "router_id_pattern ''cred-001''" "router_id_pattern ''router-1''" by code_simp+
  moreover have "py_len (replicate 64 (CHR ''a'')) = 64" by code_simp
  ultimately show ?thesis
    by (simp add: router_tables_ok_def refs_ok_def hangs_def links_ok_def sample_routers_def
        sample_credential_def new_credential_def new_router_def credential_ok_def sample_client_def empty_db_def)
qed

theorem router_tables_stay_typed_witness:
  "router_tables_ok (router_steps default_config sample_crypto
     [(sample_clocks, SetRouterEnabled ''router-1'' False), (sample_clocks, RevokeCredential ''cred-001''),
      (sample_clocks, DeleteClient 1), (sample_clocks, DeleteRouter ''router-1'')] sample_routers)"
  by (rule router_tables_stay_typed) (simp_all add: sample_tables sample_crypto_def sample_digests)

theorem revoked_credential_stays_refused_witness:
  "\<exists>d1 f. revoke_router_credential 0 ''cred-001'' sample_routers = Inr ((), d1) \<and>
     authenticate_router_credential sample_sha 0 0
       (token_of ''cred-001'' (replicate 43 (CHR ''A''))) ''snapshot:read''
       (router_steps default_config sample_crypto [(sample_clocks, RotateCredential (replicate 32 0) ''cred-001'')] d1) =
     Inr (AuthenticationFailure f,
       router_steps default_config sample_crypto [(sample_clocks, RotateCredential (replicate 32 0) ''cred-001'')] d1)"
proof -
  have "succeeds (revoke_router_credential 0 ''cred-001'' sample_routers)" by code_simp
  then obtain x d1 where r: "revoke_router_credential 0 ''cred-001'' sample_routers = Inr (x, d1)"
    by (cases "revoke_router_credential 0 ''cred-001'' sample_routers") auto
  have "match_token (token_of ''cred-001'' (replicate 43 (CHR ''A''))) = Some (''cred-001'', replicate 43 (CHR ''A''))"
    by (rule match_token_of) code_simp+
  from revoked_credential_stays_refused [OF r _ _ this, of "[(sample_clocks, RotateCredential (replicate 32 0) ''cred-001'')]"
      "''snapshot:read''" sample_sha 0 0 default_config sample_crypto] r
  show ?thesis by (auto simp: known_scopes_def)
qed

theorem rotation_replaces_the_token_witness:
  "\<exists>token d1. rotate_router_credential sample_sha 0 0 (replicate 32 255) ''cred-001'' sample_routers = Inr (token, d1) \<and>
     auth_outcome sample_sha 0 token ''snapshot:read'' d1 =
       Some (Authenticated \<lparr>au_credential_id = ''cred-001'', au_router_id = ''router-1'', au_client_id = 1,
          au_scopes = [''snapshot:read'']\<rparr>)"
proof -
  let ?old = "token_of ''cred-001'' (replicate 43 (CHR ''A''))"
  have "succeeds (rotate_router_credential sample_sha 0 0 (replicate 32 255) ''cred-001'' sample_routers)" by code_simp
  then obtain token d1 where
    r: "rotate_router_credential sample_sha 0 0 (replicate 32 255) ''cred-001'' sample_routers = Inr (token, d1)"
    by (cases "rotate_router_credential sample_sha 0 0 (replicate 32 255) ''cred-001'' sample_routers") auto
  have m: "match_token ?old = Some (''cred-001'', replicate 43 (CHR ''A''))" "py_len ?old \<le> 256"
    by (rule match_token_of; code_simp)+
  have o: "auth_outcome sample_sha 0 ?old ''snapshot:read'' sample_routers =
       Some (Authenticated \<lparr>au_credential_id = ''cred-001'', au_router_id = ''router-1'', au_client_id = 1,
          au_scopes = [''snapshot:read'']\<rparr>)"
    by code_simp
  have s: "sample_sha (replicate 43 (CHR ''A'')) \<noteq> sample_sha (token_urlsafe (replicate 32 255))" by code_simp
  have b: "random_bytes 32 (replicate 32 255)" by code_simp
  have k: "''snapshot:read'' \<in> set known_scopes" by (simp add: known_scopes_def)
  from rotation_replaces_the_token [OF sample_tables r b m s k o] r show ?thesis by auto
qed

theorem issued_token_round_trip_witness:
  "\<exists>ic d'. issue_router_credential default_config (\<lambda>k. k) sample_sha (\<lambda>_. IsoInvalid) 0 0 0 sample_draws 1
       ['' apply:write''] None ''tv'' (Some ''router-1'') sample_routers = Inr (ic, d') \<and>
     auth_outcome sample_sha 0 (is_token ic) ''apply:write'' d' = Some (Authenticated
       \<lparr>au_credential_id = is_credential_id ic, au_router_id = is_router_id ic, au_client_id = 1,
        au_scopes = is_scopes ic\<rparr>)"
proof -
  let ?run = "issue_router_credential default_config (\<lambda>k. k) sample_sha (\<lambda>_. IsoInvalid) 0 0 0 sample_draws 1
       ['' apply:write''] None ''tv'' (Some ''router-1'') sample_routers"
  have ev: "case ?run of Inl _ \<Rightarrow> False
    | Inr (ic, d') \<Rightarrow> is_scopes ic = [''apply:write''] \<and>
        (case credential_row_of (is_credential_id ic) d' of None \<Rightarrow> False
         | Some (c, r, k) \<Rightarrow> \<not> expired 0 (cr_expires_at c) \<and> cl_enabled k \<and> ro_enabled r)"
    by code_simp
  then obtain ic d' where run: "?run = Inr (ic, d')" by (cases ?run) auto
  have cl: "clients_ok sample_routers"
    by (simp add: clients_ok_def sample_routers_def sample_client_def)
  have dr: "draws_ok sample_draws" by code_simp
  have k: "''apply:write'' \<in> set known_scopes" by (simp add: known_scopes_def)
  from issued_token_round_trip [OF run sample_tables cl dr sample_digests k, of 0] ev run
  show ?thesis by auto
qed

end
