(* ===== verification/Security.thy ===== *)
theory Security
  imports Sanitize
begin

text \<open>
  Protection of the panel (\<open>app/security.py\<close>): hashed passwords, the limiter of failed logins, the
  origin check of state-changing requests and the paths whose answers must not be stored.
  A text of bytes and a Python string are both the list of their bytes.  \<open>hashlib.scrypt\<close> is the
  parameter \<open>kdf\<close> (\<open>None\<close> where it raises \<open>ValueError\<close> or \<open>MemoryError\<close>); of \<open>urlsplit\<close> the checks
  of a bracketed address and of the Unicode normal form are parameters.  Readings of
  \<open>time.monotonic\<close> are in nanoseconds.
\<close>

section \<open>Comparing secrets\<close>

text \<open>\<open>hmac.compare_digest\<close> of two strings refuses characters outside ASCII.\<close>

definition ascii_text :: "string \<Rightarrow> bool" where
  "ascii_text s \<longleftrightarrow> list_all (\<lambda>c. byte c < 128) s"

definition compare_digest :: "string \<Rightarrow> string \<Rightarrow> exn + bool" where
  "compare_digest a b =
     (if ascii_text a \<and> ascii_text b then Inr (a = b)
      else Inl (TypeError ''comparing strings with non-ASCII characters is not supported''))"

section \<open>Base64\<close>

definition base64_char :: "nat \<Rightarrow> char" where
  "base64_char n =
     (if n < 26 then char_of (65 + n) else if n < 52 then char_of (71 + n)
      else if n < 62 then char_of (n - 4) else if n = 62 then CHR ''+'' else CHR ''/'')"

definition base64_value :: "char \<Rightarrow> nat option" where
  "base64_value c =
     (let n = byte c in
      if 65 \<le> n \<and> n \<le> 90 then Some (n - 65) else if 97 \<le> n \<and> n \<le> 122 then Some (n - 71)
      else if 48 \<le> n \<and> n \<le> 57 then Some (n + 4) else if n = 43 then Some 62
      else if n = 47 then Some 63 else None)"

fun b64encode :: "string \<Rightarrow> string" where
  "b64encode [] = []"
| "b64encode [a] =
     [base64_char (byte a div 4), base64_char (byte a mod 4 * 16), CHR ''='', CHR ''='']"
| "b64encode [a, b] =
     [base64_char (byte a div 4), base64_char (byte a mod 4 * 16 + byte b div 16),
      base64_char (byte b mod 16 * 4), CHR ''='']"
| "b64encode (a # b # c # rest) =
     base64_char (byte a div 4) # base64_char (byte a mod 4 * 16 + byte b div 16) #
     base64_char (byte b mod 16 * 4 + byte c div 64) # base64_char (byte c mod 64) # b64encode rest"

text \<open>
  \<open>base64.b64decode\<close> without validation: characters outside the alphabet are skipped, padding that
  completes a group ends the text; \<open>q\<close> is the place in the group, \<open>left\<close> the bits not yet used,
  \<open>pads\<close> the padding characters since the last data character.
\<close>

fun b64_loop :: "nat \<Rightarrow> nat \<Rightarrow> nat \<Rightarrow> string \<Rightarrow> string option" where
  "b64_loop q left pads [] = (if q = 0 then Some [] else None)"
| "b64_loop q left pads (c # cs) =
     (if c = CHR ''='' then
        (if 2 \<le> q then
           (if 4 \<le> q + Suc pads then Some [] else b64_loop q left (Suc pads) cs)
         else b64_loop q left pads cs)
      else (case base64_value c of
          None \<Rightarrow> b64_loop q left pads cs
        | Some v \<Rightarrow>
            (case q of
               0 \<Rightarrow> b64_loop 1 v 0 cs
             | Suc 0 \<Rightarrow> map_option ((#) (char_of (left * 4 + v div 16))) (b64_loop 2 (v mod 16) 0 cs)
             | Suc (Suc 0) \<Rightarrow> map_option ((#) (char_of (left * 16 + v div 4))) (b64_loop 3 (v mod 4) 0 cs)
             | Suc (Suc (Suc n)) \<Rightarrow> map_option ((#) (char_of (left * 64 + v))) (b64_loop 0 0 0 cs))))"

definition b64decode :: "string \<Rightarrow> string option" where
  "b64decode s = (if ascii_text s then b64_loop 0 0 0 s else None)"

section \<open>Passwords\<close>

type_synonym kdf = "string \<Rightarrow> string \<Rightarrow> int \<Rightarrow> int \<Rightarrow> int \<Rightarrow> nat \<Rightarrow> string option"

definition hash_password :: "kdf \<Rightarrow> string \<Rightarrow> string \<Rightarrow> string option" where
  "hash_password kdf salt password =
     map_option (\<lambda>derived. join ''$''
         [''scrypt'', int_str 32768, int_str 8, int_str 1, b64encode salt, b64encode derived])
       (kdf password salt 32768 8 1 32)"

definition is_hashed :: "string \<Rightarrow> bool" where
  "is_hashed stored \<longleftrightarrow> starts_with ''scrypt$'' stored"

definition verify_password :: "kdf \<Rightarrow> string \<Rightarrow> string \<Rightarrow> exn + bool" where
  "verify_password kdf password stored =
     (if stored = [] then Inr False
      else if \<not> is_hashed stored then compare_digest password stored
      else (case split_on (CHR ''$'') stored of
          [_, n_s, r_s, p_s, salt_b64, hash_b64] \<Rightarrow>
            (case (parse_int n_s, parse_int r_s, parse_int p_s, b64decode salt_b64, b64decode hash_b64) of
               (Some n, Some r, Some p, Some salt, Some expected) \<Rightarrow>
                 (case kdf password salt n r p (length expected) of
                    None \<Rightarrow> Inr False | Some derived \<Rightarrow> Inr (derived = expected))
             | _ \<Rightarrow> Inr False)
        | _ \<Rightarrow> Inr False))"

section \<open>The limiter of failed logins\<close>

record limits =
  max_failures :: nat
  window_time :: int
  block_time :: int

definition login_limits :: limits where
  "login_limits = \<lparr>max_failures = 10, window_time = 300 * 10 ^ 9, block_time = 300 * 10 ^ 9\<rparr>"

record limiter =
  li_failures :: "string \<Rightarrow> int list"
  li_blocked :: "string \<Rightarrow> int option"

definition new_limiter :: limiter where
  "new_limiter = \<lparr>li_failures = (\<lambda>_. []), li_blocked = (\<lambda>_. None)\<rparr>"

definition retry_after :: "string \<Rightarrow> int \<Rightarrow> limiter \<Rightarrow> int \<times> limiter" where
  "retry_after key now l = (case li_blocked l key of
       None \<Rightarrow> (0, l)
     | Some until \<Rightarrow>
         if until \<noteq> 0 \<and> now < until then ((until - now) div 10 ^ 9 + 1, l)
         else (0, if until \<noteq> 0 then l\<lparr>li_blocked := (li_blocked l)(key := None)\<rparr> else l))"

definition register_failure :: "limits \<Rightarrow> string \<Rightarrow> int \<Rightarrow> limiter \<Rightarrow> limiter" where
  "register_failure m key now l =
     (let bucket = filter (\<lambda>t. now - t < window_time m) (li_failures l key) @ [now] in
      if max_failures m \<le> length bucket
      then l\<lparr>li_blocked := (li_blocked l)(key \<mapsto> now + block_time m),
             li_failures := (li_failures l)(key := [])\<rparr>
      else l\<lparr>li_failures := (li_failures l)(key := bucket)\<rparr>)"

definition register_success :: "string \<Rightarrow> limiter \<Rightarrow> limiter" where
  "register_success key l =
     l\<lparr>li_failures := (li_failures l)(key := []), li_blocked := (li_blocked l)(key := None)\<rparr>"

section \<open>Requests\<close>

record request =
  rq_method :: string
  rq_path :: string
  rq_headers :: "(string \<times> string) list" \<comment> \<open>names in lower case\<close>
  rq_client :: "string option"

definition header :: "request \<Rightarrow> string \<Rightarrow> string" where
  "header rq name = (case map_of (rq_headers rq) name of None \<Rightarrow> [] | Some v \<Rightarrow> v)"

definition client_key :: "request \<Rightarrow> string" where
  "client_key rq =
     (let forwarded = header rq ''x-forwarded-for'' in
      if forwarded \<noteq> [] then py_strip (hd (split_on (CHR '','') forwarded))
      else case rq_client rq of Some host \<Rightarrow> host | None \<Rightarrow> ''unknown'')"

subsection \<open>Splitting a URL\<close>

record url_rules =
  bracketed_ok :: "string \<Rightarrow> bool" \<comment> \<open>the text between brackets is an IPv6 or IPvFuture address\<close>
  normal_ok :: "string \<Rightarrow> bool" \<comment> \<open>the NFKC check of a \<open>netloc\<close> outside ASCII\<close>

definition scheme_char :: "char \<Rightarrow> bool" where
  "scheme_char c \<longleftrightarrow> (48 \<le> byte c \<and> byte c \<le> 57) \<or> (65 \<le> byte c \<and> byte c \<le> 90) \<or>
     (97 \<le> byte c \<and> byte c \<le> 122) \<or> c \<in> {CHR ''+'', CHR ''-'', CHR ''.''}"

definition is_letter :: "char \<Rightarrow> bool" where
  "is_letter c \<longleftrightarrow> (65 \<le> byte c \<and> byte c \<le> 90) \<or> (97 \<le> byte c \<and> byte c \<le> 122)"

text \<open>The scheme and the \<open>netloc\<close> of \<open>urlsplit\<close>.\<close>

definition split_scheme :: "string \<Rightarrow> string \<times> string" where
  "split_scheme url =
     (case partition_at (CHR '':'') url of (s, found, rest) \<Rightarrow>
        if found \<and> s \<noteq> [] \<and> is_letter (hd s) \<and> list_all scheme_char s then (py_lower s, rest)
        else ([], url))"

definition url_parts :: "url_rules \<Rightarrow> string \<Rightarrow> exn + (string \<times> string)" where
  "url_parts u value =
     (let url = filter (\<lambda>c. byte c \<notin> {9, 10, 13}) (dropWhile (\<lambda>c. byte c \<le> 32) value);
          (scheme, rest) = split_scheme url;
          netloc = (if starts_with ''//'' rest
                    then takeWhile (\<lambda>c. c \<notin> {CHR ''/'', CHR ''?'', CHR ''#''}) (drop 2 rest) else []);
          opens = CHR ''['' \<in> set netloc; closes = CHR '']'' \<in> set netloc
      in if opens \<noteq> closes then Inl (ValueError ''Invalid IPv6 URL'')
         else if opens \<and> \<not> bracketed_ok u
             (fst (partition_at (CHR '']'') (snd (snd (partition_at (CHR ''['') netloc))))) then
           Inl (ValueError ''Invalid IPv6 URL'')
         else if \<not> ascii_text netloc \<and> \<not> normal_ok u netloc then
           Inl (ValueError ''netloc contains invalid characters under NFKC normalization'')
         else Inr (scheme, netloc))"

text \<open>\<open>parts.hostname\<close> and the text \<open>parts.port\<close> is read from: what follows the last \<open>@\<close>, split
  at the bracket or at the colon.\<close>

definition after_last :: "char \<Rightarrow> string \<Rightarrow> string" where
  "after_last c s = rev (takeWhile (\<lambda>x. x \<noteq> c) (rev s))"

definition host_info :: "string \<Rightarrow> string \<times> string" where
  "host_info netloc =
     (let hostinfo = after_last (CHR ''@'') netloc;
          (_, open_br, bracketed) = partition_at (CHR ''['') hostinfo
      in if open_br then
           (case partition_at (CHR '']'') bracketed of (host, _, rest) \<Rightarrow>
              (host, snd (snd (partition_at (CHR '':'') rest))))
         else (case partition_at (CHR '':'') hostinfo of (host, _, port) \<Rightarrow> (host, port)))"

definition url_port :: "string \<Rightarrow> exn + nat option" where
  "url_port port =
     (if port = [] then Inr None
      else if list_all is_digit port then
        (if int (digits_value 0 port) \<le> 65535 then Inr (Some (digits_value 0 port))
         else Inl (ValueError ''Port out of range 0-65535''))
      else Inl (ValueError ''Port could not be cast to integer value''))"

definition host_of :: "url_rules \<Rightarrow> string \<Rightarrow> exn + string" where
  "host_of u value = (if value = [] then Inr [] else bind_result (url_parts u value) (\<lambda>(_, n). Inr n))"

definition hostname_port :: "url_rules \<Rightarrow> string \<Rightarrow> exn + (string \<times> string)" where
  "hostname_port u value =
     bind_result (url_parts u (if contains ''://'' value then value else ''//'' @ value)) (\<lambda>(scheme, netloc).
       let (host, port) = host_info netloc in
       bind_result (url_port port) (\<lambda>p.
         Inr (py_lower host,
           case p of
             Some n \<Rightarrow> if n \<noteq> 0 then nat_str n
                       else if scheme = ''http'' then ''80'' else if scheme = ''https'' then ''443'' else []
           | None \<Rightarrow> if scheme = ''http'' then ''80'' else if scheme = ''https'' then ''443'' else [])))"

definition is_loopback_host :: "string \<Rightarrow> bool" where
  "is_loopback_host host \<longleftrightarrow>
     host \<in> {''localhost'', ''127.0.0.1'', ''0.0.0.0'', ''::1'', ''::'', ''[::1]'', ''[::]''}"

definition same_host_or_loopback_alias :: "url_rules \<Rightarrow> string \<Rightarrow> string \<Rightarrow> exn + bool" where
  "same_host_or_loopback_alias u left right =
     bind_result (hostname_port u left) (\<lambda>(left_host, left_port).
     bind_result (hostname_port u right) (\<lambda>(right_host, right_port).
       Inr (left_host \<noteq> [] \<and> right_host \<noteq> [] \<and>
         (left_host = right_host \<and> left_port = right_port \<or>
          is_loopback_host left_host \<and> is_loopback_host right_host \<and> left_port = right_port))))"

definition expected_hosts :: "request \<Rightarrow> string list" where
  "expected_hosts rq =
     (let forwarded = header rq ''x-forwarded-host'' in
      filter (\<lambda>h. h \<noteq> []) (remdups (header rq ''host'' #
        (if forwarded \<noteq> [] then [py_strip (hd (split_on (CHR '','') forwarded))] else []))))"

text \<open>\<open>any(...)\<close> over calls that may raise: up to the first that is true.\<close>

fun any_result :: "('a \<Rightarrow> 'e + bool) \<Rightarrow> 'a list \<Rightarrow> 'e + bool" where
  "any_result f [] = Inr False"
| "any_result f (x # xs) = bind_result (f x) (\<lambda>b. if b then Inr True else any_result f xs)"

definition safe_methods :: "string set" where
  "safe_methods = {''GET'', ''HEAD'', ''OPTIONS'', ''TRACE''}"

definition matches_expected :: "url_rules \<Rightarrow> request \<Rightarrow> string \<Rightarrow> exn + bool" where
  "matches_expected u rq value =
     any_result (\<lambda>h. bind_result (host_of u value) (\<lambda>n. same_host_or_loopback_alias u n h))
       (expected_hosts rq)"

definition is_same_origin_request :: "url_rules \<Rightarrow> request \<Rightarrow> exn + bool" where
  "is_same_origin_request u rq =
     (if rq_method rq \<in> safe_methods then Inr True
      else if header rq ''origin'' \<noteq> [] then
        (if header rq ''origin'' = ''null'' then
           bind_result (any_result (\<lambda>h. bind_result (hostname_port u h) (\<lambda>(host, _).
               Inr (is_loopback_host host))) (expected_hosts rq)) (\<lambda>loopback.
             let fetch_site = py_lower (header rq ''sec-fetch-site'') in
             Inr (if loopback then fetch_site \<in> {''same-origin'', ''none'', []}
                  else fetch_site = ''same-origin''))
         else matches_expected u rq (header rq ''origin''))
      else if header rq ''referer'' \<noteq> [] then matches_expected u rq (header rq ''referer'')
      else Inr True)"

definition is_public_token_path :: "string \<Rightarrow> bool" where
  "is_public_token_path path =
     (case filter (\<lambda>p. p \<noteq> []) (split_on (CHR ''/'') path) of
        [] \<Rightarrow> False
      | [p] \<Rightarrow> False
      | p # _ # rest \<Rightarrow>
          rest = [] \<and> p \<in> {''sub'', ''sing-box'', ''ip'', ''amnezia'', ''amnezia-key''} \<or>
          p = ''client'' \<and>
            rest \<in> {[], [''subscription.qr''], [''amnezia.qr''], [''protocols'', ''refresh'']})"

definition quoted :: "string \<Rightarrow> string" where
  "quoted s = CHR 0x27 # s @ [CHR 0x27]"

definition security_headers :: "(string \<times> string) list" where
  "security_headers =
     [(''X-Frame-Options'', ''DENY''), (''X-Content-Type-Options'', ''nosniff''),
      (''X-Robots-Tag'', ''noindex, nofollow, noarchive''), (''Referrer-Policy'', ''no-referrer''),
      (''Content-Security-Policy'',
       ''default-src '' @ quoted ''self'' @ ''; img-src '' @ quoted ''self'' @ '' data:; script-src '' @
       quoted ''self'' @ '' '' @ quoted ''unsafe-inline'' @ ''; style-src '' @ quoted ''self'' @ '' '' @
       quoted ''unsafe-inline'' @ ''; object-src '' @ quoted ''none'' @ ''; base-uri '' @
       quoted ''self'' @ ''; frame-ancestors '' @ quoted ''none'')]"

section \<open>Base64 reads back what it wrote\<close>

lemma base64_value_char: "n < 64 \<Longrightarrow> base64_value (base64_char n) = Some n"
  by (auto simp: base64_value_def base64_char_def byte_def Let_def)

lemma base64_char_plain:
  assumes "n < 64"
  shows "base64_char n \<noteq> CHR ''=''" and "base64_char n \<noteq> CHR ''$''" and "byte (base64_char n) < 128"
proof -
  have "base64_value (base64_char n) = Some n" using assms by (rule base64_value_char)
  then show "base64_char n \<noteq> CHR ''=''" "base64_char n \<noteq> CHR ''$''"
    by (auto simp: base64_value_def byte_def)
  show "byte (base64_char n) < 128"
    using assms by (auto simp: base64_char_def byte_def)
qed

lemma byte_less: "byte c < 256"
  by (simp add: byte_def)

lemma b64_pieces:
  "byte a div 4 < 64" "byte a mod 4 * 16 < 64" "byte a mod 16 * 4 < 64" "byte a mod 64 < 64"
  "byte a mod 4 * 16 + byte b div 16 < 64" "byte a mod 16 * 4 + byte b div 64 < 64"
  using byte_less [of a] byte_less [of b] by auto

lemma b64_join:
  "char_of (byte a div 4 * 4 + byte a mod 4 * 16 div 16) = a"
  "char_of (byte a div 4 * 4 + (byte a mod 4 * 16 + byte b div 16) div 16) = a"
  "char_of ((byte a mod 4 * 16 + byte b div 16) mod 16 * 16 + byte b mod 16 * 4 div 4) = b"
  "char_of ((byte a mod 4 * 16 + byte b div 16) mod 16 * 16 + (byte b mod 16 * 4 + byte c div 64) div 4) = b"
  "char_of ((byte b mod 16 * 4 + byte c div 64) mod 4 * 64 + byte c mod 64) = c"
proof -
  have n: "char_of k = a" if "k = byte a" for a k using that by simp
  have b16: "byte b div 16 < 16" and c64: "byte c div 64 < 4"
    using byte_less [of b] byte_less [of c] by auto
  show "char_of (byte a div 4 * 4 + byte a mod 4 * 16 div 16) = a" by (rule n) simp
  have 1: "(byte a mod 4 * 16 + byte b div 16) div 16 = byte a mod 4" using b16 by simp
  have 2: "(byte a mod 4 * 16 + byte b div 16) mod 16 = byte b div 16" using b16 by simp
  have 3: "(byte b mod 16 * 4 + byte c div 64) div 4 = byte b mod 16" using c64 by simp
  have 4: "(byte b mod 16 * 4 + byte c div 64) mod 4 = byte c div 64" using c64 by simp
  show "char_of (byte a div 4 * 4 + (byte a mod 4 * 16 + byte b div 16) div 16) = a"
    unfolding 1 by (rule n) simp
  show "char_of ((byte a mod 4 * 16 + byte b div 16) mod 16 * 16 + byte b mod 16 * 4 div 4) = b"
    unfolding 2 by (rule n) simp
  show "char_of ((byte a mod 4 * 16 + byte b div 16) mod 16 * 16 + (byte b mod 16 * 4 + byte c div 64) div 4) = b"
    unfolding 2 3 by (rule n) simp
  show "char_of ((byte b mod 16 * 4 + byte c div 64) mod 4 * 64 + byte c mod 64) = c"
    unfolding 4 by (rule n) simp
qed

lemma b64_small:
  "byte b div 16 div 16 = 0" "byte b div 16 mod 16 = byte b div 16" "byte b div 64 div 4 = 0"
  "byte b div 64 mod 4 = byte b div 64"
  using byte_less [of b] by auto

lemmas b64_step = b64_pieces base64_value_char base64_char_plain b64_join b64_small

lemma b64_loop_encode: "b64_loop 0 left pads (b64encode s) = Some s"
proof (induction s arbitrary: left pads rule: b64encode.induct)
  case (2 a)
  have "base64_value (CHR ''='') = None" by code_simp
  then show ?case by (simp add: b64_step numeral_2_eq_2 numeral_3_eq_3)
next
  case (3 a b)
  then show ?case by (simp add: b64_step numeral_2_eq_2 numeral_3_eq_3)
next
  case (4 a b c rest)
  then show ?case by (simp add: b64_step numeral_2_eq_2 numeral_3_eq_3)
qed simp

lemma pad_plain: "CHR ''='' \<noteq> CHR ''$''" "byte (CHR ''='') < 128"
  by (simp_all add: byte_def)

lemma b64encode_chars: "c \<in> set (b64encode s) \<Longrightarrow> c \<noteq> CHR ''$'' \<and> byte c < 128"
proof (induction s rule: b64encode.induct)
  case (2 a)
  then show ?case by (auto simp: b64_pieces base64_char_plain pad_plain)
next
  case (3 a b)
  then show ?case by (auto simp: b64_pieces base64_char_plain pad_plain)
next
  case (4 a b c rest)
  then show ?case by (auto simp: b64_pieces base64_char_plain)
qed simp

lemma b64decode_encode: "b64decode (b64encode s) = Some s"
  by (simp add: b64decode_def ascii_text_def list_all_iff b64encode_chars b64_loop_encode)

lemma int_str_no_dollar: "CHR ''$'' \<notin> set (int_str i)"
proof
  assume "CHR ''$'' \<in> set (int_str i)"
  then have "is_digit (CHR ''$'')"
    using nat_str_digits [of "nat i"] nat_str_digits [of "nat (- i)"]
    by (auto simp: int_str_def split: if_splits)
  then show False by (simp add: is_digit_def byte_def)
qed

section \<open>A bound on guessing\<close>

text \<open>
  One login attempt the way \<open>_verify_admin_credentials\<close> of \<open>main.py\<close> uses the limiter: the clock is
  read at \<open>t1\<close> for \<open>retry_after\<close> and, once the credentials have been compared, at \<open>t2\<close>.
\<close>

record login_try =
  at_key :: string
  at_asked :: int
  at_compared :: int
  at_correct :: bool

definition login_attempt :: "limits \<Rightarrow> login_try \<Rightarrow> limiter \<Rightarrow> bool \<times> limiter" where
  "login_attempt m a l =
     (case retry_after (at_key a) (at_asked a) l of (wait, l1) \<Rightarrow>
        if wait \<noteq> 0 then (False, l1)
        else (True, if at_correct a then register_success (at_key a) l1
                    else register_failure m (at_key a) (at_compared a) l1))"

text \<open>The instants at which a password of \<open>key\<close> was compared and found wrong.\<close>

fun wrong_guesses :: "limits \<Rightarrow> string \<Rightarrow> login_try list \<Rightarrow> limiter \<Rightarrow> int list" where
  "wrong_guesses m key [] l = []"
| "wrong_guesses m key (a # as) l =
     (case login_attempt m a l of (compared, l') \<Rightarrow>
        (if compared \<and> at_key a = key \<and> \<not> at_correct a then [at_compared a] else []) @
        wrong_guesses m key as l')"

fun in_order :: "int \<Rightarrow> login_try list \<Rightarrow> bool" where
  "in_order t [] = True"
| "in_order t (a # as) = (t \<le> at_asked a \<and> at_asked a \<le> at_compared a \<and> in_order (at_compared a) as)"

text \<open>
  What links the limiter to the guesses so far: those still in the window are in the bucket, or they
  are older than the block that is running.
\<close>

definition guesses_kept :: "limits \<Rightarrow> string \<Rightarrow> int \<Rightarrow> int list \<Rightarrow> limiter \<Rightarrow> bool" where
  "guesses_kept m key now gs l \<longleftrightarrow>
     (\<forall>g \<in> set gs. g \<le> now) \<and> length (li_failures l key) < max_failures m \<and>
     (\<forall>u. li_blocked l key = Some u \<longrightarrow> 0 < u) \<and>
     (\<exists>old new. gs = old @ new \<and>
        (\<forall>g \<in> set old. g + window_time m \<le> (case li_blocked l key of None \<Rightarrow> now | Some u \<Rightarrow> u)) \<and>
        filter (\<lambda>g. now - g < window_time m) new =
          filter (\<lambda>g. now - g < window_time m) (li_failures l key))"

definition window_ok :: "limits \<Rightarrow> int list \<Rightarrow> bool" where
  "window_ok m gs \<longleftrightarrow> (\<forall>t. length (filter (\<lambda>g. t - window_time m < g \<and> g \<le> t) gs) \<le> max_failures m)"

lemma filter_later:
  assumes "filter (\<lambda>g. t - g < w) xs = filter (\<lambda>g. t - g < w) ys" and "t \<le> (t' :: int)"
  shows "filter (\<lambda>g. t' - g < w) xs = filter (\<lambda>g. t' - g < w) ys"
proof -
  have "filter (\<lambda>g. t' - g < w) zs = filter (\<lambda>g. t' - g < w) (filter (\<lambda>g. t - g < w) zs)" for zs
    using assms(2) by (auto intro: filter_cong)
  then show ?thesis using assms(1) by metis
qed

lemma kept_later:
  assumes "guesses_kept m key now gs l" and "now \<le> t"
  shows "guesses_kept m key t gs l"
proof -
  obtain old new where gs: "gs = old @ new"
    and old: "\<forall>g \<in> set old. g + window_time m \<le> (case li_blocked l key of None \<Rightarrow> now | Some u \<Rightarrow> u)"
    and new: "filter (\<lambda>g. now - g < window_time m) new = filter (\<lambda>g. now - g < window_time m) (li_failures l key)"
    using assms(1) by (auto simp: guesses_kept_def)
  have "\<forall>g \<in> set old. g + window_time m \<le> (case li_blocked l key of None \<Rightarrow> t | Some u \<Rightarrow> u)"
    using old assms(2) by (cases "li_blocked l key") auto
  moreover have "\<forall>g \<in> set gs. g \<le> t" using assms by (auto simp: guesses_kept_def)
  ultimately show ?thesis
    using assms(1) gs filter_later [OF new assms(2)] unfolding guesses_kept_def by blast
qed

lemma retry_after_cases:
  assumes "\<And>u. li_blocked l k = Some u \<Longrightarrow> 0 < u"
  obtains (free) "li_blocked l k = None" "retry_after k t l = (0, l)"
  | (blocked) u w where "li_blocked l k = Some u" "t < u" "retry_after k t l = (w, l)" "0 < w"
  | (over) u where "li_blocked l k = Some u" "u \<le> t"
      "retry_after k t l = (0, l\<lparr>li_blocked := (li_blocked l)(k := None)\<rparr>)"
proof (cases "li_blocked l k")
  case None
  then show thesis by (intro free) (simp_all add: retry_after_def)
next
  case (Some u)
  have u: "u \<noteq> 0" using assms [OF Some] by simp
  show thesis
  proof (cases "t < u")
    case True
    have "0 \<le> (u - t) div 10 ^ 9" using True by (simp add: pos_imp_zdiv_nonneg_iff)
    then show thesis
      using True Some u by (intro blocked [of u "(u - t) div 10 ^ 9 + 1"]) (simp_all add: retry_after_def)
  next
    case False
    then show thesis using Some u by (intro over [of u]) (simp_all add: retry_after_def)
  qed
qed

lemma kept_freed:
  assumes "guesses_kept m key t gs l" and "li_blocked l k = Some u" "u \<le> t"
  shows "guesses_kept m key t gs (l\<lparr>li_blocked := (li_blocked l)(k := None)\<rparr>)"
proof (cases "k = key")
  case True
  obtain old new where gs: "gs = old @ new" "\<forall>g \<in> set old. g + window_time m \<le> u"
    and new: "filter (\<lambda>g. t - g < window_time m) new = filter (\<lambda>g. t - g < window_time m) (li_failures l key)"
    using assms(1,2) True by (auto simp: guesses_kept_def)
  have "\<forall>g \<in> set old. g + window_time m \<le> t" using gs(2) assms(3) by force
  with assms(1) gs(1) new show ?thesis unfolding guesses_kept_def by (auto simp: True)
next
  case False
  then show ?thesis using assms(1) by (simp add: guesses_kept_def)
qed

lemma kept_blocked_pos: "guesses_kept m key now gs l \<Longrightarrow> li_blocked l key = Some u \<Longrightarrow> 0 < u"
  by (simp add: guesses_kept_def)

text \<open>A new wrong guess keeps the link and stays within the bound.\<close>

lemma guess_kept:
  assumes "guesses_kept m key now gs l" and "li_blocked l key = None" and "now \<le> t" "0 < t"
    and "0 < window_time m" "window_time m \<le> block_time m"
  shows "guesses_kept m key t (gs @ [t]) (register_failure m key t l)"
    and "length (filter (\<lambda>g. t - g < window_time m) gs) < max_failures m"
proof -
  let ?w = "window_time m"
  let ?bucket = "filter (\<lambda>g. t - g < ?w) (li_failures l key)"
  obtain old new where gs: "gs = old @ new" and old: "\<forall>g \<in> set old. g + ?w \<le> t"
    and new: "filter (\<lambda>g. t - g < ?w) new = ?bucket"
    using kept_later [OF assms(1,3)] assms(2) by (auto simp: guesses_kept_def)
  have none: "filter (\<lambda>g. t - g < ?w) old = []" using old by (force simp: filter_empty_conv)
  have len: "length (li_failures l key) < max_failures m" using assms(1) by (simp add: guesses_kept_def)
  show "length (filter (\<lambda>g. t - g < ?w) gs) < max_failures m"
    using len order_le_less_trans [OF length_filter_le] by (simp add: gs none new)
  have le: "\<forall>g \<in> set (gs @ [t]). g \<le> t" using assms(1,3) by (auto simp: guesses_kept_def)
  show "guesses_kept m key t (gs @ [t]) (register_failure m key t l)"
  proof (cases "max_failures m \<le> Suc (length ?bucket)")
    case True
    have "\<forall>g \<in> set (gs @ [t]). g + ?w \<le> t + block_time m" using le assms(6) by force
    then show ?thesis
      using True le len assms(4-6) unfolding guesses_kept_def
      by (intro conjI exI [of _ "gs @ [t]"] exI [of _ "[]"]) (auto simp: register_failure_def Let_def)
  next
    case False
    have "filter (\<lambda>g. t - g < ?w) (new @ [t]) = filter (\<lambda>g. t - g < ?w) (?bucket @ [t])"
      using new by simp
    then show ?thesis
      using False le assms(2,4) old unfolding guesses_kept_def
      by (intro conjI exI [of _ old] exI [of _ "new @ [t]"]) (auto simp: register_failure_def Let_def gs)
  qed
qed

lemma length_filter_weaken: "(\<And>x. P x \<Longrightarrow> Q x) \<Longrightarrow> length (filter P xs) \<le> length (filter Q xs)"
  by (induction xs) auto

lemma window_guess:
  assumes "window_ok m gs" and "\<forall>g \<in> set gs. g \<le> t"
    and "length (filter (\<lambda>g. t - g < window_time m) gs) < max_failures m"
  shows "window_ok m (gs @ [t])"
  unfolding window_ok_def
proof
  fix s
  show "length (filter (\<lambda>g. s - window_time m < g \<and> g \<le> s) (gs @ [t])) \<le> max_failures m"
  proof (cases "t \<le> s \<and> s - window_time m < t")
    case True
    have "length (filter (\<lambda>g. s - window_time m < g \<and> g \<le> s) gs) \<le> length (filter (\<lambda>g. t - g < window_time m) gs)"
      using True by (intro length_filter_weaken) auto
    then show ?thesis using True assms(3) by simp
  next
    case False
    then have "\<not> (s - window_time m < t \<and> t \<le> s)" by blast
    then have "filter (\<lambda>g. s - window_time m < g \<and> g \<le> s) [t] = []" by simp
    then show ?thesis using assms(1) by (simp add: window_ok_def del: filter.simps)
  qed
qed

lemma kept_other:
  assumes "guesses_kept m key t gs l" and "li_failures l' key = li_failures l key"
    and "li_blocked l' key = li_blocked l key"
  shows "guesses_kept m key t gs l'"
  using assms(1) unfolding guesses_kept_def assms(2,3) .

lemma attempt_kept:
  assumes kept: "guesses_kept m key now gs l" and win: "window_ok m gs"
    and t: "now \<le> at_asked a" "at_asked a \<le> at_compared a" "0 < now"
    and m: "0 < window_time m" "window_time m \<le> block_time m"
    and wrong: "at_key a = key \<Longrightarrow> \<not> at_correct a"
    and pos: "\<And>k u. li_blocked l k = Some u \<Longrightarrow> 0 < u"
    and step: "login_attempt m a l = (compared, l')"
  defines "gs' \<equiv> gs @ (if compared \<and> at_key a = key \<and> \<not> at_correct a then [at_compared a] else [])"
  shows "guesses_kept m key (at_compared a) gs' l'" and "window_ok m gs'"
    and "\<And>k u. li_blocked l' k = Some u \<Longrightarrow> 0 < u"
proof -
  obtain w l1 where r: "retry_after (at_key a) (at_asked a) l = (w, l1)" by fastforce
  have l1: "guesses_kept m key (at_asked a) gs l1 \<and> (w = 0 \<longrightarrow> li_blocked l1 (at_key a) = None) \<and>
      (\<forall>k u. li_blocked l1 k = Some u \<longrightarrow> 0 < u)"
  proof (rule retry_after_cases [of l "at_key a" "at_asked a"])
    show "\<And>u. li_blocked l (at_key a) = Some u \<Longrightarrow> 0 < u" by (rule pos)
  next
    assume "li_blocked l (at_key a) = None" "retry_after (at_key a) (at_asked a) l = (0, l)"
    then show ?thesis using r kept_later [OF kept t(1)] pos by simp
  next
    fix u w' assume "retry_after (at_key a) (at_asked a) l = (w', l)" "0 < w'"
    then show ?thesis using r kept_later [OF kept t(1)] pos by simp
  next
    fix u assume "li_blocked l (at_key a) = Some u" "u \<le> at_asked a"
      "retry_after (at_key a) (at_asked a) l = (0, l\<lparr>li_blocked := (li_blocked l)(at_key a := None)\<rparr>)"
    then show ?thesis using r kept_freed [OF kept_later [OF kept t(1)]] pos by auto
  qed
  note kept1 = l1 [THEN conjunct1]
  have up: "0 < at_compared a" using t by simp
  have posf: "\<And>k u. li_blocked (register_failure m k' (at_compared a) l1) k = Some u \<Longrightarrow> 0 < u" for k'
    using l1 m up by (auto simp: register_failure_def Let_def split: if_splits)
  have poss: "\<And>k u. li_blocked (register_success k' l1) k = Some u \<Longrightarrow> 0 < u" for k'
    using l1 by (auto simp: register_success_def split: if_splits)
  have all: "guesses_kept m key (at_compared a) gs' l' \<and> window_ok m gs' \<and>
      (\<forall>k u. li_blocked l' k = Some u \<longrightarrow> 0 < u)"
  proof (cases "w = 0")
    case False
    then have "compared = False" "l' = l1" using step r by (simp_all add: login_attempt_def)
    then show ?thesis using kept_later [OF kept1 t(2)] win l1 by (simp add: gs'_def)
  next
    case True
    then have c: compared and l': "l' = (if at_correct a then register_success (at_key a) l1
        else register_failure m (at_key a) (at_compared a) l1)"
      using step r by (simp_all add: login_attempt_def)
    show ?thesis
    proof (cases "at_key a = key")
      case True
      have free: "li_blocked l1 key = None" using l1 \<open>w = 0\<close> True by simp
      note G = guess_kept [OF kept1 free t(2) up m]
      have "\<forall>g \<in> set gs. g \<le> at_compared a"
        using kept_later [OF kept1 t(2)] by (simp add: guesses_kept_def)
      with G window_guess [OF win _ G(2)] posf wrong True c show ?thesis by (simp add: gs'_def l')
    next
      case False
      have "guesses_kept m key (at_compared a) gs l'"
        by (rule kept_other [OF kept_later [OF kept1 t(2)]])
           (use False in \<open>simp_all add: l' register_success_def register_failure_def Let_def\<close>)
      with win posf poss False show ?thesis by (simp add: gs'_def l')
    qed
  qed
  show "guesses_kept m key (at_compared a) gs' l'" "window_ok m gs'"
    "\<And>k u. li_blocked l' k = Some u \<Longrightarrow> 0 < u"
    using all by simp_all
qed

lemma guesses_bounded:
  assumes "guesses_kept m key now gs l" and "window_ok m gs" and "in_order now as" and "0 < now"
    and "0 < window_time m" "window_time m \<le> block_time m"
    and "list_all (\<lambda>a. at_key a = key \<longrightarrow> \<not> at_correct a) as"
    and "\<forall>k u. li_blocked l k = Some u \<longrightarrow> 0 < u"
  shows "window_ok m (gs @ wrong_guesses m key as l)"
  using assms(1-4,7,8)
proof (induction as arbitrary: gs l now)
  case (Cons a as)
  obtain compared l' where step: "login_attempt m a l = (compared, l')" by fastforce
  have t: "now \<le> at_asked a" "at_asked a \<le> at_compared a" "in_order (at_compared a) as"
    using Cons.prems(3) by simp_all
  note A = attempt_kept [OF Cons.prems(1,2) t(1,2) Cons.prems(4) assms(5,6) _ _ step]
  have wrong: "at_key a = key \<Longrightarrow> \<not> at_correct a" using Cons.prems(5) by simp
  have pos: "\<And>k u. li_blocked l k = Some u \<Longrightarrow> 0 < u" using Cons.prems(6) by simp
  have "0 < at_compared a" using t Cons.prems(4) by simp
  from Cons.IH [OF A(1) [OF wrong pos] A(2) [OF wrong pos] t(3) this] A(3) [OF wrong pos] Cons.prems(5)
  show ?case by (simp add: step)
qed simp

section \<open>Properties\<close>



lemma password_hash_verifies:
  assumes "hash_password kdf salt password = Some stored"
    and "\<forall>q h. kdf q salt 32768 8 1 32 = Some h \<longrightarrow> length h = 32"
  shows "verify_password kdf attempt stored =
    Inr (kdf attempt salt 32768 8 1 32 = kdf password salt 32768 8 1 32)"
proof -
  obtain derived where kdf: "kdf password salt 32768 8 1 32 = Some derived"
    and stored: "stored = join ''$''
         [''scrypt'', int_str 32768, int_str 8, int_str 1, b64encode salt, b64encode derived]"
    using assms(1) by (auto simp: hash_password_def)
  have "length derived = 32" using assms(2) kdf by blast
  moreover have "split_on (CHR ''$'') stored =
      [''scrypt'', int_str 32768, int_str 8, int_str 1, b64encode salt, b64encode derived]"
    unfolding stored by (rule split_on_join) (auto simp: int_str_no_dollar dest: b64encode_chars)
  moreover have "is_hashed stored" "stored \<noteq> []"
    by (simp_all add: stored is_hashed_def starts_with_def)
  ultimately show ?thesis
    using kdf
    by (cases "kdf attempt salt 32768 8 1 32")
       (auto simp: verify_password_def parse_int_str b64decode_encode)
qed

text \<open>A stored password hash verifies exactly the passwords with the same key derivation: the
  password it was made from, and no other unless \<open>scrypt\<close> collides; the salt, the cost parameters and the
  digest survive the text form.\<close>

theorem password_round_trip:
  assumes "hash_password kdf salt password = Some stored"
    and "\<forall>q h. kdf q salt 32768 8 1 32 = Some h \<longrightarrow> length h = 32"
  shows "verify_password kdf attempt stored =
    Inr (kdf attempt salt 32768 8 1 32 = kdf password salt 32768 8 1 32)"
  using assms by (rule password_hash_verifies)

theorem password_round_trip_witness:
  "\<exists>stored. hash_password (\<lambda>q s n r p len. Some (take len (q @ replicate len (CHR ''x'')))) ''salt'' ''secret'' = Some stored \<and>
     verify_password (\<lambda>q s n r p len. Some (take len (q @ replicate len (CHR ''x'')))) ''secret'' stored = Inr True"
proof -
  let ?kdf = "\<lambda>q s n r p len. Some (take len (q @ replicate len (CHR ''x'')))"
  obtain stored where h: "hash_password ?kdf ''salt'' ''secret'' = Some stored"
    by (auto simp: hash_password_def)
  have "\<forall>q h. ?kdf q ''salt'' 32768 8 1 32 = Some h \<longrightarrow> length h = 32" by auto
  from password_round_trip [OF h this, of "''secret''"] h show ?thesis by auto
qed

lemma any_result_True:
  "any_result f xs = Inr True \<Longrightarrow> \<exists>x \<in> set xs. f x = Inr True"
  by (induction xs) (auto simp: bind_result_Inr_iff split: if_splits)

text \<open>A state-changing request that carries an \<open>Origin\<close> other than \<open>null\<close> passes the check only when
  that origin has the host and port of one of the request's own hosts, or both are names of the same
  machine on one port.\<close>

theorem cross_origin_request_is_refused:
  assumes "rq_method rq \<notin> safe_methods" and "header rq ''origin'' \<notin> {[], ''null''}"
    and "is_same_origin_request u rq = Inr True"
  shows "\<exists>netloc own host port own_host. own \<in> set (expected_hosts rq) \<and>
     host_of u (header rq ''origin'') = Inr netloc \<and> hostname_port u netloc = Inr (host, port) \<and>
     hostname_port u own = Inr (own_host, port) \<and> host \<noteq> [] \<and>
     (host = own_host \<or> (is_loopback_host host \<and> is_loopback_host own_host))"
proof -
  have "matches_expected u rq (header rq ''origin'') = Inr True"
    using assms by (auto simp: is_same_origin_request_def)
  then obtain own where own: "own \<in> set (expected_hosts rq)"
    and "bind_result (host_of u (header rq ''origin'')) (\<lambda>n. same_host_or_loopback_alias u n own) = Inr True"
    unfolding matches_expected_def by (blast dest: any_result_True)
  then obtain netloc where n: "host_of u (header rq ''origin'') = Inr netloc"
    and same: "same_host_or_loopback_alias u netloc own = Inr True"
    by (auto simp: bind_result_Inr_iff)
  obtain host port where l: "hostname_port u netloc = Inr (host, port)"
    using same by (cases "hostname_port u netloc") (auto simp: same_host_or_loopback_alias_def)
  obtain own_host own_port where r: "hostname_port u own = Inr (own_host, own_port)"
    using same l by (cases "hostname_port u own") (auto simp: same_host_or_loopback_alias_def)
  have "host \<noteq> [] \<and> own_port = port \<and> (host = own_host \<or> is_loopback_host host \<and> is_loopback_host own_host)"
    using same unfolding same_host_or_loopback_alias_def l r bind_result_simps prod.case sum.inject eq_True
    by blast
  with own n l r show ?thesis by blast
qed

theorem cross_origin_request_is_refused_witness:
  "\<exists>netloc. host_of \<lparr>bracketed_ok = (\<lambda>_. False), normal_ok = (\<lambda>_. False)\<rparr> ''https://a.b'' = Inr netloc"
proof -
  let ?u = "\<lparr>bracketed_ok = (\<lambda>_. False), normal_ok = (\<lambda>_. False)\<rparr>"
  let ?rq = "\<lparr>rq_method = ''POST'', rq_path = ''/admin/clients'',
    rq_headers = [(''host'', ''a.b''), (''origin'', ''https://a.b'')], rq_client = None\<rparr>"
  have 1: "rq_method ?rq \<notin> safe_methods" by (simp add: safe_methods_def)
  have o: "header ?rq ''origin'' = ''https://a.b''" by (simp add: header_def)
  have 2: "header ?rq ''origin'' \<notin> {[], ''null''}" unfolding o by simp
  have "matches_expected ?u ?rq ''https://a.b'' = Inr True" by code_simp
  then have 3: "is_same_origin_request ?u ?rq = Inr True"
    unfolding is_same_origin_request_def using 1 2 o by simp
  from cross_origin_request_is_refused [OF 1 2 3] show ?thesis unfolding o by blast
qed

text \<open>The number of attempts whose credentials were compared.\<close>

fun compared_attempts :: "limits \<Rightarrow> login_try list \<Rightarrow> limiter \<Rightarrow> nat" where
  "compared_attempts m [] l = 0"
| "compared_attempts m (a # as) l =
     (case login_attempt m a l of (compared, l') \<Rightarrow> (if compared then 1 else 0) + compared_attempts m as l')"

lemma fresh_keys_compared:
  assumes "distinct (map at_key as)" and "\<forall>a \<in> set as. li_blocked l (at_key a) = None"
  shows "compared_attempts m as l = length as"
  using assms
proof (induction as arbitrary: l)
  case (Cons a as)
  obtain compared l' where step: "login_attempt m a l = (compared, l')" by fastforce
  have "retry_after (at_key a) (at_asked a) l = (0, l)" using Cons.prems(2) by (simp add: retry_after_def)
  with step have c: compared and l': "l' = (if at_correct a then register_success (at_key a) l
      else register_failure m (at_key a) (at_compared a) l)"
    by (simp_all add: login_attempt_def)
  have "\<forall>b \<in> set as. li_blocked l' (at_key b) = None"
  proof
    fix b assume b: "b \<in> set as"
    then have "at_key b \<noteq> at_key a" using Cons.prems(1) by (auto simp: image_iff)
    with b Cons.prems(2) show "li_blocked l' (at_key b) = None"
      by (simp add: l' register_success_def register_failure_def Let_def)
  qed
  with Cons.IH Cons.prems(1) have "compared_attempts m as l' = length as" by simp
  with step c show ?case by simp
qed simp

text \<open>A request from the proxy, which appends the peer's address to the header the peer sent.\<close>

definition proxied :: "string \<Rightarrow> string \<Rightarrow> request" where
  "proxied sent peer = \<lparr>rq_method = ''GET'', rq_path = ''/admin'',
     rq_headers = [(''x-forwarded-for'', sent @ '', '' @ peer)], rq_client = Some ''127.0.0.1''\<rparr>"

lemma proxied_key: "CHR '','' \<notin> set sent \<Longrightarrow> client_key (proxied sent peer) = py_strip sent"
  by (simp add: client_key_def proxied_def header_def split_on_append)

text \<open>C28.  The limiter's key is the first address of \<open>X-Forwarded-For\<close>, which behind a proxy that appends
  to the header is whatever the peer wrote there: a peer that sends a new text with every attempt has
  every one of its guesses compared, however many there are and however fast they come.\<close>

theorem forged_forwarding_escapes_the_limiter:
  assumes "distinct (map py_strip texts)" and "\<forall>x \<in> set texts. CHR '','' \<notin> set x"
  shows "compared_attempts login_limits
     (map (\<lambda>x. \<lparr>at_key = client_key (proxied x peer), at_asked = t, at_compared = t, at_correct = False\<rparr>) texts)
     new_limiter = length texts"
proof -
  let ?as = "map (\<lambda>x. \<lparr>at_key = client_key (proxied x peer), at_asked = t, at_compared = t, at_correct = False\<rparr>) texts"
  have "map at_key ?as = map py_strip texts" using assms(2) by (simp add: proxied_key)
  then have "distinct (map at_key ?as)" using assms(1) by (simp only:)
  then have "compared_attempts login_limits ?as new_limiter = length ?as"
    by (rule fresh_keys_compared) (simp add: new_limiter_def)
  then show ?thesis by simp
qed

theorem forged_forwarding_escapes_the_limiter_witness:
  "compared_attempts login_limits
     (map (\<lambda>x. \<lparr>at_key = client_key (proxied x ''198.51.100.7''), at_asked = 1, at_compared = 1, at_correct = False\<rparr>)
        (map nat_str [0..<40])) new_limiter = 40"
proof -
  have "map py_strip (map nat_str [0..<40]) = map nat_str [0..<40]"
  proof -
    have "py_strip (nat_str n) = nat_str n" for n
      using nat_str_digits [of n] by (intro py_strip_id) (simp_all add: digit_not_space hd_in_set last_in_set)
    then show ?thesis by simp
  qed
  moreover have "distinct (map nat_str [0..<40])" by (simp add: distinct_map inj_on_def nat_str_inj)
  moreover have "\<forall>x \<in> set (map nat_str [0..<40]). CHR '','' \<notin> set x"
    using nat_str_digits by (fastforce simp: is_digit_def byte_def)
  ultimately have d: "distinct (map py_strip (map nat_str [0..<40]))"
    and c: "\<forall>x \<in> set (map nat_str [0..<40]). CHR '','' \<notin> set x"
    by (simp_all only:)
  from forged_forwarding_escapes_the_limiter [OF d c, of "''198.51.100.7''" 1] show ?thesis by simp
qed

end
