(* ===== verification/RouterApply.thy ===== *)
theory RouterApply
  imports RouterCred Security
begin

text \<open>
  Results that routers report back (\<open>app/router_apply_results.py\<close>): validation of the reported
  document, in particular of its free-form diagnostics, and the idempotent recording under a key the
  router chooses.  Parameters: \<open>sha\<close> is the hexadecimal SHA-256 digest, \<open>other\<close> tells of a code point
  whether its Unicode category starts with \<open>C\<close>.
\<close>

section \<open>Texts\<close>

definition alnum :: "char \<Rightarrow> bool" where
  "alnum c \<longleftrightarrow> (48 \<le> byte c \<and> byte c \<le> 57) \<or> (65 \<le> byte c \<and> byte c \<le> 90) \<or> (97 \<le> byte c \<and> byte c \<le> 122)"

definition idempotency_pattern :: "string \<Rightarrow> bool" where
  "idempotency_pattern s = (case s of
       [] \<Rightarrow> False
     | c # cs \<Rightarrow> alnum c \<and> length cs \<le> 127 \<and>
         list_all (\<lambda>c. alnum c \<or> c \<in> {CHR ''.'', CHR ''_'', CHR ''~'', CHR ''-''}) cs)"

definition validate_idempotency_key :: "string \<Rightarrow> exn + string" where
  "validate_idempotency_key v =
     (if idempotency_pattern v then Inr v
      else Inl (RouterApplyValidationError ''Invalid idempotency key''))"

definition sha256_pattern :: "string \<Rightarrow> bool" where
  "sha256_pattern s \<longleftrightarrow> length s = 64 \<and>
     list_all (\<lambda>c. (48 \<le> byte c \<and> byte c \<le> 57) \<or> (97 \<le> byte c \<and> byte c \<le> 102)) s"

definition profile_pattern :: "string \<Rightarrow> bool" where
  "profile_pattern s = (case s of
       [] \<Rightarrow> False
     | c # cs \<Rightarrow> alnum c \<and> length cs \<le> 63 \<and>
         list_all (\<lambda>c. alnum c \<or> c \<in> {CHR ''_'', CHR ''.'', CHR '':'', CHR ''-''}) cs)"

definition hexadecimal :: "char \<Rightarrow> bool" where
  "hexadecimal c \<longleftrightarrow> hex_value c \<noteq> None"

definition uuid_pattern :: "string \<Rightarrow> bool" where
  "uuid_pattern s \<longleftrightarrow>
     map length (split_on (CHR ''-'') s) = [8, 4, 4, 4, 12] \<and>
     list_all (list_all hexadecimal) (split_on (CHR ''-'') s)"

definition secret_pattern :: "string \<Rightarrow> bool" where
  "secret_pattern s \<longleftrightarrow> 32 \<le> length s \<and> length s \<le> 256 \<and>
     list_all (\<lambda>c. alnum c \<or> c \<in> {CHR ''_'', CHR ''+'', CHR ''/'', CHR ''='', CHR ''-''}) s"

definition has_control_character :: "(nat \<Rightarrow> bool) \<Rightarrow> string \<Rightarrow> bool" where
  "has_control_character other s = list_ex other (code_points s)"

definition sensitive_markers :: "string list" where
  "sensitive_markers =
     [''-----begin '', ''authorization:'', ''bearer '', ''password='', ''private key'',
      ''presharedkey'', ''avrt_'', ''vless://'', ''hy2://'', ''vpn://'']"

definition looks_sensitive :: "string \<Rightarrow> bool" where
  "looks_sensitive s \<longleftrightarrow>
     list_ex (\<lambda>m. contains m (py_lower s)) sensitive_markers \<or> uuid_pattern s \<or> secret_pattern s"

section \<open>Diagnostics\<close>

definition forbidden_key_parts :: "string list" where
  "forbidden_key_parts =
     [''authorization'', ''cookie'', ''password'', ''privatekey'', ''private_key'', ''preshared'',
      ''secret'', ''token'']"

definition normalized_key :: "string \<Rightarrow> string" where
  "normalized_key key = map (\<lambda>c. if c = CHR ''-'' then CHR ''_'' else c) (py_lower key)"

definition without_underscores :: "string \<Rightarrow> string" where
  "without_underscores s = filter (\<lambda>c. c \<noteq> CHR ''_'') s"

definition key_may_be_secret :: "string \<Rightarrow> bool" where
  "key_may_be_secret key \<longleftrightarrow>
     list_ex (\<lambda>p. contains p (normalized_key key) \<or>
       contains (without_underscores p) (without_underscores (normalized_key key))) forbidden_key_parts"

definition code_pattern :: "string \<Rightarrow> bool" where
  "code_pattern s = (case s of
       [] \<Rightarrow> False
     | c # cs \<Rightarrow> 97 \<le> byte c \<and> byte c \<le> 122 \<and> length cs \<le> 63 \<and>
         list_all (\<lambda>c. (97 \<le> byte c \<and> byte c \<le> 122) \<or> (48 \<le> byte c \<and> byte c \<le> 57) \<or> c = CHR ''_'') cs)"

definition is_code_member :: "string \<Rightarrow> json \<Rightarrow> bool" where
  "is_code_member key child \<longleftrightarrow> normalized_key key \<in> {''code'', ''stage''} \<and>
     (case child of JStr s \<Rightarrow> code_pattern s | _ \<Rightarrow> False)"

abbreviation invalid :: "string \<Rightarrow> exn + 'a" where
  "invalid m \<equiv> Inl (RouterApplyValidationError m)"

definition check_text :: "(nat \<Rightarrow> bool) \<Rightarrow> string \<Rightarrow> exn + unit" where
  "check_text other s =
     (if 500 < py_len s then invalid ''Diagnostic string is too long''
      else if has_control_character other s then invalid ''Diagnostics contain control characters''
      else if CHR ''<'' \<in> set s \<or> CHR ''>'' \<in> set s then invalid ''Diagnostics cannot contain HTML markup''
      else if looks_sensitive s then invalid ''Diagnostics may contain secret material''
      else Inr ())"

definition check_key :: "(nat \<Rightarrow> bool) \<Rightarrow> string \<Rightarrow> exn + unit" where
  "check_key other key =
     (if key = [] \<or> 64 < py_len key then invalid ''Diagnostic key is invalid''
      else if has_control_character other key \<or> CHR ''<'' \<in> set key \<or> CHR ''>'' \<in> set key then
        invalid ''Diagnostic key is invalid''
      else if key_may_be_secret key then invalid ''Diagnostic key may contain secret material''
      else Inr ())"

text \<open>
  \<open>_validate_diagnostic_value\<close>; the mutable \<open>budget\<close> is the number of values seen so far, returned
  with the value.
\<close>

fun validate_value :: "(nat \<Rightarrow> bool) \<Rightarrow> nat \<Rightarrow> nat \<Rightarrow> json \<Rightarrow> exn + json \<times> nat"
  and validate_items :: "(nat \<Rightarrow> bool) \<Rightarrow> nat \<Rightarrow> nat \<Rightarrow> json list \<Rightarrow> exn + json list \<times> nat"
  and validate_members ::
    "(nat \<Rightarrow> bool) \<Rightarrow> nat \<Rightarrow> nat \<Rightarrow> (string \<times> json) list \<Rightarrow> exn + (string \<times> json) list \<times> nat" where
  "validate_value other depth used v =
     (if 5 < depth then invalid ''Diagnostics nesting is too deep''
      else if 128 < used + 1 then invalid ''Diagnostics contain too many values''
      else (case v of
          JNull \<Rightarrow> Inr (JNull, used + 1)
        | JBool b \<Rightarrow> Inr (JBool b, used + 1)
        | JInt i \<Rightarrow> Inr (JInt i, used + 1)
        | JFloat r \<Rightarrow>
            if r \<in> {''inf'', ''-inf'', ''nan''} then invalid ''Diagnostics contain a non-finite number''
            else Inr (JFloat r, used + 1)
        | JStr s \<Rightarrow> bind_result (check_text other s) (\<lambda>_. Inr (JStr s, used + 1))
        | JList vs \<Rightarrow>
            if 32 < length vs then invalid ''Diagnostic list is too long''
            else bind_result (validate_items other (depth + 1) (used + 1) vs) (\<lambda>(ws, n). Inr (JList ws, n))
        | JObj kvs \<Rightarrow>
            if 32 < length kvs then invalid ''Diagnostic object has too many keys''
            else bind_result (validate_members other (depth + 1) (used + 1) kvs)
              (\<lambda>(ws, n). Inr (JObj ws, n))))"
| "validate_items other depth used [] = Inr ([], used)"
| "validate_items other depth used (v # vs) =
     bind_result (validate_value other depth used v) (\<lambda>(w, n).
     bind_result (validate_items other depth n vs) (\<lambda>(ws, n'). Inr (w # ws, n')))"
| "validate_members other depth used [] = Inr ([], used)"
| "validate_members other depth used ((k, v) # kvs) =
     bind_result (check_key other k) (\<lambda>_.
     bind_result (if is_code_member k v then Inr (v, used) else validate_value other depth used v) (\<lambda>(w, n).
     bind_result (validate_members other depth n kvs) (\<lambda>(ws, n'). Inr ((k, w) # ws, n'))))"

section \<open>The reported document\<close>

record apply_report =
  ar_revision :: int
  ar_snapshot_sha256 :: string
  ar_outcome :: apply_outcome
  ar_active_profile :: "string option"
  ar_capabilities :: json
  ar_diagnostics :: json
  ar_canonical_body :: string
  ar_body_sha256 :: string

definition report_keys :: "string list" where
  "report_keys = [''schema_version'', ''revision'', ''snapshot_sha256'', ''outcome'', ''active_profile'',
     ''capabilities'', ''diagnostics'']"

definition capability_names :: "string list" where
  "capability_names = [''vless'', ''hysteria2'', ''amneziawg'', ''zapret'', ''policy_routing'']"

definition outcome_of :: "string \<Rightarrow> apply_outcome option" where
  "outcome_of s =
     (if s = ''APPLIED'' then Some OutApplied else if s = ''DEGRADED'' then Some OutDegraded
      else if s = ''FAILED'' then Some OutFailed else None)"

fun outcome_text :: "apply_outcome \<Rightarrow> string" where
  "outcome_text OutApplied = ''APPLIED''"
| "outcome_text OutDegraded = ''DEGRADED''"
| "outcome_text OutFailed = ''FAILED''"

text \<open>\<open>payload["schema_version"] != 1\<close>: \<open>True\<close> and \<open>1.0\<close> equal \<open>1\<close>.\<close>

definition equals_one :: "json \<Rightarrow> bool" where
  "equals_one v \<longleftrightarrow> v = JInt 1 \<or> v = JBool True \<or> v = JFloat ''1.0''"

definition the_member :: "(string \<times> json) list \<Rightarrow> string \<Rightarrow> json" where
  "the_member kvs k = (case map_of kvs k of Some v \<Rightarrow> v | None \<Rightarrow> JNull)"

definition report_revision :: "json \<Rightarrow> exn + int" where
  "report_revision v = (case v of
       JInt i \<Rightarrow> if i < 0 then invalid ''revision must be a non-negative integer'' else Inr i
     | _ \<Rightarrow> invalid ''revision must be a non-negative integer'')"

definition report_digest :: "json \<Rightarrow> exn + string" where
  "report_digest v = (case v of
       JStr s \<Rightarrow> if sha256_pattern s then Inr s else invalid ''snapshot_sha256 must be lowercase SHA-256''
     | _ \<Rightarrow> invalid ''snapshot_sha256 must be lowercase SHA-256'')"

definition report_outcome :: "json \<Rightarrow> exn + apply_outcome" where
  "report_outcome v = (case v of
       JStr s \<Rightarrow> (case outcome_of s of Some out \<Rightarrow> Inr out | None \<Rightarrow> invalid ''Invalid apply outcome'')
     | _ \<Rightarrow> invalid ''Invalid apply outcome'')"

definition report_profile :: "json \<Rightarrow> exn + string option" where
  "report_profile v = (case v of
       JNull \<Rightarrow> Inr None
     | JStr s \<Rightarrow> if profile_pattern s then Inr (Some s) else invalid ''active_profile is invalid''
     | _ \<Rightarrow> invalid ''active_profile is invalid'')"

definition report_capabilities :: "json \<Rightarrow> exn + json" where
  "report_capabilities v = (case v of
       JObj kvs \<Rightarrow>
         if sort (map fst kvs) \<noteq> sort capability_names then invalid ''capabilities has an invalid schema''
         else if list_ex (\<lambda>n. case the_member kvs n of JBool _ \<Rightarrow> False | _ \<Rightarrow> True) capability_names then
           invalid ''Capability values must be booleans''
         else Inr (JObj (map (\<lambda>n. (n, the_member kvs n)) capability_names))
     | _ \<Rightarrow> invalid ''capabilities has an invalid schema'')"

definition report_diagnostics :: "(nat \<Rightarrow> bool) \<Rightarrow> json \<Rightarrow> exn + json" where
  "report_diagnostics other v = (case v of
       JObj kvs \<Rightarrow>
         bind_result (validate_value other 0 0 v) (\<lambda>(w, _).
           if 8 * 1024 < int (length (dumps w)) then invalid ''Diagnostics are too large'' else Inr w)
     | _ \<Rightarrow> invalid ''diagnostics must be a JSON object'')"

definition report_body :: "int \<Rightarrow> string \<Rightarrow> apply_outcome \<Rightarrow> string option \<Rightarrow> json \<Rightarrow> json \<Rightarrow> json" where
  "report_body revision digest outcome profile capabilities diagnostics =
     JObj [(''schema_version'', JInt 1), (''revision'', JInt revision), (''snapshot_sha256'', JStr digest),
       (''outcome'', JStr (outcome_text outcome)),
       (''active_profile'', case profile of None \<Rightarrow> JNull | Some p \<Rightarrow> JStr p),
       (''capabilities'', capabilities), (''diagnostics'', diagnostics)]"

definition validate_router_apply_result ::
  "(string \<Rightarrow> string) \<Rightarrow> (nat \<Rightarrow> bool) \<Rightarrow> json \<Rightarrow> exn + apply_report" where
  "validate_router_apply_result sha other payload = (case payload of
       JObj kvs \<Rightarrow>
         if set (map fst kvs) \<noteq> set report_keys then invalid ''Request body has an invalid schema''
         else if \<not> equals_one (the_member kvs ''schema_version'') then
           invalid ''Unsupported apply result schema version''
         else
           bind_result (report_revision (the_member kvs ''revision'')) (\<lambda>revision.
           bind_result (report_digest (the_member kvs ''snapshot_sha256'')) (\<lambda>digest.
           bind_result (report_outcome (the_member kvs ''outcome'')) (\<lambda>outcome.
           bind_result (report_profile (the_member kvs ''active_profile'')) (\<lambda>profile.
           bind_result (report_capabilities (the_member kvs ''capabilities'')) (\<lambda>capabilities.
           bind_result (report_diagnostics other (the_member kvs ''diagnostics'')) (\<lambda>diagnostics.
             let body = dumps (report_body revision digest outcome profile capabilities diagnostics) in
             Inr \<lparr>ar_revision = revision, ar_snapshot_sha256 = digest, ar_outcome = outcome,
                  ar_active_profile = profile, ar_capabilities = capabilities,
                  ar_diagnostics = diagnostics, ar_canonical_body = body,
                  ar_body_sha256 = sha body\<rparr>))))))
     | _ \<Rightarrow> invalid ''Request body must be a JSON object'')"

section \<open>Recording\<close>

record stored_result =
  so_id :: int
  so_credential_id :: string
  so_idempotency_key :: string
  so_revision :: int
  so_snapshot_sha256 :: string
  so_snapshot_etag :: string
  so_outcome :: apply_outcome
  so_active_profile :: "string option"
  so_created_at :: ts
  so_replayed :: bool

definition stored_of :: "apply_row \<Rightarrow> bool \<Rightarrow> stored_result" where
  "stored_of a replayed =
     \<lparr>so_id = ap_id a, so_credential_id = ap_credential_id a, so_idempotency_key = ap_idempotency_key a,
      so_revision = ap_revision a, so_snapshot_sha256 = ap_snapshot_sha256 a,
      so_snapshot_etag = ap_snapshot_etag a, so_outcome = ap_outcome a,
      so_active_profile = ap_active_profile a, so_created_at = ap_created_at a, so_replayed = replayed\<rparr>"

definition result_at :: "string \<Rightarrow> string \<Rightarrow> db \<Rightarrow> apply_row option" where
  "result_at cid key d =
     select_first (\<lambda>a. ap_credential_id a = cid \<and> ap_idempotency_key a = key) (apply_results d)"

text \<open>\<open>INSERT\<close> with the table's constraints.\<close>

definition insert_result :: "apply_row \<Rightarrow> db \<Rightarrow> exn + db" where
  "insert_result a d =
     (if 1 \<le> py_len (ap_idempotency_key a) \<and> py_len (ap_idempotency_key a) \<le> 128 \<and>
         py_len (ap_body_sha256 a) = 64 \<and> py_len (ap_snapshot_sha256 a) = 64 \<and>
         py_len (ap_snapshot_etag a) = 66 \<and> int (py_len (ap_capabilities_json a)) \<le> 4096 \<and>
         int (py_len (ap_diagnostics_json a)) \<le> 8192 \<and>
         ap_credential_id a \<in> cr_credential_id ` set (credentials d) \<and>
         ap_revision a \<in> sn_revision ` set (snapshots d) \<and>
         result_at (ap_credential_id a) (ap_idempotency_key a) d = None
      then Inr (d\<lparr>apply_results := apply_results d @ [a], apply_seq := ap_id a\<rparr>)
      else Inl (IntegrityError ''router_apply_results''))"

definition conflict :: "string \<Rightarrow> int option \<Rightarrow> exn + 'a" where
  "conflict code revision = Inl (RouterApplyConflictError code revision)"

definition replay_of :: "apply_report \<Rightarrow> string \<Rightarrow> int option \<Rightarrow> apply_row \<Rightarrow> exn + stored_result" where
  "replay_of rp etag revision a =
     (if ap_body_sha256 a \<noteq> ar_body_sha256 rp then conflict ''idempotency_conflict'' revision
      else bind_result (compare_digest (ap_snapshot_etag a) etag) (\<lambda>same.
        if same then Inr (stored_of a True) else conflict ''etag_mismatch'' revision))"

definition new_result :: "int \<Rightarrow> string \<Rightarrow> string \<Rightarrow> apply_report \<Rightarrow> string \<Rightarrow> int \<Rightarrow> apply_row" where
  "new_result rid cid key rp etag at =
     \<lparr>ap_id = rid, ap_credential_id = cid, ap_idempotency_key = key, ap_body_sha256 = ar_body_sha256 rp,
      ap_revision = ar_revision rp, ap_snapshot_sha256 = ar_snapshot_sha256 rp, ap_snapshot_etag = etag,
      ap_outcome = ar_outcome rp, ap_active_profile = ar_active_profile rp,
      ap_capabilities_json = dumps (ar_capabilities rp), ap_diagnostics_json = dumps (ar_diagnostics rp),
      ap_created_at = iso at, ap_updated_at = iso at\<rparr>"

definition applied_snapshot :: "int \<Rightarrow> db \<Rightarrow> snapshot_row option" where
  "applied_snapshot revision d =
     select_first (\<lambda>s. sn_revision s = revision \<and> sn_lifecycle s = SnapApplied) (snapshots d)"

definition record_router_apply_result ::
  "int \<Rightarrow> string \<Rightarrow> string \<Rightarrow> apply_report \<Rightarrow> string \<Rightarrow> stored_result tx" where
  "record_router_apply_result at cid key rp etag d =
     bind_result (validate_idempotency_key key) (\<lambda>key.
       case applied_revision (vpn_state d) of
         None \<Rightarrow> conflict ''snapshot_not_ready'' None
       | Some revision \<Rightarrow>
           (case applied_snapshot revision d of
              None \<Rightarrow> conflict ''snapshot_conflict'' (Some revision)
            | Some s \<Rightarrow>
                if ar_revision rp \<noteq> revision \<or> ar_snapshot_sha256 rp \<noteq> sn_payload_sha256 s then
                  conflict ''snapshot_conflict'' (Some revision)
                else (case result_at cid key d of
                    Some a \<Rightarrow> bind_result (replay_of rp etag (Some revision) a) (\<lambda>st. Inr (st, d))
                  | None \<Rightarrow>
                      (let a = new_result (apply_seq d + 1) cid key rp etag at in
                       case insert_result a d of
                         Inr d' \<Rightarrow> Inr (stored_of a False, d')
                       | Inl _ \<Rightarrow>
                           (case result_at cid key d of
                              None \<Rightarrow> conflict ''idempotency_conflict'' (Some revision)
                            | Some a \<Rightarrow> bind_result (replay_of rp etag (Some revision) a)
                                (\<lambda>st. Inr (st, d)))))))"

definition find_router_apply_result_replay ::
  "string \<Rightarrow> string \<Rightarrow> apply_report \<Rightarrow> string \<Rightarrow> db \<Rightarrow> exn + stored_result option" where
  "find_router_apply_result_replay cid key rp etag d = (case result_at cid key d of
       None \<Rightarrow> Inr None
     | Some a \<Rightarrow> bind_result (replay_of rp etag None a) (\<lambda>st. Inr (Some st)))"

text \<open>The columns the listings show: not the digest of the body, and not the two documents.\<close>

record result_metadata =
  rm_id :: int
  rm_credential_id :: string
  rm_idempotency_key :: string
  rm_revision :: int
  rm_snapshot_sha256 :: string
  rm_snapshot_etag :: string
  rm_outcome :: apply_outcome
  rm_active_profile :: "string option"
  rm_created_at :: ts
  rm_updated_at :: ts

definition metadata_of :: "apply_row \<Rightarrow> result_metadata" where
  "metadata_of a =
     \<lparr>rm_id = ap_id a, rm_credential_id = ap_credential_id a, rm_idempotency_key = ap_idempotency_key a,
      rm_revision = ap_revision a, rm_snapshot_sha256 = ap_snapshot_sha256 a,
      rm_snapshot_etag = ap_snapshot_etag a, rm_outcome = ap_outcome a,
      rm_active_profile = ap_active_profile a, rm_created_at = ap_created_at a,
      rm_updated_at = ap_updated_at a\<rparr>"

definition list_router_apply_results :: "int \<Rightarrow> db \<Rightarrow> result_metadata list" where
  "list_router_apply_results limit d =
     map metadata_of (take (nat (min (max limit 1) 200)) (rev (apply_results d)))"

definition get_router_apply_result :: "int \<Rightarrow> db \<Rightarrow> (result_metadata \<times> json option \<times> json option) option" where
  "get_router_apply_result rid d =
     map_option (\<lambda>a. (metadata_of a, loads (ap_capabilities_json a), loads (ap_diagnostics_json a)))
       (select_first (\<lambda>a. ap_id a = rid) (apply_results d))"

section \<open>What accepted diagnostics contain\<close>

text \<open>
  The depth of a value, the values counted against the budget, and every key and text in it; a
  well-formed \<open>code\<close> or \<open>stage\<close> is neither counted nor a free text.
\<close>

fun height :: "json \<Rightarrow> nat" and items_height :: "json list \<Rightarrow> nat"
  and members_height :: "(string \<times> json) list \<Rightarrow> nat" where
  "height (JList vs) = items_height vs"
| "height (JObj kvs) = members_height kvs"
| "height _ = 0"
| "items_height [] = 0"
| "items_height (v # vs) = max (Suc (height v)) (items_height vs)"
| "members_height [] = 0"
| "members_height ((k, v) # kvs) = max (Suc (height v)) (members_height kvs)"

fun counted :: "json \<Rightarrow> nat" and counted_items :: "json list \<Rightarrow> nat"
  and counted_members :: "(string \<times> json) list \<Rightarrow> nat" where
  "counted (JList vs) = Suc (counted_items vs)"
| "counted (JObj kvs) = Suc (counted_members kvs)"
| "counted _ = 1"
| "counted_items [] = 0"
| "counted_items (v # vs) = counted v + counted_items vs"
| "counted_members [] = 0"
| "counted_members ((k, v) # kvs) = (if is_code_member k v then 0 else counted v) + counted_members kvs"

fun keys_in :: "json \<Rightarrow> string list" and keys_in_items :: "json list \<Rightarrow> string list"
  and keys_in_members :: "(string \<times> json) list \<Rightarrow> string list" where
  "keys_in (JList vs) = keys_in_items vs"
| "keys_in (JObj kvs) = keys_in_members kvs"
| "keys_in _ = []"
| "keys_in_items [] = []"
| "keys_in_items (v # vs) = keys_in v @ keys_in_items vs"
| "keys_in_members [] = []"
| "keys_in_members ((k, v) # kvs) = k # keys_in v @ keys_in_members kvs"

fun texts_in :: "json \<Rightarrow> string list" and texts_in_items :: "json list \<Rightarrow> string list"
  and texts_in_members :: "(string \<times> json) list \<Rightarrow> string list" where
  "texts_in (JStr s) = [s]"
| "texts_in (JList vs) = texts_in_items vs"
| "texts_in (JObj kvs) = texts_in_members kvs"
| "texts_in _ = []"
| "texts_in_items [] = []"
| "texts_in_items (v # vs) = texts_in v @ texts_in_items vs"
| "texts_in_members [] = []"
| "texts_in_members ((k, v) # kvs) =
     (if is_code_member k v then [] else texts_in v) @ texts_in_members kvs"

definition vetted :: "(nat \<Rightarrow> bool) \<Rightarrow> string list \<Rightarrow> string list \<Rightarrow> bool" where
  "vetted other keys texts \<longleftrightarrow>
     list_all (\<lambda>k. check_key other k = Inr ()) keys \<and> list_all (\<lambda>t. check_text other t = Inr ()) texts"

lemma vetted_append [simp]:
  "vetted other (ks @ ks') (ts @ ts') \<longleftrightarrow> vetted other ks ts \<and> vetted other ks' ts'"
  by (auto simp: vetted_def)

lemma vetted_Nil [simp]: "vetted other [] []"
  by (simp add: vetted_def)

lemma code_member_leaf: "is_code_member k v \<Longrightarrow> height v = 0 \<and> keys_in v = []"
  by (cases v) (auto simp: is_code_member_def)

lemma validate_value_sound:
  "validate_value other depth used v = Inr (w, n) \<Longrightarrow>
     w = v \<and> n = used + counted v \<and> (used \<le> 128 \<longrightarrow> n \<le> 128) \<and> depth + height v \<le> 6 \<and>
     vetted other (keys_in v) (texts_in v)"
  "validate_items other depth used vs = Inr (ws, n) \<Longrightarrow> depth \<le> 6 \<Longrightarrow>
     ws = vs \<and> n = used + counted_items vs \<and> (used \<le> 128 \<longrightarrow> n \<le> 128) \<and> depth + items_height vs \<le> 7 \<and>
     vetted other (keys_in_items vs) (texts_in_items vs)"
  "validate_members other depth used kvs = Inr (ms, n) \<Longrightarrow> depth \<le> 6 \<Longrightarrow>
     ms = kvs \<and> n = used + counted_members kvs \<and> (used \<le> 128 \<longrightarrow> n \<le> 128) \<and>
     depth + members_height kvs \<le> 7 \<and> vetted other (keys_in_members kvs) (texts_in_members kvs)"
proof (induction other depth used v and other depth used vs and other depth used kvs
    arbitrary: w n and ws n and ms n
    rule: validate_value_validate_items_validate_members.induct)
  case (1 other depth used v)
  have g: "\<not> 5 < depth" "\<not> 128 < used + 1" using "1.prems" by (auto split: if_splits)
  show ?case
  proof (cases v)
    case (JStr s)
    with "1.prems" g show ?thesis
      by (auto simp: bind_result_Inr_iff vetted_def split: if_splits)
  next
    case (JList vs)
    with "1.prems" g obtain ws where "validate_items other (depth + 1) (used + 1) vs = Inr (ws, n)" "w = JList ws"
      by (auto simp: bind_result_Inr_iff split: if_splits)
    moreover have "\<not> 32 < length vs" using "1.prems" g JList by (auto split: if_splits)
    ultimately show ?thesis using "1.IH"(1) [OF g JList, of ws n] g by (simp add: JList)
  next
    case (JObj kvs)
    with "1.prems" g obtain ws where "validate_members other (depth + 1) (used + 1) kvs = Inr (ws, n)" "w = JObj ws"
      by (auto simp: bind_result_Inr_iff split: if_splits)
    moreover have "\<not> 32 < length kvs" using "1.prems" g JObj by (auto split: if_splits)
    ultimately show ?thesis using "1.IH"(2) [OF g JObj, of ws n] g by (simp add: JObj)
  qed (use "1.prems" g in \<open>auto split: if_splits\<close>)
next
  case (3 other depth used v vs)
  then obtain w1 n1 ws' where 1: "validate_value other depth used v = Inr (w1, n1)"
    and 2: "validate_items other depth n1 vs = Inr (ws', n)" "ws = w1 # ws'"
    by (auto simp: bind_result_Inr_iff simp del: validate_value.simps)
  have "depth \<le> 5" using 1 by (auto split: if_splits)
  with "3.IH"(1) [OF 1] "3.IH"(2) [OF 2(1)] 2(2) show ?case by auto
next
  case (5 other depth used k v kvs)
  let ?head = "if is_code_member k v then Inr (v, used) else validate_value other depth used v"
  obtain w1 n1 ms' where k: "check_key other k = Inr ()" and 1: "?head = Inr (w1, n1)"
    and 2: "validate_members other depth n1 kvs = Inr (ms', n)" "ms = (k, w1) # ms'"
    using "5.prems" by (auto simp: bind_result_Inr_iff simp del: validate_value.simps)
  have head: "w1 = v \<and> n1 = used + (if is_code_member k v then 0 else counted v) \<and>
      (used \<le> 128 \<longrightarrow> n1 \<le> 128) \<and> depth + height v \<le> 6 \<and>
      vetted other (keys_in v) (if is_code_member k v then [] else texts_in v)"
  proof (cases "is_code_member k v")
    case True
    then show ?thesis using 1 "5.prems"(2) code_member_leaf [OF True] by simp
  next
    case False
    then show ?thesis using "5.IH"(1) [OF False, of w1 n1] 1 False by (auto simp del: validate_value.simps)
  qed
  have rest: "ms' = kvs \<and> n = n1 + counted_members kvs \<and> (n1 \<le> 128 \<longrightarrow> n \<le> 128) \<and>
      depth + members_height kvs \<le> 7 \<and> vetted other (keys_in_members kvs) (texts_in_members kvs)"
    by (rule "5.IH"(2) [OF 2(1) "5.prems"(2)])
  have "vetted other [k] []" using k by (simp add: vetted_def)
  then have "vetted other (keys_in_members ((k, v) # kvs)) (texts_in_members ((k, v) # kvs))"
    using head rest by (simp add: vetted_def)
  moreover have "ms = (k, v) # kvs" using head rest 2(2) by blast
  moreover have "n = used + counted_members ((k, v) # kvs)" using head rest by simp
  moreover have "used \<le> 128 \<longrightarrow> n \<le> 128" using head rest by blast
  moreover have "depth + height v \<le> 6" "depth + members_height kvs \<le> 7" using head rest by blast+
  then have "depth + members_height ((k, v) # kvs) \<le> 7" by (simp add: max_def)
  ultimately show ?case by blast
qed simp_all

section \<open>Properties\<close>


lemma record_cases:
  assumes "record_router_apply_result at cid key rp etag d = Inr (st, d')"
  obtains revision s where "idempotency_pattern key" "applied_revision (vpn_state d) = Some revision"
    "applied_snapshot revision d = Some s" "ar_revision rp = revision" "ar_snapshot_sha256 rp = sn_payload_sha256 s"
    and "(\<exists>a. result_at cid key d = Some a \<and> ap_body_sha256 a = ar_body_sha256 rp \<and> ap_snapshot_etag a = etag \<and>
            st = stored_of a True \<and> d' = d) \<or>
         (result_at cid key d = None \<and> st = stored_of (new_result (apply_seq d + 1) cid key rp etag at) False \<and>
            insert_result (new_result (apply_seq d + 1) cid key rp etag at) d = Inr d')"
proof -
  note R = assms [unfolded record_router_apply_result_def validate_idempotency_key_def]
  have 1: "idempotency_pattern key" using R by (rule_tac ccontr) simp
  obtain revision where 2: "applied_revision (vpn_state d) = Some revision"
    using R 1 by (cases "applied_revision (vpn_state d)") (simp_all add: conflict_def)
  obtain s where 3: "applied_snapshot revision d = Some s"
    using R 1 2 by (cases "applied_snapshot revision d") (simp_all add: conflict_def)
  have 4: "ar_revision rp = revision \<and> ar_snapshot_sha256 rp = sn_payload_sha256 s"
    using R 1 2 3 by (rule_tac ccontr) (simp add: conflict_def)
  have replay: "ap_body_sha256 a = ar_body_sha256 rp \<and> ap_snapshot_etag a = etag \<and> st' = stored_of a True"
    if "replay_of rp etag r a = Inr st'" for a r st'
    using that
    by (auto simp: replay_of_def conflict_def compare_digest_def bind_result_Inr_iff split: if_splits)
  have 5: "(\<exists>a. result_at cid key d = Some a \<and> ap_body_sha256 a = ar_body_sha256 rp \<and> ap_snapshot_etag a = etag \<and>
            st = stored_of a True \<and> d' = d) \<or>
         (result_at cid key d = None \<and> st = stored_of (new_result (apply_seq d + 1) cid key rp etag at) False \<and>
            insert_result (new_result (apply_seq d + 1) cid key rp etag at) d = Inr d')"
  proof (cases "result_at cid key d")
    case (Some a)
    then have "bind_result (replay_of rp etag (Some revision) a) (\<lambda>st. Inr (st, d)) = Inr (st, d')"
      using R 1 2 3 4 by simp
    then show ?thesis using Some replay [of "Some revision" a st] by (auto simp: bind_result_Inr_iff)
  next
    case None
    then show ?thesis
      using R 1 2 3 4
      by (cases "insert_result (new_result (apply_seq d + 1) cid key rp etag at) d")
         (simp_all add: Let_def conflict_def)
  qed
  from 4 show thesis by (intro that [OF 1 2 3 _ _ 5]) simp_all
qed

text \<open>C25.  Reporting a result is idempotent: once it is recorded, reporting it again under its key, while
  the same snapshot is applied and the row is still there, changes nothing and returns the same answer
  marked as a replay, while another document or another entity tag under that key is refused.\<close>

theorem recording_is_idempotent:
  assumes "record_router_apply_result at cid key rp etag d = Inr (st, d')"
    and "vpn_state d2 = vpn_state d'" and "snapshots d2 = snapshots d'"
    and "result_at cid key d2 = result_at cid key d'" and "ascii_text etag"
  shows "record_router_apply_result at2 cid key rp etag d2 = Inr (st\<lparr>so_replayed := True\<rparr>, d2) \<and>
     find_router_apply_result_replay cid key rp etag d2 = Inr (Some (st\<lparr>so_replayed := True\<rparr>)) \<and>
     (ar_body_sha256 rp' = ar_body_sha256 rp \<or>
        find_router_apply_result_replay cid key rp' etag d2 = conflict ''idempotency_conflict'' None) \<and>
     (etag' = etag \<or> \<not> ascii_text etag' \<or>
        find_router_apply_result_replay cid key rp etag' d2 = conflict ''etag_mismatch'' None)"
proof -
  obtain revision s where 1: "idempotency_pattern key" "applied_revision (vpn_state d) = Some revision"
    "applied_snapshot revision d = Some s" "ar_revision rp = revision" "ar_snapshot_sha256 rp = sn_payload_sha256 s"
    and 2: "(\<exists>a. result_at cid key d = Some a \<and> ap_body_sha256 a = ar_body_sha256 rp \<and> ap_snapshot_etag a = etag \<and>
            st = stored_of a True \<and> d' = d) \<or>
         (result_at cid key d = None \<and> st = stored_of (new_result (apply_seq d + 1) cid key rp etag at) False \<and>
            insert_result (new_result (apply_seq d + 1) cid key rp etag at) d = Inr d')"
    using assms(1) by (rule record_cases)
  obtain a where a: "result_at cid key d' = Some a" "ap_body_sha256 a = ar_body_sha256 rp"
      "ap_snapshot_etag a = etag" "st\<lparr>so_replayed := True\<rparr> = stored_of a True"
    and same: "vpn_state d' = vpn_state d" "snapshots d' = snapshots d"
    using 2
  proof (elim disjE exE conjE)
    let ?a = "new_result (apply_seq d + 1) cid key rp etag at"
    assume n: "result_at cid key d = None" "st = stored_of ?a False" "insert_result ?a d = Inr d'"
    then have d': "d' = d\<lparr>apply_results := apply_results d @ [?a], apply_seq := apply_seq d + 1\<rparr>"
      by (simp add: insert_result_def new_result_def split: if_splits)
    have "result_at cid key d' = Some ?a"
      using n(1) by (simp add: result_at_def d' select_first_append new_result_def)
    then show thesis by (rule that) (simp_all add: n(2) d' new_result_def stored_of_def)
  next
    fix b assume "result_at cid key d = Some b" "ap_body_sha256 b = ar_body_sha256 rp"
      "ap_snapshot_etag b = etag" "st = stored_of b True" "d' = d"
    then show thesis by (intro that [of b]) (simp_all add: stored_of_def)
  qed
  have at: "result_at cid key d2 = Some a" using assms(4) a(1) by simp
  have state: "applied_revision (vpn_state d2) = Some revision" "applied_snapshot revision d2 = Some s"
    using 1(2,3) same assms(2,3) by (simp_all add: applied_snapshot_def)
  have yes: "replay_of rp etag r a = Inr (st\<lparr>so_replayed := True\<rparr>)" for r
    using a assms(5) by (simp add: replay_of_def compare_digest_def)
  have no: "ap_body_sha256 a \<noteq> b \<Longrightarrow> ar_body_sha256 rp' = b \<Longrightarrow> replay_of rp' etag r a = conflict ''idempotency_conflict'' r" for r b
    by (simp add: replay_of_def)
  have other: "etag' \<noteq> etag \<Longrightarrow> ascii_text etag' \<Longrightarrow> replay_of rp etag' r a = conflict ''etag_mismatch'' r" for r
    using a assms(5) by (auto simp: replay_of_def compare_digest_def)
  have "record_router_apply_result at2 cid key rp etag d2 = Inr (st\<lparr>so_replayed := True\<rparr>, d2)"
    using 1 state at yes by (simp add: record_router_apply_result_def validate_idempotency_key_def)
  moreover have "find_router_apply_result_replay cid key rp etag d2 = Inr (Some (st\<lparr>so_replayed := True\<rparr>))"
    using at yes by (simp add: find_router_apply_result_replay_def)
  moreover have "ar_body_sha256 rp' = ar_body_sha256 rp \<or>
      find_router_apply_result_replay cid key rp' etag d2 = conflict ''idempotency_conflict'' None"
    using at a(2) by (auto simp: find_router_apply_result_replay_def replay_of_def conflict_def)
  moreover have "etag' = etag \<or> \<not> ascii_text etag' \<or>
      find_router_apply_result_replay cid key rp etag' d2 = conflict ''etag_mismatch'' None"
    using at other by (cases "etag' = etag"; cases "ascii_text etag'")
      (simp_all add: find_router_apply_result_replay_def conflict_def)
  ultimately show ?thesis by blast
qed

section \<open>Instances\<close>

definition sample_payload :: json where
  "sample_payload = JObj [(''schema_version'', JInt 1), (''revision'', JInt 3),
     (''snapshot_sha256'', JStr (replicate 64 (CHR ''a''))), (''outcome'', JStr ''APPLIED''),
     (''active_profile'', JStr ''vless''),
     (''capabilities'', JObj [(''vless'', JBool True), (''hysteria2'', JBool True),
        (''amneziawg'', JBool False), (''zapret'', JBool False), (''policy_routing'', JBool True)]),
     (''diagnostics'', JObj [(''stage'', JStr ''apply_ok''), (''uptime'', JInt 7),
        (''notes'', JList [JStr ''all good'', JNull])])]"


definition sample_report :: apply_report where
  "sample_report = \<lparr>ar_revision = 3, ar_snapshot_sha256 = replicate 64 (CHR ''a''), ar_outcome = OutApplied,
     ar_active_profile = None, ar_capabilities = JObj [], ar_diagnostics = JObj [],
     ar_canonical_body = [], ar_body_sha256 = replicate 64 (CHR ''b'')\<rparr>"

definition sample_applied :: db where
  "sample_applied = sample_routers\<lparr>
     vpn_state := \<lparr>desired_revision = 3, applied_revision = Some 3, desired_updated_at = None,
                   applied_updated_at = None\<rparr>,
     snapshots := [\<lparr>sn_revision = 3, sn_payload_json = [], sn_payload_sha256 = replicate 64 (CHR ''a''),
       sn_lifecycle = SnapApplied, sn_prepared_at = 0, sn_applied_at = Some 0, sn_failed_at = None,
       sn_error_message = None\<rparr>]\<rparr>"

theorem recording_is_idempotent_witness:
  "\<exists>st d'. record_router_apply_result 0 ''cred-001'' ''run-1'' sample_report (replicate 66 (CHR ''e'')) sample_applied =
       Inr (st, d') \<and>
     record_router_apply_result 9 ''cred-001'' ''run-1'' sample_report (replicate 66 (CHR ''e'')) d' =
       Inr (st\<lparr>so_replayed := True\<rparr>, d')"
proof -
  let ?run = "record_router_apply_result 0 ''cred-001'' ''run-1'' sample_report (replicate 66 (CHR ''e'')) sample_applied"
  have "succeeds ?run" by code_simp
  then obtain st d' where run: "?run = Inr (st, d')" by (cases ?run) auto
  have "ascii_text (replicate 66 (CHR ''e''))" by code_simp
  from recording_is_idempotent [OF run refl refl refl this] run show ?thesis by blast
qed

end
