(* ===== verification/ServerConfig.thy ===== *)
theory ServerConfig
  imports VpnConfig Sanitize
begin

text \<open>
  What the VPN server is configured with: \<open>app/hysteria_auth.py\<close>, the Xray, Hysteria and AmneziaWG
  files of \<open>app/remote_apply.py\<close> and \<open>app/amnezia.py\<close>, the choice of services and firewall ports,
  and the sing-box profile of \<open>app/subscriptions.py\<close>.  The fixed shell text around these files (the
  staging, the roll-back and the package bootstrap, which run on the server) is not modelled.
\<close>

section \<open>Hysteria credentials\<close>

definition hysteria_auth :: "vpn_client \<Rightarrow> captured_config \<Rightarrow> exn + string" where
  "hysteria_auth client c =
     (if hy_auth_type (cc_hysteria c) = ''password'' then Inr (hy_password (cc_hysteria c))
      else if hy_auth_type (cc_hysteria c) \<noteq> ''userpass'' then
        Inl (ValueError ''Unsupported Hysteria authentication mode'')
      else Inr (''client-'' @ int_str (vc_id client) @ '':'' @ vc_hysteria_password client))"

text \<open>A dictionary built in order: a later value of a key replaces the earlier one in its place.\<close>

fun dict_put :: "string \<Rightarrow> 'a \<Rightarrow> (string \<times> 'a) list \<Rightarrow> (string \<times> 'a) list" where
  "dict_put k v [] = [(k, v)]"
| "dict_put k v ((l, w) # kvs) = (if l = k then (k, v) # kvs else (l, w) # dict_put k v kvs)"

definition dict_of :: "(string \<times> 'a) list \<Rightarrow> (string \<times> 'a) list" where
  "dict_of kvs = fold (\<lambda>(k, v). dict_put k v) kvs []"

definition hysteria_users :: "captured_config \<Rightarrow> (string \<times> string) list" where
  "hysteria_users c =
     dict_of (map (\<lambda>v. (''client-'' @ int_str (vc_id v), vc_hysteria_password v)) (enabled_clients c))"

definition newline :: string where
  "newline = [CHR 0x0A]"

definition lines_of :: "string list \<Rightarrow> string" where
  "lines_of ls = concat (map (\<lambda>l. l @ newline) ls)"

definition render_hysteria_server_auth :: "captured_config \<Rightarrow> exn + string" where
  "render_hysteria_server_auth c =
     (if hy_auth_type (cc_hysteria c) = ''password'' then
        Inr (join newline [''auth:'', ''  type: password'',
          ''  password: '' @ dumps_plain (JStr (hy_password (cc_hysteria c)))])
      else if hy_auth_type (cc_hysteria c) \<noteq> ''userpass'' then
        Inl (ValueError ''Unsupported Hysteria authentication mode'')
      else if hysteria_users c = [] then
        Inr (join newline [''auth:'', ''  type: command'', ''  command: /bin/false''])
      else
        Inr (join newline [''auth:'', ''  type: userpass'',
          ''  userpass: '' @ dumps_plain (canon (JObj (map (\<lambda>(k, p). (k, JStr p)) (hysteria_users c))))]))"

definition hysteria_config_text :: "captured_config \<Rightarrow> string \<Rightarrow> string \<Rightarrow> exn + string" where
  "hysteria_config_text c cert_path key_path =
     bind_result (render_hysteria_server_auth c) (\<lambda>auth.
       Inr (lines_of
         [''listen: :'' @ int_str (pc_port (hy_protocol (cc_hysteria c))), [], ''tls:'',
          ''  cert: '' @ cert_path, ''  key: '' @ key_path, [], auth, [], ''obfs:'',
          ''  type: salamander'', ''  salamander:'',
          ''    password: '' @ dumps_plain (JStr (hy_obfs_password (cc_hysteria c))), [],
          ''masquerade:'', ''  type: proxy'', ''  proxy:'', ''    url: https://example.com/'',
          ''    rewriteHost: true'']))"

section \<open>Xray\<close>

definition label_char :: "char \<Rightarrow> bool" where
  "label_char ch \<longleftrightarrow>
     (let n = byte ch in 48 \<le> n \<and> n \<le> 57 \<or> 65 \<le> n \<and> n \<le> 90 \<or> 97 \<le> n \<and> n \<le> 122) \<or>
     ch = CHR ''_'' \<or> ch = CHR ''.'' \<or> ch = CHR ''-''"

definition label_break :: "string \<Rightarrow> nat option" where
  "label_break s =
     (let n = length (takeWhile (\<lambda>ch. \<not> label_char ch) s) in if n = 0 then None else Some n)"

definition strip_char :: "char \<Rightarrow> string \<Rightarrow> string" where
  "strip_char ch s = rev (dropWhile (\<lambda>x. x = ch) (rev (dropWhile (\<lambda>x. x = ch) s)))"

definition xray_client_email :: "string \<Rightarrow> int \<Rightarrow> string" where
  "xray_client_email name client_id =
     (let label = strip_char (CHR ''-'') (sub_all label_break (\<lambda>_. ''-'') (py_strip name))
      in (if label = [] then ''client'' else label) @ ''-'' @ int_str client_id)"

definition xray_user :: "vpn_client \<Rightarrow> json" where
  "xray_user v = JObj
    [(''id'', JStr (vc_vless_uuid v)), (''email'', JStr (xray_client_email (vc_name v) (vc_id v))),
     (''flow'', JStr ''xtls-rprx-vision'')]"

definition api_inbound :: json where
  "api_inbound = JObj
    [(''tag'', JStr ''api''), (''listen'', JStr ''127.0.0.1''), (''port'', JInt 10085),
     (''protocol'', JStr ''dokodemo-door''), (''settings'', JObj [(''address'', JStr ''127.0.0.1'')])]"

definition vless_inbound :: "captured_config \<Rightarrow> json" where
  "vless_inbound c = JObj
    [(''tag'', JStr ''vless-in''), (''listen'', JStr ''0.0.0.0''),
     (''port'', JInt (pc_port (vl_protocol (cc_vless c)))), (''protocol'', JStr ''vless''),
     (''settings'', JObj [(''clients'', JList (map xray_user (enabled_clients c))),
                          (''decryption'', JStr ''none'')]),
     (''streamSettings'', JObj
       [(''network'', JStr ''tcp''), (''security'', JStr ''reality''),
        (''realitySettings'', JObj
          [(''show'', JBool False), (''target'', JStr (vl_target (cc_vless c))),
           (''serverNames'', JList (map JStr (vl_server_names (cc_vless c)))),
           (''minClientVer'', JStr ''1.0.0''), (''privateKey'', JStr (vl_private_key (cc_vless c))),
           (''shortIds'', JList [JStr (vl_short_id (cc_vless c))])])]),
     (''sniffing'', JObj [(''enabled'', JBool True),
        (''destOverride'', JList [JStr ''http'', JStr ''tls'', JStr ''quic''])])]"

definition xray_config :: "captured_config \<Rightarrow> json" where
  "xray_config c = JObj
    [(''log'', JObj [(''loglevel'', JStr ''warning'')]),
     (''api'', JObj [(''tag'', JStr ''api''), (''services'', JList [JStr ''StatsService''])]),
     (''stats'', JObj []),
     (''policy'', JObj
       [(''levels'', JObj [(''0'', JObj [(''statsUserUplink'', JBool True), (''statsUserDownlink'', JBool True)])]),
        (''system'', JObj [(''statsInboundUplink'', JBool True), (''statsInboundDownlink'', JBool True),
           (''statsOutboundUplink'', JBool True), (''statsOutboundDownlink'', JBool True)])]),
     (''inbounds'', JList (api_inbound # (if pc_enabled (vl_protocol (cc_vless c)) then [vless_inbound c] else []))),
     (''outbounds'', JList
       [JObj [(''protocol'', JStr ''freedom''), (''tag'', JStr ''direct'')],
        JObj [(''protocol'', JStr ''blackhole''), (''tag'', JStr ''blocked'')]]),
     (''routing'', JObj [(''rules'', JList
       [JObj [(''type'', JStr ''field''), (''inboundTag'', JList [JStr ''api'']), (''outboundTag'', JStr ''api'')]])])]"

text \<open>\<open>json.dumps(v, indent=w, ensure_ascii=False)\<close>.\<close>

definition line_at :: "nat \<Rightarrow> nat \<Rightarrow> string" where
  "line_at w depth = newline @ replicate (w * depth) (CHR '' '')"

fun show_indented :: "nat \<Rightarrow> nat \<Rightarrow> json \<Rightarrow> string"
  and show_items :: "nat \<Rightarrow> nat \<Rightarrow> json list \<Rightarrow> string"
  and show_pairs :: "nat \<Rightarrow> nat \<Rightarrow> (string \<times> json) list \<Rightarrow> string" where
  "show_indented w n (JList vs) =
     (if vs = [] then ''[]'' else ''['' @ show_items w (Suc n) vs @ line_at w n @ '']'')"
| "show_indented w n (JObj kvs) =
     (if kvs = [] then ''{}'' else ''{'' @ show_pairs w (Suc n) kvs @ line_at w n @ ''}'')"
| "show_indented w n v = show_json quote_json '' '' v"
| "show_items w n [] = []"
| "show_items w n (v # vs) =
     line_at w n @ show_indented w n v @ (if vs = [] then [] else '','') @ show_items w n vs"
| "show_pairs w n [] = []"
| "show_pairs w n ((k, v) # kvs) =
     line_at w n @ quote_json k @ '': '' @ show_indented w n v @ (if kvs = [] then [] else '','') @
     show_pairs w n kvs"

section \<open>AmneziaWG\<close>

text \<open>
  \<open>other c\<close> says whether a character beyond ASCII is of the Unicode categories \<open>C*\<close>
  (\<open>unicodedata.category\<close>); for ASCII those are the control characters.
\<close>

fun characters :: "string \<Rightarrow> string list" where
  "characters [] = []"
| "characters (b # bs) =
     (case characters bs of
        [] \<Rightarrow> [[b]]
      | ch # chs \<Rightarrow> if ch \<noteq> [] \<and> is_continuation (hd ch) then (b # ch) # chs else [b] # ch # chs)"

definition category_c :: "(string \<Rightarrow> bool) \<Rightarrow> string \<Rightarrow> bool" where
  "category_c other ch \<longleftrightarrow> (case ch of [b] \<Rightarrow> is_control b | _ \<Rightarrow> other ch)"

definition config_comment :: "(string \<Rightarrow> bool) \<Rightarrow> string \<Rightarrow> string" where
  "config_comment other v =
     join '' '' (words (concat (map (\<lambda>ch. if category_c other ch then '' '' else ch) (characters v))))"

text \<open>
  \<open>ipaddress.ip_address(f"{prefix}.{octet}")\<close> for the prefixes \<open>amnezia_network\<close> accepts: three
  dotted octets (an IPv6 prefix ending in a dotted part is not considered).
\<close>

definition client_amnezia_address :: "int \<Rightarrow> string \<Rightarrow> exn + string" where
  "client_amnezia_address client_id prefix =
     (let octet = client_id + 1; address = prefix @ ''.'' @ int_str octet in
      if 254 < octet then Inl (ValueError ''AMNEZIA_NETWORK_PREFIX supports up to 253 clients in MVP'')
      else case map parse_octet (split_on (CHR ''.'') address) of
          [Some a, Some b, Some c, Some k] \<Rightarrow> Inr address
        | _ \<Rightarrow> Inl (ValueError (address @ '' does not appear to be an IPv4 or IPv6 address'')))"

record awg_peer =
  wg_name :: string
  wg_public :: string
  wg_preshared :: string
  wg_ipv4 :: string
  wg_client :: "int option"

definition obfuscation_lines :: "amnezia_obfuscation \<Rightarrow> string list" where
  "obfuscation_lines o' =
     [''Jc = '' @ int_str (ob_jc o'), ''Jmin = '' @ int_str (ob_jmin o'), ''Jmax = '' @ int_str (ob_jmax o'),
      ''S1 = '' @ int_str (ob_s1 o'), ''S2 = '' @ int_str (ob_s2 o'), ''H1 = '' @ int_str (ob_h1 o'),
      ''H2 = '' @ int_str (ob_h2 o'), ''H3 = '' @ int_str (ob_h3 o'), ''H4 = '' @ int_str (ob_h4 o')]"

definition peer_address :: "config \<Rightarrow> awg_peer \<Rightarrow> exn + string" where
  "peer_address cfg p =
     (if wg_ipv4 p \<noteq> [] then Inr (wg_ipv4 p)
      else case wg_client p of
          None \<Rightarrow> Inl (KeyError ''id'')
        | Some i \<Rightarrow> client_amnezia_address i (c_amnezia_network_prefix cfg))"

definition peer_block :: "(string \<Rightarrow> bool) \<Rightarrow> awg_peer \<Rightarrow> string \<Rightarrow> string" where
  "peer_block other p address =
     lines_of [''[Peer]'', ''# '' @ config_comment other (wg_name p), ''PublicKey = '' @ wg_public p,
               ''PresharedKey = '' @ wg_preshared p, ''AllowedIPs = '' @ address @ ''/32'']"

fun peer_blocks :: "(string \<Rightarrow> bool) \<Rightarrow> config \<Rightarrow> awg_peer list \<Rightarrow> exn + string list" where
  "peer_blocks other cfg [] = Inr []"
| "peer_blocks other cfg (p # ps) =
     bind_result (peer_address cfg p) (\<lambda>address.
     bind_result (peer_blocks other cfg ps) (\<lambda>blocks. Inr (peer_block other p address # blocks)))"

definition awg_peers :: "captured_config \<Rightarrow> awg_peer list" where
  "awg_peers c =
     map (\<lambda>v. \<lparr>wg_name = vc_name v, wg_public = vc_amnezia_public_key v, wg_preshared = vc_amnezia_preshared_key v,
               wg_ipv4 = vc_amnezia_ipv4 v, wg_client = Some (vc_id v)\<rparr>) (enabled_clients c) @
     map (\<lambda>p. \<lparr>wg_name = ''router '' @ rp_router_id p @ '' vpn_zapret'', wg_public = rp_public_key p,
               wg_preshared = rp_preshared_key p, wg_ipv4 = rp_ipv4 p, wg_client = None\<rparr>) (cc_router_peers c)"

definition or_text :: "string \<Rightarrow> string \<Rightarrow> string" where
  "or_text a b = (if a = [] then b else a)"

definition or_port :: "int \<Rightarrow> int \<Rightarrow> int" where
  "or_port a b = (if a = 0 then b else a)"

definition masquerade :: "string \<Rightarrow> string \<Rightarrow> string" where
  "masquerade action prefix =
     ''iptables -t nat -'' @ action @ '' POSTROUTING -s '' @ prefix @
     ''.0/24 -o $(ip route show default | awk '' @ [CHR 0x27] @ ''{print $5; exit}'' @ [CHR 0x27] @
     '') -j MASQUERADE''"

definition render_amnezia_server_config :: "(string \<Rightarrow> bool) \<Rightarrow> config \<Rightarrow> captured_config \<Rightarrow> exn + string" where
  "render_amnezia_server_config other cfg c =
     (let a = cc_amnezia c;
          prefix = or_text (am_network_prefix a) (c_amnezia_network_prefix cfg)
      in bind_result (peer_blocks other cfg (awg_peers c)) (\<lambda>blocks.
           Inr (lines_of ([''[Interface]'', ''PrivateKey = '' @ am_server_private_key a,
               ''Address = '' @ prefix @ ''.1/24'',
               ''ListenPort = '' @ int_str (or_port (pc_port (am_protocol a)) (c_amnezia_port cfg))] @
              obfuscation_lines (am_obfuscation a) @
              [''PostUp = sysctl -w net.ipv4.ip_forward=1; '' @ masquerade ''A'' prefix,
               ''PostDown = '' @ masquerade ''D'' prefix, [], join newline blocks]))))"

definition render_amnezia_client_config :: "config \<Rightarrow> captured_config \<Rightarrow> vpn_client \<Rightarrow> exn + string" where
  "render_amnezia_client_config cfg c v =
     (let a = cc_amnezia c in
      bind_result (peer_address cfg \<lparr>wg_name = [], wg_public = [], wg_preshared = [],
          wg_ipv4 = vc_amnezia_ipv4 v, wg_client = Some (vc_id v)\<rparr>) (\<lambda>address.
        Inr (lines_of ([''[Interface]'', ''PrivateKey = '' @ vc_amnezia_private_key v,
            ''Address = '' @ address @ ''/32'', ''DNS = '' @ am_dns a] @
           obfuscation_lines (am_obfuscation a) @
           [[], ''[Peer]'', ''PublicKey = '' @ am_server_public_key a,
            ''PresharedKey = '' @ vc_amnezia_preshared_key v, ''AllowedIPs = 0.0.0.0/0, ::/0'',
            ''Endpoint = '' @ cc_current_ip c @ '':'' @
              int_str (or_port (pc_port (am_protocol a)) (c_amnezia_port cfg)),
            ''PersistentKeepalive = 25'']))))"

text \<open>
  The text AmneziaVPN imports: a JSON document, packed the way Qt packs (its length in four bytes,
  then \<open>zlib.compress\<close>, here the parameter \<open>pack\<close>) and written as URL-safe base64 by \<open>encode\<close>.
\<close>

definition dns_servers :: "string \<Rightarrow> string list" where
  "dns_servers dns = filter (\<lambda>s. s \<noteq> []) (map py_strip (split_on (CHR '','') dns))"

definition awg_members :: "captured_config \<Rightarrow> vpn_client \<Rightarrow> int \<Rightarrow> string \<Rightarrow> string \<Rightarrow> (string \<times> json) list" where
  "awg_members c v port address text =
     (let o' = am_obfuscation (cc_amnezia c) in
      [(''H1'', JStr (int_str (ob_h1 o'))), (''H2'', JStr (int_str (ob_h2 o'))),
       (''H3'', JStr (int_str (ob_h3 o'))), (''H4'', JStr (int_str (ob_h4 o'))),
       (''I1'', JStr []), (''I2'', JStr []), (''I3'', JStr []), (''I4'', JStr []), (''I5'', JStr []),
       (''Jc'', JStr (int_str (ob_jc o'))), (''Jmax'', JStr (int_str (ob_jmax o'))),
       (''Jmin'', JStr (int_str (ob_jmin o'))), (''S1'', JStr (int_str (ob_s1 o'))),
       (''S2'', JStr (int_str (ob_s2 o'))), (''S3'', JStr ''0''), (''S4'', JStr ''0''),
       (''allowed_ips'', JList [JStr ''0.0.0.0/0'', JStr ''::/0'']),
       (''clientId'', JStr (vc_amnezia_public_key v)), (''client_ip'', JStr address),
       (''client_priv_key'', JStr (vc_amnezia_private_key v)),
       (''client_pub_key'', JStr (vc_amnezia_public_key v)), (''config'', JStr text),
       (''hostName'', JStr (cc_current_ip c)), (''mtu'', JStr ''1280''),
       (''persistent_keep_alive'', JStr ''25''), (''port'', JInt port),
       (''psk_key'', JStr (vc_amnezia_preshared_key v)),
       (''server_pub_key'', JStr (am_server_public_key (cc_amnezia c)))])"

definition profile_name :: "string \<Rightarrow> string \<Rightarrow> string" where
  "profile_name name proto = ''[AutoVPN] '' @ name @ '' - '' @ proto"

definition vpn_key_payload ::
  "captured_config \<Rightarrow> vpn_client \<Rightarrow> int \<Rightarrow> string \<Rightarrow> string \<Rightarrow> string \<Rightarrow> json" where
  "vpn_key_payload c v port prefix address text =
     (let awg = awg_members c v port address text;
          awg1 = awg @ [(''last_config'', JStr (show_indented 4 0 (JObj awg)))];
          awg2 = dict_put ''port'' (JStr (int_str port)) awg1 @
            [(''protocol_version'', JStr ''2''), (''subnet_address'', JStr (prefix @ ''.0'')),
             (''transport_proto'', JStr ''udp'')];
          servers = dns_servers (am_dns (cc_amnezia c));
          dns1 = (case servers of [] \<Rightarrow> ''1.1.1.1'' | s # _ \<Rightarrow> s);
          dns2 = (case servers of _ # s # _ \<Rightarrow> s | _ \<Rightarrow> dns1)
      in JObj
        [(''containers'', JList [JObj [(''awg'', JObj awg2), (''container'', JStr ''amnezia-awg2'')]]),
         (''defaultContainer'', JStr ''amnezia-awg2''), (''description'', JStr (profile_name (vc_name v) ''amnezia'')),
         (''dns1'', JStr dns1), (''dns2'', JStr dns2), (''hostName'', JStr (cc_current_ip c))])"

definition length_bytes :: "nat \<Rightarrow> string" where
  "length_bytes n =
     [char_of (n div 16777216 mod 256), char_of (n div 65536 mod 256), char_of (n div 256 mod 256),
      char_of (n mod 256)]"

definition render_amnezia_vpn_key ::
  "(string \<Rightarrow> string) \<Rightarrow> (string \<Rightarrow> string) \<Rightarrow> config \<Rightarrow> captured_config \<Rightarrow> vpn_client \<Rightarrow> exn + string" where
  "render_amnezia_vpn_key pack encode cfg c v =
     (let a = cc_amnezia c;
          port = or_port (pc_port (am_protocol a)) (c_amnezia_port cfg);
          prefix = or_text (am_network_prefix a) (c_amnezia_network_prefix cfg)
      in bind_result (render_amnezia_client_config cfg c v) (\<lambda>text.
         bind_result (peer_address cfg \<lparr>wg_name = [], wg_public = [], wg_preshared = [],
             wg_ipv4 = vc_amnezia_ipv4 v, wg_client = Some (vc_id v)\<rparr>) (\<lambda>address.
           let raw = show_indented 4 0 (vpn_key_payload c v port prefix address text) in
           if 4294967296 \<le> int (length raw) then Inl (OverflowError ''int too big to convert'')
           else Inr (''vpn://'' @ encode (length_bytes (length raw) @ pack raw)))))"

section \<open>The staged files\<close>

definition text_block :: "string \<Rightarrow> string \<Rightarrow> string \<Rightarrow> string" where
  "text_block file tag body =
     ''cat >'' @ [CHR 0x22] @ ''$STAGE/'' @ file @ [CHR 0x22] @ '' <<'' @ [CHR 0x27] @ tag @ [CHR 0x27] @ newline @
     body @ tag @ newline"

definition sed_line :: "string \<Rightarrow> string \<Rightarrow> string \<Rightarrow> string" where
  "sed_line first second target =
     ''sed -e '' @ first @ '' -e '' @ second @ '' '' @ [CHR 0x22] @ ''$STAGE/hysteria.template.yaml'' @ [CHR 0x22] @
     '' >'' @ [CHR 0x22] @ ''$STAGE/'' @ target @ [CHR 0x22] @ newline"

definition quoted_with :: "char \<Rightarrow> string \<Rightarrow> string" where
  "quoted_with q s = [q] @ s @ [q]"

definition hysteria_block :: "string \<Rightarrow> string" where
  "hysteria_block text =
     text_block ''hysteria.template.yaml'' ''AUTOVPN_HYSTERIA'' text @
     sed_line (quoted_with (CHR 0x22) ''s#__AUTOVPN_CERT__#$STAGE/hysteria.crt#g'')
              (quoted_with (CHR 0x22) ''s#__AUTOVPN_KEY__#$STAGE/hysteria.key#g'') ''hysteria.validate.yaml'' @
     sed_line (quoted_with (CHR 0x27) ''s#__AUTOVPN_CERT__#/etc/autovpn/hysteria.crt#g'')
              (quoted_with (CHR 0x27) ''s#__AUTOVPN_KEY__#/etc/autovpn/hysteria.key#g'') ''hysteria.yaml''"

definition write_artifacts :: "(string \<Rightarrow> bool) \<Rightarrow> config \<Rightarrow> captured_config \<Rightarrow> exn + string" where
  "write_artifacts other cfg c =
     bind_result
       (if pc_enabled (hy_protocol (cc_hysteria c)) then
          bind_result (hysteria_config_text c ''__AUTOVPN_CERT__'' ''__AUTOVPN_KEY__'') (\<lambda>t. Inr [hysteria_block t])
        else Inr []) (\<lambda>hysteria.
     bind_result
       (if pc_enabled (am_protocol (cc_amnezia c)) then
          bind_result (render_amnezia_server_config other cfg c) (\<lambda>t.
            Inr [text_block ''awg0.conf'' ''AUTOVPN_AWG'' t])
        else Inr []) (\<lambda>amnezia.
       Inr (join newline
         ((if pc_enabled (vl_protocol (cc_vless c)) then
             [text_block ''xray.json'' ''AUTOVPN_XRAY'' (show_indented 2 0 (xray_config c) @ newline)]
           else []) @ hysteria @ amnezia))))"

text \<open>The services of the three protocols, which of them run, and the ports the firewall opens.\<close>

definition services :: "captured_config \<Rightarrow> (string \<times> bool) list" where
  "services c =
     [(''xray'', pc_enabled (vl_protocol (cc_vless c))),
      (''hysteria-server'', pc_enabled (hy_protocol (cc_hysteria c))),
      (''awg-quick@awg0'', pc_enabled (am_protocol (cc_amnezia c)))]"

definition service_switch_script :: "captured_config \<Rightarrow> string" where
  "service_switch_script c =
     join newline (map (\<lambda>(service, on). ''apply_service '' @ service @ (if on then '' 1'' else '' 0'')) (services c))"

definition service_check :: "string \<times> bool \<Rightarrow> string" where
  "service_check sv =
     (case sv of (service, on) \<Rightarrow>
        if on then
          ''systemctl is-active --quiet '' @ service @ '' || fail_apply '' @
          quoted_with (CHR 0x27) (''service check failed: '' @ service)
        else
          ''if systemctl is-active --quiet '' @ service @ ''; then fail_apply '' @
          quoted_with (CHR 0x27) (''disabled service is still active: '' @ service) @ ''; fi'' @ newline @
          ''if systemctl is-enabled --quiet '' @ service @ ''; then fail_apply '' @
          quoted_with (CHR 0x27) (''disabled service is still enabled: '' @ service) @ ''; fi'')"

definition service_check_script :: "captured_config \<Rightarrow> string" where
  "service_check_script c = join newline (map service_check (services c))"

definition open_ports :: "captured_config \<Rightarrow> (int \<times> string) list" where
  "open_ports c =
     (if pc_enabled (vl_protocol (cc_vless c)) then [(pc_port (vl_protocol (cc_vless c)), ''tcp'')] else []) @
     (if pc_enabled (hy_protocol (cc_hysteria c)) then [(pc_port (hy_protocol (cc_hysteria c)), ''udp'')] else []) @
     (if pc_enabled (am_protocol (cc_amnezia c)) then [(pc_port (am_protocol (cc_amnezia c)), ''udp'')] else [])"

definition firewall_block :: "int \<times> string \<Rightarrow> string" where
  "firewall_block pp =
     (case pp of (port, proto) \<Rightarrow>
        (let rule = ''INPUT -p '' @ proto @ '' --dport '' @ int_str port @ '' -j ACCEPT '' in
         join newline
          [''if command -v ufw >/dev/null 2>&1; then ufw allow '' @ int_str port @ ''/'' @ proto @
             '' >/dev/null || true; fi'',
           ''if command -v iptables >/dev/null 2>&1; then iptables -C '' @ rule @ ''2>/dev/null || iptables -I '' @
             rule @ ''>/dev/null || true; fi'',
           ''if command -v firewall-cmd >/dev/null 2>&1 && firewall-cmd --state >/dev/null 2>&1; then '' @
             ''firewall-cmd --permanent --add-port='' @ int_str port @ ''/'' @ proto @
             '' >/dev/null || true; firewall-cmd --reload >/dev/null || true; fi'']))"

definition firewall_script :: "captured_config \<Rightarrow> string" where
  "firewall_script c = join newline (map firewall_block (open_ports c))"

section \<open>Subscriptions\<close>

text \<open>\<open>urllib.parse.quote\<close> with its \<open>safe\<close> characters, \<open>quote_plus\<close> and \<open>urlencode\<close>.\<close>

definition unreserved :: "char \<Rightarrow> bool" where
  "unreserved ch \<longleftrightarrow> label_char ch \<or> ch = CHR ''~''"

definition hex_upper :: "nat \<Rightarrow> char" where
  "hex_upper n = (if n < 10 then char_of (48 + n) else char_of (55 + n))"

definition url_quote :: "string \<Rightarrow> string \<Rightarrow> string" where
  "url_quote safe s =
     concat (map (\<lambda>ch. if unreserved ch \<or> ch \<in> set safe then [ch]
                       else [CHR ''%'', hex_upper (byte ch div 16), hex_upper (byte ch mod 16)]) s)"

definition quote_plus :: "string \<Rightarrow> string" where
  "quote_plus s = map (\<lambda>ch. if ch = CHR '' '' then CHR ''+'' else ch) (url_quote '' '' s)"

definition urlencode :: "(string \<times> string) list \<Rightarrow> string" where
  "urlencode kvs = join ''&'' (map (\<lambda>(k, v). quote_plus k @ ''='' @ quote_plus v) kvs)"

definition vless_link :: "captured_config \<Rightarrow> vpn_client \<Rightarrow> string" where
  "vless_link c v =
     ''vless://'' @ vc_vless_uuid v @ ''@'' @ cc_current_ip c @ '':'' @ int_str (pc_port (vl_protocol (cc_vless c))) @
     ''?'' @ urlencode
       [(''type'', ''tcp''), (''security'', ''reality''), (''pbk'', vl_public_key (cc_vless c)),
        (''fp'', vl_fingerprint (cc_vless c)), (''sni'', vl_server_name (cc_vless c)),
        (''sid'', vl_short_id (cc_vless c)), (''spx'', vl_spider_x (cc_vless c)), (''flow'', ''xtls-rprx-vision'')] @
     ''#'' @ url_quote ''/'' (profile_name (vc_name v) ''vless'')"

definition hysteria_link :: "captured_config \<Rightarrow> vpn_client \<Rightarrow> string \<Rightarrow> string" where
  "hysteria_link c v auth =
     (let obfs = hy_obfs_password (cc_hysteria c) in
      ''hy2://'' @ url_quote [] auth @ ''@'' @ cc_current_ip c @ '':'' @
      int_str (pc_port (hy_protocol (cc_hysteria c))) @ ''/?'' @ urlencode
        ([(''insecure'', ''1''), (''sni'', vl_server_name (cc_vless c))] @
         (if obfs = [] then [] else [(''obfs'', ''salamander''), (''obfs-password'', obfs)])) @
      ''#'' @ url_quote ''/'' (profile_name (vc_name v) ''hysteria''))"

definition render_subscription :: "captured_config \<Rightarrow> vpn_client \<Rightarrow> exn + string" where
  "render_subscription c v =
     bind_result
       (if pc_enabled (hy_protocol (cc_hysteria c)) then
          bind_result (hysteria_auth v c) (\<lambda>auth. Inr [hysteria_link c v auth])
        else Inr []) (\<lambda>hysteria.
       Inr (lines_of ((if pc_enabled (vl_protocol (cc_vless c)) then [vless_link c v] else []) @ hysteria)))"

definition vless_outbound :: "captured_config \<Rightarrow> vpn_client \<Rightarrow> json" where
  "vless_outbound c v = JObj
    [(''type'', JStr ''vless''), (''tag'', JStr ''vless-reality''), (''server'', JStr (cc_current_ip c)),
     (''server_port'', JInt (pc_port (vl_protocol (cc_vless c)))), (''uuid'', JStr (vc_vless_uuid v)),
     (''flow'', JStr ''xtls-rprx-vision''),
     (''tls'', JObj
       [(''enabled'', JBool True), (''server_name'', JStr (vl_server_name (cc_vless c))),
        (''utls'', JObj [(''enabled'', JBool True), (''fingerprint'', JStr (vl_fingerprint (cc_vless c)))]),
        (''reality'', JObj [(''enabled'', JBool True), (''public_key'', JStr (vl_public_key (cc_vless c))),
           (''short_id'', JStr (vl_short_id (cc_vless c)))])])]"

definition hysteria2_outbound :: "captured_config \<Rightarrow> string \<Rightarrow> json" where
  "hysteria2_outbound c auth = JObj
    ([(''type'', JStr ''hysteria2''), (''tag'', JStr ''hysteria2''), (''server'', JStr (cc_current_ip c)),
      (''server_port'', JInt (pc_port (hy_protocol (cc_hysteria c)))), (''password'', JStr auth),
      (''tls'', JObj [(''enabled'', JBool True), (''server_name'', JStr (vl_server_name (cc_vless c))),
         (''insecure'', JBool True)])] @
     (let obfs = hy_obfs_password (cc_hysteria c) in
      if obfs = [] then []
      else [(''obfs'', JObj [(''type'', JStr ''salamander''), (''password'', JStr obfs)])]))"

definition proxy_outbounds :: "captured_config \<Rightarrow> vpn_client \<Rightarrow> exn + (string \<times> json) list" where
  "proxy_outbounds c v =
     bind_result
       (if pc_enabled (hy_protocol (cc_hysteria c)) then
          bind_result (hysteria_auth v c) (\<lambda>auth. Inr [(''hysteria2'', hysteria2_outbound c auth)])
        else Inr []) (\<lambda>hysteria.
       Inr ((if pc_enabled (vl_protocol (cc_vless c)) then [(''vless-reality'', vless_outbound c v)] else []) @ hysteria))"

definition render_sing_box_subscription :: "captured_config \<Rightarrow> vpn_client \<Rightarrow> exn + json" where
  "render_sing_box_subscription c v =
     bind_result (proxy_outbounds c v) (\<lambda>proxies.
       let tags = (if proxies = [] then [''direct''] else map fst proxies);
           outbounds = JObj [(''type'', JStr ''selector''), (''tag'', JStr ''proxy''),
               (''outbounds'', JList (map JStr tags)), (''default'', JStr (hd tags))] #
             map snd proxies @ [JObj [(''type'', JStr ''direct''), (''tag'', JStr ''direct'')]]
       in Inr (JObj
         [(''log'', JObj [(''level'', JStr ''info'')]),
          (''dns'', JObj [(''servers'', JList
             [JObj [(''tag'', JStr ''cloudflare''), (''address'', JStr ''1.1.1.1'')]])]),
          (''inbounds'', JList [JObj
             [(''type'', JStr ''tun''), (''tag'', JStr ''tun-in''), (''address'', JList [JStr ''172.19.0.1/30'']),
              (''auto_route'', JBool True), (''strict_route'', JBool True), (''sniff'', JBool True)]]),
          (''outbounds'', JList outbounds),
          (''route'', JObj [(''auto_detect_interface'', JBool True), (''final'', JStr ''proxy'')])]))"

section \<open>Facts\<close>

lemma dict_put_keys: "fst ` set (dict_put k v kvs) = insert k (fst ` set kvs)"
  by (induction k v kvs rule: dict_put.induct) auto

lemma map_of_dict_put: "map_of (dict_put k v kvs) = (map_of kvs)(k \<mapsto> v)"
  by (induction k v kvs rule: dict_put.induct) auto

lemma map_of_fold_dict_put:
  assumes "distinct (map fst kvs)"
  shows "map_of (fold (\<lambda>(k, v). dict_put k v) kvs acc) = map_of acc ++ map_of kvs"
  using assms
proof (induction kvs arbitrary: acc)
  case (Cons kv kvs)
  obtain k v where kv: "kv = (k, v)" by fastforce
  with Cons.prems have "map_of kvs k = None" by (simp add: map_of_eq_None_iff)
  then have "map_of acc ++ (map_of kvs)(k \<mapsto> v) = (map_of acc)(k \<mapsto> v) ++ map_of kvs"
    by (auto simp: map_add_def fun_eq_iff split: option.split)
  with Cons kv show ?case by (simp add: map_of_dict_put fun_upd_def)
qed simp

lemma map_of_dict_of: "distinct (map fst kvs) \<Longrightarrow> map_of (dict_of kvs) = map_of kvs"
  by (simp add: dict_of_def map_of_fold_dict_put)

lemma split_on_last: "c \<notin> set b \<Longrightarrow> \<exists>p ps. split_on c (a @ c # b) = p # ps @ [b]"
proof (induction a)
  case (Cons x a)
  then obtain p ps where "split_on c (a @ c # b) = p # ps @ [b]" by auto
  then show ?case by (cases "x = c") (auto intro: exI [of _ "p # ps"])
qed (simp add: split_on_no_sep)

lemma last_split: "c \<notin> set b \<Longrightarrow> last (split_on c (a @ c # b)) = b"
  using split_on_last [of c b a] by auto

lemma int_str_plain: "0 \<le> i \<Longrightarrow> CHR ''-'' \<notin> set (int_str i)"
  using nat_str_no_minus by (simp add: int_str_def)

lemma email_ends_with_id:
  assumes "0 \<le> i"
  shows "last (split_on (CHR ''-'') (xray_client_email n i)) = int_str i"
proof -
  obtain l where "xray_client_email n i = l @ CHR ''-'' # int_str i"
    by (simp add: xray_client_email_def Let_def)
  then show ?thesis using assms by (simp add: last_split int_str_plain)
qed

lemma email_names_client:
  assumes "xray_client_email n i = xray_client_email m j" and "0 \<le> i" and "0 \<le> j"
  shows "i = j"
  using email_ends_with_id [OF assms(2), of n] email_ends_with_id [OF assms(3), of m] assms(1)
  by (simp add: int_str_inj)

lemma hysteria_user_inj: "''client-'' @ int_str i = ''client-'' @ int_str j \<longleftrightarrow> i = j"
  by (simp add: int_str_inj)

lemma hex_upper_plain:
  assumes "n < 16"
  shows "unreserved (hex_upper n)"
proof -
  have "byte (hex_upper n) = (if n < 10 then 48 + n else 55 + n)"
    using assms by (simp add: byte_def hex_upper_def)
  then show ?thesis using assms by (simp add: unreserved_def label_char_def Let_def)
qed

lemma byte_nibbles: "byte c div 16 < 16" "byte c mod 16 < 16"
proof -
  have "byte c < 16 * 16" using nat_of_char_less_256 [of c] by (simp add: byte_def)
  then show "byte c div 16 < 16" by (rule less_mult_imp_div_less)
qed simp

lemma url_quote_chars:
  assumes "ch \<in> set (url_quote safe s)"
  shows "unreserved ch \<or> ch \<in> set safe \<or> ch = CHR ''%''"
  using assms unfolding url_quote_def set_concat set_map
  by (auto simp: hex_upper_plain [OF byte_nibbles(1)] hex_upper_plain [OF byte_nibbles(2)] split: if_split_asm)

lemma newline_not_unreserved: "\<not> unreserved (CHR 0x0A)"
  by code_simp

lemma url_quote_one_line: "CHR 0x0A \<notin> set safe \<Longrightarrow> CHR 0x0A \<notin> set (url_quote safe s)"
  using url_quote_chars [of "CHR 0x0A"] newline_not_unreserved by auto

lemma quote_plus_one_line: "CHR 0x0A \<notin> set (quote_plus s)"
  using url_quote_one_line [of "'' ''"] by (auto simp: quote_plus_def split: if_splits)

lemma urlencode_one_line: "CHR 0x0A \<notin> set (urlencode kvs)"
proof
  assume "CHR 0x0A \<in> set (urlencode kvs)"
  from set_mp [OF set_join this [unfolded urlencode_def]] show False
    by (auto simp: quote_plus_one_line)
qed

lemma int_str_one_line: "CHR 0x0A \<notin> set (int_str i)"
proof -
  have "\<not> is_digit (CHR 0x0A)" by code_simp
  then show ?thesis using nat_str_digits by (auto simp: int_str_def)
qed

lemma split_lines_of:
  assumes "\<forall>l \<in> set ls. CHR 0x0A \<notin> set l"
  shows "split_on (CHR 0x0A) (lines_of ls) = ls @ [[]]"
  using assms by (induction ls) (simp_all add: lines_of_def newline_def split_on_append)

lemma config_comment_one_line: "CHR 0x0A \<notin> set (config_comment other v)"
proof
  assume "CHR 0x0A \<in> set (config_comment other v)"
  from set_mp [OF set_join this [unfolded config_comment_def]]
  obtain w where "w \<in> set (words (concat (map (\<lambda>ch. if category_c other ch then '' '' else ch) (characters v))))"
    and n: "CHR 0x0A \<in> set w" by auto
  then have "\<not> is_space (CHR 0x0A)" using set_words by blast
  then show False by (simp add: is_space_def byte_def)
qed

section \<open>Properties\<close>

text \<open>The statistics label Xray counts a client's traffic under names that client only: whatever
  the two names are, equal labels belong to the same client id.\<close>

theorem xray_labels_are_unique:
  assumes "0 \<le> i" and "0 \<le> j"
  shows "xray_client_email name i = xray_client_email other j \<longrightarrow> i = j"
  using email_names_client [OF _ assms] by blast

theorem xray_labels_are_unique_witness:
  "xray_client_email ''a-1'' 2 = ''a-1-2'' \<and> xray_client_email ''a'' 12 = ''a-12'' \<and>
   xray_client_email ''a-1'' 2 \<noteq> xray_client_email ''a'' 12"
proof -
  have "xray_client_email ''a-1'' 2 = ''a-1-2''" "xray_client_email ''a'' 12 = ''a-12''" by code_simp+
  then show ?thesis using xray_labels_are_unique [of 2 12 "''a-1''" "''a''"] by simp
qed

text \<open>The Hysteria server knows exactly the enabled clients of the captured configuration, each
  by its own user name and password, and these are the credentials the client's own profile
  carries.\<close>

theorem hysteria_knows_exactly_enabled_clients:
  assumes "distinct (map vc_id (enabled_clients c))" and "hy_auth_type (cc_hysteria c) = ''userpass''"
  shows "\<forall>user password. map_of (hysteria_users c) user = Some password \<longleftrightarrow>
    (\<exists>v \<in> set (cc_clients c). vc_enabled v \<and> user = ''client-'' @ int_str (vc_id v) \<and>
       password = vc_hysteria_password v \<and> hysteria_auth v c = Inr (user @ '':'' @ password))"
proof -
  let ?kv = "\<lambda>v. (''client-'' @ int_str (vc_id v), vc_hysteria_password v)"
  have "inj_on (\<lambda>i. ''client-'' @ int_str i) A" for A
    by (auto simp: inj_on_def int_str_inj)
  then have d: "distinct (map fst (map ?kv (enabled_clients c)))"
    using assms(1) by (simp add: distinct_map comp_def inj_on_def int_str_inj)
  have "map_of (hysteria_users c) user = Some password \<longleftrightarrow> (user, password) \<in> ?kv ` set (enabled_clients c)"
    for user password
    using d unfolding hysteria_users_def map_of_dict_of [OF d]
    by (subst map_of_eq_Some_iff [OF d]) simp
  then show ?thesis
    using assms(2) by (auto simp: enabled_clients_def hysteria_auth_def)
qed

theorem hysteria_knows_exactly_enabled_clients_witness:
  "\<exists>c v w. cc_clients c = [v, w] \<and> vc_enabled v \<and> \<not> vc_enabled w \<and>
     map_of (hysteria_users c) ''client-1'' = Some ''secret'' \<and> map_of (hysteria_users c) ''client-2'' \<noteq> Some (vc_hysteria_password w)"
proof -
  let ?v = "\<lparr>vc_id = 1, vc_name = ''a'', vc_token = ''t'', vc_enabled = True, vc_vless_uuid = ''u'',
    vc_hysteria_password = ''secret'', vc_amnezia_private_key = [], vc_amnezia_public_key = [],
    vc_amnezia_preshared_key = [], vc_amnezia_ipv4 = ''10.8.1.2'', vc_created_at = []\<rparr>"
  let ?w = "?v\<lparr>vc_id := 2, vc_enabled := False\<rparr>"
  fix c0 :: captured_config
  let ?c = "c0\<lparr>cc_clients := [?v, ?w], cc_hysteria := (cc_hysteria c0)\<lparr>hy_auth_type := ''userpass''\<rparr>\<rparr>"
  have one: "int_str 1 = ''1''" "int_str 2 = ''2''" by code_simp+
  have "distinct (map vc_id (enabled_clients ?c))" "hy_auth_type (cc_hysteria ?c) = ''userpass''"
    by (simp_all add: enabled_clients_def)
  note users = hysteria_knows_exactly_enabled_clients [OF this, rule_format]
  from users [of "''client-1''" "''secret''"] users [of "''client-2''" "''secret''"]
  have "map_of (hysteria_users ?c) ''client-1'' = Some ''secret''" "map_of (hysteria_users ?c) ''client-2'' \<noteq> Some ''secret''"
    by (simp_all add: one hysteria_auth_def)
  then show ?thesis
    by (intro exI [of _ ?c] exI [of _ ?v] exI [of _ ?w]) simp
qed

text \<open>A peer of the AmneziaWG configuration is five lines whatever its name is: a name cannot
  add a line to the file.\<close>

theorem peer_name_cannot_add_lines:
  assumes "CHR 0x0A \<notin> set (wg_public p)" and "CHR 0x0A \<notin> set (wg_preshared p)" and "CHR 0x0A \<notin> set address"
  shows "split_on (CHR 0x0A) (peer_block other p address) =
    [''[Peer]'', ''# '' @ config_comment other (wg_name p), ''PublicKey = '' @ wg_public p,
     ''PresharedKey = '' @ wg_preshared p, ''AllowedIPs = '' @ address @ ''/32'', []]"
  unfolding peer_block_def using assms config_comment_one_line by (subst split_lines_of) auto

theorem peer_name_cannot_add_lines_witness:
  "split_on (CHR 0x0A) (peer_block (\<lambda>_. False)
     \<lparr>wg_name = ''a'' @ [CHR 0x0A] @ ''PostUp = x'', wg_public = ''P'', wg_preshared = ''S'', wg_ipv4 = ''10.0.0.2'',
      wg_client = None\<rparr> ''10.0.0.2'') =
   [''[Peer]'', ''# a PostUp = x'', ''PublicKey = P'', ''PresharedKey = S'', ''AllowedIPs = 10.0.0.2/32'', []]"
proof -
  have "config_comment (\<lambda>_. False) (''a'' @ [CHR 0x0A] @ ''PostUp = x'') = ''a PostUp = x''" by code_simp
  then show ?thesis by (subst peer_name_cannot_add_lines) simp_all
qed

text \<open>A subscription has exactly one line per enabled protocol, whatever the client is called and
  whatever its passwords contain.\<close>

theorem subscription_has_one_line_per_protocol:
  assumes "render_subscription c v = Inr text"
    and "CHR 0x0A \<notin> set (vc_vless_uuid v)" and "CHR 0x0A \<notin> set (cc_current_ip c)"
  shows "length (split_on (CHR 0x0A) text) =
    1 + (if pc_enabled (vl_protocol (cc_vless c)) then 1 else 0) + (if pc_enabled (hy_protocol (cc_hysteria c)) then 1 else 0)"
proof -
  have "CHR 0x0A \<notin> set (vless_link c v)"
    using assms(2,3) by (simp add: vless_link_def urlencode_one_line url_quote_one_line int_str_one_line)
  moreover have "CHR 0x0A \<notin> set (hysteria_link c v auth)" for auth
    using assms(3) by (simp add: hysteria_link_def Let_def urlencode_one_line url_quote_one_line int_str_one_line)
  ultimately show ?thesis
    using assms(1) by (auto simp: render_subscription_def bind_result_Inr_iff split_lines_of split: if_splits)
qed

theorem subscription_has_one_line_per_protocol_witness:
  "\<exists>c v out. pc_enabled (vl_protocol (cc_vless c)) \<and> pc_enabled (hy_protocol (cc_hysteria c)) \<and>
     render_subscription c v = Inr out \<and> length (split_on (CHR 0x0A) out) = 3"
proof -
  let ?v = "\<lparr>vc_id = 1, vc_name = ''a'', vc_token = ''t'', vc_enabled = True, vc_vless_uuid = ''u'',
    vc_hysteria_password = ''secret'' @ newline, vc_amnezia_private_key = [], vc_amnezia_public_key = [],
    vc_amnezia_preshared_key = [], vc_amnezia_ipv4 = ''10.8.1.2'', vc_created_at = []\<rparr>"
  fix c0 :: captured_config
  let ?h = "cc_hysteria c0"
  let ?c = "c0\<lparr>cc_current_ip := ''192.0.2.1'',
    cc_hysteria := ?h\<lparr>hy_auth_type := ''userpass'', hy_protocol := (hy_protocol ?h)\<lparr>pc_enabled := True\<rparr>\<rparr>,
    cc_vless := (cc_vless c0)\<lparr>vl_protocol := (vl_protocol (cc_vless c0))\<lparr>pc_enabled := True\<rparr>\<rparr>\<rparr>"
  obtain out where out: "render_subscription ?c ?v = Inr out"
    by (simp add: render_subscription_def hysteria_auth_def)
  from subscription_has_one_line_per_protocol [OF this]
  have "length (split_on (CHR 0x0A) out) = 3" by simp
  then show ?thesis
    using out by (intro exI [of _ ?c] exI [of _ ?v] exI [of _ out]) simp
qed

end
