(* ===== verification/Handlers.thy ===== *)
theory Handlers
  imports Schema
begin

text \<open>
  Request handlers.  A handler runs one short database transaction after another; between two of
  them any other part of the panel may run.  \<open>('e, 'a) handler\<close> is its type: it is given what the
  others do to the database before each of its transactions, and returns its answer, or the error
  \<open>'e\<close> it ends with, and the database it leaves.
\<close>

type_synonym others = "(db \<Rightarrow> db) list"

type_synonym ('e, 'a) handler = "others \<Rightarrow> db \<Rightarrow> ('e + 'a) \<times> others \<times> db"

definition respond :: "'a \<Rightarrow> ('e, 'a) handler" where
  "respond x os d = (Inr x, os, d)"

definition refuse :: "'e \<Rightarrow> ('e, 'a) handler" where
  "refuse e os d = (Inl e, os, d)"

definition followed_by :: "('e, 'a) handler \<Rightarrow> ('a \<Rightarrow> ('e, 'b) handler) \<Rightarrow> ('e, 'b) handler" where
  "followed_by m f os d = (case m os d of
       (Inl e, os', d') \<Rightarrow> (Inl e, os', d')
     | (Inr x, os', d') \<Rightarrow> f x os' d')"

definition between :: "others \<Rightarrow> db \<Rightarrow> db" where
  "between os d = (case os of [] \<Rightarrow> d | f # _ \<Rightarrow> f d)"

text \<open>A transaction that raises leaves no change; \<open>caught\<close> is what the handler makes of the exception.\<close>

definition transaction :: "(exn \<Rightarrow> 'e) \<Rightarrow> 'a tx \<Rightarrow> ('e, 'a) handler" where
  "transaction caught t os d =
     (let d1 = between os d in
      case t d1 of Inl e \<Rightarrow> (Inl (caught e), tl os, d1) | Inr (x, d2) \<Rightarrow> (Inr x, tl os, d2))"

definition reading_tx :: "(db \<Rightarrow> 'e + 'a) \<Rightarrow> ('e, 'a) handler" where
  "reading_tx f os d = (let d1 = between os d in (f d1, tl os, d1))"

definition resolved :: "'e + 'a \<Rightarrow> ('e, 'a) handler" where
  "resolved r = (case r of Inl e \<Rightarrow> refuse e | Inr x \<Rightarrow> respond x)"

text \<open>A \<open>try\<close> around a transaction: the handler goes on with the exception or the result.\<close>

definition trying :: "'a tx \<Rightarrow> ('e, exn + 'a) handler" where
  "trying t os d =
     (let d1 = between os d in
      case t d1 of Inl e \<Rightarrow> (Inr (Inl e), tl os, d1) | Inr (x, d2) \<Rightarrow> (Inr (Inr x), tl os, d2))"

text \<open>A function that changes the database and returns nothing, as a transaction.\<close>

definition doing :: "(db \<Rightarrow> db) \<Rightarrow> unit tx" where
  "doing f d = Inr ((), f d)"

definition ignoring :: "(db \<Rightarrow> exn + db) \<Rightarrow> unit tx" where
  "ignoring f d = bind_result (f d) (\<lambda>d'. Inr ((), d'))"

section \<open>Running a handler\<close>

lemma followed_by_Inr:
  "followed_by m f os d = (Inr y, os', d') \<longleftrightarrow>
     (\<exists>x os1 d1. m os d = (Inr x, os1, d1) \<and> f x os1 d1 = (Inr y, os', d'))"
  by (auto simp: followed_by_def split: prod.splits sum.splits)

lemma transaction_Inr:
  "transaction caught t os d = (Inr x, os', d') \<longleftrightarrow> t (between os d) = Inr (x, d') \<and> os' = tl os"
  by (auto simp: transaction_def Let_def split: sum.splits)

lemma reading_tx_Inr:
  "reading_tx f os d = (Inr x, os', d') \<longleftrightarrow> f (between os d) = Inr x \<and> os' = tl os \<and> d' = between os d"
  by (auto simp: reading_tx_def Let_def)

lemma resolved_Inr: "resolved r os d = (Inr x, os', d') \<longleftrightarrow> r = Inr x \<and> os' = os \<and> d' = d"
  by (cases r) (auto simp: resolved_def respond_def refuse_def)

lemma respond_Inr: "respond x os d = (Inr y, os', d') \<longleftrightarrow> y = x \<and> os' = os \<and> d' = d"
  by (auto simp: respond_def)

lemma refuse_Inr: "\<not> refuse e os d = (Inr y, os', d')"
  by (simp add: refuse_def)

lemma trying_Inr:
  "trying t os d = (Inr r, os', d') \<longleftrightarrow> os' = tl os \<and>
     (case t (between os d) of Inl e \<Rightarrow> r = Inl e \<and> d' = between os d | Inr (x, d2) \<Rightarrow> r = Inr x \<and> d' = d2)"
  by (auto simp: trying_def Let_def split: sum.splits)

lemma trying_never_fails: "trying t os d \<noteq> (Inl e, os', d')"
  by (auto simp: trying_def Let_def split: sum.splits)

lemmas web_results = followed_by_Inr transaction_Inr reading_tx_Inr resolved_Inr respond_Inr refuse_Inr

section \<open>Handlers that only read\<close>

text \<open>The database a quiet handler leaves is what the others made of the one it found.\<close>

definition quiet :: "('e, 'a) handler \<Rightarrow> bool" where
  "quiet h \<longleftrightarrow> (\<forall>os d. \<exists>n. snd (snd (h os d)) = fold (\<lambda>f. f) (take n os) d \<and> fst (snd (h os d)) = drop n os)"

lemma quietD:
  assumes "quiet h" and "h os d = (r, os', d')"
  obtains n where "d' = fold (\<lambda>f. f) (take n os) d" "os' = drop n os"
  using assms(1) [unfolded quiet_def, rule_format, of os d] assms(2) by auto

named_theorems quiet_intros \<open>how a handler that only reads is built\<close>

lemma quiet_respond [quiet_intros]: "quiet (respond x)"
  unfolding quiet_def respond_def by (intro allI exI [of _ 0]) simp

lemma quiet_refuse [quiet_intros]: "quiet (refuse e)"
  unfolding quiet_def refuse_def by (intro allI exI [of _ 0]) simp

lemma between_take: "between os d = fold (\<lambda>f. f) (take 1 os) d"
  by (cases os) (simp_all add: between_def)

lemma quiet_reading_tx [quiet_intros]: "quiet (reading_tx f)"
  unfolding quiet_def reading_tx_def Let_def
  by (intro allI exI [of _ 1]) (simp add: between_take drop_Suc)

lemma quiet_resolved [quiet_intros]: "quiet (resolved r)"
  by (cases r) (simp_all add: resolved_def quiet_intros)

lemma quiet_followed_by [quiet_intros]:
  assumes "quiet m" and "\<And>x. quiet (f x)"
  shows "quiet (followed_by m f)"
  unfolding quiet_def
proof (intro allI)
  fix os d
  obtain r os1 d1 where m: "m os d = (r, os1, d1)" by (cases "m os d") auto
  obtain n where n: "d1 = fold (\<lambda>f. f) (take n os) d" "os1 = drop n os" by (rule quietD [OF assms(1) m])
  show "\<exists>k. snd (snd (followed_by m f os d)) = fold (\<lambda>f. f) (take k os) d \<and>
      fst (snd (followed_by m f os d)) = drop k os"
  proof (cases r)
    case (Inl e)
    then show ?thesis using n by (intro exI [of _ n]) (simp add: followed_by_def m)
  next
    case (Inr x)
    obtain r2 os2 d2 where f: "f x os1 d1 = (r2, os2, d2)" by (cases "f x os1 d1") auto
    obtain k where k: "d2 = fold (\<lambda>f. f) (take k os1) d1" "os2 = drop k os1" by (rule quietD [OF assms(2) f])
    have "take (n + k) os = take n os @ take k (drop n os)" by (rule take_add)
    then show ?thesis
      using n k f by (intro exI [of _ "n + k"]) (simp add: followed_by_def m Inr add.commute)
  qed
qed

lemma quiet_if [quiet_intros]: "quiet m \<Longrightarrow> quiet n \<Longrightarrow> quiet (if b then m else n)"
  by simp

lemma quiet_option [quiet_intros]: "quiet m \<Longrightarrow> (\<And>x. quiet (f x)) \<Longrightarrow> quiet (case y of None \<Rightarrow> m | Some x \<Rightarrow> f x)"
  by (cases y) simp_all

text \<open>What the others do leaves a property alone, then so does a quiet handler.\<close>

lemma others_keep: "(\<And>f d. f \<in> set os \<Longrightarrow> P d \<Longrightarrow> P (f d)) \<Longrightarrow> P d \<Longrightarrow> P (fold (\<lambda>f. f) (take n os) d)"
proof (induction os arbitrary: d n)
  case (Cons f os)
  then show ?case by (cases n) auto
qed simp

section \<open>What a handler ensures\<close>

text \<open>
  \<open>ensures P A h Q\<close>: when everybody else keeps \<open>P\<close>, a handler that finds \<open>P\<close> and \<open>A\<close> leaves \<open>P\<close>, and its
  result has \<open>Q\<close> in the database it leaves.  \<open>A\<close> need not survive the others.
\<close>

definition friendly :: "(db \<Rightarrow> bool) \<Rightarrow> others \<Rightarrow> bool" where
  "friendly P os \<longleftrightarrow> (\<forall>f \<in> set os. \<forall>d. P d \<longrightarrow> P (f d))"

definition ensures :: "(db \<Rightarrow> bool) \<Rightarrow> (db \<Rightarrow> bool) \<Rightarrow> ('e, 'a) handler \<Rightarrow> ('a \<Rightarrow> db \<Rightarrow> bool) \<Rightarrow> bool" where
  "ensures P A h Q \<longleftrightarrow> (\<forall>os d r os' d'. friendly P os \<longrightarrow> P d \<longrightarrow> A d \<longrightarrow> h os d = (r, os', d') \<longrightarrow>
     P d' \<and> friendly P os' \<and> (\<forall>x. r = Inr x \<longrightarrow> Q x d'))"

abbreviation always :: "db \<Rightarrow> bool" where
  "always \<equiv> (\<lambda>_. True)"

lemma ensuresI:
  assumes "\<And>os d r os' d'. friendly P os \<Longrightarrow> P d \<Longrightarrow> A d \<Longrightarrow> h os d = (r, os', d') \<Longrightarrow>
      P d' \<and> friendly P os' \<and> (\<forall>x. r = Inr x \<longrightarrow> Q x d')"
  shows "ensures P A h Q"
  using assms unfolding ensures_def by blast

lemma ensuresD:
  assumes "ensures P A h Q" and "friendly P os" and "P d" and "A d" and "h os d = (r, os', d')"
  shows "P d' \<and> friendly P os' \<and> (\<forall>x. r = Inr x \<longrightarrow> Q x d')"
  using assms unfolding ensures_def by blast

lemma between_keeps: "friendly P os \<Longrightarrow> P d \<Longrightarrow> P (between os d)"
  by (cases os) (simp_all add: between_def friendly_def)

lemma friendly_tl: "friendly P os \<Longrightarrow> friendly P (tl os)"
  by (cases os) (simp_all add: friendly_def)

named_theorems ensures_intros \<open>what a composed handler ensures\<close>

lemma ensures_respond [ensures_intros]: "(\<And>d. P d \<Longrightarrow> A d \<Longrightarrow> Q x d) \<Longrightarrow> ensures P A (respond x) Q"
  by (rule ensuresI) (auto simp: respond_def)

lemma ensures_refuse [ensures_intros]: "ensures P A (refuse e) Q"
  by (rule ensuresI) (auto simp: refuse_def)

lemma ensures_reading [ensures_intros]:
  assumes "\<And>d x. P d \<Longrightarrow> f d = Inr x \<Longrightarrow> Q x d"
  shows "ensures P A (reading_tx f) Q"
proof (rule ensuresI)
  fix os d r os' d' assume "friendly P os" "P d" "reading_tx f os d = (r, os', d')"
  then show "P d' \<and> friendly P os' \<and> (\<forall>x. r = Inr x \<longrightarrow> Q x d')"
    using between_keeps [of P os d] friendly_tl [of P os] assms by (auto simp: reading_tx_def Let_def)
qed

lemma ensures_transaction [ensures_intros]:
  assumes "\<And>d x d'. P d \<Longrightarrow> t d = Inr (x, d') \<Longrightarrow> P d' \<and> Q x d'"
  shows "ensures P A (transaction caught t) Q"
proof (rule ensuresI)
  fix os d r os' d' assume "friendly P os" "P d" "transaction caught t os d = (r, os', d')"
  then show "P d' \<and> friendly P os' \<and> (\<forall>x. r = Inr x \<longrightarrow> Q x d')"
    using between_keeps [of P os d] friendly_tl [of P os] assms
    by (auto simp: transaction_def Let_def split: sum.splits)
qed

lemma ensures_trying [ensures_intros]:
  assumes "\<And>d x d'. P d \<Longrightarrow> t d = Inr (x, d') \<Longrightarrow> P d' \<and> Q (Inr x) d'"
    and "\<And>d e. P d \<Longrightarrow> Q (Inl e) d"
  shows "ensures P A (trying t) Q"
proof (rule ensuresI)
  fix os d r os' d' assume "friendly P os" "P d" "trying t os d = (r, os', d')"
  then show "P d' \<and> friendly P os' \<and> (\<forall>x. r = Inr x \<longrightarrow> Q x d')"
    using between_keeps [of P os d] friendly_tl [of P os] assms
    by (auto simp: trying_def Let_def split: sum.splits)
qed

lemma ensures_resolved [ensures_intros]:
  "(\<And>d x. P d \<Longrightarrow> A d \<Longrightarrow> r = Inr x \<Longrightarrow> Q x d) \<Longrightarrow> ensures P A (resolved r) Q"
  by (cases r) (auto simp: resolved_def intro!: ensures_intros)

lemma ensures_followed_by:
  assumes "ensures P A m R" and "\<And>x. ensures P (R x) (f x) Q"
  shows "ensures P A (followed_by m f) Q"
proof (rule ensuresI)
  fix os d r os' d'
  assume d: "friendly P os" "P d" "A d" and h: "followed_by m f os d = (r, os', d')"
  obtain r1 os1 d1 where m: "m os d = (r1, os1, d1)" by (cases "m os d") auto
  note 1 = ensuresD [OF assms(1) d m]
  show "P d' \<and> friendly P os' \<and> (\<forall>x. r = Inr x \<longrightarrow> Q x d')"
  proof (cases r1)
    case (Inl e)
    then show ?thesis using 1 h by (auto simp: followed_by_def m)
  next
    case (Inr x)
    then have "f x os1 d1 = (r, os', d')" using h by (simp add: followed_by_def m)
    with Inr 1 show ?thesis using ensuresD [OF assms(2)] by blast
  qed
qed

text \<open>What a first step that only looks, or only checks, found out is not needed.\<close>

lemma ensures_then [ensures_intros]:
  assumes "\<And>x. ensures P always (f x) Q" and "ensures P A m (\<lambda>_. always)"
  shows "ensures P A (followed_by m f) Q"
  by (rule ensures_followed_by [OF assms(2)]) (rule assms(1))

lemma ensures_if [ensures_intros]:
  "(b \<Longrightarrow> ensures P A m Q) \<Longrightarrow> (\<not> b \<Longrightarrow> ensures P A n Q) \<Longrightarrow> ensures P A (if b then m else n) Q"
  by simp

lemma ensures_option [ensures_intros]:
  "ensures P A m Q \<Longrightarrow> (\<And>x. ensures P A (f x) Q) \<Longrightarrow> ensures P A (case y of None \<Rightarrow> m | Some x \<Rightarrow> f x) Q"
  by (cases y) simp_all

lemma ensures_weaken:
  "ensures P A h R \<Longrightarrow> (\<And>x d. P d \<Longrightarrow> R x d \<Longrightarrow> Q x d) \<Longrightarrow> ensures P A h Q"
  unfolding ensures_def by blast

end
