(* ===== verification/RouterApi.thy ===== *)
theory RouterApi
  imports RouterApply ServerConfig Runtime Handlers
begin

text \<open>
  The HTTP interface of the routers (\<open>app/router_api.py\<close>).  Parameters, in \<open>surroundings\<close>:
  the configuration, the digest, the category test of \<open>unicodedata\<close>, \<open>pack\<close> for \<open>zlib.compress\<close>
  with the length in front, and \<open>float_repr\<close>, the \<open>repr\<close> of the float a JSON text denotes.
\<close>

section \<open>Handlers\<close>

record router_api_error =
  ae_status :: int
  ae_code :: string
  ae_message :: string
  ae_headers :: "(string \<times> string) list"
  ae_extra :: "(string \<times> json) list"

text \<open>An exception that no handler catches becomes the server's own error page.\<close>

datatype api_failure = RouterApiError router_api_error | Uncaught exn

type_synonym 'a web = "(api_failure, 'a) handler"

definition uncaught :: "exn + 'a \<Rightarrow> api_failure + 'a" where
  "uncaught r = (case r of Inl e \<Rightarrow> Inl (Uncaught e) | Inr x \<Rightarrow> Inr x)"

definition refusal :: "int \<Rightarrow> string \<Rightarrow> string \<Rightarrow> (string \<times> string) list \<Rightarrow> (string \<times> json) list \<Rightarrow> api_failure" where
  "refusal st code message headers extra =
     RouterApiError \<lparr>ae_status = st, ae_code = code, ae_message = message, ae_headers = headers, ae_extra = extra\<rparr>"

record response =
  rs_status :: int
  rs_headers :: "(string \<times> string) list"
  rs_body :: string

definition api_response_headers :: "(string \<times> string) list" where
  "api_response_headers =
     [(''Cache-Control'', ''private, no-store''), (''Referrer-Policy'', ''no-referrer''),
      (''Vary'', ''Authorization'')]"

text \<open>\<open>{**a, **b}\<close>: the later value of a repeated name, in the place of the first.\<close>

definition merged :: "(string \<times> 'a) list \<Rightarrow> (string \<times> 'a) list \<Rightarrow> (string \<times> 'a) list" where
  "merged a b = dict_of (a @ b)"

definition router_api_error_response :: "router_api_error \<Rightarrow> response" where
  "router_api_error_response e =
     \<lparr>rs_status = ae_status e, rs_headers = merged api_response_headers (ae_headers e),
      rs_body = show_json quote_json []
        (JObj [(''error'', JObj (merged [(''code'', JStr (ae_code e)), (''message'', JStr (ae_message e))]
                  (ae_extra e)))])\<rparr>"

record surroundings =
  su_config :: config
  su_sha :: "string \<Rightarrow> string"
  su_other :: "nat \<Rightarrow> bool"
  su_pack :: "string \<Rightarrow> string"
  su_float_repr :: "string \<Rightarrow> string"

section \<open>Authorization\<close>

definition bearer_realm :: "(string \<times> string) list" where
  "bearer_realm = [(''WWW-Authenticate'',
     ''Bearer realm='' @ [CHR 0x22] @ ''router-api'' @ [CHR 0x22])]"

definition bearer_required :: api_failure where
  "bearer_required = refusal 401 ''invalid_token'' ''Bearer authentication required'' bearer_realm []"

definition require_enabled :: "surroundings \<Rightarrow> unit web" where
  "require_enabled su = reading_tx (\<lambda>d.
     if router_api_enabled (su_config su) d then Inr ()
     else Inl (refusal 404 ''not_found'' ''Resource not found'' [] []))"

definition bearer_token :: "request \<Rightarrow> api_failure + string" where
  "bearer_token rq =
     (let authorization = header rq ''authorization'' in
      if authorization = [] \<or> 512 < py_len authorization then Inl bearer_required
      else (case partition_at (CHR '' '') authorization of (scheme, found, token) \<Rightarrow>
        if \<not> found \<or> py_lower scheme \<noteq> ''bearer'' \<or> token = [] \<or> CHR '' '' \<in> set token
        then Inl bearer_required else Inr token))"

fun auth_api_error :: "auth_failure \<Rightarrow> api_failure" where
  "auth_api_error InvalidToken = bearer_required"
| "auth_api_error CredentialForbidden =
     refusal 403 ''credential_forbidden'' ''Router credential is disabled or revoked'' [] []"
| "auth_api_error ClientForbidden =
     refusal 403 ''client_forbidden'' ''Router credential client is disabled'' [] []"
| "auth_api_error RouterForbidden = refusal 403 ''router_forbidden'' ''Router is disabled'' [] []"
| "auth_api_error InsufficientScope =
     refusal 403 ''insufficient_scope'' ''Router credential lacks the required scope'' [] []"

definition authorize_router :: "surroundings \<Rightarrow> int \<Rightarrow> int \<Rightarrow> request \<Rightarrow> string \<Rightarrow> authenticated web" where
  "authorize_router su clock at rq scope =
     followed_by (require_enabled su) (\<lambda>_.
     followed_by (resolved (bearer_token rq)) (\<lambda>token.
     followed_by (transaction Uncaught (authenticate_router_credential (su_sha su) clock at token scope))
       (\<lambda>r. case r of Authenticated c \<Rightarrow> respond c | AuthenticationFailure f \<Rightarrow> refuse (auth_api_error f))))"

section \<open>The applied snapshot\<close>

definition not_ready :: "string \<Rightarrow> api_failure" where
  "not_ready message = refusal 503 ''snapshot_not_ready'' message [(''Retry-After'', ''30'')] []"

definition applied_publication :: "int \<Rightarrow> db \<Rightarrow> ts option" where
  "applied_publication revision d =
     (case select_last (\<lambda>r. ip_published_revision r = Some revision \<and> ip_published_at r \<noteq> None) (ip_ops d) of
        None \<Rightarrow> None | Some r \<Rightarrow> ip_published_at r)"

fun read_error :: "exn \<Rightarrow> bool" where
  "read_error (KeyError _) = True"
| "read_error (TypeError _) = True"
| "read_error (ValueError _) = True"
| "read_error _ = False"

definition snapshot_contents ::
  "surroundings \<Rightarrow> snapshot_row \<Rightarrow> ts option \<Rightarrow> api_failure + snapshot_row \<times> captured_config \<times> ts option" where
  "snapshot_contents su s published_at =
     bind_result (uncaught (compare_digest (su_sha su (sn_payload_json s)) (sn_payload_sha256 s))) (\<lambda>same.
       if \<not> same then Inl (not_ready ''Applied VPN snapshot is unavailable'')
       else case captured_vpn_config_from_json (sn_payload_json s) of
           Inr c \<Rightarrow> Inr (s, c, published_at)
         | Inl e \<Rightarrow>
             if read_error e then Inl (not_ready ''Applied VPN snapshot is unavailable'')
             else Inl (Uncaught e))"

definition load_applied_snapshot :: "surroundings \<Rightarrow> (snapshot_row \<times> captured_config \<times> ts option) web" where
  "load_applied_snapshot su = reading_tx (\<lambda>d.
     case applied_revision (vpn_state d) of
       None \<Rightarrow> Inl (not_ready ''No applied VPN snapshot is available'')
     | Some revision \<Rightarrow>
         (case applied_snapshot revision d of
            None \<Rightarrow> Inl (not_ready ''No applied VPN snapshot is available'')
          | Some s \<Rightarrow> snapshot_contents su s (applied_publication revision d)))"

section \<open>What a router is given\<close>

definition api_vless_outbound :: "captured_config \<Rightarrow> vpn_client \<Rightarrow> json" where
  "api_vless_outbound c v = JObj
    [(''type'', JStr ''vless''), (''tag'', JStr ''vless-reality''), (''server'', JStr (cc_current_ip c)),
     (''server_port'', JInt (pc_port (vl_protocol (cc_vless c)))), (''uuid'', JStr (vc_vless_uuid v)),
     (''flow'', JStr ''xtls-rprx-vision''),
     (''tls'', JObj [(''enabled'', JBool True), (''server_name'', JStr (vl_server_name (cc_vless c))),
        (''utls'', JObj [(''enabled'', JBool True), (''fingerprint'', JStr (vl_fingerprint (cc_vless c)))]),
        (''reality'', JObj [(''enabled'', JBool True), (''public_key'', JStr (vl_public_key (cc_vless c))),
           (''short_id'', JStr (vl_short_id (cc_vless c)))])])]"

definition api_hysteria_outbound :: "captured_config \<Rightarrow> vpn_client \<Rightarrow> exn + json" where
  "api_hysteria_outbound c v =
     bind_result (hysteria_auth v c) (\<lambda>auth. Inr (JObj
      ([(''type'', JStr ''hysteria2''), (''tag'', JStr ''hysteria2''), (''server'', JStr (cc_current_ip c)),
        (''server_port'', JInt (pc_port (hy_protocol (cc_hysteria c)))), (''password'', JStr auth),
        (''tls'', JObj [(''enabled'', JBool True), (''server_name'', JStr (vl_server_name (cc_vless c))),
           (''insecure'', JBool True)])] @
       (if hy_obfs_password (cc_hysteria c) = [] then []
        else [(''obfs'', JObj [(''type'', JStr ''salamander''),
                 (''password'', JStr (hy_obfs_password (cc_hysteria c)))])]))))"

definition amnezia_vpn_key :: "surroundings \<Rightarrow> captured_config \<Rightarrow> vpn_client \<Rightarrow> exn + string" where
  "amnezia_vpn_key su c v =
     render_amnezia_vpn_key (su_pack su) (\<lambda>bytes. token_urlsafe (map byte bytes)) (su_config su) c v"

definition profile_members :: "captured_config \<Rightarrow> vpn_client \<Rightarrow> (string \<times> json) list" where
  "profile_members c v =
     (let o' = am_obfuscation (cc_amnezia c) in
      [(''protocol_version'', JInt 1),
       (''capabilities'', JObj [(''awg_obfuscation_v1'', JBool True), (''awg2_i_fields'', JBool False),
          (''obfuscation_fields'', JList (map JStr
             [''Jc'', ''Jmin'', ''Jmax'', ''S1'', ''S2'', ''H1'', ''H2'', ''H3'', ''H4'']))]),
       (''interface'', JObj [(''private_key'', JStr (vc_amnezia_private_key v)),
          (''address'', JStr (vc_amnezia_ipv4 v @ ''/32'')),
          (''dns_servers'', JList (map JStr (dns_servers (am_dns (cc_amnezia c)))))]),
       (''peer'', JObj [(''public_key'', JStr (am_server_public_key (cc_amnezia c))),
          (''preshared_key'', JStr (vc_amnezia_preshared_key v)),
          (''endpoint'', JObj [(''host'', JStr (cc_current_ip c)),
             (''port'', JInt (pc_port (am_protocol (cc_amnezia c))))]),
          (''persistent_keepalive'', JInt 25)]),
       (''obfuscation'', JObj
          [(''Jc'', JInt (ob_jc o')), (''Jmin'', JInt (ob_jmin o')), (''Jmax'', JInt (ob_jmax o')),
           (''S1'', JInt (ob_s1 o')), (''S2'', JInt (ob_s2 o')), (''H1'', JInt (ob_h1 o')),
           (''H2'', JInt (ob_h2 o')), (''H3'', JInt (ob_h3 o')), (''H4'', JInt (ob_h4 o'))]),
       (''route_allowed_ips'', JList [JStr ''0.0.0.0/0'', JStr ''::/0'']),
       (''install_routes'', JBool False)])"

definition amnezia_profile :: "surroundings \<Rightarrow> captured_config \<Rightarrow> vpn_client \<Rightarrow> exn + (string \<times> json) list" where
  "amnezia_profile su c v =
     bind_result (amnezia_vpn_key su c v) (\<lambda>key.
       Inr (profile_members c v @ [(''legacy_amnezia_vpn_import_key'', JStr key)]))"

definition json_time :: "ts option \<Rightarrow> json" where
  "json_time t = (case t of None \<Rightarrow> JNull | Some s \<Rightarrow> JStr (iso_text s))"

text \<open>\<open>x if enabled else None\<close>, evaluated only when it is enabled.\<close>

definition if_enabled :: "bool \<Rightarrow> exn + json \<Rightarrow> exn + json" where
  "if_enabled on r = (if on then r else Inr JNull)"

definition build_router_snapshot_response ::
  "surroundings \<Rightarrow> int \<Rightarrow> snapshot_row \<Rightarrow> captured_config \<Rightarrow> vpn_client \<Rightarrow> ts option \<Rightarrow> string \<Rightarrow>
   (string \<times> json) list \<Rightarrow> exn + json" where
  "build_router_snapshot_response su version s c v published_at rid aux =
     (let vl = pc_enabled (vl_protocol (cc_vless c)); hy = pc_enabled (hy_protocol (cc_hysteria c));
          am = pc_enabled (am_protocol (cc_amnezia c)) in
      bind_result (if_enabled hy (api_hysteria_outbound c v)) (\<lambda>hysteria.
      bind_result (if_enabled am (bind_result (amnezia_profile su c v) (\<lambda>p. Inr (JObj p)))) (\<lambda>profile.
        Inr (JObj
          [(''schema_version'', JInt version), (''router_id'', JStr rid), (''revision'', JInt (sn_revision s)),
           (''snapshot_sha256'', JStr (sn_payload_sha256 s)), (''applied_at'', json_time (sn_applied_at s)),
           (''published_at'', json_time published_at),
           (''client'', JObj [(''id'', JInt (vc_id v)), (''name'', JStr (vc_name v))]),
           (''server'', JObj [(''endpoint'', JStr (cc_current_ip c))]),
           (''protocols'', JObj
             ([(''vless'', JObj [(''enabled'', JBool vl),
                 (''outbound'', if vl then api_vless_outbound c v else JNull)]),
               (''hysteria2'', JObj [(''enabled'', JBool hy), (''outbound'', hysteria)]),
               (''amneziawg'', JObj [(''enabled'', JBool am), (''profile'', profile)])] @ aux))]))))"

definition own_peer :: "captured_config \<Rightarrow> string \<Rightarrow> int \<Rightarrow> router_peer option" where
  "own_peer c rid cid = List.find (\<lambda>p. rp_router_id p = rid \<and> rp_client_id p = cid) (cc_router_peers c)"

definition auxiliary_client :: "vpn_client \<Rightarrow> router_peer \<Rightarrow> vpn_client" where
  "auxiliary_client v p = v\<lparr>vc_amnezia_private_key := rp_private_key p, vc_amnezia_public_key := rp_public_key p,
     vc_amnezia_preshared_key := rp_preshared_key p, vc_amnezia_ipv4 := rp_ipv4 p\<rparr>"

text \<open>The import key is built with the rest of the profile, then taken out.\<close>

definition auxiliary_profile :: "surroundings \<Rightarrow> captured_config \<Rightarrow> vpn_client \<Rightarrow> router_peer \<Rightarrow> exn + json" where
  "auxiliary_profile su c v p =
     bind_result (amnezia_profile su c (auxiliary_client v p)) (\<lambda>ms.
       Inr (JObj (filter (\<lambda>(k, _). k \<noteq> ''legacy_amnezia_vpn_import_key'') ms)))"

definition single_payload ::
  "surroundings \<Rightarrow> snapshot_row \<Rightarrow> captured_config \<Rightarrow> vpn_client \<Rightarrow> ts option \<Rightarrow> string \<Rightarrow> exn + json" where
  "single_payload su s c v published_at rid = build_router_snapshot_response su 3 s c v published_at rid []"

definition build_router_dual_snapshot_response ::
  "surroundings \<Rightarrow> snapshot_row \<Rightarrow> captured_config \<Rightarrow> vpn_client \<Rightarrow> ts option \<Rightarrow> string \<Rightarrow> exn + json" where
  "build_router_dual_snapshot_response su s c v published_at rid =
     bind_result (build_router_snapshot_response su 3 s c v published_at rid []) (\<lambda>_.
     bind_result
       (case own_peer c rid (vc_id v) of
          None \<Rightarrow> Inr JNull
        | Some p \<Rightarrow> if_enabled (pc_enabled (am_protocol (cc_amnezia c))) (auxiliary_profile su c v p)) (\<lambda>profile.
       build_router_snapshot_response su 4 s c v published_at rid
         [(''amneziawg_aux'', JObj [(''enabled'', JBool (profile \<noteq> JNull)), (''profile'', profile)])]))"

definition response_etag :: "surroundings \<Rightarrow> json \<Rightarrow> string" where
  "response_etag su payload = CHR 0x22 # su_sha su (dumps payload) @ [CHR 0x22]"

definition client_from_applied_snapshot :: "authenticated \<Rightarrow> captured_config \<Rightarrow> api_failure + vpn_client" where
  "client_from_applied_snapshot a c =
     (case List.find (\<lambda>v. vc_id v = au_client_id a) (enabled_clients c) of
        Some v \<Rightarrow> Inr v
      | None \<Rightarrow> Inl (refusal 409 ''client_not_applied''
          ''Router credential client is not present in the applied snapshot'' [] []))"

section \<open>Reading the snapshot\<close>

definition conditional_response :: "surroundings \<Rightarrow> request \<Rightarrow> json \<Rightarrow> api_failure + response" where
  "conditional_response su rq payload =
     (let etag = response_etag su payload; conditional = header rq ''if-none-match'';
          headers = api_response_headers @ [(''ETag'', etag)]
      in if 256 < py_len conditional then
           Inl (refusal 400 ''invalid_header'' ''Conditional header is too long'' [] [])
         else if conditional = etag then Inr \<lparr>rs_status = 304, rs_headers = headers, rs_body = []\<rparr>
         else Inr \<lparr>rs_status = 200, rs_headers = headers, rs_body = dumps payload\<rparr>)"

definition endpoint_missing :: "(string \<times> string) list \<Rightarrow> api_failure" where
  "endpoint_missing headers =
     refusal 503 ''snapshot_not_ready'' ''Applied VPN snapshot has no server endpoint'' headers []"

definition snapshot_handler ::
  "surroundings \<Rightarrow> int \<Rightarrow> int \<Rightarrow> request \<Rightarrow>
   (authenticated \<Rightarrow> snapshot_row \<Rightarrow> captured_config \<Rightarrow> vpn_client \<Rightarrow> ts option \<Rightarrow> api_failure + json) \<Rightarrow> response web" where
  "snapshot_handler su clock at rq payload =
     followed_by (authorize_router su clock at rq ''snapshot:read'') (\<lambda>a.
     followed_by (load_applied_snapshot su) (\<lambda>(s, c, published_at).
     followed_by (resolved (client_from_applied_snapshot a c)) (\<lambda>v.
       resolved (bind_result (payload a s c v published_at) (conditional_response su rq)))))"

definition router_snapshot :: "surroundings \<Rightarrow> int \<Rightarrow> int \<Rightarrow> request \<Rightarrow> response web" where
  "router_snapshot su clock at rq =
     snapshot_handler su clock at rq (\<lambda>a s c v published_at.
       if cc_current_ip c = [] then Inl (endpoint_missing [(''Retry-After'', ''30'')])
       else uncaught (single_payload su s c v published_at (au_router_id a)))"

definition router_snapshot_dual :: "surroundings \<Rightarrow> int \<Rightarrow> int \<Rightarrow> request \<Rightarrow> response web" where
  "router_snapshot_dual su clock at rq =
     snapshot_handler su clock at rq (\<lambda>a s c v published_at.
       if cc_current_ip c = [] then Inl (endpoint_missing [(''Retry-After'', ''30'')])
       else uncaught (build_router_dual_snapshot_response su s c v published_at (au_router_id a)))"

definition auxiliary_payload ::
  "surroundings \<Rightarrow> authenticated \<Rightarrow> snapshot_row \<Rightarrow> captured_config \<Rightarrow> vpn_client \<Rightarrow> api_failure + json" where
  "auxiliary_payload su a s c v =
     (case own_peer c (au_router_id a) (au_client_id a) of
        None \<Rightarrow> Inl (refusal 409 ''router_peer_not_applied''
          ''The router VPN+zapret peer is not present in the applied snapshot'' [] [])
      | Some p \<Rightarrow>
          if cc_current_ip c = [] then Inl (endpoint_missing [])
          else
            (let on = pc_enabled (am_protocol (cc_amnezia c)) in
             bind_result (uncaught (if_enabled on (auxiliary_profile su c v p))) (\<lambda>profile.
               Inr (JObj
                 [(''schema_version'', JInt 1), (''router_id'', JStr (au_router_id a)),
                  (''lane'', JStr ''vpn_zapret''), (''revision'', JInt (sn_revision s)),
                  (''snapshot_sha256'', JStr (sn_payload_sha256 s)), (''enabled'', JBool on),
                  (''profile'', profile)]))))"

definition router_auxiliary_amnezia :: "surroundings \<Rightarrow> int \<Rightarrow> int \<Rightarrow> request \<Rightarrow> response web" where
  "router_auxiliary_amnezia su clock at rq =
     snapshot_handler su clock at rq (\<lambda>a s c v _. auxiliary_payload su a s c v)"

section \<open>Accepting an apply result\<close>

definition duplicate_rejecting_object :: "(string \<times> json) list \<Rightarrow> exn + (string \<times> json) list" where
  "duplicate_rejecting_object kvs =
     (if distinct (map fst kvs) then Inr kvs
      else Inl (RouterApplyValidationError ''JSON object contains a duplicate key''))"

text \<open>Python keeps a float, not its text.\<close>

fun with_floats :: "(string \<Rightarrow> string) \<Rightarrow> json \<Rightarrow> json"
  and with_floats_list :: "(string \<Rightarrow> string) \<Rightarrow> json list \<Rightarrow> json list"
  and with_floats_members :: "(string \<Rightarrow> string) \<Rightarrow> (string \<times> json) list \<Rightarrow> (string \<times> json) list" where
  "with_floats f (JFloat r) = JFloat (f r)"
| "with_floats f (JList vs) = JList (with_floats_list f vs)"
| "with_floats f (JObj kvs) = JObj (with_floats_members f kvs)"
| "with_floats f v = v"
| "with_floats_list f [] = []"
| "with_floats_list f (v # vs) = with_floats f v # with_floats_list f vs"
| "with_floats_members f [] = []"
| "with_floats_members f ((k, v) # kvs) = (k, with_floats f v) # with_floats_members f kvs"

text \<open>The constants \<open>NaN\<close>, \<open>Infinity\<close> and \<open>-Infinity\<close>, which \<open>parse_constant\<close> refuses, are no JSON for the parser.\<close>

definition valid_utf8 :: "string \<Rightarrow> bool" where
  "valid_utf8 s \<longleftrightarrow> concat (map utf8 (code_points s)) = s \<and>
     list_all (\<lambda>n. int n < 55296 \<or> 57343 < int n \<and> int n < 1114112) (code_points s)"

definition parse_apply_result_json :: "surroundings \<Rightarrow> string \<Rightarrow> api_failure + json" where
  "parse_apply_result_json su body =
     (case if valid_utf8 body then loads_with duplicate_rejecting_object body else Inl Malformed of
        Inr v \<Rightarrow> Inr (with_floats (su_float_repr su) v)
      | Inl Malformed \<Rightarrow> Inl (refusal 400 ''invalid_json'' ''Request body is not valid JSON'' [] [])
      | Inl (Refused e) \<Rightarrow> Inl (refusal 400 ''invalid_json'' (exn_text e) [] []))"

definition max_body_bytes :: int where
  "max_body_bytes = 16 * 1024"

definition body_too_large :: api_failure where
  "body_too_large = refusal 413 ''body_too_large'' ''Request body is too large'' [] []"

text \<open>The chunks as they arrive; reading stops at the first that exceeds the limit.\<close>

fun read_chunks :: "string \<Rightarrow> string list \<Rightarrow> api_failure + string" where
  "read_chunks body [] =
     (if body = [] then Inl (refusal 400 ''invalid_json'' ''Request body must contain JSON'' [] [])
      else Inr body)"
| "read_chunks body (chunk # chunks) =
     (if max_body_bytes < int (length (body @ chunk)) then Inl body_too_large
      else read_chunks (body @ chunk) chunks)"

definition read_apply_result_body :: "request \<Rightarrow> string list \<Rightarrow> api_failure + string" where
  "read_apply_result_body rq chunks =
     (let content_type = py_lower (py_strip (fst (partition_at (CHR '';'') (header rq ''content-type''))));
          content_length = header rq ''content-length'';
          bad_length = refusal 400 ''invalid_header'' ''Content-Length is invalid'' [] []
      in if content_type \<noteq> ''application/json'' then
           Inl (refusal 415 ''unsupported_media_type'' ''Content-Type must be application/json'' [] [])
         else if content_length = [] then read_chunks [] chunks
         else (case parse_int content_length of
             None \<Rightarrow> Inl bad_length
           | Some n \<Rightarrow>
               if n < 0 then Inl bad_length
               else if max_body_bytes < n then Inl body_too_large
               else read_chunks [] chunks))"

definition apply_result_response :: "stored_result \<Rightarrow> json" where
  "apply_result_response r = JObj
    [(''schema_version'', JInt 1), (''result_id'', JInt (so_id r)),
     (''idempotency_key'', JStr (so_idempotency_key r)), (''revision'', JInt (so_revision r)),
     (''snapshot_sha256'', JStr (so_snapshot_sha256 r)), (''outcome'', JStr (outcome_text (so_outcome r))),
     (''active_profile'', case so_active_profile r of None \<Rightarrow> JNull | Some p \<Rightarrow> JStr p),
     (''accepted_at'', JStr (iso_text (so_created_at r))), (''replayed'', JBool (so_replayed r))]"

definition accepted_response :: "stored_result \<Rightarrow> string \<Rightarrow> response" where
  "accepted_response r etag =
     \<lparr>rs_status = 200, rs_headers = api_response_headers @ [(''ETag'', etag)],
      rs_body = dumps (apply_result_response r)\<rparr>"

definition current_revision_note :: "int \<Rightarrow> (string \<times> json) list" where
  "current_revision_note revision = [(''current_applied_revision'', JInt revision)]"

text \<open>\<open>except RouterApplyValidationError\<close>.\<close>

definition validation_error :: "string \<Rightarrow> exn \<Rightarrow> api_failure" where
  "validation_error code e = (case e of
       RouterApplyValidationError m \<Rightarrow> refusal 400 code m [] []
     | _ \<Rightarrow> Uncaught e)"

definition invalid_as :: "string \<Rightarrow> exn + 'a \<Rightarrow> api_failure + 'a" where
  "invalid_as code r = (case r of Inl e \<Rightarrow> Inl (validation_error code e) | Inr x \<Rightarrow> Inr x)"

definition etag_missing :: "surroundings \<Rightarrow> 'a web" where
  "etag_missing su =
     followed_by (load_applied_snapshot su) (\<lambda>(s, _, _).
       refuse (refusal 428 ''if_match_required'' ''If-Match for the applied router snapshot is required'' []
         (current_revision_note (sn_revision s))))"

text \<open>The answer to a conflict the look-up of a replay finds.\<close>

definition replay_conflict :: "surroundings \<Rightarrow> string \<Rightarrow> 'a web" where
  "replay_conflict su code =
     followed_by (load_applied_snapshot su) (\<lambda>(s, _, _).
       refuse (if code = ''etag_mismatch'' then
           refusal 412 ''etag_mismatch'' ''If-Match does not match the original idempotent result'' []
             (current_revision_note (sn_revision s))
         else refusal 409 ''idempotency_conflict''
             ''Idempotency key was already used for a different apply result'' []
             (current_revision_note (sn_revision s))))"

text \<open>Reads the database, and reports a conflict as one of the values.\<close>

definition find_replay ::
  "authenticated \<Rightarrow> string \<Rightarrow> apply_report \<Rightarrow> string \<Rightarrow> (string + stored_result option) web" where
  "find_replay a key rp etag = reading_tx (\<lambda>d.
     case find_router_apply_result_replay (au_credential_id a) key rp etag d of
       Inr r \<Rightarrow> Inr (Inr r)
     | Inl (RouterApplyConflictError code _) \<Rightarrow> Inr (Inl code)
     | Inl e \<Rightarrow> Inl (Uncaught e))"

fun record_error :: "exn \<Rightarrow> api_failure" where
  "record_error (RouterApplyConflictError code revision) =
     (let note = [(''current_applied_revision'', case revision of None \<Rightarrow> JNull | Some n \<Rightarrow> JInt n)] in
      if code = ''snapshot_not_ready'' then not_ready ''No applied VPN snapshot is available''
      else if code = ''etag_mismatch'' then
        refusal 412 ''etag_mismatch'' ''If-Match does not match the original idempotent result'' [] note
      else refusal 409 code
        (if code = ''idempotency_conflict'' then ''Idempotency key was already used for a different apply result''
         else ''Applied VPN snapshot changed while accepting the result'') [] note)"
| "record_error e = Uncaught e"

definition accepted_etags ::
  "surroundings \<Rightarrow> authenticated \<Rightarrow> snapshot_row \<Rightarrow> captured_config \<Rightarrow> vpn_client \<Rightarrow> ts option \<Rightarrow> exn + string list" where
  "accepted_etags su a s c v published_at =
     bind_result (single_payload su s c v published_at (au_router_id a)) (\<lambda>single.
     bind_result (build_router_dual_snapshot_response su s c v published_at (au_router_id a)) (\<lambda>dual.
       Inr [response_etag su single, response_etag su dual]))"

definition check_current ::
  "surroundings \<Rightarrow> authenticated \<Rightarrow> apply_report \<Rightarrow> string \<Rightarrow>
   snapshot_row \<times> captured_config \<times> ts option \<Rightarrow> api_failure + unit" where
  "check_current su a rp if_match = (\<lambda>(s, c, published_at).
     bind_result (client_from_applied_snapshot a c) (\<lambda>v.
     bind_result (uncaught (accepted_etags su a s c v published_at)) (\<lambda>etags.
     bind_result (uncaught (any_result (compare_digest if_match) etags)) (\<lambda>matches.
       if \<not> matches then
         Inl (refusal 412 ''etag_mismatch'' ''If-Match does not match the applied router snapshot'' []
           (current_revision_note (sn_revision s)))
       else if ar_revision rp \<noteq> sn_revision s \<or> ar_snapshot_sha256 rp \<noteq> sn_payload_sha256 s then
         Inl (refusal 409 ''snapshot_conflict''
           ''Apply result does not reference the current applied snapshot'' []
           (current_revision_note (sn_revision s)))
       else Inr ()))))"

definition record_new ::
  "surroundings \<Rightarrow> int \<Rightarrow> authenticated \<Rightarrow> string \<Rightarrow> apply_report \<Rightarrow> string \<Rightarrow> response web" where
  "record_new su at a key rp if_match =
     followed_by (load_applied_snapshot su) (\<lambda>loaded.
     followed_by (resolved (check_current su a rp if_match loaded)) (\<lambda>_.
     followed_by (transaction record_error (record_router_apply_result at (au_credential_id a) key rp if_match))
       (\<lambda>stored. respond (accepted_response stored if_match))))"

text \<open>What the request says: the body, its JSON text, the report in it.\<close>

definition received_report :: "surroundings \<Rightarrow> request \<Rightarrow> string list \<Rightarrow> api_failure + apply_report" where
  "received_report su rq chunks =
     bind_result (read_apply_result_body rq chunks) (\<lambda>body.
     bind_result (parse_apply_result_json su body) (\<lambda>parsed.
       invalid_as ''invalid_apply_result''
         (validate_router_apply_result (su_sha su) (su_other su) parsed)))"

definition settle_report ::
  "surroundings \<Rightarrow> int \<Rightarrow> authenticated \<Rightarrow> string \<Rightarrow> apply_report \<Rightarrow> string \<Rightarrow> response web" where
  "settle_report su at2 a key rp if_match =
     followed_by (find_replay a key rp if_match) (\<lambda>found. case found of
         Inl code \<Rightarrow> replay_conflict su code
       | Inr (Some stored) \<Rightarrow> respond (accepted_response stored (so_snapshot_etag stored))
       | Inr None \<Rightarrow> record_new su at2 a key rp if_match)"

definition named_etag :: "surroundings \<Rightarrow> request \<Rightarrow> string web" where
  "named_etag su rq =
     (let if_match = header rq ''if-match'' in
      if 256 < py_len if_match then
        refuse (refusal 400 ''invalid_header'' ''Conditional header is too long'' [] [])
      else if if_match = [] then etag_missing su
      else respond if_match)"

definition router_apply_result ::
  "surroundings \<Rightarrow> int \<Rightarrow> int \<Rightarrow> int \<Rightarrow> request \<Rightarrow> string list \<Rightarrow> string \<Rightarrow> response web" where
  "router_apply_result su clock at at2 rq chunks idempotency_key =
     followed_by (authorize_router su clock at rq ''apply:write'') (\<lambda>a.
     followed_by (resolved (invalid_as ''invalid_idempotency_key'' (validate_idempotency_key idempotency_key)))
       (\<lambda>key.
     followed_by (named_etag su rq) (\<lambda>if_match.
     followed_by (resolved (received_report su rq chunks)) (\<lambda>rp.
       settle_report su at2 a key rp if_match))))"

section \<open>Running a handler\<close>

lemma uncaught_Inr: "uncaught r = Inr x \<longleftrightarrow> r = Inr x"
  by (cases r) (simp_all add: uncaught_def)

text \<open>Who a request was authorized as, and on which database.\<close>

definition proves :: "surroundings \<Rightarrow> int \<Rightarrow> int \<Rightarrow> request \<Rightarrow> string \<Rightarrow> db \<Rightarrow> authenticated \<Rightarrow> db \<Rightarrow> bool" where
  "proves su clock at rq scope d a d' \<longleftrightarrow>
     (\<exists>token. bearer_token rq = Inr token \<and>
        authenticate_router_credential (su_sha su) clock at token scope d = Inr (Authenticated a, d'))"

lemma authorized:
  assumes "authorize_router su clock at rq scope os d = (Inr a, os', d')"
  shows "router_api_enabled (su_config su) (between os d)"
    and "proves su clock at rq scope (between (tl os) (between os d)) a d'" and "os' = tl (tl os)"
proof -
  let ?d1 = "between os d" and ?os1 = "tl os"
  have en: "router_api_enabled (su_config su) ?d1"
    and rest: "followed_by (resolved (bearer_token rq)) (\<lambda>token.
     followed_by (transaction Uncaught (authenticate_router_credential (su_sha su) clock at token scope))
       (\<lambda>r. case r of Authenticated c \<Rightarrow> respond c | AuthenticationFailure f \<Rightarrow> refuse (auth_api_error f)))
     ?os1 ?d1 = (Inr a, os', d')"
    using assms by (auto simp: authorize_router_def require_enabled_def followed_by_Inr reading_tx_Inr split: if_splits)
  obtain token where token: "bearer_token rq = Inr token"
    and rest2: "followed_by (transaction Uncaught (authenticate_router_credential (su_sha su) clock at token scope))
       (\<lambda>r. case r of Authenticated c \<Rightarrow> respond c | AuthenticationFailure f \<Rightarrow> refuse (auth_api_error f))
     ?os1 ?d1 = (Inr a, os', d')"
    using rest unfolding followed_by_Inr resolved_Inr by blast
  obtain r d2 where r: "authenticate_router_credential (su_sha su) clock at token scope (between ?os1 ?d1) = Inr (r, d2)"
    and last: "(case r of Authenticated c \<Rightarrow> respond c | AuthenticationFailure f \<Rightarrow> refuse (auth_api_error f))
      (tl ?os1) d2 = (Inr a, os', d')"
    using rest2 unfolding followed_by_Inr transaction_Inr by blast
  have "r = Authenticated a \<and> os' = tl ?os1 \<and> d2 = d'"
    using last by (cases r) (auto simp: respond_def refuse_def)
  with en token r show "router_api_enabled (su_config su) (between os d)"
    "proves su clock at rq scope (between (tl os) (between os d)) a d'" "os' = tl (tl os)"
    by (auto simp: proves_def)
qed

text \<open>What a successful load found.\<close>

definition serves :: "surroundings \<Rightarrow> db \<Rightarrow> snapshot_row \<Rightarrow> captured_config \<Rightarrow> ts option \<Rightarrow> bool" where
  "serves su d s c published_at \<longleftrightarrow>
     applied_revision (vpn_state d) = Some (sn_revision s) \<and> s \<in> set (snapshots d) \<and>
     sn_lifecycle s = SnapApplied \<and> su_sha su (sn_payload_json s) = sn_payload_sha256 s \<and>
     captured_vpn_config_from_json (sn_payload_json s) = Inr c \<and>
     published_at = applied_publication (sn_revision s) d"

lemma loaded:
  assumes "load_applied_snapshot su os d = (Inr (s, c, published_at), os', d')"
  shows "serves su d' s c published_at" and "d' = between os d" and "os' = tl os"
proof -
  have 1: "d' = between os d" "os' = tl os"
    using assms by (simp_all add: load_applied_snapshot_def reading_tx_Inr)
  obtain revision where 2: "applied_revision (vpn_state d') = Some revision"
    using assms by (cases "applied_revision (vpn_state (between os d))")
      (simp_all add: load_applied_snapshot_def reading_tx_Inr)
  obtain t where 3: "applied_snapshot revision d' = Some t"
    using assms 1 2 by (cases "applied_snapshot revision d'")
      (simp_all add: load_applied_snapshot_def reading_tx_Inr)
  have 4: "snapshot_contents su t (applied_publication revision d') = Inr (s, c, published_at)"
    using assms 1 2 3 by (simp add: load_applied_snapshot_def reading_tx_Inr)
  have t: "t \<in> set (snapshots d')" "sn_revision t = revision" "sn_lifecycle t = SnapApplied"
    using 3 by (auto simp: applied_snapshot_def dest: select_first_SomeD)
  have "compare_digest (su_sha su (sn_payload_json t)) (sn_payload_sha256 t) = Inr True"
    using 4 by (auto simp: snapshot_contents_def bind_result_Inr_iff uncaught_Inr split: if_splits)
  then have same: "su_sha su (sn_payload_json t) = sn_payload_sha256 t"
    by (simp add: compare_digest_def split: if_splits)
  have "captured_vpn_config_from_json (sn_payload_json t) = Inr c \<and> s = t \<and>
      published_at = applied_publication revision d'"
    using 4
    by (cases "captured_vpn_config_from_json (sn_payload_json t)")
       (auto simp: snapshot_contents_def bind_result_Inr_iff uncaught_Inr split: if_splits)
  with 2 t same show "serves su d' s c published_at" by (simp add: serves_def)
  show "d' = between os d" "os' = tl os" by (rule 1)+
qed

lemma own_client:
  "client_from_applied_snapshot a c = Inr v \<Longrightarrow> v \<in> set (cc_clients c) \<and> vc_enabled v \<and> vc_id v = au_client_id a"
  by (auto simp: client_from_applied_snapshot_def enabled_clients_def find_Some_iff split: option.splits
      dest!: nth_mem)

lemma handler_answers:
  assumes "snapshot_handler su clock at rq payload os d = (Inr resp, os', d')"
  obtains a d1 s c published_at v json where
    "proves su clock at rq ''snapshot:read'' (between (tl os) (between os d)) a d1"
    "d' = between (tl (tl os)) d1" "serves su d' s c published_at"
    "client_from_applied_snapshot a c = Inr v" "payload a s c v published_at = Inr json"
    "conditional_response su rq json = Inr resp"
proof -
  obtain a os1 d1 where a: "authorize_router su clock at rq ''snapshot:read'' os d = (Inr a, os1, d1)"
    and rest: "followed_by (load_applied_snapshot su) (\<lambda>(s, c, published_at).
     followed_by (resolved (client_from_applied_snapshot a c)) (\<lambda>v.
       resolved (bind_result (payload a s c v published_at) (conditional_response su rq)))) os1 d1 = (Inr resp, os', d')"
    using assms unfolding snapshot_handler_def followed_by_Inr by blast
  obtain x os2 d2 where x: "load_applied_snapshot su os1 d1 = (Inr x, os2, d2)"
    and rest1: "(case x of (s, c, published_at) \<Rightarrow>
     followed_by (resolved (client_from_applied_snapshot a c)) (\<lambda>v.
       resolved (bind_result (payload a s c v published_at) (conditional_response su rq)))) os2 d2 = (Inr resp, os', d')"
    using rest unfolding followed_by_Inr by blast
  obtain s c p where scp: "x = (s, c, p)" by (cases x)
  note l = x [unfolded scp]
  have rest2: "followed_by (resolved (client_from_applied_snapshot a c)) (\<lambda>v.
       resolved (bind_result (payload a s c v p) (conditional_response su rq))) os2 d2 = (Inr resp, os', d')"
    using rest1 by (simp add: scp)
  obtain v json where "client_from_applied_snapshot a c = Inr v" "payload a s c v p = Inr json"
      "conditional_response su rq json = Inr resp" "d' = d2"
    using rest2 by (auto simp: web_results bind_result_Inr_iff)
  with authorized [OF a] loaded [OF l] show thesis
    by (intro that [of a d1 s c p v json]) simp_all
qed

lemma others_do_not_show:
  "single_payload su s (c\<lparr>cc_clients := xs, cc_router_peers := ps\<rparr>) v published_at rid =
     single_payload su s c v published_at rid"
  by (simp add: single_payload_def build_router_snapshot_response_def api_hysteria_outbound_def hysteria_auth_def
      amnezia_profile_def profile_members_def amnezia_vpn_key_def render_amnezia_vpn_key_def
      render_amnezia_client_config_def vpn_key_payload_def awg_members_def api_vless_outbound_def Let_def)

lemma conditional_cases:
  assumes "conditional_response su rq json = Inr resp"
  shows "rs_status resp = 200 \<and> rs_body resp = dumps json \<or>
    rs_status resp = 304 \<and> rs_body resp = [] \<and> header rq ''if-none-match'' = response_etag su json"
  using assms by (auto simp: conditional_response_def Let_def split: if_splits)

section \<open>Properties\<close>

text \<open>C19.  A router that is given the snapshot has proved a credential with the scope to read it, and gets
  the applied snapshot of that moment, whose digest matches, rendered for its own client, which that
  snapshot holds enabled; nothing of the other clients or of the other routers' peers enters the answer.
  \<open>304\<close> is only sent to a router that named the entity tag of that very payload.\<close>

theorem router_reads_only_its_own_client:
  assumes "router_snapshot su clock at rq others d = (Inr resp, rest, d')"
  shows "\<exists>a d1 s c published_at v json.
     proves su clock at rq ''snapshot:read'' (between (tl others) (between others d)) a d1 \<and>
     serves su d' s c published_at \<and> v \<in> set (cc_clients c) \<and> vc_enabled v \<and> vc_id v = au_client_id a \<and>
     (\<forall>xs ps. single_payload su s (c\<lparr>cc_clients := xs, cc_router_peers := ps\<rparr>) v published_at
        (au_router_id a) = Inr json) \<and>
     (rs_status resp = 200 \<and> rs_body resp = dumps json \<or>
      rs_status resp = 304 \<and> rs_body resp = [] \<and> header rq ''if-none-match'' = response_etag su json)"
proof -
  let ?payload = "\<lambda>a s c v published_at. if cc_current_ip c = [] then Inl (endpoint_missing [(''Retry-After'', ''30'')])
       else uncaught (single_payload su s c v published_at (au_router_id a))"
  have h: "snapshot_handler su clock at rq ?payload others d = (Inr resp, rest, d')"
    using assms by (simp add: router_snapshot_def)
  obtain a d1 s c published_at v json where
    "proves su clock at rq ''snapshot:read'' (between (tl others) (between others d)) a d1"
    "serves su d' s c published_at"
    and v: "client_from_applied_snapshot a c = Inr v" and p: "?payload a s c v published_at = Inr json"
    and r: "conditional_response su rq json = Inr resp"
    using h by (rule handler_answers) blast
  moreover have "single_payload su s c v published_at (au_router_id a) = Inr json"
    using p by (simp add: uncaught_Inr split: if_splits)
  ultimately show ?thesis
    using own_client [OF v] conditional_cases [OF r] others_do_not_show by metis
qed

lemma resolved_bind: "followed_by (resolved (Inr x)) f os d = f x os d"
  by (simp add: followed_by_def resolved_def respond_def)

lemma recorded_new:
  assumes "record_new su at a key rp if_match os d = (Inr resp, os', d')"
  obtains row replayed where "result_at (au_credential_id a) key d' = Some row" "ap_snapshot_etag row = if_match"
    "rs_body resp = dumps (apply_result_response (stored_of row replayed))"
    "applied_revision (vpn_state d') = Some (ar_revision rp)" "ap_body_sha256 row = ar_body_sha256 rp"
proof -
  obtain loaded os1 d1 where 1: "followed_by (resolved (check_current su a rp if_match loaded)) (\<lambda>_.
     followed_by (transaction record_error (record_router_apply_result at (au_credential_id a) key rp if_match))
       (\<lambda>stored. respond (accepted_response stored if_match))) os1 d1 = (Inr resp, os', d')"
    using assms unfolding record_new_def followed_by_Inr by blast
  obtain st d2 where rec: "record_router_apply_result at (au_credential_id a) key rp if_match d2 = Inr (st, d')"
    and resp: "resp = accepted_response st if_match"
    using 1 by (auto simp: web_results)
  show thesis
  proof (rule record_cases [OF rec])
    fix revision s
    assume rev: "applied_revision (vpn_state d2) = Some revision" "ar_revision rp = revision"
      and alt: "(\<exists>b. result_at (au_credential_id a) key d2 = Some b \<and> ap_body_sha256 b = ar_body_sha256 rp \<and>
            ap_snapshot_etag b = if_match \<and> st = stored_of b True \<and> d' = d2) \<or>
         (result_at (au_credential_id a) key d2 = None \<and>
            st = stored_of (new_result (apply_seq d2 + 1) (au_credential_id a) key rp if_match at) False \<and>
            insert_result (new_result (apply_seq d2 + 1) (au_credential_id a) key rp if_match at) d2 = Inr d')"
    show thesis
      using alt
    proof (elim disjE exE conjE)
      fix b assume "result_at (au_credential_id a) key d2 = Some b" "ap_body_sha256 b = ar_body_sha256 rp"
        "ap_snapshot_etag b = if_match" "st = stored_of b True" "d' = d2"
      then show thesis using rev by (intro that [of b True]) (simp_all add: resp accepted_response_def)
    next
      let ?b = "new_result (apply_seq d2 + 1) (au_credential_id a) key rp if_match at"
      assume n: "result_at (au_credential_id a) key d2 = None" "st = stored_of ?b False" "insert_result ?b d2 = Inr d'"
      then have d': "d' = d2\<lparr>apply_results := apply_results d2 @ [?b], apply_seq := apply_seq d2 + 1\<rparr>"
        by (simp add: insert_result_def new_result_def split: if_splits)
      have "result_at (au_credential_id a) key d' = Some ?b"
        using n(1) by (simp add: result_at_def d' select_first_append new_result_def)
      then show thesis
        using rev n(2) by (intro that [of ?b False]) (simp_all add: resp accepted_response_def new_result_def d')
    qed
  qed
qed

lemma invalid_as_Inr: "invalid_as code r = Inr x \<longleftrightarrow> r = Inr x"
  by (cases r) (simp_all add: invalid_as_def)

lemma received_from:
  assumes "received_report su rq chunks = Inr rp"
  shows "\<exists>parsed. validate_router_apply_result (su_sha su) (su_other su) parsed = Inr rp"
  using assms by (auto simp: received_report_def bind_result_Inr_iff invalid_as_Inr)

lemma named_etag_Inr: "named_etag su rq os d = (Inr etag, os', d') \<Longrightarrow> etag = header rq ''if-match''"
  by (auto simp: named_etag_def etag_missing_def web_results Let_def split: if_splits prod.splits)

lemma key_unchanged: "invalid_as code (validate_idempotency_key key) = Inr k \<Longrightarrow> k = key"
  by (auto simp: invalid_as_Inr validate_idempotency_key_def split: if_splits)

text \<open>A replay is answered from the row on record.\<close>

lemma found_replay:
  assumes "find_replay a key rp etag os d = (Inr (Inr (Some stored)), os', d')"
  obtains row where "result_at (au_credential_id a) key d' = Some row" "ap_body_sha256 row = ar_body_sha256 rp"
    "ap_snapshot_etag row = etag" "stored = stored_of row True"
proof -
  have "find_router_apply_result_replay (au_credential_id a) key rp etag d' = Inr (Some stored)"
    using assms by (auto simp: find_replay_def reading_tx_Inr split: sum.splits exn.splits)
  then show thesis
    by (auto simp: find_router_apply_result_replay_def replay_of_def conflict_def compare_digest_def
        bind_result_Inr_iff split: option.splits if_splits intro: that)
qed

lemma settled_on_record:
  assumes "settle_report su at2 a key rp etag os d = (Inr resp, os', d')"
  obtains row replayed where "result_at (au_credential_id a) key d' = Some row" "ap_snapshot_etag row = etag"
    "rs_body resp = dumps (apply_result_response (stored_of row replayed))"
    "replayed \<or> applied_revision (vpn_state d') = Some (ar_revision rp)" "ap_body_sha256 row = ar_body_sha256 rp"
proof -
  obtain found os1 d1 where f: "find_replay a key rp etag os d = (Inr found, os1, d1)"
    and rest: "(case found of
           Inl code \<Rightarrow> replay_conflict su code
         | Inr (Some stored) \<Rightarrow> respond (accepted_response stored (so_snapshot_etag stored))
         | Inr None \<Rightarrow> record_new su at2 a key rp etag) os1 d1 = (Inr resp, os', d')"
    using assms unfolding settle_report_def followed_by_Inr by blast
  consider code where "found = Inl code" | "found = Inr None" | stored where "found = Inr (Some stored)"
    by (metis option.exhaust sum.exhaust)
  then show thesis
  proof cases
    case 1
    then show ?thesis
      using rest by (auto simp: replay_conflict_def web_results split: prod.splits if_splits)
  next
    case 2
    then have "record_new su at2 a key rp etag os1 d1 = (Inr resp, os', d')" using rest by simp
    then show ?thesis by (rule recorded_new) (auto intro: that)
  next
    case 3
    then have resp: "resp = accepted_response stored (so_snapshot_etag stored)" "d' = d1"
      using rest by (simp_all add: respond_def)
    from f [unfolded 3] show ?thesis
      by (rule found_replay) (auto intro: that simp: resp accepted_response_def)
  qed
qed


section \<open>Instances\<close>

definition sample_surroundings :: surroundings where
  "sample_surroundings = \<lparr>su_config = default_config, su_sha = sample_sha, su_other = (\<lambda>n. n < 32),
     su_pack = (\<lambda>s. s), su_float_repr = (\<lambda>r. r)\<rparr>"

definition sample_request :: "(string \<times> string) list \<Rightarrow> request" where
  "sample_request headers = \<lparr>rq_method = ''GET'', rq_path = ''/api/v2/router/snapshot'',
     rq_headers = (''authorization'', ''Bearer '' @ token_of ''cred-001'' (replicate 43 (CHR ''A''))) # headers,
     rq_client = None\<rparr>"

definition sample_reporting :: db where
  "sample_reporting = sample_applied\<lparr>
     credentials := [sample_credential\<lparr>cr_scopes := ''apply:write''\<rparr>],
     apply_results := [new_result 1 ''cred-001'' ''run-1'' sample_report (replicate 66 (CHR ''e'')) 0], apply_seq := 1\<rparr>"

lemma loads_with_dumps: "wf_json v \<Longrightarrow> hook_keeps hook \<Longrightarrow> loads_with hook (dumps v) = Inr (canon v)"
  unfolding dumps_def by (rule compact.loads_with_show, assumption, rule wf_canon, assumption)
lemma strict_keeps: "hook_keeps duplicate_rejecting_object"
  by (simp add: hook_keeps_def duplicate_rejecting_object_def)

lemma ascii_valid_utf8: "ascii s \<Longrightarrow> valid_utf8 s"
  by (induction s) (simp_all add: ascii_def valid_utf8_def utf8_def)

definition sample_posting :: request where
  "sample_posting = sample_request
     [(''if-match'', replicate 66 (CHR ''e'')), (''content-type'', ''application/json'')]"

lemma sample_parsed:
  "parse_apply_result_json sample_surroundings (dumps sample_payload) =
     Inr (with_floats (\<lambda>r. r) (canon sample_payload))"
proof -
  have "wf_json sample_payload" by code_simp
  note loads = loads_with_dumps [OF this strict_keeps]
  have "ascii (dumps sample_payload)" by code_simp
  then have "valid_utf8 (dumps sample_payload)" by (rule ascii_valid_utf8)
  with loads show ?thesis by (simp add: parse_apply_result_json_def sample_surroundings_def)
qed

lemma sample_read: "read_apply_result_body sample_posting [dumps sample_payload] = Inr (dumps sample_payload)"
proof -
  have "int (length (dumps sample_payload)) \<le> 16 * 1024 \<and> dumps sample_payload \<noteq> []" by code_simp
  then have "read_chunks [] [dumps sample_payload] = Inr (dumps sample_payload)"
    by (simp add: max_body_bytes_def)
  moreover have "read_apply_result_body sample_posting [x] = read_chunks [] [x]" for x by code_simp
  ultimately show ?thesis by simp
qed

lemma sample_validated:
  obtains rp where "validate_router_apply_result sample_sha (\<lambda>n. n < 32) (with_floats (\<lambda>r. r) (canon sample_payload)) = Inr rp"
    "ar_body_sha256 rp = replicate 64 (CHR ''b'')"
proof -
  have "case validate_router_apply_result sample_sha (\<lambda>n. n < 32) (with_floats (\<lambda>r. r) (canon sample_payload)) of
      Inl _ \<Rightarrow> False | Inr rp \<Rightarrow> ar_body_sha256 rp = replicate 64 (CHR ''b'')" by code_simp
  then show thesis by (auto intro: that split: sum.splits)
qed


definition sample_captured :: captured_config where
  "sample_captured =
     \<lparr>cc_current_ip = ''203.0.113.7'', cc_config_updated_at = [],
      cc_vless = \<lparr>vl_protocol = \<lparr>pc_enabled = True, pc_port = 443\<rparr>, vl_private_key = ''k'', vl_public_key = ''q'',
        vl_short_id = ''ab'', vl_target = ''t:443'', vl_server_names = [''t''], vl_server_name = ''t'',
        vl_fingerprint = ''chrome'', vl_spider_x = [CHR ''/'']\<rparr>,
      cc_hysteria = \<lparr>hy_protocol = \<lparr>pc_enabled = False, pc_port = 443\<rparr>, hy_password = [], hy_obfs_password = [],
        hy_auth_type = []\<rparr>,
      cc_amnezia = \<lparr>am_protocol = \<lparr>pc_enabled = False, pc_port = 443\<rparr>, am_server_private_key = [],
        am_server_public_key = [], am_obfuscation = \<lparr>ob_jc = 0, ob_jmin = 0, ob_jmax = 0, ob_s1 = 0, ob_s2 = 0,
        ob_h1 = 0, ob_h2 = 0, ob_h3 = 0, ob_h4 = 0\<rparr>, am_network_prefix = [], am_dns = []\<rparr>,
      cc_clients = [\<lparr>vc_id = 1, vc_name = ''home'', vc_token = ''t'', vc_enabled = True, vc_vless_uuid = ''u'',
        vc_hysteria_password = ''h'', vc_amnezia_private_key = [], vc_amnezia_public_key = [],
        vc_amnezia_preshared_key = [], vc_amnezia_ipv4 = [], vc_created_at = []\<rparr>],
      cc_revision = 3, cc_router_peers = []\<rparr>"

definition sample_published :: db where
  "sample_published = sample_routers\<lparr>
     vpn_state := \<lparr>desired_revision = 3, applied_revision = Some 3, desired_updated_at = None,
                   applied_updated_at = None\<rparr>,
     snapshots := [\<lparr>sn_revision = 3, sn_payload_json = canonical_vpn_config_json sample_captured,
       sn_payload_sha256 = replicate 64 (CHR ''b''),
       sn_lifecycle = SnapApplied, sn_prepared_at = 0, sn_applied_at = Some 0, sn_failed_at = None,
       sn_error_message = None\<rparr>]\<rparr>"

theorem router_reads_only_its_own_client_witness:
  "\<exists>resp rest d'. router_snapshot sample_surroundings 0 0 (sample_request []) [] sample_published =
       (Inr resp, rest, d') \<and> (rs_status resp = 200 \<or> rs_status resp = 304)"
proof -
  let ?auth = "authorize_router sample_surroundings 0 0 (sample_request []) ''snapshot:read'' [] sample_published"
  have "case ?auth of
       (Inr a, rest, d) \<Rightarrow> rest = [] \<and> au_client_id a = 1 \<and> vpn_state d = vpn_state sample_published \<and>
         snapshots d = snapshots sample_published \<and> ip_ops d = ip_ops sample_published
     | _ \<Rightarrow> False" by code_simp
  then obtain a d where auth: "?auth = (Inr a, [], d)" and a: "au_client_id a = 1"
    and d: "vpn_state d = vpn_state sample_published" "snapshots d = snapshots sample_published"
      "ip_ops d = ip_ops sample_published"
    by (auto split: prod.splits sum.splits)
  let ?s = "hd (snapshots sample_published)"
  have sha: "sample_sha (canonical_vpn_config_json sample_captured) = replicate 64 (CHR ''b'')" by code_simp
  have asc: "ascii_text (replicate 64 (CHR ''b''))" by code_simp
  have load: "load_applied_snapshot sample_surroundings [] d = (Inr (?s, snapshot_of sample_captured, None), [], d)"
    using d sha asc
    by (simp add: load_applied_snapshot_def reading_tx_def Let_def between_def sample_published_def
        applied_snapshot_def snapshot_contents_def snapshot_round_trip compare_digest_def uncaught_def
        sample_surroundings_def sample_routers_def empty_db_def applied_publication_def)
  let ?v = "hd (cc_clients sample_captured)"
  have client: "client_from_applied_snapshot a (snapshot_of sample_captured) = Inr ?v"
    using a by (simp add: client_from_applied_snapshot_def snapshot_of_def enabled_clients_def sample_captured_def)
  obtain json where payload: "single_payload sample_surroundings ?s (snapshot_of sample_captured) ?v None
      (au_router_id a) = Inr json"
    by (simp add: single_payload_def build_router_snapshot_response_def if_enabled_def sample_captured_def
        snapshot_of_def Let_def)
  have "header (sample_request []) ''if-none-match'' = []" by code_simp
  then obtain resp where resp: "conditional_response sample_surroundings (sample_request []) json = Inr resp"
    by (cases "response_etag sample_surroundings json = []") (simp_all add: conditional_response_def Let_def py_len_def)
  have ip: "cc_current_ip (snapshot_of sample_captured) \<noteq> []" by (simp add: snapshot_of_def sample_captured_def)
  have "router_snapshot sample_surroundings 0 0 (sample_request []) [] sample_published = (Inr resp, [], d)"
    using ip auth
    by (simp add: router_snapshot_def snapshot_handler_def followed_by_def load client resolved_def payload resp
        uncaught_def respond_def)
  with router_reads_only_its_own_client [of sample_surroundings 0 0 "sample_request []" "[]" sample_published]
  show ?thesis by metis
qed
end
