(* ===== verification/Aeza.thy ===== *)
theory Aeza
  imports Sanitize
begin

text \<open>
  \<open>app/aeza.py\<close> without its network I/O: the API key, the requests of each call and what is read out
  of an answer.  \<open>repr\<close> stands for Python's \<open>str\<close> of a JSON list or object.
\<close>

section \<open>The API key\<close>

definition index_error :: exn where
  "index_error = LookupError ''list index out of range''"

definition split_once :: "char \<Rightarrow> string \<Rightarrow> string \<times> string option" where
  "split_once c s = (case partition_at c s of (a, found, b) \<Rightarrow> (a, if found then Some b else None))"

definition second_part :: "string option \<Rightarrow> exn + string" where
  "second_part p = (case p of None \<Rightarrow> Inl index_error | Some s \<Rightarrow> Inr (py_strip s))"

definition aeza_api_key :: "string \<Rightarrow> exn + string" where
  "aeza_api_key token =
     (let v = py_strip token;
          (header, rest) = split_once (CHR '':'') v
      in bind_result
           (if py_lower (py_strip header) \<in> {''authorization'', ''x-api-key''} then second_part rest else Inr v)
           (\<lambda>v. let (scheme, rest) = split_once (CHR '' '') v in
              if py_lower scheme \<in> {''bearer'', ''basic'', ''token''} then second_part rest else Inr v))"

section \<open>Requests\<close>

datatype aeza_call =
    ListIpv4
  | Ipv4Price
  | GetService
  | AddIpv4 string string \<comment> \<open>payment method, domain\<close>
  | MakeMain string
  | DeleteIpv4 string
  | RebootService

definition service_path :: "string \<Rightarrow> string \<Rightarrow> string" where
  "service_path service rest = ''/api/v2/services/'' @ service @ rest"

definition ipv4_key :: "string \<Rightarrow> json" where
  "ipv4_key i = (if i \<noteq> [] \<and> list_all is_digit i then JInt (int (digits_value 0 i)) else JStr i)"

fun aeza_request :: "string \<Rightarrow> aeza_call \<Rightarrow> string \<times> string \<times> json option" where
  "aeza_request s ListIpv4 = (''GET'', service_path s ''/networks/ipv4'', None)"
| "aeza_request s Ipv4Price = (''GET'', service_path s ''/networks/ipv4/price'', None)"
| "aeza_request s GetService = (''GET'', service_path s [], None)"
| "aeza_request s (AddIpv4 payment domain) =
     (''POST'', service_path s ''/networks/ipv4'',
      Some (JObj ((''method'', JStr payment) # (if domain = [] then [] else [(''domain'', JStr domain)]))))"
| "aeza_request s (MakeMain i) = (''POST'', service_path s (''/networks/ipv4/'' @ i @ ''/make-main''), None)"
| "aeza_request s (DeleteIpv4 i) =
     (''DELETE'', service_path s ''/networks/ipv4'', Some (JObj [(''key'', ipv4_key i)]))"
| "aeza_request s RebootService = (''POST'', service_path s ''/reboot'', None)"

section \<open>Answers\<close>

text \<open>Python's truth of a JSON value, and \<open>str\<close> of a true one.\<close>

fun truthy :: "json \<Rightarrow> bool" where
  "truthy JNull = False"
| "truthy (JBool b) = b"
| "truthy (JInt i) = (i \<noteq> 0)"
| "truthy (JFloat r) = (r \<notin> {''0.0'', ''-0.0''})"
| "truthy (JStr s) = (s \<noteq> [])"
| "truthy (JList vs) = (vs \<noteq> [])"
| "truthy (JObj kvs) = (kvs \<noteq> [])"

fun json_str :: "(json \<Rightarrow> string) \<Rightarrow> json \<Rightarrow> string" where
  "json_str repr JNull = ''None''"
| "json_str repr (JBool b) = (if b then ''True'' else ''False'')"
| "json_str repr (JInt i) = int_str i"
| "json_str repr (JFloat r) = r"
| "json_str repr (JStr s) = s"
| "json_str repr v = repr v"

text \<open>\<open>payload.get(k1) or payload.get(k2) or ... or ""\<close>.\<close>

fun first_truthy :: "string list \<Rightarrow> json \<Rightarrow> json" where
  "first_truthy [] v = JStr []"
| "first_truthy (k # ks) v =
     (case member_of v k of
        Some x \<Rightarrow> if truthy x then x else first_truthy ks v
      | None \<Rightarrow> first_truthy ks v)"

fun unwrap_keys :: "string list \<Rightarrow> json \<Rightarrow> json" where
  "unwrap_keys [] v = v"
| "unwrap_keys (k # ks) v = (case member_of v k of Some x \<Rightarrow> x | None \<Rightarrow> unwrap_keys ks v)"

definition unwrap_payload :: "json \<Rightarrow> json" where
  "unwrap_payload v = unwrap_keys [''data'', ''result'', ''items'', ''list'', ''ipv4''] v"

record ipv4 =
  ai_id :: string
  ai_ip :: string
  ai_main :: bool

definition normalize_ipv4 :: "(json \<Rightarrow> string) \<Rightarrow> json \<Rightarrow> ipv4" where
  "normalize_ipv4 repr v =
     (case unwrap_payload v of
        JObj kvs \<Rightarrow>
          (let p = JObj kvs;
               ip = first_truthy [''ip'', ''address'', ''ipv4'', ''value''] p;
               found = first_truthy [''id'', ''key'', ''uuid'', ''network_id''] p;
               i = (if truthy found then found else ip)
           in \<lparr>ai_id = json_str repr i, ai_ip = json_str repr ip,
               ai_main = truthy (first_truthy [''is_main'', ''main'', ''isMain'', ''primary''] p)\<rparr>)
      | _ \<Rightarrow> \<lparr>ai_id = [], ai_ip = [], ai_main = False\<rparr>)"

definition normalize_ipv4_list :: "(json \<Rightarrow> string) \<Rightarrow> json \<Rightarrow> ipv4 list" where
  "normalize_ipv4_list repr v =
     (case unwrap_payload v of
        JList vs \<Rightarrow> map (normalize_ipv4 repr) vs
      | JObj kvs \<Rightarrow> map (\<lambda>(k, x). normalize_ipv4 repr x) kvs
      | _ \<Rightarrow> [])"

fun first_scalar :: "string list \<Rightarrow> json \<Rightarrow> string" where
  "first_scalar [] v = []"
| "first_scalar (k # ks) v =
     (case member_of v k of
        Some (JStr s) \<Rightarrow> s
      | Some (JInt i) \<Rightarrow> int_str i
      | Some (JFloat r) \<Rightarrow> r
      | _ \<Rightarrow> first_scalar ks v)"

record service_state =
  ss_ip :: string
  ss_provider_status :: string

definition normalize_service :: "(json \<Rightarrow> string) \<Rightarrow> json \<Rightarrow> service_state" where
  "normalize_service repr v =
     (case unwrap_payload v of
        JObj kvs \<Rightarrow>
          \<lparr>ss_ip = json_str repr (first_truthy [''ip'', ''address'', ''ipv4''] (JObj kvs)),
           ss_provider_status = first_scalar
             [''provider_status'', ''providerStatus'', ''status'', ''state'', ''server_status'',
              ''serverStatus'', ''power_status'', ''powerStatus''] (JObj kvs)\<rparr>
      | _ \<Rightarrow> \<lparr>ss_ip = [], ss_provider_status = []\<rparr>)"

record ipv4_price =
  pr_price :: json
  pr_protected_price :: json
  pr_term_limits :: json

definition get_or_null :: "json \<Rightarrow> string \<Rightarrow> json" where
  "get_or_null v k = (case member_of v k of None \<Rightarrow> JNull | Some x \<Rightarrow> x)"

definition py_or :: "json \<Rightarrow> json \<Rightarrow> json" where
  "py_or a b = (if truthy a then a else b)"

definition normalize_ipv4_price :: "json \<Rightarrow> ipv4_price" where
  "normalize_ipv4_price v =
     (case unwrap_payload v of
        JObj kvs \<Rightarrow>
          (let p = JObj kvs in
           \<lparr>pr_price = get_or_null p ''price'',
            pr_protected_price = py_or (get_or_null p ''protectedPrice'') (get_or_null p ''protected_price''),
            pr_term_limits = py_or (py_or (get_or_null p ''termLimits'') (get_or_null p ''term_limits'')) (JObj [])\<rparr>)
      | _ \<Rightarrow> \<lparr>pr_price = JNull, pr_protected_price = JNull, pr_term_limits = JObj []\<rparr>)"

text \<open>What an HTTP answer means: the status line, the reason phrase and the text of the body.\<close>

definition aeza_answer :: "int \<Rightarrow> string \<Rightarrow> string \<Rightarrow> exn + json" where
  "aeza_answer status reason body =
     (if \<not> (200 \<le> status \<and> status < 300) then
        (if status = 401 then
           Inl (RuntimeError (''Aeza rejected AEZA_TOKEN with 401 Unauthorized. '' @
             ''Update AEZA_TOKEN on Setup; you can paste either the raw token or the full X-API-Key header.''))
         else
           (let detail = py_strip body;
                message = ''Aeza API returned '' @ int_str status @ '' '' @ reason
            in Inl (RuntimeError (if detail = [] then message else message @ '': '' @ detail))))
      else if body = [] then Inr JNull
      else (case loads body of None \<Rightarrow> Inl (ValueError ''Invalid JSON'') | Some v \<Rightarrow> Inr v))"

section \<open>Facts\<close>

lemma api_key_plain:
  assumes "py_strip t = t" and "CHR '':'' \<notin> set t" and "CHR '' '' \<notin> set t"
    and "py_lower t \<notin> {''authorization'', ''x-api-key'', ''bearer'', ''basic'', ''token''}"
  shows "aeza_api_key t = Inr t"
  using assms by (simp add: aeza_api_key_def split_once_def partition_at_absent bind_result_def)

end
