(* ===== verification/Sprintbox.thy ===== *)
theory Sprintbox
  imports Aeza Database "HOL-Library.Word"
begin

text \<open>
  \<open>app/sprintbox.py\<close> without its network I/O: the form each call posts, what is read out of an
  answer, and the addresses of a box.  An asynchronous task has its own id, distinct from the box.
\<close>

section \<open>Requests\<close>

datatype sprintbox_call =
    ListBoxes
  | ShowBox string
  | AddBox string string string string \<comment> \<open>service, distributive, public key, description\<close>
  | DeleteBox string
  | RestartBox string
  | ShowStatus string

fun sprintbox_request :: "sprintbox_call \<Rightarrow> string \<times> (string \<times> string) list" where
  "sprintbox_request ListBoxes = (''boxes/list'', [])"
| "sprintbox_request (ShowBox name) = (''box/show'', [(''box_name'', name)])"
| "sprintbox_request (AddBox service distributive pubkey description) =
     (''box/add'', [(''service'', service), (''distributive'', distributive), (''arch'', ''x64''),
                   (''pubkey'', pubkey), (''box_desc'', description)])"
| "sprintbox_request (DeleteBox name) = (''box/delete'', [(''box_name'', name)])"
| "sprintbox_request (RestartBox name) = (''box/restart'', [(''box_name'', name)])"
| "sprintbox_request (ShowStatus task) = (''status/show'', [(''id'', task)])"

section \<open>Answers\<close>

record sprintbox_client =
  sp_login :: string
  sp_key :: string

definition http_text :: "string \<Rightarrow> int \<Rightarrow> string" where
  "http_text m status = m @ '' (HTTP '' @ int_str status @ '')''"

definition api_error :: "(json \<Rightarrow> string) \<Rightarrow> sprintbox_client \<Rightarrow> json \<Rightarrow> exn" where
  "api_error repr client e =
     (let found = get_or_null e ''description'';
          text = (if truthy found then json_str repr found else ''Request rejected'');
          hidden = py_replace (sp_login client) ''[REDACTED]''
                     (py_replace (sp_key client) ''[REDACTED]'' text);
          code = (case member_of e ''code'' of None \<Rightarrow> ''unknown'' | Some c \<Rightarrow> json_str repr c)
      in SprintboxApiError code (py_take 500 hidden))"

definition sprintbox_answer ::
  "(json \<Rightarrow> string) \<Rightarrow> sprintbox_client \<Rightarrow> int \<Rightarrow> string \<Rightarrow> exn + json" where
  "sprintbox_answer repr client status body =
     (case loads body of
        None \<Rightarrow> Inl (RuntimeError (http_text ''SprintBOX returned an invalid response'' status))
      | Some (JObj kvs) \<Rightarrow>
          (let error = get_or_null (JObj kvs) ''error'' in
           case (error, member_of (JObj kvs) ''data'') of
             (JObj (e # es), _) \<Rightarrow> Inl (api_error repr client error)
           | (_, data) \<Rightarrow>
               if truthy error \<or> \<not> (200 \<le> status \<and> status < 300) \<or> data = None then
                 Inl (RuntimeError (http_text ''SprintBOX request failed'' status))
               else Inr (the data))
      | Some _ \<Rightarrow> Inl (RuntimeError ''SprintBOX returned an invalid response''))"

fun is_object :: "json \<Rightarrow> bool" where
  "is_object (JObj kvs) = True"
| "is_object v = False"

fun boxes_of :: "json \<Rightarrow> exn + (string \<times> json) list" where
  "boxes_of (JList []) = Inr []"
| "boxes_of (JObj kvs) =
     (if list_all (\<lambda>(k, v). is_object v) kvs then Inr kvs
      else Inl (RuntimeError ''SprintBOX returned an invalid box list''))"
| "boxes_of v = Inl (RuntimeError ''SprintBOX returned an invalid box list'')"

definition box_of :: "string \<Rightarrow> json \<Rightarrow> exn + json" where
  "box_of name v =
     (if is_object v \<and> member_of v ''name'' = Some (JStr name) then Inr v
      else Inl (RuntimeError ''SprintBOX returned a different or invalid box''))"

definition task_id :: "json \<Rightarrow> exn + string" where
  "task_id v =
     (case (v, member_of v ''id'') of
        (JObj _, Some (JStr (c # cs))) \<Rightarrow> Inr (c # cs)
      | _ \<Rightarrow> Inl (SprintboxTaskIdMissing ''SprintBOX did not return an asynchronous task ID''))"

datatype task_state = TaskStarted | TaskFinished | TaskError | TaskPending

definition task_status :: "string \<Rightarrow> json \<Rightarrow> exn + task_state" where
  "task_status task v =
     (let invalid = Inl (RuntimeError ''SprintBOX returned an invalid task status'') in
      if \<not> is_object v \<or> member_of v ''id'' \<noteq> Some (JStr task) then invalid
      else case member_of v ''status'' of
          Some (JStr s) \<Rightarrow>
            if py_strip s = [] then invalid
            else if s = ''started'' then Inr TaskStarted
            else if s = ''finished'' then Inr TaskFinished
            else if s = ''error'' then Inr TaskError
            else Inr TaskPending
        | _ \<Rightarrow> invalid)"

section \<open>Addresses\<close>

text \<open>
  \<open>ipaddress.IPv4Address(value)\<close>: a dotted text, or a whole number (a boolean is one) below
  \<open>2 ^ 32\<close>, printed from its 32 bits.
\<close>

definition dotted :: "32 word \<Rightarrow> string" where
  "dotted w = join ''.'' (map (\<lambda>k. nat_str (unat (drop_bit k w) mod 256)) [24, 16, 8, 0])"

definition address_number :: "int \<Rightarrow> string option" where
  "address_number i = (if 0 \<le> i \<and> i < 2 ^ 32 then Some (dotted (word_of_int i)) else None)"

fun ipv4_address :: "json \<Rightarrow> string option" where
  "ipv4_address (JStr s) =
     (case map parse_octet (split_on (CHR ''.'') s) of
        [Some a, Some b, Some c, Some e] \<Rightarrow> Some s
      | _ \<Rightarrow> None)"
| "ipv4_address (JInt i) = address_number i"
| "ipv4_address (JBool b) = address_number (if b then 1 else 0)"
| "ipv4_address _ = None"

definition box_ipv4 :: "json \<Rightarrow> string list" where
  "box_ipv4 box = (case member_of box ''ipv4'' of
       Some (JList vs) \<Rightarrow> List.map_filter ipv4_address vs
     | _ \<Rightarrow> [])"

definition box_service :: "(json \<Rightarrow> string) \<Rightarrow> json \<Rightarrow> service_state" where
  "box_service repr box =
     \<lparr>ss_ip = (case box_ipv4 box of [] \<Rightarrow> [] | ip # _ \<Rightarrow> ip),
      ss_provider_status =
        (let v = get_or_null box ''state_description'' in if truthy v then json_str repr v else [])\<rparr>"

end
