(* ===== verification/Effects.thy ===== *)
theory Effects
  imports Sprintbox ServerConfig VpnState Operations
begin

text \<open>
  The background tasks of the panel (\<open>run_ip_change\<close>, \<open>run_server_reboot\<close>, \<open>run_sprintbox_rotation\<close>,
  \<open>run_eu_install\<close>) talk to the provider and to the server between their database transactions.
  A task is a function of its environment and of the state of the run: the database and the log
  of the calls made so far, each with its answer and with the database at the moment it was sent.
  The environment answers every call in any way it likes, lets the other tasks and the request
  handlers, which run in threads of their own, change the database before every transaction and
  every call, reads the clock and may stop the process at any step.
\<close>

section \<open>Calls and answers\<close>

datatype remote_script =
    ConfigApply captured_config
  | Deploy captured_config bool \<comment> \<open>transactional\<close>
  | DeepCheck string string \<comment> \<open>the address checked, the Hysteria credentials used\<close>
  | ServiceStatus
  | StatsCommand

datatype event =
    AezaRequest string string aeza_call \<comment> \<open>API base, service\<close>
  | SprintboxRequest sprintbox_call
  | TcpProbe string int
  | UdpProbe string int
  | RunScript string remote_script \<comment> \<open>host\<close>
  | AwaitScript string \<comment> \<open>waiting for a script that is still running on the host\<close>
  | Sleep int
  | Yield \<comment> \<open>\<open>asyncio.sleep(0)\<close>\<close>
  | RandomNumber \<comment> \<open>\<open>secrets.randbelow\<close>\<close>
  | RandomHex \<comment> \<open>\<open>uuid.uuid4().hex\<close>\<close>
  | PrepareKey string \<comment> \<open>reading the SSH key at that path, or making it\<close>
  | KeyFile string \<comment> \<open>whether that path is a file\<close>

datatype reply =
    HttpReply int string string \<comment> \<open>status, reason, body\<close>
  | ProbeReply bool "int option"
  | ExitReply int string
  | Resumed
  | Elapsed \<comment> \<open>the deadline of the caller has passed\<close>
  | NumberReply int
  | TextReply string
  | FlagReply bool
  | Unavailable exn

record call =
  c_event :: event
  c_reply :: reply
  c_db :: db

record run =
  rn_db :: db
  rn_log :: "call list"
  rn_step :: nat

record env =
  en_config :: config
  en_sha :: "string \<Rightarrow> string"
  en_repr :: "json \<Rightarrow> string"
  en_unicode_other :: "string \<Rightarrow> bool"
  en_absolute :: "string \<Rightarrow> string" \<comment> \<open>\<open>Path(p).expanduser().absolute()\<close>\<close>
  answer :: "nat \<Rightarrow> event \<Rightarrow> reply"
  meanwhile :: "nat \<Rightarrow> db \<Rightarrow> db"
  clock :: "nat \<Rightarrow> int"
  stops :: "nat \<Rightarrow> bool"

section \<open>Tasks\<close>

datatype 'a outcome = Returned 'a | Raised exn | Stopped

type_synonym 'a io = "env \<Rightarrow> run \<Rightarrow> 'a outcome \<times> run"

definition ret :: "'a \<Rightarrow> 'a io" where
  "ret x e s = (Returned x, s)"

definition throw :: "exn \<Rightarrow> 'a io" where
  "throw x e s = (Raised x, s)"

definition andThen :: "'a io \<Rightarrow> ('a \<Rightarrow> 'b io) \<Rightarrow> 'b io" where
  "andThen m f e s =
     (case m e s of
        (Returned x, s') \<Rightarrow> f x e s'
      | (Raised x, s') \<Rightarrow> (Raised x, s')
      | (Stopped, s') \<Rightarrow> (Stopped, s'))"

text \<open>\<open>except Exception as exc\<close>: \<open>CancelledError\<close> passes.\<close>

definition catch :: "'a io \<Rightarrow> (exn \<Rightarrow> 'a io) \<Rightarrow> 'a io" where
  "catch m h e s =
     (case m e s of
        (Raised x, s') \<Rightarrow> if x = CancelledError then (Raised x, s') else h x e s'
      | r \<Rightarrow> r)"

text \<open>The database a step finds, after what others did to it.\<close>

definition turn :: "env \<Rightarrow> run \<Rightarrow> db" where
  "turn e s = meanwhile e (rn_step s) (rn_db s)"

text \<open>One database transaction, with the clock it reads; a failing one changes nothing.\<close>

definition transact :: "(env \<Rightarrow> int \<Rightarrow> 'a tx) \<Rightarrow> 'a io" where
  "transact t e s =
     (if stops e (rn_step s) then (Stopped, s)
      else case t e (clock e (rn_step s)) (turn e s) of
          Inl x \<Rightarrow> (Raised x, s\<lparr>rn_db := turn e s, rn_step := Suc (rn_step s)\<rparr>)
        | Inr (x, d) \<Rightarrow> (Returned x, s\<lparr>rn_db := d, rn_step := Suc (rn_step s)\<rparr>))"

definition query :: "(env \<Rightarrow> db \<Rightarrow> exn + 'a) \<Rightarrow> 'a io" where
  "query f = transact (\<lambda>e now d. bind_result (f e d) (\<lambda>x. Inr (x, d)))"

definition store :: "(env \<Rightarrow> int \<Rightarrow> db \<Rightarrow> db) \<Rightarrow> unit io" where
  "store f = transact (\<lambda>e now d. Inr ((), f e now d))"

text \<open>An \<open>await\<close> on the outside world: the call is logged with the database at the moment it is sent.\<close>

definition send :: "event \<Rightarrow> reply io" where
  "send v e s =
     (if stops e (rn_step s) then (Stopped, s)
      else (let r = answer e (rn_step s) v in
        (Returned r, s\<lparr>rn_log := rn_log s @ [\<lparr>c_event = v, c_reply = r, c_db = turn e s\<rparr>],
                      rn_db := turn e s, rn_step := Suc (rn_step s)\<rparr>)))"

definition lift :: "exn + 'a \<Rightarrow> 'a io" where
  "lift r = (case r of Inl x \<Rightarrow> throw x | Inr x \<Rightarrow> ret x)"

definition with_env :: "(env \<Rightarrow> 'a io) \<Rightarrow> 'a io" where
  "with_env f e s = f e e s"

definition skip :: "unit io" where
  "skip = ret ()"

definition onlyIf :: "bool \<Rightarrow> unit io \<Rightarrow> unit io" where
  "onlyIf b m = (if b then m else skip)"

text \<open>Answers of the wrong kind do not occur; they are given the meaning of a failed call.\<close>

definition unexpected :: exn where
  "unexpected = RuntimeError ''unexpected answer''"

definition pause :: "event \<Rightarrow> unit io" where
  "pause v = andThen (send v) (\<lambda>r. case r of Unavailable x \<Rightarrow> throw x | _ \<Rightarrow> skip)"

definition sleeper :: "int \<Rightarrow> unit io" where
  "sleeper n = pause (Sleep n)"

text \<open>\<open>run_remote_command\<close>.\<close>

definition run_script :: "string \<Rightarrow> remote_script \<Rightarrow> (int \<times> string) io" where
  "run_script host script = andThen (send (RunScript host script)) (\<lambda>r.
     case r of ExitReply code output \<Rightarrow> ret (code, output) | Unavailable x \<Rightarrow> throw x | _ \<Rightarrow> throw unexpected)"

section \<open>Probes\<close>

text \<open>
  \<open>app/health.py\<close>: \<open>OSError\<close> and \<open>TimeoutError\<close> mean unreachable, anything else is raised.
\<close>

definition network_error :: "exn \<Rightarrow> bool" where
  "network_error x = (case x of OSError _ \<Rightarrow> True | TimeoutError \<Rightarrow> True | TaskTimeout _ \<Rightarrow> True | _ \<Rightarrow> False)"

definition probe :: "event \<Rightarrow> (bool \<times> int option) io" where
  "probe v = andThen (send v) (\<lambda>r.
     case r of
       ProbeReply ok latency \<Rightarrow> ret (if ok then (True, latency) else (False, None))
     | Unavailable x \<Rightarrow> if network_error x then ret (False, None) else throw x
     | _ \<Rightarrow> throw unexpected)"

definition tcp_probe :: "string \<Rightarrow> int \<Rightarrow> (bool \<times> int option) io" where
  "tcp_probe host port = probe (TcpProbe host port)"

definition udp_probe :: "string \<Rightarrow> int \<Rightarrow> (bool \<times> int option) io" where
  "udp_probe host port = probe (UdpProbe host port)"

definition tcp_check :: "string \<Rightarrow> int \<Rightarrow> bool io" where
  "tcp_check host port = andThen (tcp_probe host port) (\<lambda>r. ret (fst r))"

section \<open>Provider calls\<close>

record aeza_client =
  ac_base :: string
  ac_token :: string

definition aeza_result :: "reply \<Rightarrow> exn + json" where
  "aeza_result r =
     (case r of
        HttpReply status reason body \<Rightarrow> aeza_answer status reason body
      | Unavailable x \<Rightarrow> Inl x
      | _ \<Rightarrow> Inl unexpected)"

definition aeza_request_io :: "aeza_client \<Rightarrow> string \<Rightarrow> aeza_call \<Rightarrow> json io" where
  "aeza_request_io client service c =
     (if ac_token client = [] then throw (RuntimeError ''AEZA_TOKEN is not configured'')
      else andThen (lift (aeza_api_key (ac_token client))) (\<lambda>key.
           andThen (send (AezaRequest (ac_base client) service c)) (\<lambda>r. lift (aeza_result r))))"

definition sprintbox_request_io :: "sprintbox_client \<Rightarrow> sprintbox_call \<Rightarrow> json io" where
  "sprintbox_request_io client c =
     (if sp_login client = [] \<or> sp_key client = [] then
        throw (RuntimeError ''Configure SPRINTBOX_LOGIN and SPRINTBOX_KEY'')
      else andThen (send (SprintboxRequest c)) (\<lambda>r. with_env (\<lambda>e. lift
        (case r of
           HttpReply status reason body \<Rightarrow> sprintbox_answer (en_repr e) client status body
         | Unavailable x \<Rightarrow> Inl x
         | _ \<Rightarrow> Inl unexpected))))"

section \<open>Repeating a check\<close>

text \<open>
  \<open>for attempt in range(attempts): ...; if attempt + 1 < attempts: await sleeper(interval)\<close>, then the
  error.
\<close>

fun poll :: "nat \<Rightarrow> 'a option io \<Rightarrow> unit io \<Rightarrow> exn \<Rightarrow> 'a io" where
  "poll 0 check nap failure = throw failure"
| "poll (Suc n) check nap failure = andThen check (\<lambda>r.
     case r of
       Some x \<Rightarrow> ret x
     | None \<Rightarrow> andThen (onlyIf (0 < n) nap) (\<lambda>_. poll n check nap failure))"

text \<open>
  \<open>max(1, int(timeout / max(0.01, interval)) + 1)\<close> and \<open>max(1, ceil(timeout / max(0.01, interval)))\<close>
  for whole seconds.
\<close>

definition attempts_floor :: "int \<Rightarrow> int \<Rightarrow> nat" where
  "attempts_floor timeout interval =
     nat (max 1 ((if 1 \<le> interval then timeout div interval else timeout * 100) + 1))"

definition attempts_ceil :: "int \<Rightarrow> int \<Rightarrow> nat" where
  "attempts_ceil timeout interval =
     nat (max 1 (if 1 \<le> interval then - ((- timeout) div interval) else timeout * 100))"

section \<open>What holds after a task\<close>

text \<open>
  \<open>after m Q e s\<close>: the outcome and the state of the run in which \<open>m\<close> finishes satisfy \<open>Q\<close>.  The
  equations below compute it along the structure of a task, so that a proof about a task follows
  its text.
\<close>

definition after :: "'a io \<Rightarrow> ('a outcome \<Rightarrow> run \<Rightarrow> bool) \<Rightarrow> env \<Rightarrow> run \<Rightarrow> bool" where
  "after m Q e s = (case m e s of (r, s') \<Rightarrow> Q r s')"

named_theorems after_simps \<open>what holds after a composed task\<close>

lemma after_ret [after_simps]: "after (ret x) Q e s = Q (Returned x) s"
  by (simp add: after_def ret_def)

lemma after_throw [after_simps]: "after (throw x) Q e s = Q (Raised x) s"
  by (simp add: after_def throw_def)

lemma after_andThen [after_simps]:
  "after (andThen m f) Q e s = after m (\<lambda>r s'. case r of
     Returned x \<Rightarrow> after (f x) Q e s' | Raised x \<Rightarrow> Q (Raised x) s' | Stopped \<Rightarrow> Q Stopped s') e s"
  by (simp add: after_def andThen_def split: prod.split outcome.split)

lemma after_catch [after_simps]:
  "after (catch m h) Q e s = after m (\<lambda>r s'. case r of
     Raised x \<Rightarrow> if x = CancelledError then Q (Raised x) s' else after (h x) Q e s'
   | Returned x \<Rightarrow> Q (Returned x) s' | Stopped \<Rightarrow> Q Stopped s') e s"
  by (simp add: after_def catch_def split: prod.split outcome.split)

lemma after_transact [after_simps]:
  "after (transact t) Q e s =
     (if stops e (rn_step s) then Q Stopped s
      else case t e (clock e (rn_step s)) (turn e s) of
          Inl x \<Rightarrow> Q (Raised x) (s\<lparr>rn_db := turn e s, rn_step := Suc (rn_step s)\<rparr>)
        | Inr (x, d) \<Rightarrow> Q (Returned x) (s\<lparr>rn_db := d, rn_step := Suc (rn_step s)\<rparr>))"
  by (simp add: after_def transact_def split: sum.split prod.split)

lemma after_query [after_simps]:
  "after (query f) Q e s =
     (if stops e (rn_step s) then Q Stopped s
      else case f e (turn e s) of
          Inl x \<Rightarrow> Q (Raised x) (s\<lparr>rn_db := turn e s, rn_step := Suc (rn_step s)\<rparr>)
        | Inr x \<Rightarrow> Q (Returned x) (s\<lparr>rn_db := turn e s, rn_step := Suc (rn_step s)\<rparr>))"
  by (auto simp: query_def after_transact bind_result_def split: sum.split)

lemma after_store [after_simps]:
  "after (store f) Q e s =
     (if stops e (rn_step s) then Q Stopped s
      else Q (Returned ()) (s\<lparr>rn_db := f e (clock e (rn_step s)) (turn e s), rn_step := Suc (rn_step s)\<rparr>))"
  by (simp add: store_def after_transact)

lemma after_send [after_simps]:
  "after (send v) Q e s =
     (if stops e (rn_step s) then Q Stopped s
      else Q (Returned (answer e (rn_step s) v))
        (s\<lparr>rn_log := rn_log s @ [\<lparr>c_event = v, c_reply = answer e (rn_step s) v, c_db = turn e s\<rparr>],
           rn_db := turn e s, rn_step := Suc (rn_step s)\<rparr>))"
  by (simp add: after_def send_def Let_def)

lemma after_lift [after_simps]:
  "after (lift r) Q e s = (case r of Inl x \<Rightarrow> Q (Raised x) s | Inr x \<Rightarrow> Q (Returned x) s)"
  by (simp add: lift_def after_simps split: sum.split)

lemma after_with_env [after_simps]: "after (with_env f) Q e s = after (f e) Q e s"
  by (simp add: after_def with_env_def)

lemma after_skip [after_simps]: "after skip Q e s = Q (Returned ()) s"
  by (simp add: skip_def after_simps)

lemma after_mono:
  assumes "after m Q e s" and "\<And>r s'. Q r s' \<Longrightarrow> Q' r s'"
  shows "after m Q' e s"
  using assms by (auto simp: after_def split: prod.splits)

lemma after_both: "after m Q e s \<Longrightarrow> after m Q' e s \<Longrightarrow> after m (\<lambda>r s'. Q r s' \<and> Q' r s') e s"
  by (auto simp: after_def split: prod.splits)

section \<open>Invariants of a task\<close>

text \<open>\<open>keeps I m e\<close>: whatever way \<open>m\<close> finishes, \<open>I\<close> still holds.\<close>

definition keeps :: "(run \<Rightarrow> bool) \<Rightarrow> 'a io \<Rightarrow> env \<Rightarrow> bool" where
  "keeps I m e \<longleftrightarrow> (\<forall>s. I s \<longrightarrow> after m (\<lambda>r. I) e s)"

lemma keepsD: "keeps I m e \<Longrightarrow> I s \<Longrightarrow> after m (\<lambda>r. I) e s"
  by (simp add: keeps_def)

named_theorems keeps_intros \<open>how an invariant passes through a task\<close>

lemma keeps_ret [keeps_intros]: "keeps I (ret x) e"
  by (simp add: keeps_def after_simps)

lemma keeps_throw [keeps_intros]: "keeps I (throw x) e"
  by (simp add: keeps_def after_simps)

lemma keeps_skip [keeps_intros]: "keeps I skip e"
  by (simp add: keeps_def after_simps)

lemma keeps_lift [keeps_intros]: "keeps I (lift r) e"
  by (simp add: keeps_def after_simps split: sum.split)

lemma keeps_andThen [keeps_intros]:
  assumes "keeps I m e" and "\<And>x. keeps I (f x) e"
  shows "keeps I (andThen m f) e"
  unfolding keeps_def after_simps
proof (intro allI impI)
  fix s assume "I s"
  with assms(1) have "after m (\<lambda>r. I) e s" by (rule keepsD)
  then show "after m (\<lambda>r s'. case r of Returned x \<Rightarrow> after (f x) (\<lambda>r. I) e s' | Raised x \<Rightarrow> I s' | Stopped \<Rightarrow> I s') e s"
    by (rule after_mono) (auto simp: keepsD [OF assms(2)] split: outcome.split)
qed

lemma keeps_catch [keeps_intros]:
  assumes "keeps I m e" and "\<And>x. keeps I (h x) e"
  shows "keeps I (catch m h) e"
  unfolding keeps_def after_simps
proof (intro allI impI)
  fix s assume "I s"
  with assms(1) have "after m (\<lambda>r. I) e s" by (rule keepsD)
  then show "after m (\<lambda>r s'. case r of Raised x \<Rightarrow> if x = CancelledError then I s' else after (h x) (\<lambda>r. I) e s'
      | Returned x \<Rightarrow> I s' | Stopped \<Rightarrow> I s') e s"
    by (rule after_mono) (auto simp: keepsD [OF assms(2)] split: outcome.split)
qed

lemma keeps_with_env [keeps_intros]: "keeps I (f e) e \<Longrightarrow> keeps I (with_env f) e"
  by (simp add: keeps_def after_simps)

lemma keeps_onlyIf [keeps_intros]: "(b \<Longrightarrow> keeps I m e) \<Longrightarrow> keeps I (onlyIf b m) e"
  by (simp add: onlyIf_def keeps_skip)

lemma keeps_if [keeps_intros]: "(b \<Longrightarrow> keeps I m e) \<Longrightarrow> (\<not> b \<Longrightarrow> keeps I n e) \<Longrightarrow> keeps I (if b then m else n) e"
  by simp

lemma keeps_option [keeps_intros]:
  "(x = None \<Longrightarrow> keeps I m e) \<Longrightarrow> (\<And>y. x = Some y \<Longrightarrow> keeps I (f y) e) \<Longrightarrow>
     keeps I (case x of None \<Rightarrow> m | Some y \<Rightarrow> f y) e"
  by (cases x) simp_all

lemma keeps_prod [keeps_intros]:
  "(\<And>a b. p = (a, b) \<Longrightarrow> keeps I (f a b) e) \<Longrightarrow> keeps I (case p of (a, b) \<Rightarrow> f a b) e"
  by (cases p) simp

lemma keeps_poll [keeps_intros]: "keeps I check e \<Longrightarrow> keeps I nap e \<Longrightarrow> keeps I (poll n check nap x) e"
  by (induction n) (auto intro!: keeps_intros)

text \<open>
  An invariant of the database and the log, and what each kind of step has to show for it.
\<close>

definition on :: "(db \<Rightarrow> call list \<Rightarrow> bool) \<Rightarrow> run \<Rightarrow> bool" where
  "on J s = J (rn_db s) (rn_log s)"

text \<open>What the others do leaves it alone.\<close>

definition steady :: "(db \<Rightarrow> call list \<Rightarrow> bool) \<Rightarrow> env \<Rightarrow> bool" where
  "steady J e \<longleftrightarrow> (\<forall>n d l. J d l \<longrightarrow> J (meanwhile e n d) l)"

lemma steady_turn: "steady J e \<Longrightarrow> J (rn_db s) l \<Longrightarrow> J (turn e s) l"
  by (simp add: steady_def turn_def)

lemma keeps_query: "steady J e \<Longrightarrow> keeps (on J) (query f) e"
  by (auto simp: keeps_def after_simps on_def steady_turn split: sum.split)

lemma keeps_store:
  "steady J e \<Longrightarrow> (\<And>now d l. J d l \<Longrightarrow> J (f e now d) l) \<Longrightarrow> keeps (on J) (store f) e"
  by (simp add: keeps_def after_simps on_def steady_turn)

lemma keeps_transact:
  "steady J e \<Longrightarrow> (\<And>now d l x d'. J d l \<Longrightarrow> t e now d = Inr (x, d') \<Longrightarrow> J d' l) \<Longrightarrow> keeps (on J) (transact t) e"
  by (fastforce simp: keeps_def after_simps on_def dest: steady_turn split: sum.split)

lemma keeps_send:
  "steady J e \<Longrightarrow> (\<And>d l r. J d l \<Longrightarrow> J d (l @ [\<lparr>c_event = v, c_reply = r, c_db = d\<rparr>])) \<Longrightarrow>
     keeps (on J) (send v) e"
  by (simp add: keeps_def after_simps on_def steady_turn)

text \<open>An invariant that looks only at the calls of some kinds passes through every other call.\<close>

definition calls_of :: "(event \<Rightarrow> bool) \<Rightarrow> call list \<Rightarrow> call list" where
  "calls_of K l = filter (\<lambda>c. K (c_event c)) l"

lemma calls_of_append [simp]: "calls_of K (l @ l') = calls_of K l @ calls_of K l'"
  by (simp add: calls_of_def)

lemma calls_of_one [simp]: "calls_of K [c] = (if K (c_event c) then [c] else [])"
  by (simp add: calls_of_def)

lemma calls_of_Nil [simp]: "calls_of K [] = []"
  by (simp add: calls_of_def)

definition stable :: "(db \<Rightarrow> bool) \<Rightarrow> env \<Rightarrow> bool" where
  "stable P e \<longleftrightarrow> (\<forall>n d. P d \<longrightarrow> P (meanwhile e n d))"

lemma stableD: "stable P e \<Longrightarrow> P d \<Longrightarrow> P (meanwhile e n d)"
  by (simp add: stable_def)

lemma stable_True [simp]: "stable (\<lambda>d. True) e"
  by (simp add: stable_def)

lemma stable_turn: "stable P e \<Longrightarrow> P (rn_db s) \<Longrightarrow> P (turn e s)"
  by (simp add: stable_def turn_def)

lemma steady_log [simp]: "steady (\<lambda>d. V) e"
  by (simp add: steady_def)

lemma steady_and [simp]: "stable P e \<Longrightarrow> steady (\<lambda>d l. P d \<and> V l) e"
  by (simp add: stable_def steady_def)

lemma keeps_disj: "keeps I m e \<Longrightarrow> keeps I' m e \<Longrightarrow> keeps (\<lambda>s. I s \<or> I' s) m e"
  unfolding keeps_def by (blast intro: after_mono)

text \<open>
  \<open>leads P m Q E e\<close>: from a state with \<open>P\<close>, a result \<open>x\<close> comes with \<open>Q x\<close>, any other end with \<open>E\<close>.
\<close>

definition leads :: "(run \<Rightarrow> bool) \<Rightarrow> 'a io \<Rightarrow> ('a \<Rightarrow> run \<Rightarrow> bool) \<Rightarrow> (run \<Rightarrow> bool) \<Rightarrow> env \<Rightarrow> bool" where
  "leads P m Q E e \<longleftrightarrow>
     (\<forall>s. P s \<longrightarrow> after m (\<lambda>r s'. case r of Returned x \<Rightarrow> Q x s' | _ \<Rightarrow> E s') e s)"

lemma leadsI:
  assumes "\<And>s r s'. P s \<Longrightarrow> m e s = (r, s') \<Longrightarrow> (case r of Returned x \<Rightarrow> Q x s' | _ \<Rightarrow> E s')"
  shows "leads P m Q E e"
  using assms by (auto simp: leads_def after_def split: prod.split)

lemma leadsD:
  "leads P m Q E e \<Longrightarrow> P s \<Longrightarrow> m e s = (r, s') \<Longrightarrow> (case r of Returned x \<Rightarrow> Q x s' | _ \<Rightarrow> E s')"
  by (fastforce simp: leads_def after_def)

lemma leads_keeps: "keeps I m e \<Longrightarrow> leads I m (\<lambda>x. I) I e"
  by (rule leadsI) (fastforce simp: keeps_def after_def split: outcome.split)

lemma keeps_leads: "leads I m (\<lambda>x. I) I e \<Longrightarrow> keeps I m e"
  by (fastforce simp: keeps_def after_def split: prod.split dest: leadsD split: outcome.splits)

lemma leads_andThen:
  assumes "leads P m R E e" and "\<And>x. leads (R x) (f x) Q E e"
  shows "leads P (andThen m f) Q E e"
proof (rule leadsI)
  fix s r s' assume "P s" and run: "andThen m f e s = (r, s')"
  obtain r1 s1 where m: "m e s = (r1, s1)" by fastforce
  note first = leadsD [OF assms(1) \<open>P s\<close> m]
  show "case r of Returned x \<Rightarrow> Q x s' | _ \<Rightarrow> E s'"
  proof (cases r1)
    case (Returned x)
    then show ?thesis using first run leadsD [OF assms(2)] by (simp add: andThen_def m)
  qed (use first run in \<open>auto simp: andThen_def m\<close>)
qed

lemma leads_catch:
  assumes "leads P m Q E e" and "\<And>x. leads E (h x) Q E e"
  shows "leads P (catch m h) Q E e"
proof (rule leadsI)
  fix s r s' assume "P s" and run: "catch m h e s = (r, s')"
  obtain r1 s1 where m: "m e s = (r1, s1)" by fastforce
  note first = leadsD [OF assms(1) \<open>P s\<close> m]
  show "case r of Returned x \<Rightarrow> Q x s' | _ \<Rightarrow> E s'"
  proof (cases r1)
    case (Raised x)
    then show ?thesis
      using first run leadsD [OF assms(2)] by (cases "x = CancelledError") (auto simp: catch_def m)
  qed (use first run in \<open>auto simp: catch_def m\<close>)
qed

lemma leads_weaken:
  assumes "leads P m Q E e" and "\<And>s. P' s \<Longrightarrow> P s" and "\<And>x s. Q x s \<Longrightarrow> Q' x s" and "\<And>s. E s \<Longrightarrow> E' s"
  shows "leads P' m Q' E' e"
proof (rule leadsI)
  fix s r s' assume "P' s" "m e s = (r, s')"
  from leadsD [OF assms(1) assms(2) [OF this(1)] this(2)] assms(3,4)
  show "case r of Returned x \<Rightarrow> Q' x s' | _ \<Rightarrow> E' s'" by (auto split: outcome.splits)
qed

lemma leads_any: "leads P m (\<lambda>_ _. True) (\<lambda>_. True) e"
  by (rule leadsI) (simp split: outcome.split)

lemma leads_throw: "(\<And>s. P s \<Longrightarrow> E s) \<Longrightarrow> leads P (throw x) Q E e"
  by (rule leadsI) (auto simp: throw_def)

lemma leads_ret: "(\<And>s. P s \<Longrightarrow> Q x s) \<Longrightarrow> leads P (ret x) Q E e"
  by (rule leadsI) (auto simp: ret_def)

lemma leads_lift: "(\<And>x s. P s \<Longrightarrow> r = Inr x \<Longrightarrow> Q x s) \<Longrightarrow> (\<And>s. P s \<Longrightarrow> E s) \<Longrightarrow> leads P (lift r) Q E e"
  by (rule leadsI) (auto simp: lift_def ret_def throw_def split: sum.splits)

lemma leads_fact: "(b \<Longrightarrow> leads (\<lambda>_. True) m Q E e) \<Longrightarrow> leads (\<lambda>_. b) m Q E e"
  by (simp add: leads_def)

lemma leads_and_keeps:
  assumes "leads P m Q E e" and "keeps I m e"
  shows "leads (\<lambda>s. P s \<and> I s) m (\<lambda>x s. Q x s \<and> I s) E e"
proof (rule leadsI)
  fix s r s' assume s: "P s \<and> I s" and m: "m e s = (r, s')"
  have "I s'" using keepsD [OF assms(2), of s] s m by (simp add: after_def)
  with leadsD [OF assms(1) _ m] s show "case r of Returned x \<Rightarrow> Q x s' \<and> I s' | _ \<Rightarrow> E s'"
    by (auto split: outcome.splits)
qed

lemma leads_poll:
  assumes "leads (\<lambda>_. True) check (\<lambda>r s. \<forall>x. r = Some x \<longrightarrow> Z x) (\<lambda>_. True) e"
  shows "leads (\<lambda>_. True) (poll n check nap failure) (\<lambda>x s. Z x) (\<lambda>_. True) e"
proof (induction n)
  case 0
  show ?case by (simp add: leads_throw)
next
  case (Suc n)
  show ?case
    unfolding poll.simps
  proof (rule leads_andThen [OF assms])
    fix r :: "'a option"
    have rest: "leads (\<lambda>_. True) (andThen (onlyIf (0 < n) nap) (\<lambda>_. poll n check nap failure)) (\<lambda>x s. Z x) (\<lambda>_. True) e"
      by (rule leads_andThen [OF leads_any]) (rule leads_weaken [OF Suc.IH], simp_all)
    show "leads (\<lambda>s. \<forall>x. r = Some x \<longrightarrow> Z x)
        (case r of None \<Rightarrow> andThen (onlyIf (0 < n) nap) (\<lambda>_. poll n check nap failure) | Some x \<Rightarrow> ret x)
        (\<lambda>x s. Z x) (\<lambda>_. True) e"
      by (cases r) (auto intro: leads_weaken [OF rest] leads_ret)
  qed
qed

lemma leads_after: "leads P m Q E e \<Longrightarrow> P s \<Longrightarrow> after m (\<lambda>r s'. \<forall>x. r = Returned x \<longrightarrow> Q x s') e s"
  by (auto simp: after_def split: prod.split dest: leadsD)

text \<open>
  \<open>yields P R X m e\<close>: from a state with \<open>P\<close>, a result \<open>x\<close> comes with \<open>R x\<close> and an exception other
  than a cancellation with \<open>X\<close>; nothing is said about a stop.  \<open>finishes\<close> is the case of any state.
\<close>

definition yields :: "(run \<Rightarrow> bool) \<Rightarrow> ('a \<Rightarrow> run \<Rightarrow> bool) \<Rightarrow> (run \<Rightarrow> bool) \<Rightarrow> 'a io \<Rightarrow> env \<Rightarrow> bool" where
  "yields P R X m e \<longleftrightarrow> (\<forall>s r s'. P s \<longrightarrow> m e s = (r, s') \<longrightarrow>
     (case r of Returned x \<Rightarrow> R x s' | Raised x \<Rightarrow> x = CancelledError \<or> X s' | Stopped \<Rightarrow> True))"

abbreviation finishes :: "(run \<Rightarrow> bool) \<Rightarrow> (run \<Rightarrow> bool) \<Rightarrow> 'a io \<Rightarrow> env \<Rightarrow> bool" where
  "finishes R X m e \<equiv> yields (\<lambda>_. True) (\<lambda>_. R) X m e"

lemma yieldsD:
  "yields P R X m e \<Longrightarrow> P s \<Longrightarrow> m e s = (r, s') \<Longrightarrow>
     (case r of Returned x \<Rightarrow> R x s' | Raised x \<Rightarrow> x = CancelledError \<or> X s' | Stopped \<Rightarrow> True)"
  by (simp add: yields_def)

lemma yieldsI:
  assumes "\<And>s r s'. P s \<Longrightarrow> m e s = (r, s') \<Longrightarrow>
     (case r of Returned x \<Rightarrow> R x s' | Raised x \<Rightarrow> x = CancelledError \<or> X s' | Stopped \<Rightarrow> True)"
  shows "yields P R X m e"
  using assms by (simp add: yields_def)

lemma yields_weaken:
  assumes "yields P R X m e" and "\<And>s. P' s \<Longrightarrow> P s" and "\<And>x s. R x s \<Longrightarrow> R' x s" and "\<And>s. X s \<Longrightarrow> X' s"
  shows "yields P' R' X' m e"
proof (rule yieldsI)
  fix s r s' assume "P' s" "m e s = (r, s')"
  from yieldsD [OF assms(1) assms(2) [OF this(1)] this(2)] assms(3,4)
  show "case r of Returned x \<Rightarrow> R' x s' | Raised x \<Rightarrow> x = CancelledError \<or> X' s' | Stopped \<Rightarrow> True"
    by (auto split: outcome.splits)
qed

lemma yields_andThen:
  assumes "yields P R' X m e" and "\<And>x. yields (R' x) R X (f x) e"
  shows "yields P R X (andThen m f) e"
proof (rule yieldsI)
  fix s r s' assume "P s" and run: "andThen m f e s = (r, s')"
  obtain r1 s1 where m: "m e s = (r1, s1)" by fastforce
  note first = yieldsD [OF assms(1) \<open>P s\<close> m]
  show "case r of Returned x \<Rightarrow> R x s' | Raised x \<Rightarrow> x = CancelledError \<or> X s' | Stopped \<Rightarrow> True"
  proof (cases r1)
    case (Returned x)
    then show ?thesis using first run yieldsD [OF assms(2)] by (simp add: andThen_def m)
  qed (use first run in \<open>auto simp: andThen_def m\<close>)
qed

lemma yields_catch:
  assumes "yields P R X' m e" and "\<And>x. yields X' R X (h x) e"
  shows "yields P R X (catch m h) e"
proof (rule yieldsI)
  fix s r s' assume "P s" and run: "catch m h e s = (r, s')"
  obtain r1 s1 where m: "m e s = (r1, s1)" by fastforce
  note first = yieldsD [OF assms(1) \<open>P s\<close> m]
  show "case r of Returned x \<Rightarrow> R x s' | Raised x \<Rightarrow> x = CancelledError \<or> X s' | Stopped \<Rightarrow> True"
  proof (cases r1)
    case (Raised x)
    show ?thesis
    proof (cases "x = CancelledError")
      case False
      with Raised first run have "X' s1" "h x e s1 = (r, s')" by (simp_all add: catch_def m)
      then show ?thesis by (rule yieldsD [OF assms(2)])
    qed (use Raised run in \<open>auto simp: catch_def m\<close>)
  qed (use first run in \<open>auto simp: catch_def m\<close>)
qed

lemma yields_keeps: "keeps I m e \<Longrightarrow> yields I (\<lambda>_. I) I m e"
  by (rule yieldsI) (fastforce simp: keeps_def after_def split: outcome.split)

lemma yields_and_leads:
  "yields P R X m e \<Longrightarrow> leads (\<lambda>_. True) m Q (\<lambda>_. True) e \<Longrightarrow> yields P (\<lambda>x s. R x s \<and> Q x s) X m e"
  by (rule yieldsI) (fastforce split: outcome.splits dest: yieldsD leadsD)

lemma yields_ret: "(\<And>s. P s \<Longrightarrow> R x s) \<Longrightarrow> yields P R X (ret x) e"
  by (rule yieldsI) (auto simp: ret_def)

lemma yields_fact: "(b \<Longrightarrow> yields P R X m e) \<Longrightarrow> yields (\<lambda>s. P s \<and> b) R X m e"
  by (auto simp: yields_def)

lemma finishes_any: "yields P (\<lambda>_ _. True) (\<lambda>_. True) m e"
  by (simp add: yields_def split: outcome.split)

lemma finishes_weaken:
  "finishes R X m e \<Longrightarrow> (\<And>s. R s \<Longrightarrow> R' s) \<Longrightarrow> (\<And>s. X s \<Longrightarrow> X' s) \<Longrightarrow> finishes R' X' m e"
  by (erule yields_weaken) simp_all

lemma finishes_andThen: "finishes R' X m e \<Longrightarrow> (\<And>x. finishes R X (f x) e) \<Longrightarrow> finishes R X (andThen m f) e"
  by (rule yields_andThen) (auto intro: yields_weaken)

lemma finishes_catch: "finishes R X' m e \<Longrightarrow> (\<And>x. finishes R X (h x) e) \<Longrightarrow> finishes R X (catch m h) e"
  by (rule yields_catch) (auto intro: yields_weaken)

lemma finishes_leads: "finishes R X m e \<Longrightarrow> leads P m (\<lambda>_. R) (\<lambda>_. True) e"
  by (rule leadsI) (fastforce simp: yields_def split: outcome.splits)

lemma yields_after:
  "yields P R X m e \<Longrightarrow> P s \<Longrightarrow> after m (\<lambda>r s'. case r of
     Returned x \<Rightarrow> R x s' | Raised x \<Rightarrow> x = CancelledError \<or> X s' | Stopped \<Rightarrow> True) e s"
  by (auto simp: after_def split: prod.split dest: yieldsD)

text \<open>A calm task raises nothing but a cancellation.\<close>

abbreviation calm :: "'a io \<Rightarrow> env \<Rightarrow> bool" where
  "calm m e \<equiv> finishes (\<lambda>_. True) (\<lambda>_. False) m e"

lemma yields_calm: "keeps I m e \<Longrightarrow> calm m e \<Longrightarrow> yields I (\<lambda>_. I) (\<lambda>_. False) m e"
  by (rule yieldsI) (fastforce split: outcome.splits dest: yieldsD yieldsD [OF yields_keeps])

lemma calm_ret: "calm (ret x) e"
  by (simp add: yields_def ret_def)

lemma calm_store: "calm (store f) e"
  by (auto simp: yields_def store_def transact_def split: if_splits outcome.split)

lemmas calm_andThen = finishes_andThen [where R' = "\<lambda>_. True" and R = "\<lambda>_. True" and X = "\<lambda>_. False"]
lemmas calm_catch = finishes_catch [where R = "\<lambda>_. True" and X' = "\<lambda>_. True" and X = "\<lambda>_. False", OF finishes_any]

section \<open>A task that is started again\<close>

text \<open>
  The process may stop and the same task be started again on what is in the database: each life of
  it has an environment of its own, and whatever other tasks did in between is a function.
\<close>

fun lives :: "'a io \<Rightarrow> (env \<times> (db \<Rightarrow> db)) list \<Rightarrow> run \<Rightarrow> run" where
  "lives m [] s = s"
| "lives m ((e, f) # ls) s =
     (let s' = snd (m e s) in lives m ls (s'\<lparr>rn_db := f (rn_db s')\<rparr>))"

lemma keeps_snd: "keeps I m e \<Longrightarrow> I s \<Longrightarrow> I (snd (m e s))"
  using keepsD [of I m e s] by (simp add: after_def case_prod_beta)

lemma lives_keep:
  assumes "\<And>e f. (e, f) \<in> set ls \<Longrightarrow> keeps I m e"
    and "\<And>e f s. (e, f) \<in> set ls \<Longrightarrow> I s \<Longrightarrow> I (s\<lparr>rn_db := f (rn_db s)\<rparr>)" and "I s"
  shows "I (lives m ls s)"
  using assms
proof (induction ls arbitrary: s)
  case (Cons l ls)
  obtain e f where l: "l = (e, f)" by fastforce
  have "(e, f) \<in> set (l # ls)" by (simp add: l)
  note first = Cons.prems(1) [OF this] and between = Cons.prems(2) [OF this]
  have later: "I ((snd (m e s))\<lparr>rn_db := f (rn_db (snd (m e s)))\<rparr>)"
    by (rule between) (rule keeps_snd [OF first Cons.prems(3)])
  have "I (lives m ls ((snd (m e s))\<lparr>rn_db := f (rn_db (snd (m e s)))\<rparr>))"
  proof (rule Cons.IH)
    fix e' f' assume "(e', f') \<in> set ls"
    then have "(e', f') \<in> set (l # ls)" by simp
    then show "keeps I m e'" by (rule Cons.prems(1))
  next
    fix e' f' t assume "(e', f') \<in> set ls" and t: "I t"
    then have "(e', f') \<in> set (l # ls)" by simp
    then show "I (t\<lparr>rn_db := f' (rn_db t)\<rparr>)" using t by (rule Cons.prems(2))
  qed (rule later)
  then show ?case by (simp add: l Let_def)
qed simp

text \<open>Between the two states the task itself has done nothing: no call, no change of the database.\<close>

definition only_others :: "env \<Rightarrow> run \<Rightarrow> run \<Rightarrow> bool" where
  "only_others e s s' \<longleftrightarrow> rn_log s' = rn_log s \<and> (\<exists>ns. rn_db s' = fold (meanwhile e) ns (rn_db s))"

lemma others_refl [simp]: "only_others e s s"
  unfolding only_others_def by (simp, rule exI [of _ "[]"]) simp

lemma others_turn: "only_others e s t \<Longrightarrow> only_others e s (t\<lparr>rn_db := turn e t, rn_step := n\<rparr>)"
proof -
  assume "only_others e s t"
  then obtain ns where "rn_log t = rn_log s" "rn_db t = fold (meanwhile e) ns (rn_db s)"
    by (auto simp: only_others_def)
  then have "turn e t = fold (meanwhile e) (ns @ [rn_step t]) (rn_db s)" by (simp add: turn_def)
  with \<open>rn_log t = rn_log s\<close> show ?thesis
    unfolding only_others_def by (intro conjI exI [of _ "ns @ [rn_step t]"]) simp_all
qed

lemma others_stable: "only_others e s s' \<Longrightarrow> stable P e \<Longrightarrow> P (rn_db s) \<Longrightarrow> P (rn_db s')"
proof -
  assume *: "stable P e" "P (rn_db s)" "only_others e s s'"
  then obtain ns where ns: "rn_db s' = fold (meanwhile e) ns (rn_db s)" by (auto simp: only_others_def)
  have "P d \<Longrightarrow> P (fold (meanwhile e) ns d)" for d
    by (induction ns arbitrary: d) (use *(1) in \<open>auto simp: stable_def\<close>)
  with * ns show ?thesis by simp
qed

lemma others_log: "only_others e s s' \<Longrightarrow> rn_log s' = rn_log s"
  by (simp add: only_others_def)

lemma after_query_others:
  assumes "only_others e s t" and "\<And>u. only_others e s u \<Longrightarrow> Q Stopped u"
    and "\<And>u x. only_others e s u \<Longrightarrow> f e (rn_db u) = Inl x \<Longrightarrow> Q (Raised x) u"
    and "\<And>u x. only_others e s u \<Longrightarrow> f e (rn_db u) = Inr x \<Longrightarrow> after (k x) Q e u"
  shows "after (andThen (query f) k) Q e t"
proof -
  let ?u = "t\<lparr>rn_db := turn e t, rn_step := Suc (rn_step t)\<rparr>"
  have u: "only_others e s ?u" using assms(1) by (rule others_turn)
  show ?thesis
    using assms(2) [OF assms(1)] assms(3) [OF u] assms(4) [OF u]
    by (simp add: after_andThen after_query split: sum.split)
qed

text \<open>An environment in which nobody answers, for examples.\<close>

definition silent_env :: env where
  "silent_env = \<lparr>en_config = default_config, en_sha = (\<lambda>s. s), en_repr = (\<lambda>v. []), en_unicode_other = (\<lambda>c. False), en_absolute = (\<lambda>p. p),
     answer = (\<lambda>n v. Unavailable TimeoutError), meanwhile = (\<lambda>n d. d), clock = (\<lambda>n. 0), stops = (\<lambda>n. False)\<rparr>"

lemma silent_stable [simp]: "stable P silent_env"
  by (simp add: stable_def silent_env_def)

definition start_run :: "db \<Rightarrow> run" where
  "start_run d = \<lparr>rn_db = d, rn_log = [], rn_step = 0\<rparr>"

section \<open>Settings the tasks read\<close>

definition reading :: "(config \<Rightarrow> db \<Rightarrow> 'a) \<Rightarrow> 'a io" where
  "reading f = query (\<lambda>e d. Inr (f (en_config e) d))"

definition reading_result :: "(config \<Rightarrow> db \<Rightarrow> exn + 'a) \<Rightarrow> 'a io" where
  "reading_result f = query (\<lambda>e d. f (en_config e) d)"

definition aeza_token :: "config \<Rightarrow> db \<Rightarrow> string" where
  "aeza_token cfg d = config_value cfg d ''aeza_token'' []"

definition aeza_service_id :: "config \<Rightarrow> db \<Rightarrow> string" where
  "aeza_service_id cfg d = config_value cfg d ''aeza_service_id'' []"

definition aeza_api_base :: "config \<Rightarrow> db \<Rightarrow> string" where
  "aeza_api_base cfg d = config_value cfg d ''aeza_api_base'' ''https://my.aeza.net''"

definition rstrip_slash :: "string \<Rightarrow> string" where
  "rstrip_slash s = rev (dropWhile (\<lambda>c. c = CHR ''/'') (rev s))"

definition new_aeza_client :: "aeza_client io" where
  "new_aeza_client = reading (\<lambda>cfg d.
     \<lparr>ac_base = rstrip_slash (aeza_api_base cfg d), ac_token = aeza_token cfg d\<rparr>)"

definition resolve_eu_host :: "config \<Rightarrow> db \<Rightarrow> string" where
  "resolve_eu_host cfg d = or_text (eu_ssh_host cfg d) (setting d ''current_ip'')"

text \<open>The password is read without the credentials of a SprintBOX operation, as at the call sites.\<close>

definition saving :: "string \<Rightarrow> string \<Rightarrow> unit io" where
  "saving k v = store (\<lambda>e now d. set_setting now k v d)"

lemma keeps_reading:
  assumes "steady J e"
  shows "keeps (on J) (reading f) e" "keeps (on J) (reading_result g) e" "keeps (on J) new_aeza_client e"
  unfolding reading_def reading_result_def new_aeza_client_def using assms by (rule keeps_query)+

lemma calm_reading: "calm (reading f) e"
  by (auto simp: yields_def reading_def query_def transact_def bind_result_def split: if_splits outcome.split)

lemma after_reading [after_simps]:
  "after (reading f) Q e s =
     (if stops e (rn_step s) then Q Stopped s
      else Q (Returned (f (en_config e) (turn e s))) (s\<lparr>rn_db := turn e s, rn_step := Suc (rn_step s)\<rparr>))"
  by (simp add: reading_def after_simps)

end
