(* ===== verification/Checks.thy ===== *)
theory Checks
  imports Effects
begin

text \<open>
  \<open>app/deep_protocol_checks.py\<close> and \<open>app/protocol_status.py\<close>: the check that runs a real client of
  each protocol on the server, the reading of its output, and the bookkeeping of the protocol rows
  in the settings.  The text of the check script is not modelled; the call carries what varies in it.
\<close>

section \<open>Reading the output\<close>

definition line_break :: "char \<Rightarrow> bool" where
  "line_break ch \<longleftrightarrow> (let n = byte ch in 10 \<le> n \<and> n \<le> 13 \<or> 28 \<le> n \<and> n \<le> 30)"

text \<open>\<open>str.splitlines\<close>.\<close>

function split_lines :: "string \<Rightarrow> string list" where
  "split_lines [] = []"
| "split_lines (c # cs) =
     takeWhile (\<lambda>x. \<not> line_break x) (c # cs) #
     split_lines (case dropWhile (\<lambda>x. \<not> line_break x) (c # cs) of
         [] \<Rightarrow> []
       | b # rest \<Rightarrow> if b = CHR 0x0D \<and> starts_with newline rest then tl rest else rest)"
  by pat_completeness auto
termination
proof (relation "measure length")
  fix c :: char and cs
  let ?r = "dropWhile (\<lambda>x. \<not> line_break x) (c # cs)"
  have "length ?r \<le> length (c # cs)" by (rule length_dropWhile_le)
  then show "((case ?r of [] \<Rightarrow> [] | b # rest \<Rightarrow>
      if b = CHR 0x0D \<and> starts_with newline rest then tl rest else rest), c # cs) \<in> measure length"
    by (cases ?r) auto
qed simp

datatype deep_result = DeepCheckResult (verified: bool) string

type_synonym deep_results = "(string \<times> deep_result) list"

definition deep_line :: "string \<Rightarrow> deep_results \<Rightarrow> deep_results" where
  "deep_line line results =
     (if line = ''VLESS_DEEP=VERIFIED'' then dict_put ''vless'' (DeepCheckResult True []) results
      else if line = ''VLESS_DEEP=FAILED'' then
        dict_put ''vless'' (DeepCheckResult False ''request through VLESS failed'') results
      else if line = ''HYSTERIA_SERVICE=active'' then dict_put ''hysteria_quic'' (DeepCheckResult True []) results
      else if line = ''HYSTERIA_SERVICE=inactive'' then
        dict_put ''hysteria_quic'' (DeepCheckResult False ''hysteria-server is not active'') results
      else if line = ''HYSTERIA_DEEP=VERIFIED'' then
        dict_put ''hysteria_salamander'' (DeepCheckResult True []) results
      else if line = ''HYSTERIA_DEEP=FAILED'' then
        dict_put ''hysteria_salamander'' (DeepCheckResult False ''Hysteria tunnel handshake failed'') results
      else results)"

definition parse_deep_check_output :: "string \<Rightarrow> deep_results" where
  "parse_deep_check_output output = fold (\<lambda>l. deep_line (py_strip l)) (split_lines output) []"

definition over_ssh :: deep_result where
  "over_ssh = DeepCheckResult False ''deep check failed over SSH''"

definition deep_answer :: "int \<times> string \<Rightarrow> deep_results" where
  "deep_answer r =
     (if fst r \<noteq> 0 then
        [(''vless'', over_ssh), (''hysteria_quic'', over_ssh), (''hysteria_salamander'', over_ssh)]
      else parse_deep_check_output (snd r))"

section \<open>Running the check\<close>

definition deep_run :: "string \<Rightarrow> string \<Rightarrow> string \<Rightarrow> deep_results io" where
  "deep_run host address auth =
     catch (andThen (run_script host (DeepCheck address auth)) (\<lambda>r. ret (deep_answer r))) (\<lambda>_. ret [])"

definition run_deep_checks_of :: "captured_config \<Rightarrow> string \<Rightarrow> deep_results io" where
  "run_deep_checks_of c host =
     (case enabled_clients c of
        [] \<Rightarrow> ret []
      | v # _ \<Rightarrow>
          andThen (if host = [] then reading resolve_eu_host else ret host) (\<lambda>target.
            if target = [] then ret []
            else andThen (lift (hysteria_auth v c)) (\<lambda>auth. deep_run target host auth)))"

definition vless_port :: "config \<Rightarrow> db \<Rightarrow> exn + int option" where
  "vless_port cfg d = protocol_port d ''vless'' (c_vless_port cfg) True"

definition hysteria_port :: "config \<Rightarrow> db \<Rightarrow> exn + int option" where
  "hysteria_port cfg d = protocol_port d ''hysteria'' (c_hysteria_port cfg) True"

definition amnezia_port :: "config \<Rightarrow> db \<Rightarrow> exn + int option" where
  "amnezia_port cfg d = protocol_port d ''amnezia'' (c_amnezia_port cfg) True"

text \<open>\<open>hysteria_auth\<close> of a client row, without a snapshot.\<close>

definition current_auth :: "client_row \<Rightarrow> string" where
  "current_auth r = ''client-'' @ int_str (cl_id r) @ '':'' @ cl_hysteria_password r"

definition run_deep_checks :: "string \<Rightarrow> deep_results io" where
  "run_deep_checks address =
     andThen (reading (\<lambda>cfg d. List.find cl_enabled (list_clients d))) (\<lambda>client.
       case client of
         None \<Rightarrow> ret []
       | Some r \<Rightarrow>
           andThen (reading resolve_eu_host) (\<lambda>host.
             if host = [] then ret []
             else andThen (reading_result vless_port) (\<lambda>_.
                  andThen (reading_result hysteria_port) (\<lambda>_.
                  deep_run host address (current_auth r)))))"

section \<open>The protocol rows\<close>

datatype probe_kind = TcpKind | UdpKind

datatype row_kind = Generic | HysteriaService | HysteriaTunnel

record protocol_row =
  pr_key :: string
  pr_name :: string
  pr_port :: "config \<Rightarrow> db \<Rightarrow> exn + int option"
  pr_probe :: "probe_kind option"
  pr_udp :: bool
  pr_kind :: row_kind

definition hysteria_service_name :: string where
  "hysteria_service_name = ''Hysteria '' @ [CHR 0xC2, CHR 0xB7] @ '' '' @ [CHR 0xD0, CHR 0xBF, CHR 0xD0, CHR 0xBE, CHR
    0xD1, CHR 0x80, CHR 0xD1, CHR 0x82] @ ''/'' @ [CHR 0xD1, CHR 0x81, CHR 0xD0, CHR 0xB5, CHR
    0xD1, CHR 0x80, CHR 0xD0, CHR 0xB2, CHR 0xD0, CHR 0xB8, CHR 0xD1, CHR 0x81] @ '' (QUIC)''"

definition hysteria_tunnel_name :: string where
  "hysteria_tunnel_name = ''Hysteria '' @ [CHR 0xC2, CHR 0xB7] @ '' '' @ [CHR 0xD1, CHR 0x82, CHR 0xD1, CHR 0x83, CHR
    0xD0, CHR 0xBD, CHR 0xD0, CHR 0xBD, CHR 0xD0, CHR 0xB5, CHR 0xD0, CHR 0xBB, CHR 0xD1, CHR
    0x8C]"

text \<open>Every row is enabled and its key is also its key in the results of the check.\<close>

definition protocols :: "protocol_row list" where
  "protocols =
    [\<lparr>pr_key = ''vless'', pr_name = ''VLESS'', pr_port = vless_port, pr_probe = Some TcpKind, pr_udp = False,
      pr_kind = Generic\<rparr>,
     \<lparr>pr_key = ''hysteria_quic'', pr_name = hysteria_service_name, pr_port = hysteria_port,
      pr_probe = Some UdpKind, pr_udp = True, pr_kind = HysteriaService\<rparr>,
     \<lparr>pr_key = ''hysteria_salamander'', pr_name = hysteria_tunnel_name, pr_port = hysteria_port,
      pr_probe = None, pr_udp = False, pr_kind = HysteriaTunnel\<rparr>,
     \<lparr>pr_key = ''amnezia'', pr_name = ''AmneziaWG'', pr_port = amnezia_port, pr_probe = Some UdpKind,
      pr_udp = True, pr_kind = Generic\<rparr>]"

definition protocol_key :: "string \<Rightarrow> string \<Rightarrow> string" where
  "protocol_key key field = ''protocol.'' @ key @ ''.'' @ field"

definition get_ping_ms :: "string \<Rightarrow> string \<Rightarrow> db \<Rightarrow> int option" where
  "get_ping_ms key prefix d =
     (let v = setting d (protocol_key key (prefix @ ''ping_ms'')) in if v = [] then None else parse_int v)"

record protocol_status =
  ps_key :: string
  ps_name :: string
  ps_port :: int
  ps_status :: string
  ps_last_checked_at :: string
  ps_last_ok_at :: string
  ps_failed_since :: string
  ps_ping_ms :: "int option"
  ps_transport_status :: string
  ps_transport_last_checked_at :: string
  ps_transport_ping_ms :: "int option"

definition status_dict :: "protocol_row \<Rightarrow> int \<Rightarrow> string \<Rightarrow> db \<Rightarrow> protocol_status" where
  "status_dict p port status d =
     (let stored = (\<lambda>field. setting d (protocol_key (pr_key p) field)) in
      \<lparr>ps_key = pr_key p, ps_name = pr_name p, ps_port = port, ps_status = status,
       ps_last_checked_at = stored ''last_checked_at'', ps_last_ok_at = stored ''last_ok_at'',
       ps_failed_since = stored ''failed_since'', ps_ping_ms = get_ping_ms (pr_key p) [] d,
       ps_transport_status = stored ''transport_status'',
       ps_transport_last_checked_at = stored ''transport_last_checked_at'',
       ps_transport_ping_ms = get_ping_ms (pr_key p) ''transport_'' d\<rparr>)"

fun statuses_of :: "config \<Rightarrow> db \<Rightarrow> protocol_row list \<Rightarrow> exn + protocol_status list" where
  "statuses_of cfg d [] = Inr []"
| "statuses_of cfg d (p # ps) =
     bind_result (pr_port p cfg d) (\<lambda>port.
     bind_result (statuses_of cfg d ps) (\<lambda>rest.
       Inr (case port of
           None \<Rightarrow> rest
         | Some n \<Rightarrow>
             (let s = setting d (protocol_key (pr_key p) ''status'') in
              status_dict p n
                (if map_of (settings d) (protocol_key (pr_key p) ''status'') = None then ''UNKNOWN'' else s) d) # rest)))"

definition get_protocol_statuses :: "config \<Rightarrow> db \<Rightarrow> exn + protocol_status list" where
  "get_protocol_statuses cfg d = statuses_of cfg d protocols"

definition client_row_of :: "db \<Rightarrow> protocol_status \<Rightarrow> protocol_status" where
  "client_row_of d s =
     (if ps_key s = ''hysteria_salamander'' then
        s\<lparr>ps_name := ''Hysteria'',
          ps_transport_status := setting d (protocol_key ''hysteria_quic'' ''transport_status''),
          ps_transport_last_checked_at := setting d (protocol_key ''hysteria_quic'' ''transport_last_checked_at''),
          ps_transport_ping_ms := get_ping_ms ''hysteria_quic'' ''transport_'' d\<rparr>
      else s)"

definition get_client_protocol_statuses :: "config \<Rightarrow> db \<Rightarrow> exn + protocol_status list" where
  "get_client_protocol_statuses cfg d =
     bind_result (get_protocol_statuses cfg d) (\<lambda>rows.
       Inr (map (client_row_of d) (filter (\<lambda>s. ps_key s \<noteq> ''hysteria_quic'') rows)))"

definition compute_status :: "protocol_row \<Rightarrow> bool option \<Rightarrow> deep_result option \<Rightarrow> string" where
  "compute_status p probe_ok deep =
     (case pr_kind p of
        HysteriaService \<Rightarrow>
          (case deep of
             Some r \<Rightarrow> if verified r then ''SERVICE_ACTIVE'' else ''FAILED''
           | None \<Rightarrow> if probe_ok = Some True then ''UDP_PACKET_SENT'' else ''FAILED'')
      | HysteriaTunnel \<Rightarrow>
          (case deep of None \<Rightarrow> ''UNKNOWN'' | Some r \<Rightarrow> if verified r then ''VERIFIED'' else ''FAILED'')
      | Generic \<Rightarrow>
          (case deep of
             Some r \<Rightarrow> if verified r then ''VERIFIED'' else ''FAILED''
           | None \<Rightarrow>
               if probe_ok = Some True then (if pr_udp p then ''UDP_PACKET_SENT'' else ''TCP_REACHABLE'')
               else ''FAILED''))"

section \<open>Refreshing the rows\<close>

definition time_now :: "int io" where
  "time_now = transact (\<lambda>e now d. Inr (now, d))"

fun each :: "('a \<Rightarrow> 'b io) \<Rightarrow> 'a list \<Rightarrow> 'b list io" where
  "each f [] = ret []"
| "each f (x # xs) = andThen (f x) (\<lambda>y. andThen (each f xs) (\<lambda>ys. ret (y # ys)))"

definition probe_of :: "probe_kind \<Rightarrow> string \<Rightarrow> int \<Rightarrow> (bool \<times> int option) io" where
  "probe_of k host port = (case k of TcpKind \<Rightarrow> tcp_probe host port | UdpKind \<Rightarrow> udp_probe host port)"

text \<open>\<open>asyncio.gather(..., return_exceptions=True)\<close>: a probe that raised gives no result.\<close>

definition gathered :: "(bool \<times> int option) io option \<Rightarrow> (bool \<times> int option) option io" where
  "gathered task = (case task of
       None \<Rightarrow> ret None
     | Some m \<Rightarrow> catch (andThen m (\<lambda>r. ret (Some r))) (\<lambda>_. ret None))"

definition probe_task :: "string \<Rightarrow> protocol_row \<Rightarrow> (bool \<times> int option) io option io" where
  "probe_task current_ip p =
     andThen (reading_result (pr_port p)) (\<lambda>port.
       case (port, pr_probe p) of
         (None, _) \<Rightarrow>
           andThen (saving (protocol_key (pr_key p) ''status'') ''NOT_CONFIGURED'') (\<lambda>_.
           andThen (saving (protocol_key (pr_key p) ''failed_since'') []) (\<lambda>_.
           andThen (saving (protocol_key (pr_key p) ''ping_ms'') []) (\<lambda>_. ret None)))
       | (Some n, Some k) \<Rightarrow> ret (if current_ip = [] then None else Some (probe_of k current_ip n))
       | _ \<Rightarrow> ret None)"

definition ping_text :: "int option \<Rightarrow> string" where
  "ping_text ping = (case ping of None \<Rightarrow> [] | Some n \<Rightarrow> if n = 0 then [] else int_str n)"

definition book_status :: "string \<Rightarrow> string \<Rightarrow> string \<Rightarrow> int option \<Rightarrow> unit io" where
  "book_status key status checked_at ping =
     (if status = ''UNKNOWN'' then saving (protocol_key key ''ping_ms'') []
      else if status \<in> {''VERIFIED'', ''SERVICE_ACTIVE'', ''TCP_REACHABLE'', ''UDP_PACKET_SENT''} then
        andThen (saving (protocol_key key ''last_ok_at'') checked_at) (\<lambda>_.
        andThen (saving (protocol_key key ''failed_since'') []) (\<lambda>_.
        saving (protocol_key key ''ping_ms'') (ping_text ping)))
      else
        andThen (reading (\<lambda>cfg d. setting d (protocol_key key ''failed_since''))) (\<lambda>since.
        andThen (onlyIf (since = []) (saving (protocol_key key ''failed_since'') checked_at)) (\<lambda>_.
        saving (protocol_key key ''ping_ms'') [])))"

definition refresh_row ::
  "deep_results \<Rightarrow> string \<Rightarrow> protocol_row \<times> (bool \<times> int option) option \<Rightarrow> protocol_status list io" where
  "refresh_row deep checked_at pp =
     (case pp of (p, result) \<Rightarrow>
        andThen (reading_result (pr_port p)) (\<lambda>port.
          case port of
            None \<Rightarrow> ret []
          | Some n \<Rightarrow>
              (let status = compute_status p (map_option fst result) (map_of deep (pr_key p)) in
               andThen (saving (protocol_key (pr_key p) ''last_checked_at'') checked_at) (\<lambda>_.
               andThen (book_status (pr_key p) status checked_at (case result of None \<Rightarrow> None | Some r \<Rightarrow> snd r)) (\<lambda>_.
               andThen (saving (protocol_key (pr_key p) ''status'') status) (\<lambda>_.
               reading (\<lambda>cfg d. [status_dict p n status d])))))))"

definition refresh_protocol_statuses :: "string \<Rightarrow> protocol_status list io" where
  "refresh_protocol_statuses current_ip =
     andThen time_now (\<lambda>now.
     andThen (run_deep_checks current_ip) (\<lambda>deep.
     andThen (each (probe_task current_ip) protocols) (\<lambda>tasks.
     andThen (each gathered tasks) (\<lambda>results.
     andThen (each (refresh_row deep (iso_text (iso now))) (zip protocols results)) (\<lambda>rows.
       ret (concat rows))))))"

text \<open>The network observations alone, kept under keys of their own.\<close>

definition transport_status :: "protocol_row \<Rightarrow> (bool \<times> int option) option \<Rightarrow> string" where
  "transport_status p result =
     (case result of
        None \<Rightarrow> ''UNKNOWN''
      | Some (ok, _) \<Rightarrow>
          if ok then (if pr_udp p then ''UDP_PACKET_SENT'' else ''TCP_REACHABLE'') else ''FAILED'')"

definition transport_task :: "string \<Rightarrow> protocol_row \<Rightarrow> (protocol_row \<times> int \<times> probe_kind) list io" where
  "transport_task current_ip p =
     andThen (reading_result (pr_port p)) (\<lambda>port.
       ret (case (port, pr_probe p) of
          (Some n, Some k) \<Rightarrow> if current_ip = [] then [] else [(p, n, k)]
        | _ \<Rightarrow> []))"

definition transport_row ::
  "string \<Rightarrow> (protocol_row \<times> int \<times> probe_kind) \<times> (bool \<times> int option) option \<Rightarrow> (string \<times> string \<times> int option) io" where
  "transport_row checked_at tp =
     (case tp of ((p, n, k), result) \<Rightarrow>
        (let key = (\<lambda>field. protocol_key (pr_key p) (''transport_'' @ field));
             status = transport_status p result;
             ping = (case result of Some (True, latency) \<Rightarrow> latency | _ \<Rightarrow> None)
         in andThen (saving (key ''status'') status) (\<lambda>_.
            andThen (saving (key ''last_checked_at'') checked_at) (\<lambda>_.
            andThen
              (if status \<in> {''TCP_REACHABLE'', ''UDP_PACKET_SENT''} then
                 andThen (saving (key ''last_ok_at'') checked_at) (\<lambda>_. saving (key ''failed_since'') [])
               else if status = ''FAILED'' then
                 andThen (reading (\<lambda>cfg d. setting d (key ''failed_since''))) (\<lambda>since.
                   onlyIf (since = []) (saving (key ''failed_since'') checked_at))
               else skip) (\<lambda>_.
            andThen (saving (key ''ping_ms'') (ping_text ping)) (\<lambda>_. ret (pr_key p, status, ping)))))))"

definition refresh_transport_protocol_statuses :: "string \<Rightarrow> (string \<times> string \<times> int option) list io" where
  "refresh_transport_protocol_statuses current_ip =
     andThen time_now (\<lambda>now.
     andThen (each (transport_task current_ip) protocols) (\<lambda>scheduled.
     andThen (each (\<lambda>(p, n, k). gathered (Some (probe_of k current_ip n))) (concat scheduled)) (\<lambda>results.
     each (transport_row (iso_text (iso now))) (zip (concat scheduled) results))))"

end
