(* ===== verification/IpChange.thy ===== *)
theory IpChange
  imports Checks
begin

text \<open>
  \<open>app/ip_change.py\<close>: the Aeza rotation of the public IPv4.  The \<open>try\<close> of \<open>run_ip_change\<close> is cut
  where \<open>make_main_started\<close> becomes true, since that decides whether its handler restores the old
  main address; the handler always re-raises.
\<close>

section \<open>Timing and errors\<close>

record rotation_timing =
  rt_after_purchase_delay :: int
  rt_ip_appear_timeout :: int
  rt_ip_appear_interval :: int
  rt_ssh_timeout :: int
  rt_ssh_interval :: int

text \<open>
  The four provider and command timeouts only bound a call; that a call ran into one is an answer of
  the environment.  Reading them can still fail, in this order.
\<close>

definition configured_timing :: "config \<Rightarrow> db \<Rightarrow> exn + rotation_timing" where
  "configured_timing cfg d =
     bind_result (config_int cfg d ''server_status_timeout_seconds'' 15) (\<lambda>_.
     bind_result (config_int cfg d ''aeza_ipv4_after_purchase_delay_seconds'' 120) (\<lambda>delay.
     bind_result (config_int cfg d ''server_ssh_probe_timeout_seconds'' 5) (\<lambda>_.
     bind_result (config_int cfg d ''server_command_timeout_seconds'' 30) (\<lambda>_.
       Inr \<lparr>rt_after_purchase_delay = delay, rt_ip_appear_timeout = c_ip_appear_timeout_seconds cfg,
            rt_ip_appear_interval = c_ip_appear_interval_seconds cfg,
            rt_ssh_timeout = c_healthcheck_timeout_seconds cfg,
            rt_ssh_interval = c_healthcheck_interval_seconds cfg\<rparr>))))"

definition clean_text :: "nat \<Rightarrow> string \<Rightarrow> string" where
  "clean_text limit s = py_take limit (py_strip (sub_all control_run (\<lambda>_. '' '') s))"

definition safe_error :: "ssh_credentials option \<Rightarrow> exn \<Rightarrow> config \<Rightarrow> db \<Rightarrow> string" where
  "safe_error creds x cfg d =
     (let text = clean_text 1000 (exn_text x) in
      sanitize_error [py_strip (aeza_token cfg d), eu_ssh_password creds cfg d] 1000
        (if text = [] then exn_class x else text))"

section \<open>Choosing addresses\<close>

definition is_main_mismatch :: exn where
  "is_main_mismatch = IpChangeError (''Aeza main IPv4 does not match the published current_ip; '' @
     ''manual reconciliation is required'')"

definition find_main_ip :: "ipv4 list \<Rightarrow> string \<Rightarrow> exn + ipv4" where
  "find_main_ip ips current_ip =
     (case List.find ai_main ips of
        Some a \<Rightarrow> if current_ip \<noteq> [] \<and> ai_ip a \<noteq> current_ip then Inl is_main_mismatch else Inr a
      | None \<Rightarrow>
          (case List.find (\<lambda>a. current_ip \<noteq> [] \<and> ai_ip a = current_ip) ips of
             Some a \<Rightarrow> Inr a
           | None \<Rightarrow> Inl (IpChangeError ''Cannot find current main IPv4'')))"

definition find_new_ip ::
  "string \<Rightarrow> string \<Rightarrow> ipv4 \<Rightarrow> string list \<Rightarrow> string list \<Rightarrow> ipv4 list \<Rightarrow> ipv4 option" where
  "find_new_ip old_id old_ip created known_ids known_addresses ips =
     (if ai_id created \<noteq> [] then List.find (\<lambda>a. ai_id a = ai_id created) ips
      else if ai_ip created \<noteq> [] \<and> ai_ip created \<notin> set known_addresses then
        List.find (\<lambda>a. ai_ip a = ai_ip created) ips
      else
        (case filter (\<lambda>a. ai_id a \<noteq> old_id \<and> ai_ip a \<noteq> old_ip \<and> ai_id a \<notin> set known_ids \<and>
                       ai_ip a \<notin> set known_addresses) ips of
           [a] \<Rightarrow> Some a
         | _ \<Rightarrow> None))"

section \<open>Steps\<close>

definition update_ip :: "int \<Rightarrow> (ts \<Rightarrow> ip_field list) \<Rightarrow> unit io" where
  "update_ip oid fs = store (\<lambda>e now d. update_operation now oid (fs (iso now)) d)"

definition ip_step :: "int \<Rightarrow> string \<Rightarrow> ip_field list \<Rightarrow> unit io" where
  "ip_step oid step fs =
     andThen (update_ip oid (\<lambda>_. IpStatus Running # IpStep step # fs)) (\<lambda>_. pause Yield)"

definition ensure_bound_revision_current :: "int \<Rightarrow> unit io" where
  "ensure_bound_revision_current revn =
     query (\<lambda>e d. if desired_revision (vpn_state d) \<noteq> revn then
         Inl (IpChangeError (''VPN configuration changed during IP rotation; the bound operation '' @
           ''must be retried from the new desired revision''))
       else Inr ())"

definition list_ipv4 :: "aeza_client \<Rightarrow> string \<Rightarrow> ipv4 list io" where
  "list_ipv4 client service =
     andThen (aeza_request_io client service ListIpv4) (\<lambda>v.
       with_env (\<lambda>e. ret (normalize_ipv4_list (en_repr e) v)))"

definition wait_for_new_ip ::
  "rotation_timing \<Rightarrow> aeza_client \<Rightarrow> string \<Rightarrow> (ipv4 list \<Rightarrow> ipv4 option) \<Rightarrow> ipv4 io" where
  "wait_for_new_ip tm client service pick =
     poll (attempts_floor (rt_ip_appear_timeout tm) (rt_ip_appear_interval tm))
       (andThen (list_ipv4 client service) (\<lambda>ips. ret (case pick ips of
            Some a \<Rightarrow> if ai_id a \<noteq> [] \<and> ai_ip a \<noteq> [] then Some a else None
          | None \<Rightarrow> None)))
       (sleeper (rt_ip_appear_interval tm))
       (IpChangeError ''New IPv4 did not appear in Aeza list before timeout'')"

definition wait_for_main_ip :: "rotation_timing \<Rightarrow> aeza_client \<Rightarrow> string \<Rightarrow> string \<Rightarrow> string \<Rightarrow> unit io" where
  "wait_for_main_ip tm client service new_id new_ip =
     poll (attempts_floor (rt_ip_appear_timeout tm) (rt_ip_appear_interval tm))
       (andThen (list_ipv4 client service) (\<lambda>ips. ret
          (if list_ex (\<lambda>a. ai_main a \<and> ai_id a = new_id \<and> ai_ip a = new_ip) ips then Some () else None)))
       (sleeper (rt_ip_appear_interval tm))
       (IpChangeError ''Aeza did not confirm the new IPv4 as main before timeout'')"

definition wait_for_ssh :: "ssh_credentials option \<Rightarrow> rotation_timing \<Rightarrow> string \<Rightarrow> unit io" where
  "wait_for_ssh creds tm host =
     poll (attempts_floor (rt_ssh_timeout tm) (rt_ssh_interval tm))
       (andThen (reading_result (eu_ssh_port creds)) (\<lambda>port.
        andThen (tcp_check host port) (\<lambda>up. ret (if up then Some () else None))))
       (sleeper (rt_ssh_interval tm))
       (IpChangeError ''SSH did not become reachable on the new IPv4 before timeout'')"

section \<open>Verification and application\<close>

definition protocol_health_payload :: "deep_results \<Rightarrow> bool \<Rightarrow> string" where
  "protocol_health_payload results amnezia_enabled =
     (let payload = map (\<lambda>(k, r). (k, JStr (if verified r then ''VERIFIED'' else ''FAILED'')))
                      (filter (\<lambda>(k, r). k \<noteq> ''amnezia'') results)
      in dumps (JObj (if amnezia_enabled then dict_put ''amnezia'' (JStr ''NEW_ENDPOINT_NOT_VERIFIED'') payload
                      else payload)))"

definition required_checks :: "captured_config \<Rightarrow> (string \<times> string) list" where
  "required_checks c =
     (if pc_enabled (vl_protocol (cc_vless c)) then [(''vless'', ''VLESS'')] else []) @
     (if pc_enabled (hy_protocol (cc_hysteria c)) then [(''hysteria_salamander'', ''Hysteria'')] else [])"

definition failed_checks :: "captured_config \<Rightarrow> deep_results \<Rightarrow> string list" where
  "failed_checks c results =
     map snd (filter (\<lambda>(k, label). case map_of results k of None \<Rightarrow> True | Some r \<Rightarrow> \<not> verified r)
       (required_checks c))"

definition verify_protocol_health :: "string \<Rightarrow> captured_config \<Rightarrow> string io" where
  "verify_protocol_health host c =
     andThen (run_deep_checks_of c host) (\<lambda>results.
       if failed_checks c results \<noteq> [] then
         throw (IpChangeError (''New-endpoint protocol verification failed: '' @ join '', '' (failed_checks c results)))
       else ret (protocol_health_payload results (pc_enabled (am_protocol (cc_amnezia c)))))"

text \<open>The apply script is built (and can be refused) before it is sent.\<close>

definition apply_bound_snapshot :: "int \<Rightarrow> string \<Rightarrow> captured_config \<Rightarrow> unit io" where
  "apply_bound_snapshot oid host c =
     andThen (ip_step oid ''sync_vpn_after_ip_change'' [IpAction Applying, IpApply PhRunning]) (\<lambda>_.
     andThen (with_env (\<lambda>e. lift (write_artifacts (en_unicode_other e) (en_config e) c))) (\<lambda>_.
     andThen
       (catch (run_script host (ConfigApply c)) (\<lambda>x.
          andThen (update_ip oid (\<lambda>_. [IpAction IpAmbiguous, IpApply PhAmbiguous])) (\<lambda>_. throw x))) (\<lambda>(code, output).
       if code \<noteq> 0 then
         andThen (update_ip oid (\<lambda>_. [IpAction ApplyFailed, IpApply PhFailed])) (\<lambda>_.
           throw (IpChangeError (''Transactional VPN apply failed with exit code '' @ int_str code)))
       else update_ip oid (\<lambda>t. [IpAction Applied, IpApply PhApplied, IpApplyCompletedAt t]))))"

definition rollback_old_main :: "int \<Rightarrow> aeza_client \<Rightarrow> string \<Rightarrow> string \<Rightarrow> string io" where
  "rollback_old_main oid client service old_id =
     andThen (update_ip oid (\<lambda>_. [IpAction RollingBack, IpRollback ''SENDING''])) (\<lambda>_.
     andThen
       (catch (andThen (aeza_request_io client service (MakeMain old_id)) (\<lambda>_. ret None))
          (\<lambda>x. andThen (reading (safe_error None x)) (\<lambda>text.
             let outcome = ''AMBIGUOUS: '' @ text in
             andThen (update_ip oid (\<lambda>_. [IpAction IpAmbiguous, IpRollback outcome])) (\<lambda>_. ret (Some outcome)))))
       (\<lambda>doubt. case doubt of
          Some outcome \<Rightarrow> ret outcome
        | None \<Rightarrow>
            andThen (update_ip oid (\<lambda>_. [IpAction RolledBack, IpRollback ''RESTORED_OLD_MAIN''])) (\<lambda>_.
              ret ''RESTORED_OLD_MAIN'')))"

section \<open>The rotation\<close>

record old_address =
  oa_id :: string
  oa_ip :: string
  oa_known_ids :: "string list"
  oa_known_addresses :: "string list"

definition find_old_address :: "int \<Rightarrow> aeza_client \<Rightarrow> string \<Rightarrow> captured_config \<Rightarrow> old_address io" where
  "find_old_address oid client service c =
     andThen (onlyIf (service = []) (throw (IpChangeError ''AEZA_SERVICE_ID is not configured''))) (\<lambda>_.
     andThen (ensure_bound_revision_current (cc_revision c)) (\<lambda>_.
     andThen (ip_step oid ''get_ipv4_list'' []) (\<lambda>_.
     andThen (list_ipv4 client service) (\<lambda>ips.
     andThen (ip_step oid ''find_current_main_ip'' []) (\<lambda>_.
     andThen (lift (find_main_ip ips (cc_current_ip c))) (\<lambda>main.
     andThen (update_ip oid (\<lambda>_. [IpOldIp (ai_ip main), IpOldIpId (ai_id main)])) (\<lambda>_.
       ret \<lparr>oa_id = ai_id main, oa_ip = ai_ip main, oa_known_ids = map ai_id ips,
            oa_known_addresses = map ai_ip ips\<rparr>)))))))"

definition request_address :: "int \<Rightarrow> aeza_client \<Rightarrow> string \<Rightarrow> ipv4 io" where
  "request_address oid client service =
     catch
       (andThen (reading (\<lambda>cfg d. config_value cfg d ''aeza_ipv4_payment_method'' ''balance'')) (\<lambda>payment.
        andThen (reading (\<lambda>cfg d. config_value cfg d ''aeza_ipv4_domain'' [])) (\<lambda>domain.
        andThen (aeza_request_io client service (AddIpv4 payment domain)) (\<lambda>v.
          with_env (\<lambda>e. ret (normalize_ipv4 (en_repr e) v))))))
       (\<lambda>x. andThen (update_ip oid (\<lambda>_. [IpAction IpAmbiguous, IpPurchase PhAmbiguous])) (\<lambda>_. throw x))"

definition confirm_purchase ::
  "int \<Rightarrow> rotation_timing \<Rightarrow> aeza_client \<Rightarrow> string \<Rightarrow> captured_config \<Rightarrow> old_address \<Rightarrow> ipv4 \<Rightarrow> ipv4 io" where
  "confirm_purchase oid tm client service c old created =
     andThen (update_ip oid (\<lambda>_. [IpAction PurchaseSent, IpPurchase PhSent])) (\<lambda>_.
     andThen (ip_step oid ''wait_after_ipv4_purchase'' []) (\<lambda>_.
     andThen (sleeper (rt_after_purchase_delay tm)) (\<lambda>_.
     andThen (ip_step oid ''wait_new_ipv4'' []) (\<lambda>_.
     andThen (wait_for_new_ip tm client service
        (find_new_ip (oa_id old) (oa_ip old) created (oa_known_ids old) (oa_known_addresses old))) (\<lambda>new.
     andThen (update_ip oid (\<lambda>t. [IpNewIp (ai_ip new), IpNewIpId (ai_id new), IpAction PurchaseConfirmed,
        IpPurchase PhConfirmed, IpNewIpCreatedAt t])) (\<lambda>_.
     andThen (ensure_bound_revision_current (cc_revision c)) (\<lambda>_.
       ret new)))))))"

definition buy_address ::
  "int \<Rightarrow> rotation_timing \<Rightarrow> aeza_client \<Rightarrow> string \<Rightarrow> captured_config \<Rightarrow> old_address \<Rightarrow> ipv4 io" where
  "buy_address oid tm client service c old =
     andThen (ensure_bound_revision_current (cc_revision c)) (\<lambda>_.
     andThen (ip_step oid ''create_new_ipv4'' [IpAction PurchaseSending, IpPurchase PhSending]) (\<lambda>_.
     andThen (request_address oid client service) (\<lambda>created.
       confirm_purchase oid tm client service c old created)))"

definition switch_main :: "int \<Rightarrow> rotation_timing \<Rightarrow> aeza_client \<Rightarrow> string \<Rightarrow> ipv4 \<Rightarrow> unit io" where
  "switch_main oid tm client service new =
     andThen (ip_step oid ''make_new_ipv4_main'' [IpAction MakeMainSending, IpMakeMain PhSending]) (\<lambda>_.
     andThen
       (catch (andThen (aeza_request_io client service (MakeMain (ai_id new))) (\<lambda>_. skip)) (\<lambda>x.
          andThen (update_ip oid (\<lambda>_. [IpAction IpAmbiguous, IpMakeMain PhAmbiguous])) (\<lambda>_. throw x))) (\<lambda>_.
     andThen (update_ip oid (\<lambda>t. [IpAction MainChanged, IpMakeMain PhSent, IpNewMainAt t])) (\<lambda>_.
     andThen (ip_step oid ''confirm_new_ipv4_main'' []) (\<lambda>_.
     andThen (wait_for_main_ip tm client service (ai_id new) (ai_ip new)) (\<lambda>_.
     andThen (update_ip oid (\<lambda>_. [IpAction MainConfirmed, IpMakeMain PhConfirmed])) (\<lambda>_.
     andThen (ip_step oid ''wait_ssh'' []) (\<lambda>_.
     andThen (wait_for_ssh None tm (ai_ip new)) (\<lambda>_.
       update_ip oid (\<lambda>t. [IpServerReachableAt t])))))))))"

definition apply_and_publish :: "int \<Rightarrow> captured_config \<Rightarrow> string \<Rightarrow> int io" where
  "apply_and_publish oid c new_ip =
     andThen (ensure_bound_revision_current (cc_revision c)) (\<lambda>_.
     andThen (apply_bound_snapshot oid new_ip c) (\<lambda>_.
     andThen (ensure_bound_revision_current (cc_revision c)) (\<lambda>_.
     andThen (ip_step oid ''protocol_health'' []) (\<lambda>_.
     andThen (verify_protocol_health new_ip c) (\<lambda>health.
     andThen (ensure_bound_revision_current (cc_revision c)) (\<lambda>_.
     andThen (ip_step oid ''update_current_ip'' []) (\<lambda>_.
       transact (\<lambda>e now d. publish_ip_change (en_sha e) now oid new_ip health None None d))))))))"

definition preserved_warning :: string where
  "preserved_warning =
     ''Old Aeza IPv4 was preserved because AutoVPN has no real '' @
     ''AmneziaWG probe through the new public endpoint; verify a client '' @
     ''handshake manually before cleanup''"

definition delete_warning :: "string \<Rightarrow> string \<Rightarrow> string" where
  "delete_warning old_id text =
     ''New IPv4 was safely published, but the Aeza old-IPv4 DELETE '' @
     ''outcome is ambiguous; check Aeza before any further cleanup '' @
     ''('' @ old_id @ ''): '' @ text"

text \<open>The clean-up warning, and whether the deletion is in doubt.\<close>

definition delete_old_address :: "int \<Rightarrow> aeza_client \<Rightarrow> string \<Rightarrow> string \<Rightarrow> (string \<times> bool) io" where
  "delete_old_address oid client service old_id =
     catch
       (andThen (ip_step oid ''delete_old_ipv4'' [IpAction CleanupSending]) (\<lambda>_.
        andThen (aeza_request_io client service (DeleteIpv4 old_id)) (\<lambda>_.
        andThen (update_ip oid (\<lambda>_. [IpAction CleanupConfirmed])) (\<lambda>_. ret ([], False)))))
       (\<lambda>x. andThen (reading (safe_error None x)) (\<lambda>text.
          andThen (update_ip oid (\<lambda>_. [IpAction CleanupAmbiguous])) (\<lambda>_.
            ret (delete_warning old_id text, True))))"

definition finish_rotation :: "int \<Rightarrow> aeza_client \<Rightarrow> string \<Rightarrow> captured_config \<Rightarrow> string \<Rightarrow> int \<Rightarrow> unit io" where
  "finish_rotation oid client service c old_id published =
     (let awg = pc_enabled (am_protocol (cc_amnezia c)) in
      andThen
        (if awg then andThen (saving ''last_healthcheck_status'' ''WARNING'') (\<lambda>_. ret (preserved_warning, False))
         else delete_old_address oid client service old_id) (\<lambda>(warning, ambiguous).
      update_ip oid (\<lambda>_.
        [IpStatus Done, IpStep (if awg then ''manual_verification_required'' else ''done''),
         IpAction (if awg then AwaitingAwgCheck else if ambiguous then CleanupAmbiguous else IpDone),
         IpPublishedRevision published, IpCleanupWarning warning, IpError []])))"

text \<open>The handler: \<open>restore\<close> is the old address when the new one may have become the main one.\<close>

definition fail_rotation :: "int \<Rightarrow> aeza_client \<Rightarrow> string \<Rightarrow> string option \<Rightarrow> exn \<Rightarrow> 'a io" where
  "fail_rotation oid client service restore x =
     andThen (case restore of
         None \<Rightarrow> ret []
       | Some old_id \<Rightarrow> if old_id = [] then ret [] else rollback_old_main oid client service old_id) (\<lambda>outcome.
     andThen (reading (\<lambda>cfg d. map_option ip_action_state (get_operation oid d))) (\<lambda>current.
       let ambiguous = current = Some IpAmbiguous \<or> current \<noteq> None \<and> starts_with ''AMBIGUOUS'' outcome in
       andThen (reading (safe_error None x)) (\<lambda>text.
       andThen (update_ip oid (\<lambda>_.
         [IpStatus (if ambiguous then Ambiguous else Failed),
          IpStep (if ambiguous then ''manual_verification_required'' else ''failed''),
          IpAction (if ambiguous then IpAmbiguous else IpFailed), IpError text])) (\<lambda>_.
       andThen (saving ''last_healthcheck_status'' ''FAILED'') (\<lambda>_. throw x)))))"

definition rotate :: "int \<Rightarrow> rotation_timing \<Rightarrow> aeza_client \<Rightarrow> string \<Rightarrow> captured_config \<Rightarrow> unit io" where
  "rotate oid tm client service c =
     andThen
       (catch
         (andThen (find_old_address oid client service c) (\<lambda>old.
          andThen (buy_address oid tm client service c old) (\<lambda>new. ret (old, new))))
         (fail_rotation oid client service None)) (\<lambda>(old, new).
     catch
       (andThen (switch_main oid tm client service new) (\<lambda>_.
        andThen (apply_and_publish oid c (ai_ip new)) (\<lambda>published.
        finish_rotation oid client service c (oa_id old) published)))
       (fail_rotation oid client service (Some (oa_id old))))"

definition interrupted_message :: string where
  "interrupted_message =
     ''Interrupted IP rotation may already have changed Aeza or the VPS; '' @
     ''automatic external actions were not resent''"

definition run_aeza_ip_change :: "int \<Rightarrow> unit io" where
  "run_aeza_ip_change oid =
     andThen (reading_result configured_timing) (\<lambda>tm.
     andThen (query (\<lambda>e d. load_ip_change_snapshot oid d)) (\<lambda>(r, c).
       if terminal (ip_status r) then skip
       else if ip_purchase_state r \<noteq> NotStarted \<or> ip_make_main_state r \<noteq> NotStarted \<or> ip_apply_state r \<noteq> NotStarted then
         update_ip oid (\<lambda>_. [IpStatus Ambiguous, IpStep ''manual_verification_required'', IpAction IpAmbiguous,
           IpError interrupted_message])
       else
         andThen new_aeza_client (\<lambda>client.
         andThen (reading aeza_service_id) (\<lambda>service.
           rotate oid tm client service c))))"

section \<open>What every step of the rotation keeps\<close>

text \<open>\<open>every_row oid p\<close>: the row of the operation, if it is there, satisfies \<open>p\<close>.\<close>

definition every_row :: "int \<Rightarrow> (ip_row \<Rightarrow> bool) \<Rightarrow> db \<Rightarrow> bool" where
  "every_row oid p d \<longleftrightarrow> (\<forall>r \<in> set (ip_ops d). ip_id r = oid \<longrightarrow> p r)"

lemma every_row_same: "ip_ops d' = ip_ops d \<Longrightarrow> every_row oid p d' = every_row oid p d"
  by (simp add: every_row_def)

lemma every_row_update_where:
  assumes "every_row oid p d" and "\<And>r. p r \<Longrightarrow> q (f r)"
    and "ip_ops d' = update_where (\<lambda>r. ip_id r = oid) f (ip_ops d)" and "\<And>r. ip_id (f r) = ip_id r"
  shows "every_row oid q d'"
  unfolding every_row_def
proof (intro ballI impI)
  fix r' assume "r' \<in> set (ip_ops d')" and id: "ip_id r' = oid"
  then obtain r where "r \<in> set (ip_ops d)" and r': "r' = (if ip_id r = oid then f r else r)"
    by (auto simp: assms(3) set_update_where)
  moreover from r' id assms(4) have "ip_id r = oid" by (simp split: if_splits)
  ultimately show "q r'" using assms(1,2) by (simp add: every_row_def)
qed

lemma every_row_update:
  assumes "every_row oid p d" and "fs \<noteq> []" and "\<And>r. p r \<Longrightarrow> q ((set_ip_fields fs r)\<lparr>ip_updated_at := iso now\<rparr>)"
  shows "every_row oid q (update_operation now oid fs d)"
  using assms(1,3)
  by (rule every_row_update_where) (simp_all add: update_operation_ops assms(2))

lemma set_setting_ip_ops [simp]: "ip_ops (set_setting now k v d) = ip_ops d"
  by (simp add: set_setting_def Let_def frame_simps)

lemma publish_ip_ops:
  assumes "publish_ip_change sha now oid ip health box key d = Inr (n, d')"
  shows "\<exists>b. ip_ops d' = update_where (\<lambda>r. ip_id r = oid) (published_op now b health) (ip_ops d)"
proof -
  obtain bound c d1 where ins: "insert_snapshot (published_row sha c ip now bound) d = Inr d1"
    and d': "d' = set_ip_row oid (published_op now bound health)
      (snd (purge_applied_deleted_clients
        ((put_settings (published_settings ip (iso now) box key) (mark_applied bound (iso now) d1))
          \<lparr>vpn_state := published_state now bound\<rparr>)))"
    using assms by (rule publish_cases)
  then have "ip_ops d' = update_where (\<lambda>r. ip_id r = oid) (published_op now bound health) (ip_ops d)"
    by (simp add: set_ip_row_def frame_simps mark_applied_def insert_snapshot_Inr(2) [OF ins])
  then show ?thesis by blast
qed

lemma every_row_publish:
  assumes "publish_ip_change sha now oid ip health box key d = Inr (n, d')" and "every_row oid p d"
    and "\<And>b r. p r \<Longrightarrow> q (published_op now b health r)"
  shows "every_row oid q d'"
proof -
  obtain b where "ip_ops d' = update_where (\<lambda>r. ip_id r = oid) (published_op now b health) (ip_ops d)"
    using publish_ip_ops [OF assms(1)] by blast
  with assms(2,3) show ?thesis by (rule every_row_update_where) simp_all
qed

text \<open>The requests of certain kinds to a provider.\<close>

datatype provider_call = AezaCall aeza_call | BoxCall sprintbox_call

definition asks :: "(provider_call \<Rightarrow> bool) \<Rightarrow> event \<Rightarrow> bool" where
  "asks k v =
     (case v of
        AezaRequest base service c \<Rightarrow> k (AezaCall c)
      | SprintboxRequest c \<Rightarrow> k (BoxCall c)
      | _ \<Rightarrow> False)"

lemma asks_simps [simp]:
  "asks k (AezaRequest b s c) = k (AezaCall c)" "asks k (SprintboxRequest y) = k (BoxCall y)" "\<not> asks k (Sleep n)"
  "\<not> asks k Yield" "\<not> asks k (TcpProbe h i)" "\<not> asks k (UdpProbe h i)" "\<not> asks k (RunScript h x)"
  "\<not> asks k (AwaitScript h)" "\<not> asks k RandomNumber" "\<not> asks k RandomHex" "\<not> asks k (PrepareKey m)"
  "\<not> asks k (KeyFile m)"
  by (simp_all add: asks_def)

text \<open>
  What a rotation is watched for: a fact \<open>D\<close> about the database, which its row updates \<open>ok\<close>, its
  settings and its publication keep, and a fact \<open>R\<close> about its requests of the kinds \<open>k\<close>.
\<close>

definition guard :: "(db \<Rightarrow> bool) \<Rightarrow> (provider_call \<Rightarrow> bool) \<Rightarrow> (call list \<Rightarrow> bool) \<Rightarrow> run \<Rightarrow> bool" where
  "guard D k R = on (\<lambda>d l. D d \<and> R (calls_of (asks k) l))"

abbreviation watch :: "int \<Rightarrow> (ip_row \<Rightarrow> bool) \<Rightarrow> (provider_call \<Rightarrow> bool) \<Rightarrow> (call list \<Rightarrow> bool) \<Rightarrow> run \<Rightarrow> bool" where
  "watch oid p \<equiv> guard (every_row oid p)"

locale db_watch =
  fixes D :: "db \<Rightarrow> bool" and ok :: "ip_field \<Rightarrow> bool" and oid :: int
  assumes updated: "list_all ok fs \<Longrightarrow> D d \<Longrightarrow> D (update_operation now oid fs d)"
    and stored: "D d \<Longrightarrow> D (set_setting now key v d)"
    and published: "publish_ip_change sha now oid ip health box path d = Inr (n, d') \<Longrightarrow> D d \<Longrightarrow> D d'"
    and plain: "ok (IpStatus st)" "ok (IpStep m)" "ok (IpError m)" "ok (IpAction a)" "ok (IpMakeMain ph)"
      "ok (IpApply ph)" "ok (IpNewIp m)" "ok (IpNewIpId m)" "ok (IpServerReachableAt t)"
      "ok (IpNewIpCreatedAt t)" "ok (IpNewMainAt t)" "ok (IpApplyCompletedAt t)" "ok (IpRollback m)"
      "ok (IpCleanupWarning m)" "ok (IpPublishedRevision i)"
begin

lemma keeps_update:
  assumes "stable D e" and "\<And>t. list_all ok (fs t)"
  shows "keeps (guard D k R) (update_ip oid fs) e"
  unfolding guard_def update_ip_def using assms by (intro keeps_store steady_and) (simp_all add: updated)

lemma keeps_other [keeps_intros]:
  assumes "stable D e" and "\<not> asks k v"
  shows "keeps (guard D k R) (send v) e"
  unfolding guard_def using assms by (intro keeps_send steady_and) simp_all

lemma keeps_pause:
  assumes "stable D e" and "\<not> asks k v"
  shows "keeps (guard D k R) (pause v) e"
  unfolding pause_def using assms by (auto intro!: keeps_intros split: reply.split)

lemma keeps_watch_query: "stable D e \<Longrightarrow> keeps (guard D k R) (query f) e"
  unfolding guard_def by (intro keeps_query steady_and)

lemma keeps_watch_reading:
  assumes "stable D e"
  shows "keeps (guard D k R) (reading f) e" "keeps (guard D k R) (reading_result g) e"
  unfolding guard_def using assms by (intro keeps_reading steady_and, assumption)+

lemma keeps_saving:
  assumes "stable D e"
  shows "keeps (guard D k R) (saving key v) e"
  unfolding guard_def saving_def by (rule keeps_store [OF steady_and [OF assms]]) (simp add: stored)

lemma keeps_request:
  assumes "stable D e" and "\<not> k (AezaCall c)"
  shows "keeps (guard D k R) (aeza_request_io client service c) e"
  unfolding aeza_request_io_def using assms by (auto intro!: keeps_intros)

lemma keeps_script:
  assumes "stable D e"
  shows "keeps (guard D k R) (run_script host script) e"
  unfolding run_script_def using assms by (auto intro!: keeps_intros split: reply.split)

lemma keeps_check:
  assumes "stable D e"
  shows "keeps (guard D k R) (tcp_check host port) e"
  unfolding tcp_check_def tcp_probe_def probe_def using assms by (auto intro!: keeps_intros split: reply.split)

lemma keeps_step:
  assumes "stable D e" and "list_all ok fs"
  shows "keeps (guard D k R) (ip_step oid step fs) e"
  unfolding ip_step_def using assms by (auto intro!: keeps_intros keeps_update keeps_pause plain)

lemma keeps_publish:
  assumes "stable D e"
  shows "keeps (guard D k R) (transact (\<lambda>e now d. publish_ip_change (en_sha e) now oid ip health box key d)) e"
  unfolding guard_def using assms by (intro keeps_transact steady_and) (auto dest: published)

text \<open>A request of a watched kind.\<close>

lemma leads_request:
  assumes "stable D e" and "k (AezaCall c)" and "\<And>l. R l \<Longrightarrow> R' l"
    and "\<And>l d b s r. R l \<Longrightarrow> D d \<Longrightarrow> R' (l @ [\<lparr>c_event = AezaRequest b s c, c_reply = r, c_db = d\<rparr>])"
  shows "leads (guard D k R) (aeza_request_io client service c) (\<lambda>_. guard D k R') (guard D k R') e"
proof (cases "ac_token client = []")
  case True
  then show ?thesis
    using assms(3) by (intro leadsI) (auto simp: aeza_request_io_def throw_def guard_def on_def)
next
  case False
  have "leads (guard D k R) (send (AezaRequest (ac_base client) service c)) (\<lambda>_. guard D k R') (guard D k R') e"
  proof (rule leadsI)
    fix s r s' assume "guard D k R s" and s': "send (AezaRequest (ac_base client) service c) e s = (r, s')"
    then have d: "D (turn e s)" and R: "R (calls_of (asks k) (rn_log s))" and d0: "D (rn_db s)"
      using stable_turn [OF assms(1)] by (auto simp: guard_def on_def)
    with R s' assms(2) assms(3) [OF R] assms(4) [OF R d]
    show "case r of Returned x \<Rightarrow> guard D k R' s' | _ \<Rightarrow> guard D k R' s'"
      by (auto simp: send_def guard_def on_def Let_def split: if_splits outcome.split)
  qed
  then have "leads (guard D k R) (andThen (send (AezaRequest (ac_base client) service c))
      (\<lambda>r. lift (aeza_result r))) (\<lambda>_. guard D k R') (guard D k R') e"
    by (rule leads_andThen) (rule leads_keeps [OF keeps_lift])
  moreover have "leads (guard D k R) (lift (aeza_api_key (ac_token client))) (\<lambda>_. guard D k R) (guard D k R') e"
    by (rule leads_weaken [OF leads_keeps [where I = "guard D k R", OF keeps_lift]])
       (use assms(3) in \<open>auto simp: guard_def on_def\<close>)
  ultimately show ?thesis
    using False by (auto simp: aeza_request_io_def intro: leads_andThen)
qed

lemmas steps = keeps_intros keeps_update keeps_pause keeps_watch_query keeps_watch_reading keeps_saving
  keeps_request keeps_script keeps_check keeps_step keeps_publish plain

lemma keeps_list:
  assumes "stable D e" and "\<not> k (AezaCall ListIpv4)"
  shows "keeps (guard D k R) (list_ipv4 client service) e"
  unfolding list_ipv4_def using assms by (intro steps) auto

lemma keeps_ensure: "stable D e \<Longrightarrow> keeps (guard D k R) (ensure_bound_revision_current revn) e"
  unfolding ensure_bound_revision_current_def by (rule keeps_watch_query)

lemma keeps_waits:
  assumes "stable D e" and "\<not> k (AezaCall ListIpv4)"
  shows "keeps (guard D k R) (wait_for_new_ip tm client service pick) e"
    and "keeps (guard D k R) (wait_for_main_ip tm client service i a) e"
  unfolding wait_for_new_ip_def wait_for_main_ip_def sleeper_def
  using assms by (auto intro!: steps keeps_list)

lemma keeps_wait_ssh:
  assumes "stable D e"
  shows "keeps (guard D k R) (wait_for_ssh creds tm host) e"
  unfolding wait_for_ssh_def sleeper_def using assms by (auto intro!: steps)

lemma keeps_deep:
  assumes "stable D e"
  shows "keeps (guard D k R) (run_deep_checks_of c host) e"
  unfolding run_deep_checks_of_def deep_run_def using assms by (auto intro!: steps split: list.split)

lemma keeps_verify:
  assumes "stable D e"
  shows "keeps (guard D k R) (verify_protocol_health host c) e"
  unfolding verify_protocol_health_def using assms by (auto intro!: steps keeps_deep)

lemma keeps_apply:
  assumes "stable D e"
  shows "keeps (guard D k R) (apply_bound_snapshot oid host c) e"
  unfolding apply_bound_snapshot_def using assms by (auto intro!: steps)

lemma keeps_apply_and_publish:
  assumes "stable D e"
  shows "keeps (guard D k R) (apply_and_publish oid c ip) e"
  unfolding apply_and_publish_def using assms by (auto intro!: steps keeps_ensure keeps_apply keeps_verify)

lemma keeps_switch:
  assumes "stable D e" and "\<not> k (AezaCall ListIpv4)" and "\<not> k (AezaCall (MakeMain (ai_id new)))"
  shows "keeps (guard D k R) (switch_main oid tm client service new) e"
  unfolding switch_main_def using assms by (auto intro!: steps keeps_waits keeps_wait_ssh)

lemma keeps_finish:
  assumes "stable D e" and "\<not> k (AezaCall (DeleteIpv4 old))"
  shows "keeps (guard D k R) (finish_rotation oid client service c old n) e"
  unfolding finish_rotation_def delete_old_address_def Let_def using assms by (auto intro!: steps)

lemma keeps_finish_deleting:
  assumes "stable D e" and "keeps (guard D k R) (aeza_request_io client service (DeleteIpv4 old)) e"
  shows "keeps (guard D k R) (finish_rotation oid client service c old n) e"
  unfolding finish_rotation_def delete_old_address_def Let_def using assms by (auto intro!: steps)

lemma keeps_finish_preserving:
  assumes "stable D e" and "pc_enabled (am_protocol (cc_amnezia c))"
  shows "keeps (guard D k R) (finish_rotation oid client service c old n) e"
  unfolding finish_rotation_def Let_def using assms by (auto intro!: steps)

lemma keeps_rollback:
  assumes "stable D e" and "\<not> k (AezaCall (MakeMain old))"
  shows "keeps (guard D k R) (rollback_old_main oid client service old) e"
  unfolding rollback_old_main_def Let_def using assms by (auto intro!: steps)

lemma keeps_fail:
  assumes "stable D e" and "\<And>old. restore = Some old \<Longrightarrow> \<not> k (AezaCall (MakeMain old))"
  shows "keeps (guard D k R) (fail_rotation oid client service restore x) e"
  unfolding fail_rotation_def Let_def using assms by (auto intro!: steps keeps_rollback)

lemma keeps_find_old:
  assumes "stable D e" and "\<not> k (AezaCall ListIpv4)" and "\<And>m. ok (IpOldIp m)" and "\<And>m. ok (IpOldIpId m)"
  shows "keeps (guard D k R) (find_old_address oid client service c) e"
  unfolding find_old_address_def using assms by (auto intro!: steps keeps_ensure keeps_list)

lemma keeps_confirm:
  assumes "stable D e" and "\<not> k (AezaCall ListIpv4)" and "ok (IpPurchase PhSent)" and "ok (IpPurchase PhConfirmed)"
  shows "keeps (guard D k R) (confirm_purchase oid tm client service c old created) e"
  unfolding confirm_purchase_def sleeper_def using assms by (auto intro!: steps keeps_ensure keeps_waits)

lemma keeps_request_address:
  assumes "stable D e" and "\<And>a b. \<not> k (AezaCall (AddIpv4 a b))" and "ok (IpPurchase PhAmbiguous)"
  shows "keeps (guard D k R) (request_address oid client service) e"
  unfolding request_address_def using assms by (auto intro!: steps)

end

text \<open>A fact \<open>p\<close> about every row of the operation, which the updates \<open>ok\<close> keep.\<close>

locale row_watch =
  fixes p :: "ip_row \<Rightarrow> bool" and ok :: "ip_field \<Rightarrow> bool"
  assumes kept: "ok f \<Longrightarrow> p r \<Longrightarrow> p (set_ip_field f r)"
    and stamped: "p r \<Longrightarrow> p (r\<lparr>ip_updated_at := t\<rparr>)"
    and row_published: "p r \<Longrightarrow> p (published_op now b h r)"
    and row_plain: "ok (IpStatus st)" "ok (IpStep m)" "ok (IpError m)" "ok (IpAction a)" "ok (IpMakeMain ph)"
      "ok (IpApply ph)" "ok (IpNewIp m)" "ok (IpNewIpId m)" "ok (IpServerReachableAt t)"
      "ok (IpNewIpCreatedAt t)" "ok (IpNewMainAt t)" "ok (IpApplyCompletedAt t)" "ok (IpRollback m)"
      "ok (IpCleanupWarning m)" "ok (IpPublishedRevision i)"
begin

lemma kept_fields: "list_all ok fs \<Longrightarrow> p r \<Longrightarrow> p (set_ip_fields fs r)"
  unfolding set_ip_fields_def by (induction fs arbitrary: r) (auto intro: kept)

lemma rows_updated:
  assumes "list_all ok fs" and "every_row oid p d"
  shows "every_row oid p (update_operation now oid fs d)"
proof (cases "fs = []")
  case False
  with assms(2) show ?thesis by (rule every_row_update) (intro stamped kept_fields assms(1))
qed (simp add: update_operation_def assms(2))

end

sublocale row_watch < db_watch "every_row oid p" ok oid for oid
proof unfold_locales
  fix sha now ip health box path d n d'
  assume "publish_ip_change sha now oid ip health box path d = Inr (n, d')" "every_row oid p d"
  then show "every_row oid p d'" by (rule every_row_publish) (rule row_published)
qed (simp_all add: rows_updated row_plain, simp add: every_row_def)

text \<open>A property that spans the whole rotation is proved from the parts before and after the switch.\<close>

lemma keeps_rotate:
  assumes "\<And>r. keeps I (find_old_address oid client service c) e"
    and "\<And>old. keeps I (buy_address oid tm client service c old) e"
    and "\<And>restore x. keeps I (fail_rotation oid client service restore x :: (old_address \<times> ipv4) io) e"
    and "\<And>restore x. keeps I (fail_rotation oid client service restore x :: unit io) e"
    and "\<And>new. keeps I (switch_main oid tm client service new) e"
    and "\<And>ip. keeps I (apply_and_publish oid c ip) e"
    and "\<And>old n. keeps I (finish_rotation oid client service c old n) e"
  shows "keeps I (rotate oid tm client service c) e"
  unfolding rotate_def using assms by (auto intro!: keeps_intros)

lemma every_row_true [simp]: "every_row oid (\<lambda>r. True) d"
  by (simp add: every_row_def)

lemma stable_true [simp]: "stable (every_row oid (\<lambda>r. True)) e"
  by (simp add: stable_def)

interpretation row: row_watch "\<lambda>r. True" "\<lambda>f. True"
  by unfold_locales simp_all

interpretation claim: row_watch "\<lambda>r. ip_purchase_state r \<noteq> NotStarted" "\<lambda>f. f \<noteq> IpPurchase NotStarted"
proof unfold_locales
  fix f and r :: ip_row assume "f \<noteq> IpPurchase NotStarted" "ip_purchase_state r \<noteq> NotStarted"
  then show "ip_purchase_state (set_ip_field f r) \<noteq> NotStarted" by (cases f) auto
qed (simp_all add: published_op_def)

interpretation publication: row_watch "\<lambda>r. ip_published_revision r \<noteq> None" "\<lambda>f. True"
proof unfold_locales
  fix f and r :: ip_row assume "ip_published_revision r \<noteq> None"
  then show "ip_published_revision (set_ip_field f r) \<noteq> None" by (cases f) auto
qed (simp_all add: published_op_def)

section \<open>One purchase\<close>

fun is_purchase :: "provider_call \<Rightarrow> bool" where
  "is_purchase (AezaCall (AddIpv4 payment domain)) = True"
| "is_purchase (BoxCall (AddBox service distributive key label)) = True"
| "is_purchase c = False"

definition purchases :: "call list \<Rightarrow> call list" where
  "purchases l = calls_of (asks is_purchase) l"

text \<open>The operation has recorded that it may have bought an address.\<close>

definition claimed :: "int \<Rightarrow> db \<Rightarrow> bool" where
  "claimed oid = every_row oid (\<lambda>r. ip_purchase_state r \<noteq> NotStarted)"

lemma stable_claimed [simp]:
  "stable (claimed oid) e \<Longrightarrow> stable (every_row oid (\<lambda>r. ip_purchase_state r \<noteq> NotStarted)) e"
  by (simp add: claimed_def)

definition recorded_purchase :: "int \<Rightarrow> call list \<Rightarrow> bool" where
  "recorded_purchase oid l \<longleftrightarrow> length l \<le> 1 \<and> (\<forall>c \<in> set l. claimed oid (c_db c))"

abbreviation not_yet :: "int \<Rightarrow> run \<Rightarrow> bool" where
  "not_yet oid \<equiv> watch oid (\<lambda>r. True) is_purchase (\<lambda>l. l = [])"

abbreviation ready :: "int \<Rightarrow> run \<Rightarrow> bool" where
  "ready oid \<equiv> watch oid (\<lambda>r. ip_purchase_state r \<noteq> NotStarted) is_purchase (\<lambda>l. l = [])"

abbreviation bought :: "int \<Rightarrow> run \<Rightarrow> bool" where
  "bought oid \<equiv> watch oid (\<lambda>r. ip_purchase_state r \<noteq> NotStarted) is_purchase (recorded_purchase oid)"

definition bought_once :: "int \<Rightarrow> run \<Rightarrow> bool" where
  "bought_once oid s \<longleftrightarrow> not_yet oid s \<or> bought oid s"

lemma ready_not_yet: "ready oid s \<Longrightarrow> not_yet oid s"
  by (auto simp: guard_def on_def every_row_def)

lemma ready_bought: "ready oid s \<Longrightarrow> bought oid s"
  by (auto simp: guard_def on_def recorded_purchase_def)

lemma keeps_bought_onceI:
  "keeps (not_yet oid) m e \<Longrightarrow> keeps (bought oid) m e \<Longrightarrow> keeps (bought_once oid) m e"
  unfolding bought_once_def by (rule keeps_disj)

lemma leads_claim:
  "leads (not_yet oid) (ip_step oid step (IpAction a # IpPurchase PhSending # [])) (\<lambda>_. ready oid) (bought_once oid) e"
  if "stable (claimed oid) e"
proof -
  have claim: "every_row oid (\<lambda>r. ip_purchase_state r \<noteq> NotStarted)
      (update_operation now oid [IpStatus Running, IpStep step, IpAction a, IpPurchase PhSending] d)" for now d
    by (rule every_row_update [where p = "\<lambda>_. True"]) (simp_all add: every_row_def set_ip_fields_def)
  have "leads (not_yet oid)
      (update_ip oid (\<lambda>_. [IpStatus Running, IpStep step, IpAction a, IpPurchase PhSending])) (\<lambda>_. ready oid) (bought_once oid) e"
    by (rule leadsI)
       (auto simp: update_ip_def store_def transact_def guard_def on_def claim bought_once_def split: if_splits)
  moreover have "leads (ready oid) (pause Yield) (\<lambda>_. ready oid) (bought_once oid) e"
    by (rule leads_weaken [OF leads_keeps [OF claim.keeps_pause]])
       (use that in \<open>auto simp: claimed_def bought_once_def dest: ready_bought\<close>)
  ultimately show ?thesis
    unfolding ip_step_def by (rule leads_andThen)
qed

lemma leads_purchase:
  assumes "stable (claimed oid) e"
  shows "leads (ready oid) (aeza_request_io client service (AddIpv4 a b)) (\<lambda>_. bought oid) (bought oid) e"
  using assms
  by (intro claim.leads_request) (auto simp: claimed_def recorded_purchase_def)

lemma leads_request_address:
  assumes "stable (claimed oid) e"
  shows "leads (ready oid) (request_address oid client service) (\<lambda>_. bought oid) (bought oid) e"
  unfolding request_address_def
proof (rule leads_catch)
  have read: "leads (ready oid) (reading f) (\<lambda>_. ready oid) (bought oid) e" for f :: "config \<Rightarrow> db \<Rightarrow> string"
    by (rule leads_weaken [OF leads_keeps [where I = "ready oid", OF claim.keeps_watch_reading(1)]])
      (use assms in \<open>auto dest: ready_bought\<close>)
  show "leads (ready oid)
      (andThen (reading (\<lambda>cfg d. config_value cfg d ''aeza_ipv4_payment_method'' ''balance'')) (\<lambda>payment.
       andThen (reading (\<lambda>cfg d. config_value cfg d ''aeza_ipv4_domain'' [])) (\<lambda>domain.
       andThen (aeza_request_io client service (AddIpv4 payment domain)) (\<lambda>v.
         with_env (\<lambda>e. ret (normalize_ipv4 (en_repr e) v)))))) (\<lambda>_. bought oid) (bought oid) e"
    by (intro leads_andThen [OF read] leads_andThen [OF leads_purchase [OF assms]] leads_keeps keeps_intros)
next
  fix x
  show "leads (bought oid) (andThen (update_ip oid (\<lambda>_. [IpAction IpAmbiguous, IpPurchase PhAmbiguous])) (\<lambda>_. throw x))
      (\<lambda>_. bought oid) (bought oid) e"
    by (intro leads_keeps keeps_intros claim.keeps_update) (use assms in simp_all)
qed

lemma leads_buy:
  assumes "stable (claimed oid) e"
  shows "leads (not_yet oid) (buy_address oid tm client service c old) (\<lambda>_. bought_once oid) (bought_once oid) e"
  unfolding buy_address_def
proof (rule leads_andThen)
  show "leads (not_yet oid) (ensure_bound_revision_current (cc_revision c)) (\<lambda>_. not_yet oid) (bought_once oid) e"
    by (rule leads_weaken [OF leads_keeps [where I = "not_yet oid", OF row.keeps_ensure]]) (auto simp: bought_once_def)
next
  fix x :: unit
  have st: "stable (every_row oid (\<lambda>r. ip_purchase_state r \<noteq> NotStarted)) e" using assms by (simp add: claimed_def)
  have request: "leads (ready oid) (request_address oid client service) (\<lambda>_. bought oid) (bought_once oid) e"
    by (rule leads_weaken [OF leads_request_address [OF assms]]) (simp_all add: bought_once_def)
  have confirm: "leads (bought oid) (confirm_purchase oid tm client service c old created)
      (\<lambda>_. bought_once oid) (bought_once oid) e" for created
    by (rule leads_weaken [OF leads_keeps [where I = "bought oid", OF claim.keeps_confirm [OF st]]]) (simp_all add: bought_once_def)
  show "leads (not_yet oid)
    (andThen (ip_step oid ''create_new_ipv4'' [IpAction PurchaseSending, IpPurchase PhSending]) (\<lambda>_.
     andThen (request_address oid client service) (\<lambda>created.
       confirm_purchase oid tm client service c old created))) (\<lambda>_. bought_once oid) (bought_once oid) e"
    by (rule leads_andThen [OF leads_claim [OF assms]], rule leads_andThen [OF request], rule confirm)
qed

lemma keeps_bought_once:
  assumes "stable (claimed oid) e"
  shows "keeps (bought_once oid) (find_old_address oid client service c) e"
    and "keeps (bought_once oid) (fail_rotation oid client service restore x) e"
    and "keeps (bought_once oid) (switch_main oid tm client service new) e"
    and "keeps (bought_once oid) (apply_and_publish oid c ip) e"
    and "keeps (bought_once oid) (finish_rotation oid client service c old n) e"
    and "keeps (bought_once oid) (update_ip oid (\<lambda>_. [IpStatus st, IpStep m, IpAction a, IpError t])) e"
proof -
  have st: "stable (every_row oid (\<lambda>r. ip_purchase_state r \<noteq> NotStarted)) e" using assms by (simp add: claimed_def)
  show "keeps (bought_once oid) (find_old_address oid client service c) e"
    by (intro keeps_bought_onceI row.keeps_find_old claim.keeps_find_old st) simp_all
  show "keeps (bought_once oid) (fail_rotation oid client service restore x) e"
    by (intro keeps_bought_onceI row.keeps_fail claim.keeps_fail st) simp_all
  show "keeps (bought_once oid) (switch_main oid tm client service new) e"
    by (intro keeps_bought_onceI row.keeps_switch claim.keeps_switch st) simp_all
  show "keeps (bought_once oid) (apply_and_publish oid c ip) e"
    by (intro keeps_bought_onceI row.keeps_apply_and_publish claim.keeps_apply_and_publish st) simp_all
  show "keeps (bought_once oid) (finish_rotation oid client service c old n) e"
    by (intro keeps_bought_onceI row.keeps_finish claim.keeps_finish st) simp_all
  show "keeps (bought_once oid) (update_ip oid (\<lambda>_. [IpStatus st, IpStep m, IpAction a, IpError t])) e"
    by (intro keeps_bought_onceI row.keeps_update claim.keeps_update st) simp_all
qed

lemma leads_rotate:
  assumes "stable (claimed oid) e"
  shows "leads (not_yet oid) (rotate oid tm client service c) (\<lambda>_. bought_once oid) (bought_once oid) e"
proof -
  note K = keeps_bought_once [OF assms]
  have find: "leads (not_yet oid) (find_old_address oid client service c) (\<lambda>_. not_yet oid) (bought_once oid) e"
    by (rule leads_weaken [OF leads_keeps [where I = "not_yet oid", OF row.keeps_find_old]]) (simp_all add: bought_once_def)
  have "leads (not_yet oid)
      (andThen (find_old_address oid client service c) (\<lambda>old.
       andThen (buy_address oid tm client service c old) (\<lambda>new. ret (old, new))))
      (\<lambda>_. bought_once oid) (bought_once oid) e"
    by (rule leads_andThen [OF find], rule leads_andThen [OF leads_buy [OF assms]], rule leads_keeps, rule keeps_ret)
  from leads_catch [OF this leads_keeps [OF K(2)]]
  show ?thesis
    unfolding rotate_def
    by (rule leads_andThen) (intro leads_keeps keeps_intros K)
qed

lemma keeps_run:
  assumes "stable (claimed oid) e"
  shows "keeps (bought_once oid) (run_aeza_ip_change oid) e"
proof (rule keeps_leads)
  note K = keeps_bought_once [OF assms]
  have q: "keeps (bought_once oid) (query f) e" for f :: "env \<Rightarrow> db \<Rightarrow> exn + 'a"
    using assms by (intro keeps_bought_onceI row.keeps_watch_query claim.keeps_watch_query) simp_all
  have rd: "keeps (bought_once oid) (reading_result f) e" "keeps (bought_once oid) new_aeza_client e"
      "keeps (bought_once oid) (reading g) e" for f :: "config \<Rightarrow> db \<Rightarrow> exn + 'a" and g :: "config \<Rightarrow> db \<Rightarrow> 'b"
    unfolding reading_def reading_result_def new_aeza_client_def by (rule q)+
  have load: "leads (bought_once oid) (query (\<lambda>e d. load_ip_change_snapshot oid d))
      (\<lambda>(r, c) s. bought_once oid s \<and> r \<in> set (ip_ops (rn_db s)) \<and> ip_id r = oid) (bought_once oid) e"
  proof (rule leadsI)
    fix s r s' assume "bought_once oid s" and s': "query (\<lambda>e d. load_ip_change_snapshot oid d) e s = (r, s')"
    then have b: "bought_once oid s'"
      using keepsD [OF q, of s "\<lambda>e d. load_ip_change_snapshot oid d"] by (simp add: after_def)
    have "row \<in> set (ip_ops (rn_db s')) \<and> ip_id row = oid" if "r = Returned (row, c)" for row c
      using s' that unfolding query_def transact_def bind_result_def load_ip_change_snapshot_def find_ip_row_def Let_def
      by (auto split: if_splits sum.splits option.splits dest: select_first_SomeD)
    with b show "case r of Returned x \<Rightarrow> (case x of (r, c) \<Rightarrow> \<lambda>s. bought_once oid s \<and> r \<in> set (ip_ops (rn_db s)) \<and> ip_id r = oid) s'
        | _ \<Rightarrow> bought_once oid s'"
      by (auto split: outcome.split)
  qed
  have fresh: "not_yet oid s" if "bought_once oid s" "r \<in> set (ip_ops (rn_db s))" "ip_id r = oid"
    "ip_purchase_state r = NotStarted" for s r
    using that by (auto simp: bought_once_def guard_def on_def every_row_def)
  have go: "leads (not_yet oid) (andThen new_aeza_client (\<lambda>client. andThen (reading aeza_service_id) (\<lambda>service.
      rotate oid tm client service c))) (\<lambda>_. bought_once oid) (bought_once oid) e" for tm c
  proof (rule leads_andThen)
    show "leads (not_yet oid) new_aeza_client (\<lambda>_. not_yet oid) (bought_once oid) e"
      unfolding new_aeza_client_def
      by (rule leads_weaken [OF leads_keeps [where I = "not_yet oid", OF row.keeps_watch_reading(1)]]) (simp_all add: bought_once_def)
    fix client
    have "leads (not_yet oid) (reading aeza_service_id) (\<lambda>_. not_yet oid) (bought_once oid) e"
      by (rule leads_weaken [OF leads_keeps [where I = "not_yet oid", OF row.keeps_watch_reading(1)]]) (simp_all add: bought_once_def)
    then show "leads (not_yet oid) (andThen (reading aeza_service_id) (\<lambda>service. rotate oid tm client service c))
        (\<lambda>_. bought_once oid) (bought_once oid) e"
      by (rule leads_andThen) (rule leads_rotate [OF assms])
  qed
  show "leads (bought_once oid) (run_aeza_ip_change oid) (\<lambda>_. bought_once oid) (bought_once oid) e"
    unfolding run_aeza_ip_change_def
  proof (rule leads_andThen [OF leads_keeps [OF rd(1)]], rule leads_andThen [OF load])
    fix tm and x :: "ip_row \<times> captured_config"
    obtain r c where x: "x = (r, c)" by fastforce
    let ?P = "\<lambda>s. bought_once oid s \<and> r \<in> set (ip_ops (rn_db s)) \<and> ip_id r = oid"
    let ?started = "ip_purchase_state r \<noteq> NotStarted \<or> ip_make_main_state r \<noteq> NotStarted \<or> ip_apply_state r \<noteq> NotStarted"
    have "leads ?P (if terminal (ip_status r) then skip
          else if ?started then
            update_ip oid (\<lambda>_. [IpStatus Ambiguous, IpStep ''manual_verification_required'', IpAction IpAmbiguous,
              IpError interrupted_message])
          else andThen new_aeza_client (\<lambda>client. andThen (reading aeza_service_id) (\<lambda>service.
            rotate oid tm client service c))) (\<lambda>_. bought_once oid) (bought_once oid) e"
    proof (cases "terminal (ip_status r) \<or> ?started")
      case True
      have "keeps (bought_once oid) (if terminal (ip_status r) then skip
            else update_ip oid (\<lambda>_. [IpStatus Ambiguous, IpStep ''manual_verification_required'', IpAction IpAmbiguous,
              IpError interrupted_message])) e"
        by (intro keeps_intros K)
      then have "leads ?P (if terminal (ip_status r) then skip
            else update_ip oid (\<lambda>_. [IpStatus Ambiguous, IpStep ''manual_verification_required'', IpAction IpAmbiguous,
              IpError interrupted_message])) (\<lambda>_. bought_once oid) (bought_once oid) e"
        by (rule leads_weaken [OF leads_keeps]) simp_all
      with True show ?thesis by (cases "terminal (ip_status r)") auto
    next
      case False
      then have "not_yet oid s" if "?P s" for s using that fresh by blast
      then have "leads ?P (andThen new_aeza_client (\<lambda>client. andThen (reading aeza_service_id) (\<lambda>service.
            rotate oid tm client service c))) (\<lambda>_. bought_once oid) (bought_once oid) e"
        by (rule leads_weaken [OF go]) simp_all
      with False show ?thesis by simp
    qed
    then show "leads ((case x of (r, c) \<Rightarrow> \<lambda>s. bought_once oid s \<and> r \<in> set (ip_ops (rn_db s)) \<and> ip_id r = oid))
        (case x of (r, c) \<Rightarrow>
          if terminal (ip_status r) then skip
          else if ip_purchase_state r \<noteq> NotStarted \<or> ip_make_main_state r \<noteq> NotStarted \<or> ip_apply_state r \<noteq> NotStarted then
            update_ip oid (\<lambda>_. [IpStatus Ambiguous, IpStep ''manual_verification_required'', IpAction IpAmbiguous,
              IpError interrupted_message])
          else andThen new_aeza_client (\<lambda>client. andThen (reading aeza_service_id) (\<lambda>service.
            rotate oid tm client service c))) (\<lambda>_. bought_once oid) (bought_once oid) e"
      by (simp add: x)
  qed
qed

section \<open>Deletion after publication\<close>

fun is_deletion :: "provider_call \<Rightarrow> bool" where
  "is_deletion (AezaCall (DeleteIpv4 i)) = True"
| "is_deletion c = False"

definition deletions :: "call list \<Rightarrow> call list" where
  "deletions l = calls_of (asks is_deletion) l"

definition published :: "int \<Rightarrow> db \<Rightarrow> bool" where
  "published oid = every_row oid (\<lambda>r. ip_published_revision r \<noteq> None)"

definition deleted_after_publishing :: "int \<Rightarrow> call list \<Rightarrow> bool" where
  "deleted_after_publishing oid l \<longleftrightarrow> (\<forall>c \<in> set l. published oid (c_db c))"

abbreviation safe_deletions :: "int \<Rightarrow> run \<Rightarrow> bool" where
  "safe_deletions oid \<equiv> watch oid (\<lambda>r. True) is_deletion (deleted_after_publishing oid)"

abbreviation may_delete :: "int \<Rightarrow> run \<Rightarrow> bool" where
  "may_delete oid \<equiv> watch oid (\<lambda>r. ip_published_revision r \<noteq> None) is_deletion (deleted_after_publishing oid)"

lemma may_delete_safe: "may_delete oid s \<Longrightarrow> safe_deletions oid s"
  by (simp add: guard_def on_def)

lemma leads_publish:
  assumes "stable (published oid) e"
  shows "leads (safe_deletions oid) (apply_and_publish oid c ip) (\<lambda>_. may_delete oid) (safe_deletions oid) e"
proof -
  have publish: "leads (safe_deletions oid)
      (transact (\<lambda>e now d. publish_ip_change (en_sha e) now oid ip health None None d))
      (\<lambda>_. may_delete oid) (safe_deletions oid) e" for health
  proof (rule leadsI)
    fix s r s' assume s: "safe_deletions oid s"
      and s': "transact (\<lambda>e now d. publish_ip_change (en_sha e) now oid ip health None None d) e s = (r, s')"
    have "published oid d'"
      if "publish_ip_change (en_sha e) now oid ip health None None (turn e s) = Inr (n, d')" for now n d'
      unfolding published_def using that
      by (rule every_row_publish [where p = "\<lambda>_. True"]) (simp_all add: published_op_def)
    with s s' show "case r of Returned x \<Rightarrow> may_delete oid s' | _ \<Rightarrow> safe_deletions oid s'"
      by (auto simp: transact_def guard_def on_def published_def split: if_splits sum.splits outcome.split)
  qed
  show ?thesis
    unfolding apply_and_publish_def
    by (rule leads_andThen [OF leads_keeps], rule row.keeps_ensure, simp,
        rule leads_andThen [OF leads_keeps], rule row.keeps_apply, simp,
        rule leads_andThen [OF leads_keeps], rule row.keeps_ensure, simp,
        rule leads_andThen [OF leads_keeps], rule row.keeps_step, simp, simp,
        rule leads_andThen [OF leads_keeps], rule row.keeps_verify, simp,
        rule leads_andThen [OF leads_keeps], rule row.keeps_ensure, simp,
        rule leads_andThen [OF leads_keeps], rule row.keeps_step, simp, simp, rule publish)
qed

lemma keeps_delete:
  assumes "stable (published oid) e"
  shows "keeps (may_delete oid) (finish_rotation oid client service c old n) e"
proof -
  have st: "stable (every_row oid (\<lambda>r. ip_published_revision r \<noteq> None)) e" using assms by (simp add: published_def)
  have request: "keeps (may_delete oid) (aeza_request_io client service (DeleteIpv4 old)) e"
    by (rule keeps_leads, rule publication.leads_request [OF st])
       (auto simp: deleted_after_publishing_def published_def)
  show ?thesis using st request by (rule publication.keeps_finish_deleting)
qed

lemma keeps_safe_rotate:
  assumes "stable (published oid) e"
  shows "keeps (safe_deletions oid) (rotate oid tm client service c) e"
proof -
  have fail: "keeps (safe_deletions oid) (fail_rotation oid client service restore x) e" for restore x
    by (rule row.keeps_fail) simp_all
  have "leads (safe_deletions oid) (andThen (apply_and_publish oid c ip) (finish_rotation oid client service c old))
      (\<lambda>_. safe_deletions oid) (safe_deletions oid) e" for ip old
    by (rule leads_andThen [OF leads_publish [OF assms]],
        rule leads_weaken [OF leads_keeps [OF keeps_delete [OF assms]]]) (simp_all add: may_delete_safe)
  then have finish: "keeps (safe_deletions oid) (andThen (apply_and_publish oid c ip) (finish_rotation oid client service c old)) e"
    for ip old by (rule keeps_leads)
  have st: "stable (every_row oid (\<lambda>r. True)) e" by simp
  show ?thesis
    unfolding rotate_def buy_address_def
    by (intro keeps_intros fail finish row.keeps_find_old row.keeps_ensure row.keeps_step row.keeps_request_address
        row.keeps_confirm row.keeps_switch) simp_all
qed

section \<open>Every end is recorded\<close>

definition settled :: "int \<Rightarrow> db \<Rightarrow> bool" where
  "settled oid d \<longleftrightarrow> every_row oid (\<lambda>r. terminal (ip_status r)) d \<and>
     (\<forall>l \<in> set (leases d). le_resource l = vpn_vps \<longrightarrow> le_owner l \<noteq> LeaseOwner IpChange oid)"

lemma update_settles:
  assumes "ends (ip_new_status fs)"
  shows "settled oid (update_operation now oid fs d)"
proof -
  have fs: "fs \<noteq> []" using assms by (auto simp: ends_def)
  have "every_row oid (\<lambda>r. terminal (ip_status r)) (update_operation now oid fs d)"
    by (rule every_row_update [where p = "\<lambda>_. True"])
       (use assms fs in \<open>auto simp: set_ip_fields_status ends_def split: option.splits\<close>)
  with fs assms show ?thesis
    by (auto simp: settled_def update_operation_def release_vps_lease_def Let_def)
qed

lemma set_setting_leases [simp]: "leases (set_setting now k v d) = leases d"
  by (simp add: set_setting_def Let_def frame_simps)

lemma settled_set_setting [simp]: "settled oid (set_setting now k v d) = settled oid d"
  by (simp add: settled_def every_row_def)

abbreviation closed :: "int \<Rightarrow> run \<Rightarrow> bool" where
  "closed oid s \<equiv> settled oid (rn_db s)"

lemma calm_update: "calm (update_ip oid fs) e"
  unfolding update_ip_def by (rule calm_store)

lemma calm_rollback: "calm (rollback_old_main oid client service old) e"
  unfolding rollback_old_main_def Let_def
  by (auto intro!: calm_andThen calm_catch calm_update calm_reading calm_ret split: option.split)

lemma update_closes:
  assumes "\<And>t. ends (ip_new_status (fs t))"
  shows "finishes (closed oid) (\<lambda>_. False) (update_ip oid fs) e"
  unfolding yields_def update_ip_def store_def transact_def
  by (auto simp: update_settles [OF assms] split: if_splits outcome.split)

lemma finishes_throw: "(\<And>s. X s) \<Longrightarrow> finishes R X (throw x) e"
  by (simp add: yields_def throw_def)

lemma fail_raises: "finishes R (\<lambda>_. True) (fail_rotation oid client service restore x) e"
  unfolding fail_rotation_def Let_def by (intro finishes_andThen [OF finishes_any] finishes_throw) simp

lemma closing_failure:
  assumes "stable (settled oid) e" and "\<And>t. ends (ip_new_status (fs t))"
  shows "finishes R (closed oid) (andThen (update_ip oid fs) (\<lambda>_. andThen (saving key v) (\<lambda>_. throw x))) e"
proof -
  have st: "steady (\<lambda>d l. settled oid d) e" using assms(1) by (simp add: stable_def steady_def)
  have "keeps (on (\<lambda>d l. settled oid d)) (andThen (saving key v) (\<lambda>_. throw x :: 'a io)) e"
    unfolding saving_def by (intro keeps_intros keeps_store [OF st]) simp
  moreover have "on (\<lambda>d l. settled oid d) = closed oid" by (simp add: fun_eq_iff on_def)
  ultimately have "keeps (closed oid) (andThen (saving key v) (\<lambda>_. throw x :: 'a io)) e" by simp
  then have "yields (closed oid) (\<lambda>_. closed oid) (closed oid) (andThen (saving key v) (\<lambda>_. throw x :: 'a io)) e"
    by (rule yields_keeps)
  moreover have "leads (\<lambda>_. True) (andThen (saving key v) (\<lambda>_. throw x :: 'a io)) (\<lambda>_ _. False) (\<lambda>_. True) e"
    by (rule leads_andThen [OF leads_any]) (rule leads_throw, simp)
  ultimately have tail: "yields (closed oid) (\<lambda>_ s. closed oid s \<and> False) (closed oid)
      (andThen (saving key v) (\<lambda>_. throw x :: 'a io)) e"
    by (rule yields_and_leads)
  show ?thesis
    by (rule yields_andThen [OF yields_weaken [OF update_closes [OF assms(2)]]], simp, assumption, simp,
        rule yields_weaken [OF tail]) simp_all
qed

lemma fail_closes:
  assumes "stable (settled oid) e"
  shows "finishes R (closed oid) (fail_rotation oid client service restore x) e"
  unfolding fail_rotation_def Let_def
proof (rule finishes_andThen [where R' = "\<lambda>_. True"])
  have "calm (case restore of None \<Rightarrow> ret []
     | Some old_id \<Rightarrow> if old_id = [] then ret [] else rollback_old_main oid client service old_id) e"
    by (auto intro: calm_ret calm_rollback split: option.split)
  then show "finishes (\<lambda>_. True) (closed oid) (case restore of None \<Rightarrow> ret []
     | Some old_id \<Rightarrow> if old_id = [] then ret [] else rollback_old_main oid client service old_id) e"
    by (rule finishes_weaken) simp_all
  fix outcome
  show "finishes R (closed oid)
      (andThen (reading (\<lambda>cfg d. map_option ip_action_state (get_operation oid d))) (\<lambda>current.
         andThen (reading (safe_error None x)) (\<lambda>text.
         andThen (update_ip oid (\<lambda>_.
           [IpStatus (if current = Some IpAmbiguous \<or> current \<noteq> None \<and> starts_with ''AMBIGUOUS'' outcome then Ambiguous else Failed),
            IpStep (if current = Some IpAmbiguous \<or> current \<noteq> None \<and> starts_with ''AMBIGUOUS'' outcome
              then ''manual_verification_required'' else ''failed''),
            IpAction (if current = Some IpAmbiguous \<or> current \<noteq> None \<and> starts_with ''AMBIGUOUS'' outcome
              then IpAmbiguous else IpFailed), IpError text])) (\<lambda>_.
         andThen (saving ''last_healthcheck_status'' ''FAILED'') (\<lambda>_. throw x))))) e"
    by (rule finishes_andThen [OF finishes_weaken [OF calm_reading]], simp, simp,
        rule finishes_andThen [OF finishes_weaken [OF calm_reading]], simp, simp,
        rule closing_failure [OF assms]) (simp add: ends_def)
qed

lemma finish_closes: "finishes (closed oid) (\<lambda>_. True) (finish_rotation oid client service c old n) e"
  unfolding finish_rotation_def Let_def
  by (rule finishes_andThen [OF finishes_any])
     (auto simp: ends_def intro!: finishes_weaken [OF update_closes] split: prod.split)

lemma rotate_closes:
  assumes "stable (settled oid) e"
  shows "finishes (closed oid) (closed oid) (rotate oid tm client service c) e"
  unfolding rotate_def
proof (rule finishes_andThen [where R' = "\<lambda>_. True"], rule finishes_catch [OF finishes_any fail_closes [OF assms]])
  fix x
  have "finishes (closed oid) (\<lambda>_. True)
     (andThen (switch_main oid tm client service (snd x)) (\<lambda>_.
      andThen (apply_and_publish oid c (ai_ip (snd x))) (\<lambda>published.
      finish_rotation oid client service c (oa_id (fst x)) published))) e"
    by (rule finishes_andThen [OF finishes_any], rule finishes_andThen [OF finishes_any], rule finish_closes)
  from finishes_catch [OF this fail_closes [OF assms]]
  show "finishes (closed oid) (closed oid) (case x of (old, new) \<Rightarrow>
     catch (andThen (switch_main oid tm client service new) (\<lambda>_.
        andThen (apply_and_publish oid c (ai_ip new)) (\<lambda>published.
        finish_rotation oid client service c (oa_id old) published)))
       (fail_rotation oid client service (Some (oa_id old)))) e"
    by (simp add: case_prod_beta)
qed

section \<open>Evidence for a publication\<close>

text \<open>
  The log shows that the configuration was applied on the host and that every required protocol
  then passed the check through its new address.
\<close>

definition applied_on :: "captured_config \<Rightarrow> string \<Rightarrow> call list \<Rightarrow> bool" where
  "applied_on c host l \<longleftrightarrow>
     (\<exists>a \<in> set l. c_event a = RunScript host (ConfigApply c) \<and> (\<exists>output. c_reply a = ExitReply 0 output))"

definition checked_on :: "captured_config \<Rightarrow> string \<Rightarrow> call list \<Rightarrow> bool" where
  "checked_on c host l \<longleftrightarrow> required_checks c = [] \<or>
     (\<exists>a \<in> set l. \<exists>auth output. c_event a = RunScript host (DeepCheck host auth) \<and>
        c_reply a = ExitReply 0 output \<and> failed_checks c (parse_deep_check_output output) = [])"

definition only_grows :: "(call list \<Rightarrow> bool) \<Rightarrow> bool" where
  "only_grows V \<longleftrightarrow> (\<forall>l l'. V l \<longrightarrow> V (l @ l'))"

lemma evidence_grows [simp]: "only_grows (applied_on c host)" "only_grows (checked_on c host)"
  by (auto simp: only_grows_def applied_on_def checked_on_def)

text \<open>Evidence stays: the steps after it.\<close>

lemma grow_send: "only_grows V \<Longrightarrow> keeps (on (\<lambda>d. V)) (send v) e"
  by (rule keeps_send) (simp_all add: only_grows_def)

lemma grow_update: "keeps (on (\<lambda>d. V)) (update_ip oid fs) e"
  unfolding update_ip_def by (rule keeps_store) simp_all

lemma grow_reading: "keeps (on (\<lambda>d. V)) (reading f) e" "keeps (on (\<lambda>d. V)) (reading_result g) e"
  by (simp_all add: keeps_reading)

lemma grow_saving: "keeps (on (\<lambda>d. V)) (saving k v) e"
  unfolding saving_def by (rule keeps_store) simp_all

lemma grow_step: "only_grows V \<Longrightarrow> keeps (on (\<lambda>d. V)) (ip_step oid step fs) e"
  unfolding ip_step_def pause_def by (auto intro!: keeps_intros grow_update grow_send split: reply.split)

lemma grow_ensure: "keeps (on (\<lambda>d. V)) (ensure_bound_revision_current n) e"
  unfolding ensure_bound_revision_current_def by (rule keeps_query) simp

lemma grow_request: "only_grows V \<Longrightarrow> keeps (on (\<lambda>d. V)) (aeza_request_io client service c) e"
  unfolding aeza_request_io_def by (auto intro!: keeps_intros grow_send)

lemma grow_script: "only_grows V \<Longrightarrow> keeps (on (\<lambda>d. V)) (run_script host x) e"
  unfolding run_script_def by (auto intro!: keeps_intros grow_send split: reply.split)

lemma grow_verify: "only_grows V \<Longrightarrow> keeps (on (\<lambda>d. V)) (verify_protocol_health host c) e"
  unfolding verify_protocol_health_def run_deep_checks_of_def deep_run_def
  by (auto intro!: keeps_intros grow_script grow_reading split: list.split)

lemma grow_finish: "only_grows V \<Longrightarrow> keeps (on (\<lambda>d. V)) (finish_rotation oid client service c old n) e"
  unfolding finish_rotation_def delete_old_address_def Let_def
  by (auto intro!: keeps_intros grow_step grow_request grow_update grow_saving grow_reading split: prod.split)

lemma leads_script:
  "leads (\<lambda>_. True) (run_script host x)
     (\<lambda>r s. \<exists>a \<in> set (rn_log s). c_event a = RunScript host x \<and> c_reply a = ExitReply (fst r) (snd r)) (\<lambda>_. True) e"
  by (rule leadsI) (auto simp: run_script_def andThen_def send_def ret_def throw_def Let_def
      split: if_splits outcome.splits reply.splits)

lemma leads_apply:
  "leads (\<lambda>_. True) (apply_bound_snapshot oid host c) (\<lambda>_. on (\<lambda>d. applied_on c host)) (\<lambda>_. True) e"
  unfolding apply_bound_snapshot_def
proof (rule leads_andThen [OF leads_any], rule leads_andThen [OF leads_any], rule leads_andThen)
  show "leads (\<lambda>_. True)
     (catch (run_script host (ConfigApply c)) (\<lambda>x.
        andThen (update_ip oid (\<lambda>_. [IpAction IpAmbiguous, IpApply PhAmbiguous])) (\<lambda>_. throw x)))
     (\<lambda>r s. \<exists>a \<in> set (rn_log s). c_event a = RunScript host (ConfigApply c) \<and> c_reply a = ExitReply (fst r) (snd r))
     (\<lambda>_. True) e"
    by (rule leads_catch [OF leads_script]) (rule leads_andThen [OF leads_any], rule leads_throw, simp)
  fix r :: "int \<times> string"
  show "leads (\<lambda>s. \<exists>a \<in> set (rn_log s). c_event a = RunScript host (ConfigApply c) \<and> c_reply a = ExitReply (fst r) (snd r))
     (case r of (code, output) \<Rightarrow>
       if code \<noteq> 0 then
         andThen (update_ip oid (\<lambda>_. [IpAction ApplyFailed, IpApply PhFailed])) (\<lambda>_.
           throw (IpChangeError (''Transactional VPN apply failed with exit code '' @ int_str code)))
       else update_ip oid (\<lambda>t. [IpAction Applied, IpApply PhApplied, IpApplyCompletedAt t]))
     (\<lambda>_. on (\<lambda>d. applied_on c host)) (\<lambda>_. True) e"
  proof (cases "fst r = 0")
    case True
    have "leads (\<lambda>s. \<exists>a \<in> set (rn_log s). c_event a = RunScript host (ConfigApply c) \<and>
        c_reply a = ExitReply (fst r) (snd r)) (update_ip oid (\<lambda>t. [IpAction Applied, IpApply PhApplied, IpApplyCompletedAt t]))
        (\<lambda>_. on (\<lambda>d. applied_on c host)) (\<lambda>_. True) e"
      by (rule leads_weaken [OF leads_keeps [OF grow_update [where V = "applied_on c host"]]])
         (use True in \<open>auto simp: on_def applied_on_def\<close>)
    then show ?thesis using True by (simp add: case_prod_beta)
  next
    case False
    then show ?thesis
      by (simp add: case_prod_beta) (rule leads_andThen [OF leads_any], rule leads_throw, simp)
  qed
qed

lemma failed_over_ssh:
  "failed_checks c [(''vless'', over_ssh), (''hysteria_quic'', over_ssh), (''hysteria_salamander'', over_ssh)] = [] \<longleftrightarrow>
     required_checks c = []" "failed_checks c [] = [] \<longleftrightarrow> required_checks c = []"
  by (auto simp: failed_checks_def required_checks_def over_ssh_def)

lemma leads_deep:
  "leads (\<lambda>_. True) (deep_run host host auth)
     (\<lambda>results s. failed_checks c results = [] \<longrightarrow> checked_on c host (rn_log s)) (\<lambda>_. True) e"
  unfolding deep_run_def
proof (rule leads_catch, rule leads_andThen [OF leads_script])
  fix r :: "int \<times> string"
  show "leads (\<lambda>s. \<exists>a \<in> set (rn_log s). c_event a = RunScript host (DeepCheck host auth) \<and> c_reply a = ExitReply (fst r) (snd r))
     (ret (deep_answer r)) (\<lambda>results s. failed_checks c results = [] \<longrightarrow> checked_on c host (rn_log s)) (\<lambda>_. True) e"
    by (rule leads_ret) (auto simp: deep_answer_def checked_on_def failed_over_ssh)
qed (rule leads_ret, simp add: failed_over_ssh checked_on_def)

lemma leads_verify:
  assumes "host \<noteq> []"
  shows "leads (\<lambda>_. True) (verify_protocol_health host c) (\<lambda>_ s. checked_on c host (rn_log s)) (\<lambda>_. True) e"
  unfolding verify_protocol_health_def
proof (rule leads_andThen)
  have deep: "leads (\<lambda>_. True) (andThen (lift (hysteria_auth v c)) (\<lambda>auth. deep_run host host auth))
      (\<lambda>results s. failed_checks c results = [] \<longrightarrow> checked_on c host (rn_log s)) (\<lambda>_. True) e" for v
    by (rule leads_andThen [OF leads_any]) (rule leads_deep)
  have "andThen (ret host) f = f host" for f :: "string \<Rightarrow> deep_results io"
    by (intro ext) (simp add: andThen_def ret_def)
  then show "leads (\<lambda>_. True) (run_deep_checks_of c host)
      (\<lambda>results s. failed_checks c results = [] \<longrightarrow> checked_on c host (rn_log s)) (\<lambda>_. True) e"
    using assms deep
    by (cases "enabled_clients c")
       (auto simp: run_deep_checks_of_def failed_over_ssh checked_on_def intro!: leads_ret)
  fix results
  show "leads (\<lambda>s. failed_checks c results = [] \<longrightarrow> checked_on c host (rn_log s))
     (if failed_checks c results \<noteq> [] then
         throw (IpChangeError (''New-endpoint protocol verification failed: '' @ join '', '' (failed_checks c results)))
       else ret (protocol_health_payload results (pc_enabled (am_protocol (cc_amnezia c)))))
     (\<lambda>_ s. checked_on c host (rn_log s)) (\<lambda>_. True) e"
    by (auto intro: leads_throw leads_ret)
qed

abbreviation evidence :: "captured_config \<Rightarrow> string \<Rightarrow> run \<Rightarrow> bool" where
  "evidence c host \<equiv> on (\<lambda>d l. applied_on c host l \<and> checked_on c host l)"

lemma evidence_only_grows: "only_grows (\<lambda>l. applied_on c host l \<and> checked_on c host l)"
  using evidence_grows by (auto simp: only_grows_def)

lemma leads_evidence:
  assumes "host \<noteq> []"
  shows "leads (\<lambda>_. True) (apply_and_publish oid c host) (\<lambda>_. evidence c host) (\<lambda>_. True) e"
  unfolding apply_and_publish_def
proof (rule leads_andThen [OF leads_any], rule leads_andThen [OF leads_apply])
  fix u v :: unit
  have to_any: "leads I m (\<lambda>_. I) (\<lambda>_. True) e" if "keeps I m e" for I and m :: "'a io"
    by (rule leads_weaken [OF leads_keeps [OF that]]) simp_all
  have publish: "keeps (evidence c host) (transact (\<lambda>e now d. publish_ip_change (en_sha e) now oid host health None None d)) e"
    for health by (rule keeps_transact) simp_all
  have verify: "leads (on (\<lambda>d. applied_on c host)) (verify_protocol_health host c) (\<lambda>_. evidence c host) (\<lambda>_. True) e"
    by (rule leads_weaken [OF leads_and_keeps [OF leads_verify [OF assms] grow_verify [OF evidence_grows(1)]]])
       (auto simp: on_def)
  show "leads (on (\<lambda>d. applied_on c host))
    (andThen (ensure_bound_revision_current (cc_revision c)) (\<lambda>_.
     andThen (ip_step oid ''protocol_health'' []) (\<lambda>_.
     andThen (verify_protocol_health host c) (\<lambda>health.
     andThen (ensure_bound_revision_current (cc_revision c)) (\<lambda>_.
     andThen (ip_step oid ''update_current_ip'' []) (\<lambda>_.
       transact (\<lambda>e now d. publish_ip_change (en_sha e) now oid host health None None d)))))))
    (\<lambda>_. evidence c host) (\<lambda>_. True) e"
    by (rule leads_andThen [OF leads_weaken [OF leads_keeps [OF grow_ensure]]], assumption, assumption, simp,
        rule leads_andThen [OF leads_weaken [OF leads_keeps [OF grow_step [OF evidence_grows(1)]]]], assumption, assumption, simp,
        rule leads_andThen [OF verify],
        rule leads_andThen [OF leads_weaken [OF leads_keeps [OF grow_ensure]]], assumption, assumption, simp,
        rule leads_andThen [OF leads_weaken [OF leads_keeps [OF grow_step [OF evidence_only_grows]]]], assumption, assumption, simp,
        rule leads_weaken [OF leads_keeps [OF publish]]) simp_all
qed

lemma leads_new_address:
  "leads (\<lambda>_. True) (buy_address oid tm client service c old) (\<lambda>new s. ai_ip new \<noteq> []) (\<lambda>_. True) e"
proof -
  have check: "leads (\<lambda>_. True) (andThen (list_ipv4 client service) (\<lambda>ips. ret (case pick ips of
            Some a \<Rightarrow> if ai_id a \<noteq> [] \<and> ai_ip a \<noteq> [] then Some a else None
          | None \<Rightarrow> None))) (\<lambda>r s. \<forall>x. r = Some x \<longrightarrow> ai_ip x \<noteq> []) (\<lambda>_. True) e" for pick
    by (rule leads_andThen [OF leads_any], rule leads_ret) (auto split: option.split)
  have "leads (\<lambda>_. True) (wait_for_new_ip tm client service pick) (\<lambda>new s. ai_ip new \<noteq> []) (\<lambda>_. True) e" for pick
    unfolding wait_for_new_ip_def by (rule leads_poll [OF check])
  note wait = this
  have last: "leads (\<lambda>s. ai_ip new \<noteq> [])
      (andThen (update_ip oid fs) (\<lambda>_. andThen (ensure_bound_revision_current n) (\<lambda>_. ret new)))
      (\<lambda>new s. ai_ip new \<noteq> []) (\<lambda>_. True) e" for new fs n
    by (rule leads_fact, rule leads_andThen [OF leads_any], rule leads_andThen [OF leads_any], rule leads_ret)
  show ?thesis
    unfolding buy_address_def confirm_purchase_def
    by (rule leads_andThen [OF leads_any], rule leads_andThen [OF leads_any], rule leads_andThen [OF leads_any],
        rule leads_andThen [OF leads_any], rule leads_andThen [OF leads_any], rule leads_andThen [OF leads_any],
        rule leads_andThen [OF leads_any], rule leads_andThen [OF wait], rule last)
qed

lemma leads_fail: "leads P (fail_rotation oid client service restore x) Q (\<lambda>_. True) e"
  by (rule leads_weaken [OF finishes_leads [OF fail_raises [where R = "\<lambda>_. False"]]]) simp_all

lemma leads_success:
  "leads (\<lambda>_. True) (rotate oid tm client service c) (\<lambda>_ s. \<exists>ip. ip \<noteq> [] \<and> evidence c ip s) (\<lambda>_. True) e"
  unfolding rotate_def
proof (rule leads_andThen)
  have ret_pair: "leads (\<lambda>s. ai_ip new \<noteq> []) (ret (old, new)) (\<lambda>x s. ai_ip (snd x) \<noteq> []) (\<lambda>_. True) e"
    for old :: old_address and new
    by (rule leads_ret) simp
  show "leads (\<lambda>_. True)
     (catch
       (andThen (find_old_address oid client service c) (\<lambda>old.
        andThen (buy_address oid tm client service c old) (\<lambda>new. ret (old, new))))
       (fail_rotation oid client service None)) (\<lambda>x s. ai_ip (snd x) \<noteq> []) (\<lambda>_. True) e"
    by (rule leads_catch [OF _ leads_fail], rule leads_andThen [OF leads_any],
        rule leads_andThen [OF leads_new_address], rule ret_pair)
  fix x :: "old_address \<times> ipv4"
  obtain old new where x: "x = (old, new)" by fastforce
  have second: "leads (\<lambda>_. True)
     (catch
       (andThen (switch_main oid tm client service new) (\<lambda>_.
        andThen (apply_and_publish oid c (ai_ip new)) (\<lambda>published.
        finish_rotation oid client service c (oa_id old) published)))
       (fail_rotation oid client service (Some (oa_id old)))) (\<lambda>_ s. evidence c (ai_ip new) s) (\<lambda>_. True) e"
    if "ai_ip new \<noteq> []"
    by (rule leads_catch [OF _ leads_fail], rule leads_andThen [OF leads_any],
        rule leads_andThen [OF leads_evidence [OF that]],
        rule leads_weaken [OF leads_keeps [OF grow_finish [OF evidence_only_grows]]]) simp_all
  show "leads (\<lambda>s. ai_ip (snd x) \<noteq> [])
     (case x of (old, new) \<Rightarrow> catch
       (andThen (switch_main oid tm client service new) (\<lambda>_.
        andThen (apply_and_publish oid c (ai_ip new)) (\<lambda>published.
        finish_rotation oid client service c (oa_id old) published)))
       (fail_rotation oid client service (Some (oa_id old))))
     (\<lambda>_ s. \<exists>ip. ip \<noteq> [] \<and> evidence c ip s) (\<lambda>_. True) e"
    unfolding x prod.case snd_conv
    by (rule leads_fact, rule leads_weaken [OF second]) blast+
qed

section \<open>Restoring the old address\<close>

fun is_make_main :: "provider_call \<Rightarrow> bool" where
  "is_make_main (AezaCall (MakeMain i)) = True"
| "is_make_main c = False"

definition asked_last :: "string \<Rightarrow> call list \<Rightarrow> bool" where
  "asked_last i l \<longleftrightarrow> l \<noteq> [] \<and> (\<exists>b s. c_event (last l) = AezaRequest b s (MakeMain i))"

interpretation old: row_watch "\<lambda>r. ip_old_ip_id r = Some v" "\<lambda>f. \<forall>w. f \<noteq> IpOldIpId w" for v
proof unfold_locales
  fix f and r :: ip_row assume "\<forall>w. f \<noteq> IpOldIpId w" "ip_old_ip_id r = Some v"
  then show "ip_old_ip_id (set_ip_field f r) = Some v" by (cases f) auto
qed (simp_all add: published_op_def)

definition old_is :: "int \<Rightarrow> string \<Rightarrow> db \<Rightarrow> bool" where
  "old_is oid v = every_row oid (\<lambda>r. ip_old_ip_id r = Some v)"

text \<open>Before a switch of the main address, with an old address on record, after a restoration.\<close>

abbreviation unswitched :: "int \<Rightarrow> run \<Rightarrow> bool" where
  "unswitched oid \<equiv> watch oid (\<lambda>r. True) is_make_main (\<lambda>l. l = [])"

abbreviation known :: "int \<Rightarrow> string \<Rightarrow> run \<Rightarrow> bool" where
  "known oid v \<equiv> watch oid (\<lambda>r. ip_old_ip_id r = Some v) is_make_main (\<lambda>l. l = [])"

abbreviation holds_old :: "int \<Rightarrow> string \<Rightarrow> run \<Rightarrow> bool" where
  "holds_old oid v \<equiv> watch oid (\<lambda>r. ip_old_ip_id r = Some v) (\<lambda>_. False) (\<lambda>_. True)"

abbreviation restored :: "int \<Rightarrow> string \<Rightarrow> run \<Rightarrow> bool" where
  "restored oid v \<equiv> watch oid (\<lambda>r. ip_old_ip_id r = Some v) is_make_main (asked_last v)"

lemma known_holds: "known oid v s \<Longrightarrow> unswitched oid s" "known oid v s \<Longrightarrow> holds_old oid v s"
    "restored oid v s \<Longrightarrow> holds_old oid v s"
  by (simp_all add: guard_def on_def every_row_def)

text \<open>A client that can send: it has a token, and a key can be read from it.\<close>

definition can_send :: "aeza_client \<Rightarrow> bool" where
  "can_send client \<longleftrightarrow> ac_token client \<noteq> [] \<and> (\<exists>key. aeza_api_key (ac_token client) = Inr key)"

lemma request_needs_token: "leads (\<lambda>_. True) (aeza_request_io client service c) (\<lambda>_ _. can_send client) (\<lambda>_. True) e"
  by (rule leadsI)
     (auto simp: aeza_request_io_def andThen_def lift_def throw_def can_send_def split: if_splits sum.splits outcome.splits)

lemma list_needs_token: "leads (\<lambda>_. True) (list_ipv4 client service) (\<lambda>_ _. can_send client) (\<lambda>_. True) e"
  unfolding list_ipv4_def
  by (rule leads_andThen [OF request_needs_token]) (rule leads_fact, rule leads_weaken [OF leads_any], simp_all)

lemma find_old_needs_token:
  "leads (\<lambda>_. True) (find_old_address oid client service c) (\<lambda>_ _. can_send client) (\<lambda>_. True) e"
  unfolding find_old_address_def
  by (rule leads_andThen [OF leads_any], rule leads_andThen [OF leads_any], rule leads_andThen [OF leads_any],
      rule leads_andThen [OF list_needs_token], rule leads_fact, rule leads_weaken [OF leads_any]) simp_all

lemma old_recorded:
  "yields (unswitched oid) (\<lambda>_. known oid v) (unswitched oid) (update_ip oid (\<lambda>_. [IpOldIp a, IpOldIpId v])) e"
proof -
  have "every_row oid (\<lambda>r. ip_old_ip_id r = Some v) (update_operation now oid [IpOldIp a, IpOldIpId v] d)" for now d
    by (rule every_row_update [where p = "\<lambda>_. True"]) (simp_all add: every_row_def set_ip_fields_def)
  then show ?thesis
    by (intro yieldsI) (auto simp: update_ip_def store_def transact_def guard_def on_def split: if_splits)
qed

lemma find_old_records:
  "yields (unswitched oid) (\<lambda>old s. known oid (oa_id old) s \<and> can_send client) (unswitched oid)
     (find_old_address oid client service c) e"
proof (rule yields_and_leads [OF _ find_old_needs_token])
  show "yields (unswitched oid) (\<lambda>old s. known oid (oa_id old) s) (unswitched oid) (find_old_address oid client service c) e"
    unfolding find_old_address_def
    by (rule yields_andThen [OF yields_keeps], intro keeps_intros,
        rule yields_andThen [OF yields_keeps [OF row.keeps_ensure]], simp,
        rule yields_andThen [OF yields_keeps [OF row.keeps_step]], simp, simp,
        rule yields_andThen [OF yields_keeps [OF row.keeps_list]], simp, simp,
        rule yields_andThen [OF yields_keeps [OF row.keeps_step]], simp, simp,
        rule yields_andThen [OF yields_keeps], rule keeps_lift,
        rule yields_andThen [OF old_recorded], rule yields_ret) simp
qed

lemma main_requested:
  assumes "stable (old_is oid v) e" and "can_send client"
  shows "yields (holds_old oid v) (\<lambda>_. restored oid v) (restored oid v) (aeza_request_io client service (MakeMain v)) e"
proof -
  have st: "every_row oid (\<lambda>r. ip_old_ip_id r = Some v) (turn e s)"
    if "every_row oid (\<lambda>r. ip_old_ip_id r = Some v) (rn_db s)" for s
    using stable_turn [OF assms(1)] that by (simp add: old_is_def)
  have "yields (holds_old oid v) (\<lambda>_. restored oid v) (restored oid v) (send (AezaRequest (ac_base client) service (MakeMain v))) e"
    by (rule yieldsI)
       (auto simp: send_def guard_def on_def Let_def asked_last_def st split: if_splits outcome.split)
  then have "yields (holds_old oid v) (\<lambda>_. restored oid v) (restored oid v)
      (andThen (send (AezaRequest (ac_base client) service (MakeMain v))) (\<lambda>r. lift (aeza_result r))) e"
    by (rule yields_andThen) (rule yields_keeps [OF keeps_lift])
  moreover from assms(2) obtain key where "aeza_api_key (ac_token client) = Inr key" and "ac_token client \<noteq> []"
    by (auto simp: can_send_def)
  moreover have "andThen (ret x) f = f x" for x :: string and f :: "string \<Rightarrow> json io"
    by (intro ext) (simp add: andThen_def ret_def)
  ultimately show ?thesis by (simp add: aeza_request_io_def lift_def)
qed

lemma rollback_restores:
  assumes "stable (old_is oid v) e" and "can_send client"
  shows "yields (holds_old oid v) (\<lambda>_. restored oid v) (\<lambda>_. False) (rollback_old_main oid client service v) e"
proof -
  have st: "stable (every_row oid (\<lambda>r. ip_old_ip_id r = Some v)) e" using assms(1) by (simp add: old_is_def)
  have update: "keeps (restored oid v) (update_ip oid (\<lambda>_. [IpAction a, IpRollback t])) e" for a t
    by (rule old.keeps_update [OF st]) simp
  have update_calm: "yields (restored oid v) (\<lambda>_. restored oid v) (\<lambda>_. False) (update_ip oid (\<lambda>_. [IpAction a, IpRollback t])) e" for a t
    by (rule yields_calm [OF update calm_update])
  have read: "yields (restored oid v) (\<lambda>_. restored oid v) (\<lambda>_. False) (reading f) e" for f :: "config \<Rightarrow> db \<Rightarrow> 'x"
    by (rule yields_calm [OF old.keeps_watch_reading(1) [OF st] calm_reading])
  have first: "yields (holds_old oid v) (\<lambda>_. holds_old oid v) (\<lambda>_. False) (update_ip oid (\<lambda>_. [IpAction a, IpRollback t])) e" for a t
    by (rule yields_calm [OF old.keeps_update [OF st] calm_update]) simp
  have ask: "yields (holds_old oid v) (\<lambda>_. restored oid v) (restored oid v)
      (andThen (aeza_request_io client service (MakeMain v)) (\<lambda>_. ret None)) e" for v' :: string
    by (rule yields_andThen [OF main_requested [OF assms]], rule yields_ret)
  show ?thesis
    unfolding rollback_old_main_def Let_def
    by (rule yields_andThen [OF first], rule yields_andThen [where R' = "\<lambda>_. restored oid v"], rule yields_catch [OF ask],
        rule yields_andThen [OF read], rule yields_andThen [OF update_calm], rule yields_ret, assumption)
       (auto intro!: yields_ret yields_andThen [OF update_calm] split: option.split)
qed

lemma fail_restores:
  assumes "stable (old_is oid v) e" and "can_send client" and "v \<noteq> []"
  shows "yields (holds_old oid v) (\<lambda>_ _. False) (restored oid v) (fail_rotation oid client service (Some v) x) e"
proof -
  have st: "stable (every_row oid (\<lambda>r. ip_old_ip_id r = Some v)) e" using assms(1) by (simp add: old_is_def)
  have read: "yields (restored oid v) (\<lambda>_. restored oid v) (restored oid v) (reading f) e" for f :: "config \<Rightarrow> db \<Rightarrow> 'x"
    by (rule yields_keeps [OF old.keeps_watch_reading(1) [OF st]])
  have update: "yields (restored oid v) (\<lambda>_. restored oid v) (restored oid v)
      (update_ip oid (\<lambda>_. [IpStatus a, IpStep b, IpAction c, IpError t])) e" for a b c t
    by (rule yields_keeps [OF old.keeps_update [OF st]]) simp
  have saved: "yields (restored oid v) (\<lambda>_. restored oid v) (restored oid v) (saving k t) e" for k t
    by (rule yields_keeps [OF old.keeps_saving [OF st]])
  have "yields (holds_old oid v) (\<lambda>_. restored oid v) (restored oid v) (rollback_old_main oid client service v) e"
    by (rule yields_weaken [OF rollback_restores [OF assms(1,2)]]) simp_all
  then show ?thesis
    unfolding fail_rotation_def Let_def option.case if_not_P [OF assms(3)]
    by (rule yields_andThen, intro yields_andThen [OF read] yields_andThen [OF update] yields_andThen [OF saved])
       (simp add: yields_def throw_def)
qed

text \<open>How a rotation that fails leaves the main address.\<close>

definition main_is_safe :: "int \<Rightarrow> run \<Rightarrow> bool" where
  "main_is_safe oid s \<longleftrightarrow> unswitched oid s \<or> (\<exists>v. restored oid v s \<or> v = [] \<and> holds_old oid v s)"

lemma rotate_is_safe:
  assumes "\<And>v. stable (old_is oid v) e"
  shows "yields (unswitched oid) (\<lambda>_ _. True) (main_is_safe oid) (rotate oid tm client service c) e"
  unfolding rotate_def
proof (rule yields_andThen)
  have st: "stable (every_row oid (\<lambda>r. ip_old_ip_id r = Some v)) e" for v
    using assms [of v] by (simp add: old_is_def)
  have buy: "keeps (known oid v) (buy_address oid tm client service c old) e" for v old
    unfolding buy_address_def
    by (intro keeps_intros old.keeps_ensure old.keeps_step old.keeps_request_address old.keeps_confirm st) simp_all
  have "yields (\<lambda>s. known oid (oa_id old) s \<and> can_send client) (\<lambda>x s. known oid (oa_id (fst x)) s \<and> can_send client) (unswitched oid)
      (andThen (buy_address oid tm client service c old) (\<lambda>new. ret (old, new))) e" for old
    by (rule yields_fact, rule yields_andThen [where R' = "\<lambda>_. known oid (oa_id old)"],
        rule yields_weaken [OF yields_keeps [where I = "known oid (oa_id old)", OF buy]])
       (auto intro: yields_ret dest: known_holds)
  from yields_andThen [OF find_old_records this]
  have "yields (unswitched oid) (\<lambda>x s. known oid (oa_id (fst x)) s \<and> can_send client) (unswitched oid)
     (andThen (find_old_address oid client service c) (\<lambda>old.
      andThen (buy_address oid tm client service c old) (\<lambda>new. ret (old, new)))) e" .
  then show "yields (unswitched oid) (\<lambda>x s. known oid (oa_id (fst x)) s \<and> can_send client) (main_is_safe oid)
     (catch
       (andThen (find_old_address oid client service c) (\<lambda>old.
        andThen (buy_address oid tm client service c old) (\<lambda>new. ret (old, new))))
       (fail_rotation oid client service None)) e"
  proof (rule yields_catch)
    fix x
    have "yields (unswitched oid) (\<lambda>_. unswitched oid) (unswitched oid) (fail_rotation oid client service None x :: (old_address \<times> ipv4) io) e"
      by (rule yields_keeps [OF row.keeps_fail]) simp_all
    from yields_and_leads [OF this leads_fail [where Q = "\<lambda>_ _. False"]]
    show "yields (unswitched oid) (\<lambda>x s. known oid (oa_id (fst x)) s \<and> can_send client) (main_is_safe oid)
        (fail_rotation oid client service None x :: (old_address \<times> ipv4) io) e"
      by (rule yields_weaken) (auto simp: main_is_safe_def)
  qed
  fix x :: "old_address \<times> ipv4"
  obtain old new where x: "x = (old, new)" by fastforce
  have work: "keeps (holds_old oid v) (andThen (switch_main oid tm client service new) (\<lambda>_.
        andThen (apply_and_publish oid c (ai_ip new)) (\<lambda>published.
        finish_rotation oid client service c (oa_id old) published))) e" for v
    by (intro keeps_intros old.keeps_switch old.keeps_apply_and_publish old.keeps_finish st) simp_all
  have fail: "yields (holds_old oid (oa_id old)) (\<lambda>_ _. True) (main_is_safe oid)
      (fail_rotation oid client service (Some (oa_id old)) y :: unit io) e" if "can_send client" for y
  proof (cases "oa_id old = []")
    case True
    have "keeps (holds_old oid []) (fail_rotation oid client service (Some []) y :: unit io) e"
      by (rule old.keeps_fail [OF st]) simp
    then show ?thesis
      unfolding True by (rule yields_weaken [OF yields_keeps]) (auto simp: main_is_safe_def)
  next
    case False
    show ?thesis
      by (rule yields_weaken [OF fail_restores [OF assms that False]]) (auto simp: main_is_safe_def)
  qed
  have "yields (known oid (oa_id old)) (\<lambda>_ _. True) (main_is_safe oid)
     (catch
       (andThen (switch_main oid tm client service new) (\<lambda>_.
        andThen (apply_and_publish oid c (ai_ip new)) (\<lambda>published.
        finish_rotation oid client service c (oa_id old) published)))
       (fail_rotation oid client service (Some (oa_id old)))) e" if "can_send client"
    by (rule yields_catch [OF yields_weaken [OF yields_keeps [OF work [of "oa_id old"]]] fail [OF that]])
       (simp_all add: known_holds)
  then show "yields (\<lambda>s. known oid (oa_id (fst x)) s \<and> can_send client) (\<lambda>_ _. True) (main_is_safe oid) (case x of (old, new) \<Rightarrow> catch
       (andThen (switch_main oid tm client service new) (\<lambda>_.
        andThen (apply_and_publish oid c (ai_ip new)) (\<lambda>published.
        finish_rotation oid client service c (oa_id old) published)))
       (fail_rotation oid client service (Some (oa_id old)))) e"
    unfolding x prod.case fst_conv by (rule yields_fact)
qed

section \<open>The whole task\<close>

definition started :: "ip_row \<Rightarrow> bool" where
  "started r \<longleftrightarrow> ip_purchase_state r \<noteq> NotStarted \<or> ip_make_main_state r \<noteq> NotStarted \<or> ip_apply_state r \<noteq> NotStarted"

definition mark_interrupted :: "int \<Rightarrow> unit io" where
  "mark_interrupted oid = update_ip oid (\<lambda>_. [IpStatus Ambiguous, IpStep ''manual_verification_required'', IpAction IpAmbiguous,
     IpError interrupted_message])"

text \<open>Nothing happens before the bound configuration is loaded and the row is known to be untouched.\<close>

lemma after_run:
  assumes idle: "\<And>res s'. only_others e s s' \<Longrightarrow> res \<noteq> Returned () \<Longrightarrow> Q res s'"
    and over: "\<And>r c u. only_others e s u \<Longrightarrow> load_ip_change_snapshot oid (rn_db u) = Inr (r, c) \<Longrightarrow>
      terminal (ip_status r) \<Longrightarrow> Q (Returned ()) u"
    and interrupted: "\<And>r c u. only_others e s u \<Longrightarrow> load_ip_change_snapshot oid (rn_db u) = Inr (r, c) \<Longrightarrow>
      started r \<Longrightarrow> after (mark_interrupted oid) Q e u"
    and fresh: "\<And>r c tm client service u s'. only_others e s u \<Longrightarrow> load_ip_change_snapshot oid (rn_db u) = Inr (r, c) \<Longrightarrow>
      \<not> terminal (ip_status r) \<Longrightarrow> \<not> started r \<Longrightarrow> only_others e s s' \<Longrightarrow> after (rotate oid tm client service c) Q e s'"
  shows "after (run_aeza_ip_change oid) Q e s"
proof -
  have load: "after (case x of (r, c) \<Rightarrow>
       if terminal (ip_status r) then skip
       else if started r then mark_interrupted oid
       else andThen new_aeza_client (\<lambda>client. andThen (reading aeza_service_id) (\<lambda>service. rotate oid tm client service c))) Q e v"
    if v: "only_others e s v" and x: "load_ip_change_snapshot oid (rn_db v) = Inr x" for v tm x
  proof -
    obtain r c where rc: "x = (r, c)" by fastforce
    note load = x [unfolded rc]
    have "after (andThen new_aeza_client (\<lambda>client. andThen (reading aeza_service_id) (\<lambda>service. rotate oid tm client service c))) Q e v"
      if "\<not> terminal (ip_status r)" "\<not> started r"
      unfolding new_aeza_client_def reading_def
    proof (rule after_query_others [OF v])
      fix u client assume "only_others e s u"
      then show "after (andThen (query (\<lambda>e d. Inr (aeza_service_id (en_config e) d)))
          (\<lambda>service. rotate oid tm client service c)) Q e u"
        by (rule after_query_others) (simp_all add: idle fresh [OF v load that])
    qed (simp_all add: idle)
    then show ?thesis
      using over [OF v load] interrupted [OF v load] by (simp add: rc after_skip)
  qed
  show ?thesis
    unfolding run_aeza_ip_change_def reading_result_def mark_interrupted_def [symmetric] started_def [symmetric]
    by (rule after_query_others [OF others_refl], simp_all add: idle, rule after_query_others [where s = s])
       (simp_all add: idle load)
qed

lemma interrupted_closes: "finishes (closed oid) (\<lambda>_. False) (mark_interrupted oid) e"
  unfolding mark_interrupted_def by (rule update_closes) (simp add: ends_def)

lemma keeps_interrupted:
  "keeps (unswitched oid) (mark_interrupted oid) e" "keeps (safe_deletions oid) (mark_interrupted oid) e"
  "keeps (watch oid (\<lambda>r. True) is_deletion (\<lambda>l. l = [])) (mark_interrupted oid) e"
  unfolding mark_interrupted_def by (rule row.keeps_update; simp)+

lemma load_bound:
  "load_ip_change_snapshot 1 (bound_ip_change c) = Inr ((new_ip_change 1 0 0)\<lparr>ip_status := Running\<rparr>, snapshot_of c)"
  by (simp add: load_ip_change_snapshot_def find_ip_row_def snapshot_at_def bound_ip_change_def new_ip_change_def
      fresh_snapshot_def empty_db_def snapshot_round_trip Let_def)

lemma keeps_rotate_preserving:
  assumes "pc_enabled (am_protocol (cc_amnezia c))"
  shows "keeps (watch oid (\<lambda>r. True) is_deletion (\<lambda>l. l = [])) (rotate oid tm client service c) e"
proof -
  have st: "stable (every_row oid (\<lambda>r. True)) e" by simp
  show ?thesis
    unfolding rotate_def buy_address_def
    by (intro keeps_intros row.keeps_finish_preserving row.keeps_find_old row.keeps_ensure row.keeps_step
        row.keeps_request_address row.keeps_confirm row.keeps_switch row.keeps_fail row.keeps_apply_and_publish st assms)
       simp_all
qed

section \<open>Properties\<close>

text \<open>C6.  The old address is deleted only while the row of the operation records the revision that was
  published with the new address, in every life of the task.\<close>

theorem old_address_deleted_only_after_publishing:
  assumes "\<forall>(e, f) \<in> set ls. stable (published oid) e" and "rn_log s = []"
  shows "\<forall>c \<in> set (deletions (rn_log (lives (run_aeza_ip_change oid) ls s))). published oid (c_db c)"
proof -
  have "safe_deletions oid (lives (run_aeza_ip_change oid) ls s)"
  proof (rule lives_keep)
    fix e f assume "(e, f) \<in> set ls"
    with assms(1) have st: "stable (published oid) e" by auto
    show "keeps (safe_deletions oid) (run_aeza_ip_change oid) e"
      unfolding keeps_def
    proof (intro allI impI, rule after_run)
      fix s s' :: run assume s: "safe_deletions oid s" and same: "only_others e s s'"
      then show s': "safe_deletions oid s'" by (simp add: guard_def on_def others_log)
      show "safe_deletions oid s'" by (rule s')
      show "after (mark_interrupted oid) (\<lambda>_. safe_deletions oid) e s'" by (rule keepsD [OF keeps_interrupted(2) s'])
      show "after (rotate oid tm client service c) (\<lambda>_. safe_deletions oid) e s'" for tm client service c
        by (rule keepsD [OF keeps_safe_rotate [OF st] s'])
    qed
  qed (simp_all add: guard_def on_def deleted_after_publishing_def assms(2))
  then show ?thesis by (simp add: guard_def on_def deleted_after_publishing_def deletions_def)
qed

theorem old_address_deleted_only_after_publishing_witness:
  "list_all (\<lambda>c. published 1 (c_db c)) (deletions (rn_log (lives (run_aeza_ip_change 1) [(silent_env, id)]
     (start_run (empty_db\<lparr>ip_ops := [new_ip_change 1 0 0]\<rparr>)))))"
  using old_address_deleted_only_after_publishing [of "[(silent_env, id)]" 1 "start_run (empty_db\<lparr>ip_ops := [new_ip_change 1 0 0]\<rparr>)"]
  by (simp add: start_run_def list_all_iff)

text \<open>With AmneziaWG in the bound configuration, for which the panel has no check through the new
  address, the task never asks the provider to delete the old one.\<close>

theorem amnezia_preserves_old_address:
  assumes "stable (\<lambda>d. \<exists>r. load_ip_change_snapshot oid d = Inr (r, c)) e"
    and "load_ip_change_snapshot oid (rn_db s) = Inr (r, c)" and "pc_enabled (am_protocol (cc_amnezia c))"
    and "rn_log s = []"
  shows "after (run_aeza_ip_change oid) (\<lambda>_ s'. deletions (rn_log s') = []) e s"
proof -
  let ?I = "watch oid (\<lambda>r. True) is_deletion (\<lambda>l. l = [])"
  have "after (run_aeza_ip_change oid) (\<lambda>_. ?I) e s"
  proof (rule after_run)
    fix s' assume "only_others e s s'"
    then show s': "?I s'" by (simp add: guard_def on_def others_log assms(4))
    show "?I s'" by (rule s')
    show "after (mark_interrupted oid) (\<lambda>_. ?I) e s'" by (rule keepsD [OF keeps_interrupted(3) s'])
    fix r' c' tm client service u
    assume u: "only_others e s u" and "load_ip_change_snapshot oid (rn_db u) = Inr (r', c')"
    moreover have "\<exists>r. load_ip_change_snapshot oid (rn_db u) = Inr (r, c)"
      by (rule others_stable [OF u assms(1)]) (use assms(2) in blast)
    ultimately have "pc_enabled (am_protocol (cc_amnezia c'))" using assms(3) by auto
    from keepsD [OF keeps_rotate_preserving [OF this] s']
    show "after (rotate oid tm client service c') (\<lambda>_. ?I) e s'" .
  qed
  then show ?thesis by (rule after_mono) (simp add: guard_def on_def deletions_def)
qed

theorem amnezia_preserves_old_address_witness:
  "\<exists>c. pc_enabled (am_protocol (cc_amnezia c)) \<and>
     after (run_aeza_ip_change 1) (\<lambda>_ s'. deletions (rn_log s') = []) silent_env (start_run (bound_ip_change c))"
proof -
  obtain c0 where "capture_vpn_config default_config empty_db = Inr c0" by (rule default_capture)
  let ?a = "cc_amnezia c0"
  let ?c = "c0\<lparr>cc_amnezia := ?a\<lparr>am_protocol := (am_protocol ?a)\<lparr>pc_enabled := True\<rparr>\<rparr>\<rparr>"
  have "load_ip_change_snapshot 1 (rn_db (start_run (bound_ip_change ?c))) = Inr ((new_ip_change 1 0 0)\<lparr>ip_status := Running\<rparr>, snapshot_of ?c)"
    by (simp add: start_run_def load_bound)
  from amnezia_preserves_old_address [OF silent_stable this] show ?thesis
    by (intro exI [of _ ?c]) (simp add: start_run_def snapshot_of_def)
qed

text \<open>C10.  Unless it is cancelled or the process stops, the task leaves either no trace of its own, or an ended
  operation that holds the VPS no longer.  The other tasks must not revive an ended operation.\<close>

theorem every_end_is_recorded:
  assumes "stable (settled oid) e"
  shows "after (run_aeza_ip_change oid) (\<lambda>r s'. r = Stopped \<or> r = Raised CancelledError \<or>
    settled oid (rn_db s') \<or> only_others e s s') e s"
proof (rule after_run)
  fix s' assume s': "only_others e s s'"
  show "after (mark_interrupted oid) (\<lambda>r s'. r = Stopped \<or> r = Raised CancelledError \<or>
      settled oid (rn_db s') \<or> only_others e s s') e s'"
    by (rule after_mono [OF yields_after [OF interrupted_closes]]) (auto split: outcome.splits)
  show "after (rotate oid tm client service c) (\<lambda>r s'. r = Stopped \<or> r = Raised CancelledError \<or>
      settled oid (rn_db s') \<or> only_others e s s') e s'" for tm client service c
    by (rule after_mono [OF yields_after [OF rotate_closes [OF assms]]]) (auto split: outcome.splits)
qed simp_all

theorem every_end_is_recorded_witness:
  "after (run_aeza_ip_change 1) (\<lambda>r s'. r = Stopped \<or> r = Raised CancelledError \<or>
    settled 1 (rn_db s') \<or> only_others silent_env (start_run (empty_db\<lparr>ip_ops := [new_ip_change 1 0 0]\<rparr>)) s')
    silent_env (start_run (empty_db\<lparr>ip_ops := [new_ip_change 1 0 0]\<rparr>))"
  by (rule every_end_is_recorded) simp



text \<open>C9.  A rotation that fails after it asked the provider to switch the main address has asked last for
  the old one again, the address whose id its row records, unless the provider gave no id for it.\<close>

theorem failed_switch_is_taken_back:
  assumes "\<forall>v. stable (old_is oid v) e" and "rn_log s = []"
  shows "after (run_aeza_ip_change oid) (\<lambda>r s'. \<forall>x. r = Raised x \<and> x \<noteq> CancelledError \<longrightarrow>
     calls_of (asks is_make_main) (rn_log s') = [] \<or>
     (\<exists>v. old_is oid v (rn_db s') \<and> (v = [] \<or> asked_last v (calls_of (asks is_make_main) (rn_log s'))))) e s"
proof -
  have start: "unswitched oid s'" if "only_others e s s'" for s'
    using that by (simp add: guard_def on_def others_log assms(2))
  have "after (run_aeza_ip_change oid) (\<lambda>r s'. (\<exists>x. r = Raised x \<and> x \<noteq> CancelledError) \<longrightarrow> main_is_safe oid s') e s"
  proof (rule after_run)
    fix s' assume "only_others e s s'"
    then have s': "unswitched oid s'" by (rule start)
    then show safe: "(\<exists>x. r = Raised x \<and> x \<noteq> CancelledError) \<longrightarrow> main_is_safe oid s'" for r :: "unit outcome"
      by (simp add: main_is_safe_def)
    show "(\<exists>x. Returned () = Raised x \<and> x \<noteq> CancelledError) \<longrightarrow> main_is_safe oid s'" by simp
    show "after (mark_interrupted oid) (\<lambda>r s'. (\<exists>x. r = Raised x \<and> x \<noteq> CancelledError) \<longrightarrow> main_is_safe oid s') e s'"
      by (rule after_mono [OF keepsD [OF keeps_interrupted(1) s']], unfold main_is_safe_def, blast)
    show "after (rotate oid tm client service c) (\<lambda>r s'. (\<exists>x. r = Raised x \<and> x \<noteq> CancelledError) \<longrightarrow> main_is_safe oid s') e s'"
      for tm client service c
      by (rule after_mono [OF yields_after [OF rotate_is_safe s']]) (use assms(1) in \<open>auto split: outcome.splits\<close>)
  qed
  then show ?thesis
    by (rule after_mono) (auto simp: main_is_safe_def guard_def on_def old_is_def)
qed

theorem failed_switch_is_taken_back_witness:
  "after (run_aeza_ip_change 1) (\<lambda>r s'. \<not> (\<exists>x. r = Raised x \<and> x \<noteq> CancelledError \<and> \<not>
     (calls_of (asks is_make_main) (rn_log s') = [] \<or>
     (\<exists>v. old_is 1 v (rn_db s') \<and> (v = [] \<or> asked_last v (calls_of (asks is_make_main) (rn_log s')))))))
     silent_env (start_run (empty_db\<lparr>ip_ops := [new_ip_change 1 0 0]\<rparr>))"
  using failed_switch_is_taken_back [of 1 silent_env "start_run (empty_db\<lparr>ip_ops := [new_ip_change 1 0 0]\<rparr>)"]
  by (rule after_mono) (auto simp: start_run_def)

end
