(* ===== verification/ServerOps.thy ===== *)
theory ServerOps
  imports IpChange
begin

text \<open>
  \<open>app/server_operations.py\<close>: the rows of the server operations and the three tasks that work on
  them, the status refresh, the protocol refresh and the reboot of the VPS.
\<close>

section \<open>Timing and texts\<close>

record server_timing =
  st_reboot_timeout :: int
  st_poll_interval :: int

text \<open>As for the rotation, the three timeouts that only bound one call are read and not kept.\<close>

definition configured_server_timing :: "config \<Rightarrow> db \<Rightarrow> exn + server_timing" where
  "configured_server_timing cfg d =
     bind_result (config_int cfg d ''server_status_timeout_seconds'' 15) (\<lambda>_.
     bind_result (config_int cfg d ''server_reboot_timeout_seconds'' 300) (\<lambda>reboot.
     bind_result (config_int cfg d ''server_poll_interval_seconds'' 5) (\<lambda>interval.
     bind_result (config_int cfg d ''server_ssh_probe_timeout_seconds'' 5) (\<lambda>_.
     bind_result (config_int cfg d ''server_command_timeout_seconds'' 30) (\<lambda>_.
       Inr \<lparr>st_reboot_timeout = reboot, st_poll_interval = interval\<rparr>)))))"

definition clean_value :: "nat \<Rightarrow> string \<Rightarrow> string" where
  "clean_value limit s = py_take limit (one_line s)"

definition server_safe_text :: "string \<Rightarrow> config \<Rightarrow> db \<Rightarrow> string" where
  "server_safe_text s cfg d =
     sanitize_error [aeza_token cfg d, eu_ssh_password None cfg d, sb_key (sprintbox_config cfg d)] 4000 s"

definition server_safe_error :: "exn \<Rightarrow> config \<Rightarrow> db \<Rightarrow> string" where
  "server_safe_error x = server_safe_text (exn_text x)"

section \<open>Rows\<close>

definition new_server_row :: "int \<Rightarrow> server_kind \<Rightarrow> string \<Rightarrow> ts \<Rightarrow> server_row" where
  "new_server_row oid kind step t =
     \<lparr>sv_id = oid, sv_kind = kind, sv_status = Pending, sv_current_step = step,
      sv_action_state = SrvNotStarted, sv_provider_status = None, sv_provider_ip = None,
      sv_ssh_status = None, sv_services_json = None, sv_protocol_health_json = None,
      sv_result_message = None, sv_warning_message = None, sv_error_message = None,
      sv_created_at = t, sv_updated_at = t, sv_started_at = None, sv_completed_at = None\<rparr>"

definition insert_server_operation :: "server_kind \<Rightarrow> string \<Rightarrow> int \<Rightarrow> int tx" where
  "insert_server_operation kind step now d =
     (let oid = server_seq d + 1;
          d1 = d\<lparr>server_ops := server_ops d @ [new_server_row oid kind step (iso now)], server_seq := oid\<rparr>
      in bind_result (acquire_vps_lease now (LeaseOwner Server oid) default_lease_seconds d1) (\<lambda>d2. Inr (oid, d2)))"

definition create_server_operation :: "server_kind \<Rightarrow> int \<Rightarrow> int tx" where
  "create_server_operation kind = insert_server_operation kind ''queued''"

definition create_protocol_refresh_operation :: "int \<Rightarrow> int tx" where
  "create_protocol_refresh_operation = insert_server_operation StatusKind ''queued_protocol_refresh''"

datatype server_field =
    SvStatus op_status | SvStep string | SvAction server_action | SvProviderStatus string
  | SvProviderIp string | SvSsh string | SvServices string | SvProtocolHealth string
  | SvResult string | SvWarning string | SvError string | SvStartedAt ts | SvCompletedAt ts

text \<open>Errors and warnings are sanitized, the other texts made one bounded line.\<close>

fun set_server_field :: "config \<Rightarrow> db \<Rightarrow> server_field \<Rightarrow> server_row \<Rightarrow> server_row" where
  "set_server_field cfg d (SvStatus s) r = r\<lparr>sv_status := s\<rparr>"
| "set_server_field cfg d (SvStep s) r = r\<lparr>sv_current_step := clean_value 4000 s\<rparr>"
| "set_server_field cfg d (SvAction a) r = r\<lparr>sv_action_state := a\<rparr>"
| "set_server_field cfg d (SvProviderStatus s) r = r\<lparr>sv_provider_status := Some (clean_value 4000 s)\<rparr>"
| "set_server_field cfg d (SvProviderIp s) r = r\<lparr>sv_provider_ip := Some (clean_value 4000 s)\<rparr>"
| "set_server_field cfg d (SvSsh s) r = r\<lparr>sv_ssh_status := Some (clean_value 4000 s)\<rparr>"
| "set_server_field cfg d (SvServices s) r = r\<lparr>sv_services_json := Some (clean_value 4000 s)\<rparr>"
| "set_server_field cfg d (SvProtocolHealth s) r = r\<lparr>sv_protocol_health_json := Some (clean_value 4000 s)\<rparr>"
| "set_server_field cfg d (SvResult s) r = r\<lparr>sv_result_message := Some (clean_value 4000 s)\<rparr>"
| "set_server_field cfg d (SvWarning s) r = r\<lparr>sv_warning_message := Some (server_safe_text s cfg d)\<rparr>"
| "set_server_field cfg d (SvError s) r = r\<lparr>sv_error_message := Some (server_safe_text s cfg d)\<rparr>"
| "set_server_field cfg d (SvStartedAt t) r = r\<lparr>sv_started_at := Some t\<rparr>"
| "set_server_field cfg d (SvCompletedAt t) r = r\<lparr>sv_completed_at := Some t\<rparr>"

fun server_new_status :: "server_field list \<Rightarrow> op_status option" where
  "server_new_status [] = None"
| "server_new_status (SvStatus s # fs) = (case server_new_status fs of None \<Rightarrow> Some s | Some t \<Rightarrow> Some t)"
| "server_new_status (_ # fs) = server_new_status fs"

definition update_server_operation :: "config \<Rightarrow> int \<Rightarrow> int \<Rightarrow> server_field list \<Rightarrow> db \<Rightarrow> db" where
  "update_server_operation cfg now oid fs d =
     (if fs = [] then d
      else
        (let d1 = d\<lparr>server_ops := update_where (\<lambda>r. sv_id r = oid)
                      (\<lambda>r. (fold (set_server_field cfg d) fs r)\<lparr>sv_updated_at := iso now\<rparr>) (server_ops d)\<rparr>
         in if ends (server_new_status fs) then snd (release_vps_lease (LeaseOwner Server oid) d1)
            else snd (heartbeat_vps_lease now (LeaseOwner Server oid) default_lease_seconds d1)))"

definition may_send_reboot :: "int \<Rightarrow> server_row \<Rightarrow> bool" where
  "may_send_reboot oid r \<longleftrightarrow>
     sv_id r = oid \<and> sv_kind r = RebootKind \<and> active (sv_status r) \<and> sv_action_state r = SrvNotStarted"

definition mark_reboot_sending :: "int \<Rightarrow> int \<Rightarrow> db \<Rightarrow> bool \<times> db" where
  "mark_reboot_sending now oid d =
     (let d1 = d\<lparr>server_ops := update_where (may_send_reboot oid)
          (\<lambda>r. r\<lparr>sv_status := Running, sv_current_step := ''send_reboot'', sv_action_state := SrvSending,
                 sv_started_at := (case sv_started_at r of None \<Rightarrow> Some (iso now) | Some t \<Rightarrow> Some t),
                 sv_updated_at := iso now\<rparr>) (server_ops d)\<rparr>
      in if row_count (may_send_reboot oid) (server_ops d) = 1
         then (True, snd (heartbeat_vps_lease now (LeaseOwner Server oid) default_lease_seconds d1))
         else (False, d1))"

definition get_server_operation :: "int \<Rightarrow> db \<Rightarrow> server_row option" where
  "get_server_operation oid d = select_first (\<lambda>r. sv_id r = oid) (server_ops d)"

definition get_latest_server_operation :: "server_kind option \<Rightarrow> db \<Rightarrow> server_row option" where
  "get_latest_server_operation kind d =
     select_last (\<lambda>r. case kind of None \<Rightarrow> True | Some k \<Rightarrow> sv_kind r = k) (server_ops d)"

definition list_server_operations :: "int \<Rightarrow> db \<Rightarrow> server_row list" where
  "list_server_operations limit d = sql_limit limit (rev (server_ops d))"

definition get_active_vps_operation :: "db \<Rightarrow> lease_row option" where
  "get_active_vps_operation d = select_first (\<lambda>l. le_resource l = vpn_vps) (leases d)"

section \<open>The provider\<close>

datatype provider_client = AezaProvider aeza_client | SprintboxProvider sprintbox_client

definition server_client :: "provider_client io" where
  "server_client = reading (\<lambda>cfg d.
     if provider_name cfg d = ''sprintbox'' then
       SprintboxProvider \<lparr>sp_login = sb_login (sprintbox_config cfg d), sp_key = sb_key (sprintbox_config cfg d)\<rparr>
     else AezaProvider \<lparr>ac_base = rstrip_slash (aeza_api_base cfg d), ac_token = aeza_token cfg d\<rparr>)"

definition provider_label :: "config \<Rightarrow> db \<Rightarrow> string" where
  "provider_label cfg d = (if provider_name cfg d = ''sprintbox'' then ''SprintBOX'' else ''Aeza'')"

definition get_service :: "provider_client \<Rightarrow> string \<Rightarrow> service_state io" where
  "get_service client service =
     (case client of
        AezaProvider c \<Rightarrow>
          andThen (aeza_request_io c service GetService) (\<lambda>v.
            with_env (\<lambda>e. ret (normalize_service (en_repr e) v)))
      | SprintboxProvider c \<Rightarrow>
          andThen (sprintbox_request_io c (ShowBox service)) (\<lambda>v.
          andThen (lift (box_of service v)) (\<lambda>box.
            with_env (\<lambda>e. ret (box_service (en_repr e) box)))))"

definition reboot_service :: "provider_client \<Rightarrow> string \<Rightarrow> json io" where
  "reboot_service client service =
     (case client of
        AezaProvider c \<Rightarrow> aeza_request_io c service RebootService
      | SprintboxProvider c \<Rightarrow>
          andThen (sprintbox_request_io c (RestartBox service)) (\<lambda>v.
          andThen (lift (task_id v)) (\<lambda>t. ret (JStr t))))"

definition task_status_io :: "sprintbox_client \<Rightarrow> string \<Rightarrow> task_state io" where
  "task_status_io client task =
     andThen (sprintbox_request_io client (ShowStatus task)) (\<lambda>v. lift (task_status task v))"

definition provider_is_up :: "string \<Rightarrow> bool option" where
  "provider_is_up status =
     (let s = py_lower (py_strip status) in
      if s \<in> {''running'', ''active'', ''online'', ''started''} then Some True
      else if s \<in> {''stopped'', ''inactive'', ''offline'', ''down'', ''rebooting'', ''restarting''} then Some False
      else None)"

section \<open>Health of services and protocols\<close>

definition service_line :: "string \<Rightarrow> (string \<times> string) list \<Rightarrow> (string \<times> string) list" where
  "service_line line result =
     (case partition_at (CHR ''='') line of (name, found, state) \<Rightarrow>
        if found \<and> name \<in> {''xray'', ''hysteria-server'', ''awg-quick@awg0''} then
          dict_put name (if py_strip state = ''active'' then ''active'' else ''inactive'') result
        else result)"

definition parse_services :: "string \<Rightarrow> (string \<times> string) list" where
  "parse_services output = fold service_line (split_lines output) []"

definition enabled_services :: "config \<Rightarrow> db \<Rightarrow> string list" where
  "enabled_services cfg d =
     (if protocol_enabled d ''vless'' True then [''xray''] else []) @
     (if protocol_enabled d ''hysteria'' True then [''hysteria-server''] else []) @
     (if protocol_enabled d ''amnezia'' True then [''awg-quick@awg0''] else [])"

definition protocol_summary :: "protocol_status list \<Rightarrow> json" where
  "protocol_summary rows =
     JList (map (\<lambda>s. JObj [(''key'', JStr (ps_key s)), (''status'', JStr (ps_status s))]) rows)"

definition health_problems :: "string list \<Rightarrow> string list \<Rightarrow> string" where
  "health_problems unhealthy failed = join ''; ''
     ((if unhealthy = [] then [] else [''inactive services: '' @ join '', '' unhealthy]) @
      (if failed = [] then [] else [''failed protocols: '' @ join '', '' failed]))"

definition update_server :: "int \<Rightarrow> (ts \<Rightarrow> server_field list) \<Rightarrow> unit io" where
  "update_server oid fs = store (\<lambda>e now d. update_server_operation (en_config e) now oid (fs (iso now)) d)"

text \<open>
  \<open>asyncio.wait_for\<close> around several steps: when the time is up, the step that is being awaited is
  cancelled and the cancellation comes out as a timeout.  The panel cancels its tasks in no other
  way; the end of the process is a stop.
\<close>

definition within :: "'a io \<Rightarrow> 'a io" where
  "within m e s =
     (case m e s of
        (Raised x, s') \<Rightarrow> (Raised (if x = CancelledError then TimeoutError else x), s')
      | r \<Rightarrow> r)"

definition service_and_protocol_health :: "int \<Rightarrow> string \<Rightarrow> string io" where
  "service_and_protocol_health oid host =
     andThen (update_server oid (\<lambda>_. [SvStep ''service_health''])) (\<lambda>_.
     andThen (run_script host ServiceStatus) (\<lambda>(code, output).
     let services = (if code = 0 then parse_services output else []) in
     andThen (update_server oid (\<lambda>_. [SvServices (dumps (JObj (map (\<lambda>(k, v). (k, JStr v)) services)))])) (\<lambda>_.
     andThen (reading (\<lambda>cfg d. filter (\<lambda>s. map_of services s \<noteq> Some ''active'') (enabled_services cfg d))) (\<lambda>unhealthy.
     andThen (update_server oid (\<lambda>_. [SvStep ''protocol_health''])) (\<lambda>_.
     andThen (within (refresh_protocol_statuses host)) (\<lambda>rows.
     andThen (update_server oid (\<lambda>_. [SvProtocolHealth (dumps (protocol_summary rows))])) (\<lambda>_.
       ret (health_problems unhealthy (map ps_key (filter (\<lambda>s. ps_status s = ''FAILED'') rows))))))))))"

section \<open>Status and protocol refresh\<close>

text \<open>\<open>except TimeoutError\<close>, then \<open>except Exception\<close>.\<close>

definition refresh_failed :: "int \<Rightarrow> (config \<Rightarrow> db \<Rightarrow> string) \<Rightarrow> exn \<Rightarrow> unit io" where
  "refresh_failed oid timed_out x =
     (if x = TimeoutError then
        andThen (reading timed_out) (\<lambda>text.
        update_server oid (\<lambda>t. [SvStatus TimedOut, SvStep ''timed_out'', SvError text, SvCompletedAt t]))
      else
        andThen (reading (server_safe_error x)) (\<lambda>text.
        update_server oid (\<lambda>t. [SvStatus Failed, SvStep ''failed'', SvError text, SvCompletedAt t])))"

definition first_host :: "string \<Rightarrow> config \<Rightarrow> db \<Rightarrow> string" where
  "first_host provider_ip cfg d = or_text (resolve_eu_host cfg d) (or_text provider_ip (setting d ''current_ip''))"

definition ssh_reachable :: "string \<Rightarrow> bool io" where
  "ssh_reachable host =
     (if host = [] then ret False
      else andThen (reading_result (eu_ssh_port None)) (\<lambda>port. tcp_check host port))"

definition ssh_text :: "bool \<Rightarrow> string" where
  "ssh_text up = (if up then ''UP'' else ''DOWN'')"

definition refresh_server_status :: "int \<Rightarrow> unit io" where
  "refresh_server_status oid =
     andThen (update_server oid (\<lambda>t. [SvStatus Running, SvStep ''provider_status'', SvStartedAt t])) (\<lambda>_.
     andThen server_client (\<lambda>client.
     andThen (reading provider_service_id) (\<lambda>service.
     andThen (get_service client service) (\<lambda>s.
     let status = clean_value 200 (ss_provider_status s); ip = clean_value 200 (ss_ip s) in
     andThen (update_server oid (\<lambda>_. [SvProviderStatus status, SvProviderIp ip, SvStep ''ssh_reachability''])) (\<lambda>_.
     andThen (reading (first_host ip)) (\<lambda>host.
     andThen (ssh_reachable host) (\<lambda>up.
     andThen (update_server oid (\<lambda>_. [SvSsh (ssh_text up)])) (\<lambda>_.
     andThen (if up then service_and_protocol_health oid host
              else ret ''SSH is unreachable; service and protocol checks were skipped'') (\<lambda>warning.
     andThen (reading provider_label) (\<lambda>label.
       update_server oid (\<lambda>t. [SvStatus Done, SvStep ''done'', SvResult (label @ '' VPS status refreshed''),
         SvWarning warning, SvCompletedAt t])))))))))))"

definition run_server_status :: "int \<Rightarrow> unit io" where
  "run_server_status oid =
     andThen (reading_result configured_server_timing) (\<lambda>_.
       catch (refresh_server_status oid) 
        (refresh_failed oid (\<lambda>cfg d. provider_label cfg d @ '' VPS status refresh timed out'')))"

definition refresh_protocols :: "int \<Rightarrow> unit io" where
  "refresh_protocols oid =
     andThen (reading (\<lambda>cfg d. or_text (resolve_eu_host cfg d) (setting d ''current_ip''))) (\<lambda>host.
     andThen (onlyIf (host = []) (throw (RuntimeError ''VPN VPS host is not configured''))) (\<lambda>_.
     andThen (update_server oid (\<lambda>t. [SvStatus Running, SvStep ''protocol_health'', SvStartedAt t])) (\<lambda>_.
     andThen (within (refresh_protocol_statuses host)) (\<lambda>rows.
       update_server oid (\<lambda>t. [SvStatus Done, SvStep ''done'', SvProtocolHealth (dumps (protocol_summary rows)),
         SvResult ''VPN protocol status refreshed'', SvCompletedAt t])))))"

definition run_protocol_refresh :: "int \<Rightarrow> unit io" where
  "run_protocol_refresh oid =
     andThen (reading_result configured_server_timing) (\<lambda>_.
     andThen (reading (\<lambda>cfg d. get_server_operation oid d)) (\<lambda>op.
       case op of
         None \<Rightarrow> skip
       | Some r \<Rightarrow>
           if sv_current_step r \<noteq> ''queued_protocol_refresh'' then skip
           else catch (refresh_protocols oid)
             (refresh_failed oid (\<lambda>cfg d. ''VPN protocol status refresh timed out''))))"

section \<open>Reboot\<close>

text \<open>What one round after another has seen, and the warnings so far.\<close>

record reboot_progress =
  rp_saw_ssh_down :: bool
  rp_provider_waiting :: bool
  rp_ssh_waiting :: bool
  rp_warnings :: "string list"

definition already_sent_message :: string where
  "already_sent_message = ''Reboot may already have been sent; it was not sent again''"

fun setting_text :: "json \<Rightarrow> string option" where
  "setting_text (JStr s) = Some s"
| "setting_text (JInt i) = Some (int_str i)"
| "setting_text (JFloat r) = Some r"
| "setting_text (JBool b) = Some (if b then ''1'' else ''0'')"
| "setting_text _ = None"

definition keep_reboot_task :: "int \<Rightarrow> json \<Rightarrow> unit io" where
  "keep_reboot_task oid response =
     (case setting_text response of
        Some task \<Rightarrow> saving (''server_operation.'' @ int_str oid @ ''.sprintbox_task'') task
      | None \<Rightarrow> throw (IntegrityError ''the task is not a text''))"

definition ambiguous_reboot :: "int \<Rightarrow> json \<Rightarrow> exn \<Rightarrow> (json \<times> string option) io" where
  "ambiguous_reboot oid task x =
     andThen (reading (\<lambda>cfg d. provider_label cfg d @ '' reboot request result is ambiguous: '' @
       server_safe_error x cfg d)) (\<lambda>warning.
     andThen (update_server oid (\<lambda>_. [SvAction SrvAmbiguous, SvStep ''verify_ambiguous_reboot'', SvWarning warning])) (\<lambda>_.
       ret (task, Some warning)))"

text \<open>
  The request itself: the task to wait for, if the provider has tasks, and a warning when the outcome
  is not known.  The provider is read again, and an exception may come before or after the answer is
  the task.
\<close>

definition send_reboot :: "int \<Rightarrow> provider_client \<Rightarrow> string \<Rightarrow> (json \<times> string option) io" where
  "send_reboot oid client service =
     catch
       (andThen (reboot_service client service) (\<lambda>response.
        andThen (reading (\<lambda>cfg d. provider_name cfg d = ''sprintbox'')) (\<lambda>has_tasks.
        let task = (if has_tasks then response else JNull) in
        catch
          (andThen (onlyIf has_tasks (keep_reboot_task oid response)) (\<lambda>_.
           andThen (update_server oid (\<lambda>_. [SvAction SrvSent, SvStep ''wait_reboot''])) (\<lambda>_. ret (task, None))))
          (ambiguous_reboot oid task))))
       (ambiguous_reboot oid JNull)"

definition reboot_task_done :: "provider_client \<Rightarrow> json \<Rightarrow> bool io" where
  "reboot_task_done client task =
     (if \<not> truthy task then ret True
      else andThen
        (case (client, task) of
           (SprintboxProvider c, JStr t) \<Rightarrow> task_status_io c t
         | _ \<Rightarrow> throw (TypeError ''the client has no such task'')) (\<lambda>st.
        if st = TaskError then throw (RuntimeError ''SprintBOX reboot task failed; inspect the panel'')
        else ret (st = TaskFinished)))"

definition provider_round :: "int \<Rightarrow> provider_client \<Rightarrow> string \<Rightarrow> (bool option \<times> bool) io" where
  "provider_round oid client service =
     catch
       (andThen (get_service client service) (\<lambda>s.
        let status = clean_value 200 (ss_provider_status s); up = provider_is_up status in
        andThen (update_server oid (\<lambda>_. [SvProviderStatus status, SvProviderIp (clean_value 200 (ss_ip s))])) (\<lambda>_.
          ret (up, up = Some False))))
       (\<lambda>x. if x = TimeoutError then ret (Some False, True) else throw x)"

definition finish_reboot :: "int \<Rightarrow> bool \<Rightarrow> string list \<Rightarrow> string \<Rightarrow> unit io" where
  "finish_reboot oid ambiguous warnings health =
     (let st = (if ambiguous then Ambiguous else if health = [] then Done else Failed) in
      update_server oid (\<lambda>t.
        [SvStatus st, SvStep (if st = Done then ''done'' else ''verification_complete''),
         SvResult ''VPS reboot verification completed'',
         SvWarning (join ''; '' (if health = [] then warnings else warnings @ [health])),
         SvError (if ambiguous then ''Reboot request outcome remains ambiguous'' else health), SvCompletedAt t]))"

definition reboot_timed_out :: "int \<Rightarrow> bool \<Rightarrow> reboot_progress \<Rightarrow> unit io" where
  "reboot_timed_out oid ambiguous p =
     andThen
       (if rp_provider_waiting p then
          reading (\<lambda>cfg d. (provider_label cfg d @ '' did not report VPS recovery before timeout'', ''wait_provider''))
        else ret (if rp_ssh_waiting p then (''SSH did not become reachable before timeout'', ''wait_ssh'')
                  else (''VPS reboot verification timed out'', ''timed_out''))) (\<lambda>(message, step).
       update_server oid (\<lambda>t. [SvStatus (if ambiguous then Ambiguous else TimedOut), SvStep step, SvError message,
         SvWarning (join ''; '' (rp_warnings p)), SvCompletedAt t]))"

definition verify_reboot :: "int \<Rightarrow> string \<Rightarrow> bool \<Rightarrow> reboot_progress \<Rightarrow> unit io" where
  "verify_reboot oid host ambiguous p =
     andThen (service_and_protocol_health oid host) (\<lambda>health.
       finish_reboot oid ambiguous
         (rp_warnings p @ (if rp_saw_ssh_down p then [] else [''SSH-down transition was not observed before recovery'']))
         health)"

definition reboot_started :: "string option \<Rightarrow> reboot_progress" where
  "reboot_started warning =
     \<lparr>rp_saw_ssh_down = False, rp_provider_waiting = False, rp_ssh_waiting = True,
      rp_warnings = (case warning of None \<Rightarrow> [] | Some w \<Rightarrow> [w])\<rparr>"

fun await_reboot ::
  "int \<Rightarrow> int \<Rightarrow> provider_client \<Rightarrow> string \<Rightarrow> string \<Rightarrow> json \<Rightarrow> bool \<Rightarrow> nat \<Rightarrow> reboot_progress \<Rightarrow> unit io" where
  "await_reboot oid interval client service host task ambiguous 0 p = reboot_timed_out oid ambiguous p"
| "await_reboot oid interval client service host task ambiguous (Suc n) p =
     andThen (update_server oid (\<lambda>_. [SvStep (if ambiguous then ''verify_ambiguous_reboot'' else ''verify_reboot'')])) (\<lambda>_.
     andThen (reboot_task_done client task) (\<lambda>finished.
       if \<not> finished then
         andThen (onlyIf (0 < n) (sleeper interval)) (\<lambda>_.
           await_reboot oid interval client service host task ambiguous n (p\<lparr>rp_provider_waiting := True\<rparr>))
       else
         andThen (provider_round oid client service) (\<lambda>(up, waiting).
         andThen (ssh_reachable host) (\<lambda>ssh.
         let p' = p\<lparr>rp_provider_waiting := waiting, rp_ssh_waiting := \<not> ssh,
                    rp_saw_ssh_down := rp_saw_ssh_down p \<or> \<not> ssh\<rparr> in
         andThen (update_server oid (\<lambda>_. [SvSsh (ssh_text ssh)])) (\<lambda>_.
           if ssh \<and> up \<noteq> Some False then verify_reboot oid host ambiguous p'
           else
             andThen (onlyIf (0 < n) (sleeper interval)) (\<lambda>_.
               await_reboot oid interval client service host task ambiguous n p'))))))"

definition reboot_vps :: "int \<Rightarrow> server_timing \<Rightarrow> unit io" where
  "reboot_vps oid tm =
     andThen server_client (\<lambda>client.
     andThen (reading provider_service_id) (\<lambda>service.
     andThen (update_server oid (\<lambda>t. [SvStatus Running, SvStep ''provider_status_before_reboot'', SvStartedAt t])) (\<lambda>_.
     andThen (get_service client service) (\<lambda>s.
     let ip = clean_value 200 (ss_ip s) in
     andThen (update_server oid (\<lambda>_. [SvProviderStatus (clean_value 200 (ss_provider_status s)), SvProviderIp ip])) (\<lambda>_.
     andThen (reading (first_host ip)) (\<lambda>host.
     andThen (onlyIf (host = []) (throw (RuntimeError ''VPN VPS host is not configured''))) (\<lambda>_.
     andThen (transact (\<lambda>e now d. Inr (mark_reboot_sending now oid d))) (\<lambda>marked.
     andThen (onlyIf (\<not> marked)
       (throw (RuntimeError ''Reboot action was already started and will not be sent again''))) (\<lambda>_.
     andThen (send_reboot oid client service) (\<lambda>(task, warning).
       await_reboot oid (st_poll_interval tm) client service host task (warning \<noteq> None)
         (attempts_ceil (st_reboot_timeout tm) (st_poll_interval tm)) (reboot_started warning)))))))))))"

text \<open>The handler: a row that shows that the request may have been sent becomes ambiguous.\<close>

definition reboot_may_be_sent :: "server_row option \<Rightarrow> bool" where
  "reboot_may_be_sent op =
     (case op of None \<Rightarrow> False | Some r \<Rightarrow> sv_action_state r \<in> {SrvSending, SrvSent, SrvAmbiguous})"

definition reboot_failed :: "int \<Rightarrow> exn \<Rightarrow> unit io" where
  "reboot_failed oid x =
     andThen (reading (\<lambda>cfg d. reboot_may_be_sent (get_server_operation oid d))) (\<lambda>sent.
     andThen (reading (server_safe_error x)) (\<lambda>text.
       update_server oid (\<lambda>t. [SvStatus (if sent then Ambiguous else Failed),
         SvAction (if sent then SrvAmbiguous else SrvNotStarted), SvStep ''failed'', SvError text, SvCompletedAt t])))"

definition run_server_reboot :: "int \<Rightarrow> unit io" where
  "run_server_reboot oid =
     andThen (reading_result configured_server_timing) (\<lambda>tm.
     andThen (reading (\<lambda>cfg d. get_server_operation oid d)) (\<lambda>op.
       case op of
         None \<Rightarrow> skip
       | Some r \<Rightarrow>
           if sv_action_state r = SrvNotStarted then catch (reboot_vps oid tm) (reboot_failed oid)
           else if terminal (sv_status r) then skip
           else update_server oid (\<lambda>t. [SvStatus Ambiguous, SvAction SrvAmbiguous,
             SvStep ''manual_verification_required'', SvError already_sent_message, SvCompletedAt t])))"

section \<open>What the protocol checks keep\<close>

text \<open>
  The checks and their bookkeeping write settings and call probes and scripts; an invariant that
  neither concerns passes through.
\<close>

definition check_event :: "event \<Rightarrow> bool" where
  "check_event v = (case v of TcpProbe h n \<Rightarrow> True | UdpProbe h n \<Rightarrow> True | RunScript h x \<Rightarrow> True | _ \<Rightarrow> False)"

definition unconcerned :: "(db \<Rightarrow> call list \<Rightarrow> bool) \<Rightarrow> env \<Rightarrow> bool" where
  "unconcerned J e \<longleftrightarrow> steady J e \<and> (\<forall>now k v d l. J d l \<longrightarrow> J (set_setting now k v d) l) \<and>
     (\<forall>v d l r. check_event v \<longrightarrow> J d l \<longrightarrow> J d (l @ [\<lparr>c_event = v, c_reply = r, c_db = d\<rparr>]))"

lemma keeps_each [keeps_intros]: "(\<And>x. keeps I (f x) e) \<Longrightarrow> keeps I (each f xs) e"
  by (induction xs) (auto intro!: keeps_intros)

lemma leads_each:
  assumes "\<And>x. leads I (f x) (\<lambda>y s. I s \<and> Y y) I e"
  shows "leads I (each f xs) (\<lambda>ys s. I s \<and> list_all Y ys) I e"
proof (induction xs)
  case Nil
  show ?case by (simp add: leads_ret)
next
  case (Cons x xs)
  have rest: "leads (\<lambda>s. I s \<and> Y y) (andThen (each f xs) (\<lambda>ys. ret (y # ys))) (\<lambda>ys s. I s \<and> list_all Y ys) I e" for y
  proof (cases "Y y")
    case True
    have "leads I (andThen (each f xs) (\<lambda>ys. ret (y # ys))) (\<lambda>ys s. I s \<and> list_all Y ys) I e"
      by (rule leads_andThen [OF Cons.IH], rule leads_ret) (simp add: True)
    then show ?thesis by (rule leads_weaken) simp_all
  next
    case False
    then show ?thesis by (simp add: leads_def)
  qed
  show ?case unfolding each.simps by (rule leads_andThen [OF assms rest])
qed

lemma check_steps:
  assumes J: "unconcerned J e"
  shows "keeps (on J) (query f) e" "keeps (on J) (reading g) e" "keeps (on J) (reading_result h) e"
  "keeps (on J) (saving k v) e" "keeps (on J) time_now e"
  "check_event w \<Longrightarrow> keeps (on J) (send w) e"
  using J unfolding unconcerned_def reading_def reading_result_def saving_def time_now_def
  by (auto intro!: keeps_query keeps_store keeps_send keeps_transact)

lemma check_script:
  assumes J: "unconcerned J e"
  shows "keeps (on J) (run_script host script) e"
  unfolding run_script_def by (auto intro!: keeps_intros check_steps [OF J] simp: check_event_def split: reply.split)

lemma check_probe:
  assumes J: "unconcerned J e"
  shows "keeps (on J) (tcp_probe host port) e" "keeps (on J) (udp_probe host port) e"
    "keeps (on J) (probe_of kind host port) e" "keeps (on J) (tcp_check host port) e"
  unfolding probe_of_def tcp_check_def tcp_probe_def udp_probe_def probe_def
  by (auto intro!: keeps_intros check_steps [OF J] simp: check_event_def split: reply.split probe_kind.split)

lemma check_deep:
  assumes J: "unconcerned J e"
  shows "keeps (on J) (run_deep_checks address) e"
  unfolding run_deep_checks_def deep_run_def by (intro keeps_intros check_steps [OF J] check_script [OF J])

lemma check_tasks:
  assumes J: "unconcerned J e"
  shows "leads (on J) (each (probe_task ip) ps)
     (\<lambda>tasks s. on J s \<and> list_all (\<lambda>t. \<forall>m. t = Some m \<longrightarrow> keeps (on J) m e) tasks) (on J) e"
proof (rule leads_each)
  fix p :: protocol_row
  have "leads (on J) (case (port, pr_probe p) of
         (None, _) \<Rightarrow>
           andThen (saving (protocol_key (pr_key p) ''status'') ''NOT_CONFIGURED'') (\<lambda>_.
           andThen (saving (protocol_key (pr_key p) ''failed_since'') []) (\<lambda>_.
           andThen (saving (protocol_key (pr_key p) ''ping_ms'') []) (\<lambda>_. ret None)))
       | (Some n, Some k) \<Rightarrow> ret (if ip = [] then None else Some (probe_of k ip n))
       | _ \<Rightarrow> ret None)
     (\<lambda>t s. on J s \<and> (\<forall>m. t = Some m \<longrightarrow> keeps (on J) m e)) (on J) e" for port :: "int option"
  proof -
    have none: "leads (on J) (ret None) (\<lambda>t s. on J s \<and> (\<forall>m. t = Some m \<longrightarrow> keeps (on J) m e)) (on J) e"
      by (rule leads_ret) simp
    show ?thesis
      by (cases port; cases "pr_probe p")
         (auto intro!: none leads_ret leads_andThen [OF leads_keeps [OF check_steps(4) [OF J]]] check_probe [OF J])
  qed
  then show "leads (on J) (probe_task ip p) (\<lambda>t s. on J s \<and> (\<forall>m. t = Some m \<longrightarrow> keeps (on J) m e)) (on J) e"
    unfolding probe_task_def by (rule leads_andThen [OF leads_keeps [OF check_steps(3) [OF J]]])
qed

lemma check_gathered:
  assumes "list_all (\<lambda>t. \<forall>m. t = Some m \<longrightarrow> keeps (on J) m e) tasks"
  shows "keeps (on J) (each gathered tasks) e"
  using assms
proof (induction tasks)
  case (Cons t tasks)
  then have "keeps (on J) (gathered t) e"
    unfolding gathered_def by (auto intro!: keeps_intros)
  with Cons show ?case by (auto intro!: keeps_intros)
qed (simp add: keeps_ret)

lemma check_row:
  assumes J: "unconcerned J e"
  shows "keeps (on J) (refresh_row deep t pp) e"
  unfolding refresh_row_def book_status_def Let_def by (intro keeps_intros check_steps [OF J])

lemma check_refresh:
  assumes J: "unconcerned J e"
  shows "keeps (on J) (refresh_protocol_statuses ip) e"
proof (rule keeps_leads)
  have tail: "leads (\<lambda>s. on J s \<and> list_all (\<lambda>t. \<forall>m. t = Some m \<longrightarrow> keeps (on J) m e) tasks)
      (andThen (each gathered tasks) (\<lambda>results.
       andThen (each (refresh_row deep t) (zip protocols results)) (\<lambda>rows. ret (concat rows))))
      (\<lambda>_. on J) (on J) e" for tasks deep t
  proof (cases "list_all (\<lambda>t. \<forall>m. t = Some m \<longrightarrow> keeps (on J) m e) tasks")
    case True
    have "keeps (on J) (andThen (each gathered tasks) (\<lambda>results.
       andThen (each (refresh_row deep t) (zip protocols results)) (\<lambda>rows. ret (concat rows)))) e"
      by (intro keeps_intros check_gathered [OF True] check_row [OF J])
    then show ?thesis by (rule leads_weaken [OF leads_keeps]) simp_all
  next
    case False
    then show ?thesis by (simp add: leads_def)
  qed
  show "leads (on J) (refresh_protocol_statuses ip) (\<lambda>_. on J) (on J) e"
    unfolding refresh_protocol_statuses_def
    by (rule leads_andThen [OF leads_keeps [OF check_steps(5) [OF J]]], rule leads_andThen [OF leads_keeps [OF check_deep [OF J]]],
        rule leads_andThen [OF check_tasks [OF J] tail])
qed

lemma keeps_within [keeps_intros]: "keeps I m e \<Longrightarrow> keeps I (within m) e"
  by (auto simp: keeps_def after_def within_def split: prod.splits outcome.splits)

section \<open>What the tasks keep of their row\<close>

text \<open>Ids are a primary key; the row of the operation, if it is there, satisfies \<open>p\<close>.\<close>

definition every_server :: "int \<Rightarrow> (server_row \<Rightarrow> bool) \<Rightarrow> db \<Rightarrow> bool" where
  "every_server oid p d \<longleftrightarrow> distinct (map sv_id (server_ops d)) \<and> (\<forall>r \<in> set (server_ops d). sv_id r = oid \<longrightarrow> p r)"

definition server_watch :: "int \<Rightarrow> (server_row \<Rightarrow> bool) \<Rightarrow> (event \<Rightarrow> bool) \<Rightarrow> (call list \<Rightarrow> bool) \<Rightarrow> run \<Rightarrow> bool" where
  "server_watch oid p K R = on (\<lambda>d l. every_server oid p d \<and> R (calls_of K l))"

lemma every_server_update:
  assumes "every_server oid p d" and "\<And>r. p r \<Longrightarrow> q (f r)" and "\<And>r. sv_id (f r) = sv_id r"
    and "server_ops d' = update_where (\<lambda>r. sv_id r = oid) f (server_ops d)"
  shows "every_server oid q d'"
proof -
  have "map sv_id (server_ops d') = map sv_id (server_ops d)"
    unfolding assms(4) update_where_def by (simp add: comp_def assms(3) if_distrib [of sv_id] cong: if_cong)
  then show ?thesis
    using assms(1,2,3) by (auto simp: every_server_def assms(4) set_update_where split: if_splits)
qed

lemma set_server_field_id [simp]: "sv_id (set_server_field cfg d f r) = sv_id r"
  by (cases f) simp_all

lemma set_server_fields_id [simp]: "sv_id (fold (set_server_field cfg d) fs r) = sv_id r"
  by (induction fs arbitrary: r) simp_all

lemma update_server_ops:
  "fs \<noteq> [] \<Longrightarrow> server_ops (update_server_operation cfg now oid fs d) =
     update_where (\<lambda>r. sv_id r = oid) (\<lambda>r. (fold (set_server_field cfg d) fs r)\<lparr>sv_updated_at := iso now\<rparr>) (server_ops d)"
  by (simp add: update_server_operation_def release_vps_lease_def heartbeat_vps_lease_def Let_def)

lemma set_setting_server_ops [simp]: "server_ops (set_setting now k v d) = server_ops d"
  by (simp add: set_setting_def Let_def frame_simps)

lemma every_server_set_setting [simp]: "every_server oid p (set_setting now k v d) = every_server oid p d"
  by (simp add: every_server_def)

locale server_row_watch =
  fixes p :: "server_row \<Rightarrow> bool" and ok :: "server_field \<Rightarrow> bool"
  assumes kept: "ok f \<Longrightarrow> p r \<Longrightarrow> p (set_server_field cfg d f r)"
    and stamped: "p r \<Longrightarrow> p (r\<lparr>sv_updated_at := t\<rparr>)"
    and plain: "ok (SvStatus st)" "ok (SvStep m)" "ok (SvProviderStatus m)" "ok (SvProviderIp m)" "ok (SvSsh m)"
      "ok (SvServices m)" "ok (SvProtocolHealth m)" "ok (SvResult m)" "ok (SvWarning m)" "ok (SvError m)"
      "ok (SvStartedAt t)" "ok (SvCompletedAt t)"
begin

lemma kept_fields: "list_all ok fs \<Longrightarrow> p r \<Longrightarrow> p (fold (set_server_field cfg d) fs r)"
  by (induction fs arbitrary: r) (auto intro: kept)

lemma keeps_update:
  assumes "stable (every_server oid p) e" and "\<And>t. list_all ok (fs t)"
  shows "keeps (server_watch oid p K R) (update_server oid fs) e"
  unfolding server_watch_def update_server_def
proof (rule keeps_store [OF steady_and [OF assms(1)]], elim conjE, intro conjI)
  fix now :: int and d :: db and l :: "call list"
  assume "every_server oid p d"
  then show "every_server oid p (update_server_operation (en_config e) now oid (fs (iso now)) d)"
  proof (cases "fs (iso now) = []")
    case False
    show ?thesis
    proof (rule every_server_update [where p = p and q = p, OF \<open>every_server oid p d\<close> _ _ update_server_ops [OF False]])
      show "p ((fold (set_server_field (en_config e) d) (fs (iso now)) r)\<lparr>sv_updated_at := iso now\<rparr>)" if "p r" for r
        by (rule stamped, rule kept_fields [OF assms(2) that])
    qed simp
  qed (simp add: update_server_operation_def)
qed

lemma keeps_query_server: "stable (every_server oid p) e \<Longrightarrow> keeps (server_watch oid p K R) (query f) e"
  unfolding server_watch_def by (intro keeps_query steady_and)

lemma keeps_read:
  assumes "stable (every_server oid p) e"
  shows "keeps (server_watch oid p K R) (reading f) e" "keeps (server_watch oid p K R) (reading_result g) e"
    "keeps (server_watch oid p K R) server_client e"
  unfolding reading_def reading_result_def server_client_def using assms by (rule keeps_query_server)+

lemma keeps_save:
  assumes "stable (every_server oid p) e"
  shows "keeps (server_watch oid p K R) (saving key v) e"
  unfolding server_watch_def saving_def by (rule keeps_store [OF steady_and [OF assms]]) (simp add: every_server_def)

lemma keeps_call:
  assumes "stable (every_server oid p) e" and "\<not> K v"
  shows "keeps (server_watch oid p K R) (send v) e"
  unfolding server_watch_def using assms by (intro keeps_send steady_and) simp_all

lemma keeps_aeza:
  assumes "stable (every_server oid p) e" and "\<And>b s. \<not> K (AezaRequest b s c)"
  shows "keeps (server_watch oid p K R) (aeza_request_io client service c) e"
  unfolding aeza_request_io_def using assms by (auto intro!: keeps_intros keeps_call)

lemma keeps_sprintbox:
  assumes "stable (every_server oid p) e" and "\<not> K (SprintboxRequest c)"
  shows "keeps (server_watch oid p K R) (sprintbox_request_io client c) e"
  unfolding sprintbox_request_io_def using assms
  by (auto intro!: keeps_intros keeps_call split: reply.split)

lemma unconcerned_watch:
  assumes "stable (every_server oid p) e" and "\<And>v. check_event v \<Longrightarrow> \<not> K v"
  shows "unconcerned (\<lambda>d l. every_server oid p d \<and> R (calls_of K l)) e"
  unfolding unconcerned_def using assms by simp

lemma keeps_checks:
  assumes "stable (every_server oid p) e" and "\<And>v. check_event v \<Longrightarrow> \<not> K v"
  shows "keeps (server_watch oid p K R) (run_script host script) e"
    and "keeps (server_watch oid p K R) (tcp_check host port) e"
    and "keeps (server_watch oid p K R) (refresh_protocol_statuses ip) e"
proof -
  have "unconcerned (\<lambda>d l. every_server oid p d \<and> R (calls_of K l)) e"
    by (rule unconcerned_watch) (use assms in auto)
  then show "keeps (server_watch oid p K R) (run_script host script) e"
    and "keeps (server_watch oid p K R) (tcp_check host port) e"
    and "keeps (server_watch oid p K R) (refresh_protocol_statuses ip) e"
    unfolding server_watch_def by (rule check_script check_probe(4) check_refresh)+
qed

lemma keeps_sleep:
  assumes "stable (every_server oid p) e" and "\<And>n. \<not> K (Sleep n)"
  shows "keeps (server_watch oid p K R) (sleeper n) e"
  unfolding sleeper_def pause_def using assms by (auto intro!: keeps_intros keeps_call split: reply.split)

lemmas server_steps = keeps_intros keeps_update keeps_read keeps_save keeps_aeza keeps_sprintbox keeps_checks
  keeps_sleep plain

lemma keeps_get_service:
  assumes "stable (every_server oid p) e" and "\<And>b s. \<not> K (AezaRequest b s GetService)" and "\<And>n. \<not> K (SprintboxRequest (ShowBox n))"
  shows "keeps (server_watch oid p K R) (get_service client service) e"
  unfolding get_service_def using assms by (auto intro!: server_steps split: provider_client.split)

lemma keeps_health:
  assumes "stable (every_server oid p) e" and "\<And>v. check_event v \<Longrightarrow> \<not> K v"
  shows "keeps (server_watch oid p K R) (service_and_protocol_health oid host) e"
  unfolding service_and_protocol_health_def Let_def using assms by (auto intro!: server_steps)

lemma keeps_ssh:
  assumes "stable (every_server oid p) e" and "\<And>v. check_event v \<Longrightarrow> \<not> K v"
  shows "keeps (server_watch oid p K R) (ssh_reachable host) e"
  unfolding ssh_reachable_def using assms by (auto intro!: server_steps)

lemma keeps_await:
  assumes "stable (every_server oid p) e" and "\<And>v. check_event v \<Longrightarrow> \<not> K v" and "\<And>n. \<not> K (Sleep n)"
    and "\<And>b s. \<not> K (AezaRequest b s GetService)" and "\<And>n. \<not> K (SprintboxRequest (ShowBox n))"
    and "\<And>n. \<not> K (SprintboxRequest (ShowStatus n))"
  shows "keeps (server_watch oid p K R) (await_reboot oid interval client service host task ambiguous n pr) e"
proof (induction n arbitrary: pr)
  case 0
  show ?case
    unfolding await_reboot.simps reboot_timed_out_def using assms(1) by (auto intro!: server_steps)
next
  case (Suc n)
  have task_fin: "keeps (server_watch oid p K R) (reboot_task_done client task) e"
    unfolding reboot_task_done_def task_status_io_def
    using assms by (auto intro!: server_steps split: provider_client.split json.split)
  have rounds: "keeps (server_watch oid p K R) (provider_round oid client service) e"
    unfolding provider_round_def Let_def using assms by (auto intro!: server_steps keeps_get_service)
  have verify: "keeps (server_watch oid p K R) (verify_reboot oid host ambiguous q) e" for q
    unfolding verify_reboot_def finish_reboot_def Let_def using assms by (auto intro!: server_steps keeps_health)
  show ?case
    unfolding await_reboot.simps Let_def
    by (intro keeps_intros task_fin rounds verify Suc keeps_ssh keeps_update keeps_sleep assms) (simp_all add: plain)
qed

end


interpretation plain_row: server_row_watch "\<lambda>r. True" "\<lambda>f. True"
  by unfold_locales simp_all

interpretation asked_row: server_row_watch "\<lambda>r. sv_action_state r \<noteq> SrvNotStarted" "\<lambda>f. f \<noteq> SvAction SrvNotStarted"
proof unfold_locales
  fix f :: server_field and r :: server_row and cfg d
  assume "f \<noteq> SvAction SrvNotStarted" "sv_action_state r \<noteq> SrvNotStarted"
  then show "sv_action_state (set_server_field cfg d f r) \<noteq> SrvNotStarted" by (cases f) auto
qed simp_all

interpretation no_row: server_row_watch "\<lambda>r. False" "\<lambda>f. True"
  by unfold_locales simp_all

section \<open>One reboot request\<close>

fun is_reboot :: "event \<Rightarrow> bool" where
  "is_reboot (AezaRequest b s RebootService) = True"
| "is_reboot (SprintboxRequest (RestartBox n)) = True"
| "is_reboot _ = False"

lemma checks_no_reboot [simp]: "check_event v \<Longrightarrow> \<not> is_reboot v"
  by (cases v) (simp_all add: check_event_def)

text \<open>The row shows that the request may have been made; the row is gone.\<close>

definition reboot_claimed :: "int \<Rightarrow> db \<Rightarrow> bool" where
  "reboot_claimed oid = every_server oid (\<lambda>r. sv_action_state r \<noteq> SrvNotStarted)"

definition server_row_gone :: "int \<Rightarrow> db \<Rightarrow> bool" where
  "server_row_gone oid = every_server oid (\<lambda>r. False)"

text \<open>What the others must not do: give out an id twice, take a claim back, bring a deleted row back.\<close>

definition respects_reboot :: "int \<Rightarrow> (db \<Rightarrow> db) \<Rightarrow> bool" where
  "respects_reboot oid f \<longleftrightarrow> (\<forall>d. (distinct (map sv_id (server_ops d)) \<longrightarrow> distinct (map sv_id (server_ops (f d)))) \<and>
     (reboot_claimed oid d \<longrightarrow> reboot_claimed oid (f d)) \<and> (server_row_gone oid d \<longrightarrow> server_row_gone oid (f d)))"

definition reboot_rely :: "int \<Rightarrow> env \<Rightarrow> bool" where
  "reboot_rely oid e \<longleftrightarrow> (\<forall>n. respects_reboot oid (meanwhile e n))"

lemma reboot_relyD:
  assumes "reboot_rely oid e"
  shows "stable (every_server oid (\<lambda>r. True)) e" "stable (every_server oid (\<lambda>r. sv_action_state r \<noteq> SrvNotStarted)) e"
    "stable (every_server oid (\<lambda>r. False)) e"
  using assms
  by (auto simp: reboot_rely_def respects_reboot_def stable_def reboot_claimed_def server_row_gone_def
      every_server_def [of oid "\<lambda>r. True"])

definition reboots_sent :: "call list \<Rightarrow> call list" where
  "reboots_sent = calls_of is_reboot"

definition asked_once :: "int \<Rightarrow> call list \<Rightarrow> bool" where
  "asked_once oid l \<longleftrightarrow> length l \<le> 1 \<and> (\<forall>c \<in> set l. reboot_claimed oid (c_db c))"

abbreviation unasked :: "int \<Rightarrow> run \<Rightarrow> bool" where
  "unasked oid \<equiv> server_watch oid (\<lambda>r. True) is_reboot (\<lambda>l. l = [])"

abbreviation may_ask :: "int \<Rightarrow> run \<Rightarrow> bool" where
  "may_ask oid \<equiv> server_watch oid (\<lambda>r. sv_action_state r \<noteq> SrvNotStarted) is_reboot (\<lambda>l. l = [])"

abbreviation asked :: "int \<Rightarrow> run \<Rightarrow> bool" where
  "asked oid \<equiv> server_watch oid (\<lambda>r. sv_action_state r \<noteq> SrvNotStarted) is_reboot (asked_once oid)"

abbreviation gone :: "int \<Rightarrow> run \<Rightarrow> bool" where
  "gone oid \<equiv> server_watch oid (\<lambda>r. False) is_reboot (asked_once oid)"

definition reboot_once :: "int \<Rightarrow> run \<Rightarrow> bool" where
  "reboot_once oid s \<longleftrightarrow> unasked oid s \<or> asked oid s"

lemma may_ask_cases: "may_ask oid s \<Longrightarrow> unasked oid s" "may_ask oid s \<Longrightarrow> asked oid s" "gone oid s \<Longrightarrow> asked oid s"
  by (auto simp: server_watch_def on_def every_server_def asked_once_def)

lemma keeps_reboot_once:
  "keeps (unasked oid) m e \<Longrightarrow> keeps (asked oid) m e \<Longrightarrow> keeps (reboot_once oid) m e"
  unfolding reboot_once_def by (rule keeps_disj)

lemma mark_claims:
  assumes "every_server oid (\<lambda>r. True) d" and "mark_reboot_sending now oid d = (True, d')"
  shows "every_server oid (\<lambda>r. sv_action_state r \<noteq> SrvNotStarted) d'"
    and "\<exists>r \<in> set (server_ops d). sv_id r = oid \<and> sv_action_state r = SrvNotStarted"
proof -
  let ?g = "\<lambda>r. r\<lparr>sv_status := Running, sv_current_step := ''send_reboot'', sv_action_state := SrvSending,
    sv_started_at := (case sv_started_at r of None \<Rightarrow> Some (iso now) | Some t \<Rightarrow> Some t), sv_updated_at := iso now\<rparr>"
  have dist: "distinct (map sv_id (server_ops d))" using assms(1) by (simp add: every_server_def)
  from assms(2) have count: "row_count (may_send_reboot oid) (server_ops d) = 1"
    and ops: "server_ops d' = update_where (may_send_reboot oid) ?g (server_ops d)"
    by (auto simp: mark_reboot_sending_def heartbeat_vps_lease_def Let_def split: if_splits)
  have "row_count (may_send_reboot oid) (server_ops d) \<noteq> 0" using count by simp
  then obtain r where r: "r \<in> set (server_ops d)" "may_send_reboot oid r"
    by (auto simp: row_count_0_iff)
  then show "\<exists>r \<in> set (server_ops d). sv_id r = oid \<and> sv_action_state r = SrvNotStarted"
    by (auto simp: may_send_reboot_def)
  have only: "q = r" if "q \<in> set (server_ops d)" "sv_id q = oid" for q
    using dist r that by (auto simp: may_send_reboot_def distinct_map inj_on_def)
  have "map sv_id (server_ops d') = map sv_id (server_ops d)"
    unfolding ops update_where_def by (simp add: comp_def if_distrib [of sv_id] cong: if_cong)
  moreover have "sv_action_state q \<noteq> SrvNotStarted" if "q \<in> set (server_ops d')" "sv_id q = oid" for q
    using that only r by (auto simp: ops set_update_where split: if_splits)
  ultimately show "every_server oid (\<lambda>r. sv_action_state r \<noteq> SrvNotStarted) d'"
    using dist by (auto simp: every_server_def)
qed


lemma mark_refused:
  assumes "every_server oid (\<lambda>r. True) d" and "mark_reboot_sending now oid d = (False, d')"
  shows "server_ops d' = server_ops d"
proof -
  have "row_count (\<lambda>r. sv_id r = oid) (server_ops d) \<le> 1"
    using assms(1) by (simp add: every_server_def row_count_key)
  moreover have "row_count (may_send_reboot oid) rows \<le> row_count (\<lambda>r. sv_id r = oid) rows" for rows
    by (induction rows) (auto simp: may_send_reboot_def)
  ultimately have "row_count (may_send_reboot oid) (server_ops d) \<le> 1" by (rule order_trans [rotated])
  with assms(2) have "row_count (may_send_reboot oid) (server_ops d) = 0"
    by (auto simp: mark_reboot_sending_def Let_def split: if_splits)
  with assms(2) show ?thesis
    by (auto simp: mark_reboot_sending_def Let_def row_count_0_iff update_where_def intro!: map_idI)
qed

lemma leads_mark:
  assumes "reboot_rely oid e"
  shows "leads (reboot_once oid) (transact (\<lambda>e now d. Inr (mark_reboot_sending now oid d)))
    (\<lambda>marked s. if marked then may_ask oid s else reboot_once oid s) (reboot_once oid) e"
proof (rule leadsI)
  fix s r s' assume s: "reboot_once oid s"
    and run: "transact (\<lambda>e now d. Inr (mark_reboot_sending now oid d)) e s = (r, s')"
  let ?d = "turn e s"
  note st = reboot_relyD [OF assms]
  have all: "every_server oid (\<lambda>r. True) ?d"
    using s stable_turn [OF st(1), of s] by (auto simp: reboot_once_def server_watch_def on_def every_server_def)
  have here: "unasked oid (s\<lparr>rn_db := ?d, rn_step := n\<rparr>) \<or>
      asked oid (s\<lparr>rn_db := ?d, rn_step := n\<rparr>)" for n
    using s stable_turn [OF st(1), of s] stable_turn [OF st(2), of s]
    by (auto simp: reboot_once_def server_watch_def on_def)
  show "case r of Returned marked \<Rightarrow> if marked then may_ask oid s' else reboot_once oid s' | _ \<Rightarrow> reboot_once oid s'"
  proof (cases "stops e (rn_step s)")
    case True
    with run s show ?thesis by (auto simp: transact_def)
  next
    case False
    obtain b d' where mark: "mark_reboot_sending (clock e (rn_step s)) oid ?d = (b, d')" by fastforce
    with run False have r: "r = Returned b" and s': "s' = s\<lparr>rn_db := d', rn_step := Suc (rn_step s)\<rparr>"
      by (auto simp: transact_def)
    show ?thesis
    proof (cases b)
      case True
      note claims = mark_claims [OF all, of "clock e (rn_step s)" d']
      have "\<not> asked oid (s\<lparr>rn_db := ?d, rn_step := 0\<rparr>)"
        using claims(2) mark True by (auto simp: server_watch_def on_def every_server_def)
      with here [of 0] claims(1) mark show ?thesis
        by (auto simp: r s' True server_watch_def on_def)
    next
      case False
      with mark have "server_ops d' = server_ops ?d" by (auto intro: mark_refused [OF all])
      with here [of "Suc (rn_step s)"] show ?thesis
        by (simp add: r s' False reboot_once_def server_watch_def on_def every_server_def)
    qed
  qed
qed


lemma is_reboot_quiet [simp]:
  "\<not> is_reboot (Sleep n)" "\<not> is_reboot (AezaRequest b s GetService)" "\<not> is_reboot (SprintboxRequest (ShowBox i))"
  "\<not> is_reboot (SprintboxRequest (ShowStatus i))"
  by simp_all

text \<open>The one request: sent while the row is claimed, nothing was sent before.\<close>

lemma leads_reboot_call:
  assumes "reboot_rely oid e" and "is_reboot v"
  shows "leads (may_ask oid) (send v) (\<lambda>_. asked oid) (asked oid) e"
proof (rule leadsI)
  fix s r s' assume s: "may_ask oid s" and run: "send v e s = (r, s')"
  note st = stable_turn [OF reboot_relyD(2) [OF assms(1)], of s]
  show "case r of Returned x \<Rightarrow> asked oid s' | _ \<Rightarrow> asked oid s'"
  proof (cases "stops e (rn_step s)")
    case True
    with run may_ask_cases(2) [OF s] show ?thesis by (auto simp: send_def)
  next
    case False
    with run s st assms(2) show ?thesis
      by (auto simp: send_def Let_def server_watch_def on_def asked_once_def reboot_claimed_def)
  qed
qed

lemma leads_reboot_service:
  assumes "reboot_rely oid e"
  shows "leads (may_ask oid) (reboot_service client service) (\<lambda>_. asked oid) (asked oid) e"
proof (cases client)
  case (AezaProvider c)
  have request: "leads (may_ask oid) (aeza_request_io c service RebootService) (\<lambda>_. asked oid) (asked oid) e"
    unfolding aeza_request_io_def
    by (auto intro!: leads_throw may_ask_cases(2) leads_andThen [OF leads_lift [where Q = "\<lambda>_. may_ask oid"]]
        leads_andThen [OF leads_reboot_call [OF assms]] leads_lift)
  then show ?thesis by (simp add: reboot_service_def AezaProvider)
next
  case (SprintboxProvider c)
  have request: "leads (may_ask oid) (sprintbox_request_io c (RestartBox service)) (\<lambda>_. asked oid) (asked oid) e"
    unfolding sprintbox_request_io_def
    by (auto intro!: leads_throw may_ask_cases(2) leads_andThen [OF leads_reboot_call [OF assms]] leads_keeps keeps_intros)
  show ?thesis
    unfolding reboot_service_def SprintboxProvider provider_client.simps
    by (rule leads_andThen [OF request]) (auto intro!: leads_keeps keeps_intros)
qed

lemma keeps_ambiguous:
  assumes "reboot_rely oid e"
  shows "keeps (asked oid) (ambiguous_reboot oid task x) e"
  unfolding ambiguous_reboot_def
  by (intro keeps_intros asked_row.keeps_read asked_row.keeps_update reboot_relyD [OF assms]) simp

lemma leads_send_reboot:
  assumes "reboot_rely oid e"
  shows "leads (may_ask oid) (send_reboot oid client service) (\<lambda>_. asked oid) (asked oid) e"
proof -
  note st = reboot_relyD [OF assms]
  have task: "keeps (asked oid) (keep_reboot_task oid response) e" for response
    unfolding keep_reboot_task_def by (intro keeps_intros asked_row.keeps_save st)
  have rest: "keeps (asked oid) (andThen (reading (\<lambda>cfg d. provider_name cfg d = ''sprintbox'')) (\<lambda>has_tasks.
        let task = (if has_tasks then response else JNull) in
        catch
          (andThen (onlyIf has_tasks (keep_reboot_task oid response)) (\<lambda>_.
           andThen (update_server oid (\<lambda>_. [SvAction SrvSent, SvStep ''wait_reboot''])) (\<lambda>_. ret (task, None))))
          (ambiguous_reboot oid task))) e" for response
    unfolding Let_def
    by (intro keeps_intros task asked_row.keeps_read asked_row.keeps_update keeps_ambiguous [OF assms] st) simp
  show ?thesis
    unfolding send_reboot_def
    by (rule leads_catch [OF leads_andThen [OF leads_reboot_service [OF assms] leads_keeps [OF rest]]
          leads_keeps [OF keeps_ambiguous [OF assms]]])
qed


lemma keeps_awaiting:
  assumes "reboot_rely oid e"
  shows "keeps (asked oid) (await_reboot oid interval client service host task ambiguous n pr) e"
  by (rule asked_row.keeps_await [OF reboot_relyD(2) [OF assms]]) simp_all

lemma keeps_before_reboot:
  assumes "reboot_rely oid e"
  shows "keeps (reboot_once oid) (reading f) e" "keeps (reboot_once oid) (reading_result g) e" "keeps (reboot_once oid) server_client e"
    "keeps (reboot_once oid) (get_service client service) e"
    "(\<And>t. list_all (\<lambda>f. f \<noteq> SvAction SrvNotStarted) (fs t)) \<Longrightarrow> keeps (reboot_once oid) (update_server oid fs) e"
  by (intro keeps_reboot_once plain_row.keeps_read asked_row.keeps_read plain_row.keeps_get_service
      asked_row.keeps_get_service plain_row.keeps_update asked_row.keeps_update reboot_relyD [OF assms];
      simp add: list_all_iff)+

lemma keeps_reboot_vps:
  assumes "reboot_rely oid e"
  shows "keeps (reboot_once oid) (reboot_vps oid tm) e"
proof -
  note before = keeps_before_reboot [OF assms]
  have lift: "leads (asked oid) m (\<lambda>_. asked oid) (asked oid) e \<Longrightarrow> leads (asked oid) m (\<lambda>_. reboot_once oid) (reboot_once oid) e"
    for m :: "unit io"
    by (erule leads_weaken) (simp_all add: reboot_once_def)
  have request: "leads (may_ask oid)
      (andThen (send_reboot oid client service) (\<lambda>(task, warning).
        await_reboot oid interval client service host task (warning \<noteq> None) n (reboot_started warning)))
      (\<lambda>_. reboot_once oid) (reboot_once oid) e" for client service interval host n
  proof (rule leads_andThen [where R = "\<lambda>_. asked oid"])
    show "leads (may_ask oid) (send_reboot oid client service) (\<lambda>_. asked oid) (reboot_once oid) e"
      by (rule leads_weaken [OF leads_send_reboot [OF assms]]) (simp_all add: reboot_once_def)
    show "leads (asked oid) (case p of (task, warning) \<Rightarrow> await_reboot oid interval client service host task (warning \<noteq> None) n
        (reboot_started warning)) (\<lambda>_. reboot_once oid) (reboot_once oid) e" for p :: "json \<times> string option"
      by (cases p) (simp add: lift [OF leads_keeps [OF keeps_awaiting [OF assms]]])
  qed
  have marked: "leads (reboot_once oid)
     (andThen (transact (\<lambda>e now d. Inr (mark_reboot_sending now oid d))) (\<lambda>marked.
      andThen (onlyIf (\<not> marked) (throw (RuntimeError ''Reboot action was already started and will not be sent again''))) (\<lambda>_.
      andThen (send_reboot oid client service) (\<lambda>(task, warning).
        await_reboot oid interval client service host task (warning \<noteq> None) n (reboot_started warning)))))
      (\<lambda>_. reboot_once oid) (reboot_once oid) e" for client service interval host n
  proof (rule leads_andThen [OF leads_mark [OF assms]])
    fix marked
    show "leads (\<lambda>s. if marked then may_ask oid s else reboot_once oid s)
      (andThen (onlyIf (\<not> marked) (throw (RuntimeError ''Reboot action was already started and will not be sent again''))) (\<lambda>_.
       andThen (send_reboot oid client service) (\<lambda>(task, warning).
        await_reboot oid interval client service host task (warning \<noteq> None) n (reboot_started warning))))
      (\<lambda>_. reboot_once oid) (reboot_once oid) e"
    proof (rule leads_andThen [where R = "\<lambda>_. may_ask oid"])
      show "leads (\<lambda>s. if marked then may_ask oid s else reboot_once oid s)
          (onlyIf (\<not> marked) (throw (RuntimeError ''Reboot action was already started and will not be sent again'')))
          (\<lambda>_. may_ask oid) (reboot_once oid) e"
        by (cases marked) (auto simp: onlyIf_def skip_def intro!: leads_ret leads_throw)
    qed (rule request)
  qed
  show ?thesis
    unfolding reboot_vps_def Let_def
    by (intro keeps_intros before keeps_leads [OF marked]) simp_all
qed


text \<open>The handler takes a claim back only where there is no row to take it back from.\<close>

lemma leads_may_be_sent:
  assumes "reboot_rely oid e"
  shows "leads (reboot_once oid) (reading (\<lambda>cfg d. reboot_may_be_sent (get_server_operation oid d)))
    (\<lambda>sent s. if sent then reboot_once oid s else unasked oid s \<or> gone oid s) (reboot_once oid) e"
proof (rule leadsI)
  fix s r s' assume s: "reboot_once oid s"
    and run: "reading (\<lambda>cfg d. reboot_may_be_sent (get_server_operation oid d)) e s = (r, s')"
  have once: "reboot_once oid s'"
    using keepsD [OF keeps_before_reboot(1) [OF assms, of "\<lambda>cfg d. reboot_may_be_sent (get_server_operation oid d)"] s]
      run by (simp add: after_def)
  show "case r of Returned sent \<Rightarrow> if sent then reboot_once oid s' else unasked oid s' \<or> gone oid s' | _ \<Rightarrow> reboot_once oid s'"
  proof (cases r)
    case (Returned sent)
    with run have sent: "sent = reboot_may_be_sent (get_server_operation oid (rn_db s'))"
      by (auto simp: reading_def query_def transact_def bind_result_def split: if_splits)
    show ?thesis
    proof (cases "sent \<or> unasked oid s'")
      case False
      with once have *: "asked oid s'" by (simp add: reboot_once_def)
      have "get_server_operation oid (rn_db s') = None"
      proof (cases "get_server_operation oid (rn_db s')")
        case (Some q)
        then have "q \<in> set (server_ops (rn_db s'))" "sv_id q = oid"
          by (auto simp: get_server_operation_def dest: select_first_SomeD)
        with * have "sv_action_state q \<noteq> SrvNotStarted" by (auto simp: server_watch_def on_def every_server_def)
        with Some sent False show ?thesis by (cases "sv_action_state q") (auto simp: reboot_may_be_sent_def)
      qed
      then have "gone oid s'"
        using * by (auto simp: server_watch_def on_def every_server_def get_server_operation_def select_first_None_iff)
      with Returned False show ?thesis by simp
    qed (use once Returned in auto)
  qed (simp_all add: once)
qed

lemma keeps_reboot_failed:
  assumes "reboot_rely oid e"
  shows "keeps (reboot_once oid) (reboot_failed oid x) e"
proof (rule keeps_leads)
  note st = reboot_relyD [OF assms]
  have rest: "leads (\<lambda>s. if sent then reboot_once oid s else unasked oid s \<or> gone oid s)
     (andThen (reading (server_safe_error x)) (\<lambda>text.
       update_server oid (\<lambda>t. [SvStatus (if sent then Ambiguous else Failed),
         SvAction (if sent then SrvAmbiguous else SrvNotStarted), SvStep ''failed'', SvError text, SvCompletedAt t])))
     (\<lambda>_. reboot_once oid) (reboot_once oid) e" for sent
  proof (cases sent)
    case True
    then show ?thesis by (auto intro!: leads_keeps keeps_intros keeps_before_reboot [OF assms])
  next
    case False
    have "keeps (\<lambda>s. unasked oid s \<or> gone oid s) (andThen (reading (server_safe_error x)) (\<lambda>text.
       update_server oid (\<lambda>t. [SvStatus Failed, SvAction SrvNotStarted, SvStep ''failed'', SvError text, SvCompletedAt t]))) e"
      by (intro keeps_disj keeps_andThen plain_row.keeps_read no_row.keeps_read plain_row.keeps_update
          no_row.keeps_update st) simp_all
    then have "leads (\<lambda>s. unasked oid s \<or> gone oid s) (andThen (reading (server_safe_error x)) (\<lambda>text.
       update_server oid (\<lambda>t. [SvStatus Failed, SvAction SrvNotStarted, SvStep ''failed'', SvError text, SvCompletedAt t])))
       (\<lambda>_. reboot_once oid) (reboot_once oid) e"
      by (rule leads_weaken [OF leads_keeps]) (auto simp: reboot_once_def may_ask_cases(3))
    then show ?thesis by (simp add: False)
  qed
  show "leads (reboot_once oid) (reboot_failed oid x) (\<lambda>_. reboot_once oid) (reboot_once oid) e"
    unfolding reboot_failed_def by (rule leads_andThen [OF leads_may_be_sent [OF assms] rest])
qed

lemma keeps_reboot_run:
  assumes "reboot_rely oid e"
  shows "keeps (reboot_once oid) (run_server_reboot oid) e"
  unfolding run_server_reboot_def
  by (intro keeps_intros keeps_before_reboot [OF assms] keeps_reboot_vps [OF assms] keeps_reboot_failed [OF assms]) simp

section \<open>Every end is recorded\<close>

definition server_settled :: "int \<Rightarrow> db \<Rightarrow> bool" where
  "server_settled oid d \<longleftrightarrow> (\<forall>r \<in> set (server_ops d). sv_id r = oid \<longrightarrow> terminal (sv_status r)) \<and>
     (\<forall>l \<in> set (leases d). le_resource l = vpn_vps \<longrightarrow> le_owner l \<noteq> LeaseOwner Server oid)"

lemma set_server_fields_status:
  "sv_status (fold (set_server_field cfg d) fs r) =
     (case server_new_status fs of None \<Rightarrow> sv_status r | Some st \<Rightarrow> st)"
proof (induction fs arbitrary: r)
  case (Cons f fs)
  then show ?case by (cases f) (simp_all split: option.split)
qed simp

lemma update_server_settles:
  assumes "ends (server_new_status fs)"
  shows "server_settled oid (update_server_operation cfg now oid fs d)"
proof -
  have fs: "fs \<noteq> []" using assms by (auto simp: ends_def)
  have "sv_status ((fold (set_server_field cfg d) fs r)\<lparr>sv_updated_at := iso now\<rparr>) = the (server_new_status fs)" for r
    using assms by (simp add: set_server_fields_status ends_def split: option.splits)
  moreover have "terminal (the (server_new_status fs))" using assms by (simp add: ends_def split: option.splits)
  ultimately have rows: "\<forall>r \<in> set (server_ops (update_server_operation cfg now oid fs d)). sv_id r = oid \<longrightarrow> terminal (sv_status r)"
    unfolding update_server_ops [OF fs] by (intro update_where_ballI) simp_all
  have "leases (update_server_operation cfg now oid fs d) = leases (snd (release_vps_lease (LeaseOwner Server oid) d))"
    using fs assms by (simp add: update_server_operation_def release_vps_lease_def Let_def)
  then have "\<forall>l \<in> set (leases (update_server_operation cfg now oid fs d)). le_resource l = vpn_vps \<longrightarrow>
      le_owner l \<noteq> LeaseOwner Server oid"
    by (auto simp: release_vps_lease_def Let_def delete_where_def)
  with rows show ?thesis by (simp add: server_settled_def)
qed

abbreviation server_closed :: "int \<Rightarrow> run \<Rightarrow> bool" where
  "server_closed oid s \<equiv> server_settled oid (rn_db s)"

lemma server_update_closes:
  assumes "\<And>t. ends (server_new_status (fs t))"
  shows "finishes (server_closed oid) X (update_server oid fs) e"
  unfolding yields_def update_server_def store_def transact_def
  by (auto simp: update_server_settles [OF assms] split: if_splits outcome.split)

lemmas then_closes = finishes_andThen [where X = "\<lambda>_. True", OF finishes_any]

lemma finishes_if: "(b \<Longrightarrow> finishes R X m e) \<Longrightarrow> (\<not> b \<Longrightarrow> finishes R X n e) \<Longrightarrow> finishes R X (if b then m else n) e"
  by simp

lemma finishes_prod: "(\<And>a b. finishes R X (f a b) e) \<Longrightarrow> finishes R X (case p of (a, b) \<Rightarrow> f a b) e"
  by (cases p) simp

text \<open>A handler that reads and then ends the row.\<close>

lemma reading_closes:
  assumes "\<And>x. finishes (server_closed oid) X (f x) e"
  shows "finishes (server_closed oid) X (andThen (reading g) f) e"
  by (rule finishes_andThen [OF finishes_weaken [OF calm_reading]]) (simp_all add: assms)

lemma refresh_failed_closes: "finishes (server_closed oid) X (refresh_failed oid late x) e"
  unfolding refresh_failed_def by (auto intro!: reading_closes server_update_closes simp: ends_def terminal_def)

lemma reboot_failed_closes: "finishes (server_closed oid) X (reboot_failed oid x) e"
  unfolding reboot_failed_def by (intro reading_closes server_update_closes) (simp add: ends_def terminal_def)

lemma await_reboot_closes:
  "finishes (server_closed oid) (\<lambda>_. True) (await_reboot oid interval client service host task ambiguous n pr) e"
proof (induction n arbitrary: pr)
  case 0
  show ?case
    unfolding await_reboot.simps reboot_timed_out_def
    by (rule then_closes) (auto intro!: server_update_closes simp: ends_def terminal_def split: prod.split)
next
  case (Suc n)
  have verify: "finishes (server_closed oid) (\<lambda>_. True) (verify_reboot oid host ambiguous q) e" for q
    unfolding verify_reboot_def finish_reboot_def Let_def
    by (intro then_closes server_update_closes) (simp add: ends_def terminal_def)
  show ?case
    unfolding await_reboot.simps Let_def by (intro then_closes finishes_if finishes_prod Suc verify)
qed

lemma refresh_status_closes: "finishes (server_closed oid) (\<lambda>_. True) (refresh_server_status oid) e"
  unfolding refresh_server_status_def Let_def
  by (intro then_closes server_update_closes) (simp add: ends_def terminal_def)

lemma refresh_protocols_closes: "finishes (server_closed oid) (\<lambda>_. True) (refresh_protocols oid) e"
  unfolding refresh_protocols_def by (intro then_closes server_update_closes) (simp add: ends_def terminal_def)

lemma reboot_closes: "finishes (server_closed oid) (\<lambda>_. True) (reboot_vps oid tm) e"
  unfolding reboot_vps_def Let_def by (intro then_closes) (auto intro: await_reboot_closes split: prod.split)

text \<open>What the end of a task is, when it is not the end of the process.\<close>

definition recorded :: "int \<Rightarrow> env \<Rightarrow> run \<Rightarrow> unit outcome \<Rightarrow> run \<Rightarrow> bool" where
  "recorded oid e s r s' \<longleftrightarrow>
     r = Stopped \<or> r = Raised CancelledError \<or> server_settled oid (rn_db s') \<or> only_others e s s'"

lemma recorded_others: "only_others e s s' \<Longrightarrow> recorded oid e s r s'"
  by (simp add: recorded_def)

lemma recorded_finishes:
  assumes "finishes (server_closed oid) (server_closed oid) m e"
  shows "after m (recorded oid e s) e s'"
  by (rule after_mono [OF yields_after [OF assms]]) (auto simp: recorded_def split: outcome.splits)

lemma recorded_query:
  assumes "only_others e s t" and "\<And>u x. only_others e s u \<Longrightarrow> after (k x) (recorded oid e s) e u"
  shows "after (andThen (query f) k) (recorded oid e s) e t"
  using assms by (auto intro!: after_query_others [where s = s] simp: recorded_others)

section \<open>Properties\<close>

text \<open>C31.  However often the task of a reboot is started again, whatever it meets and whatever other tasks
  do in between, it asks the provider for a reboot at most once, and then only while its row already
  records that the request may have been made.  The others must respect the row.\<close>

theorem reboot_sent_at_most_once:
  assumes "\<forall>(e, f) \<in> set ls. reboot_rely oid e \<and> respects_reboot oid f"
    and "distinct (map sv_id (server_ops (rn_db s)))" and "rn_log s = []"
  shows "length (reboots_sent (rn_log (lives (run_server_reboot oid) ls s))) \<le> 1 \<and>
    (\<forall>c \<in> set (reboots_sent (rn_log (lives (run_server_reboot oid) ls s))). reboot_claimed oid (c_db c))"
proof -
  have "reboot_once oid (lives (run_server_reboot oid) ls s)"
  proof (rule lives_keep)
    fix e f assume "(e, f) \<in> set ls"
    with assms(1) have "reboot_rely oid e" by auto
    then show "keeps (reboot_once oid) (run_server_reboot oid) e" by (rule keeps_reboot_run)
  next
    fix e f t assume "(e, f) \<in> set ls" "reboot_once oid t"
    with assms(1) show "reboot_once oid (t\<lparr>rn_db := f (rn_db t)\<rparr>)"
      by (fastforce simp: reboot_once_def server_watch_def on_def respects_reboot_def reboot_claimed_def
          every_server_def [of oid "\<lambda>r. True"])
  qed (simp add: reboot_once_def server_watch_def on_def every_server_def assms)
  then show ?thesis
    by (auto simp: reboot_once_def server_watch_def on_def asked_once_def reboots_sent_def)
qed

theorem reboot_sent_at_most_once_witness:
  "length (reboots_sent (rn_log (lives (run_server_reboot 1) [(silent_env, id), (silent_env, id)]
     (start_run (empty_db\<lparr>server_ops := [new_server_row 1 RebootKind ''queued'' 0]\<rparr>))))) \<le> 1"
  using reboot_sent_at_most_once [of "[(silent_env, id), (silent_env, id)]" 1
    "start_run (empty_db\<lparr>server_ops := [new_server_row 1 RebootKind ''queued'' 0]\<rparr>)"]
  by (simp add: reboot_rely_def respects_reboot_def silent_env_def start_run_def)


text \<open>C32.  A status refresh, a protocol refresh or a reboot that comes to an end, with a result or with an
  error, leaves its row in a final status and the lease given back, or has done nothing at all.\<close>

theorem every_server_end_is_recorded:
  "after (run_server_status oid) (recorded oid e s) e s \<and> after (run_protocol_refresh oid) (recorded oid e s) e s \<and>
   after (run_server_reboot oid) (recorded oid e s) e s"
proof (intro conjI)
  show "after (run_server_status oid) (recorded oid e s) e s"
    unfolding run_server_status_def reading_result_def
    by (rule recorded_query [OF others_refl], rule recorded_finishes,
        rule finishes_catch [OF refresh_status_closes refresh_failed_closes])
  have refresh: "after (catch (refresh_protocols oid) (refresh_failed oid late)) (recorded oid e s) e u" for late u
    by (rule recorded_finishes, rule finishes_catch [OF refresh_protocols_closes refresh_failed_closes])
  have reboot: "after (catch (reboot_vps oid tm) (reboot_failed oid)) (recorded oid e s) e u" for tm u
    by (rule recorded_finishes, rule finishes_catch [OF reboot_closes reboot_failed_closes])
  have sent: "after (update_server oid (\<lambda>t. [SvStatus Ambiguous, SvAction SrvAmbiguous,
      SvStep ''manual_verification_required'', SvError already_sent_message, SvCompletedAt t])) (recorded oid e s) e u" for u
    by (rule recorded_finishes, rule server_update_closes) (simp add: ends_def terminal_def)
  show "after (run_protocol_refresh oid) (recorded oid e s) e s"
    unfolding run_protocol_refresh_def reading_result_def reading_def
    by (rule recorded_query [OF others_refl], erule recorded_query)
       (simp add: after_skip recorded_others refresh split: option.split)
  show "after (run_server_reboot oid) (recorded oid e s) e s"
    unfolding run_server_reboot_def reading_result_def reading_def
    by (rule recorded_query [OF others_refl], erule recorded_query)
       (simp add: after_skip recorded_others reboot sent split: option.split)
qed

end
