(* ===== verification/Panel.thy ===== *)
theory Panel
  imports RouterApi ServerOps
begin

text \<open>
  The panel's own request handlers (\<open>app/main.py\<close>): the middleware, the login, the setup form, the
  actions on clients, routers and operations, and the public pages of the clients.  An answer is a
  page and the jobs that were handed to \<open>BackgroundTasks\<close>; of an HTML page only its template is
  kept.  Every function that opens the database is one transaction here, so \<open>setup_complete()\<close> and
  \<open>ip_rotation_available()\<close> are read at one moment.  The limiter of logins is state of the process and
  is threaded beside the database.
\<close>

section \<open>Answers\<close>

datatype panel_failure =
    HttpError int string "(string \<times> string) list"
  | ServerError exn

datatype job =
    RunIpChange int
  | RunCleanup int
  | RunStatus int
  | RunReboot int
  | RunProtocolRefresh int
  | RunInstall int
  | RefreshStats
  | RefreshTransport string
  | ForgetKnownHost string

datatype page =
    SeeOther string
  | TemporaryRedirect string
  | TokenPage string string string string \<comment> \<open>token, credential, router, label\<close>
  | PlainText "(string \<times> string) list" string
  | JsonText json
  | QrCode string
  | Html string

type_synonym panel = "(panel_failure, page \<times> job list) handler"

definition page :: "page \<Rightarrow> panel" where
  "page p = respond (p, [])"

definition start :: "job \<Rightarrow> page \<Rightarrow> panel" where
  "start j p = respond (p, [j])"

definition http_error :: "int \<Rightarrow> string \<Rightarrow> panel_failure" where
  "http_error st detail = HttpError st detail []"

definition unauthenticated :: panel_failure where
  "unauthenticated = HttpError 401 ''Authentication required'' [(''WWW-Authenticate'', ''Basic'')]"

definition internal :: "exn + 'a \<Rightarrow> panel_failure + 'a" where
  "internal r = (case r of Inl e \<Rightarrow> Inl (ServerError e) | Inr x \<Rightarrow> Inr x)"

record panel_env =
  pe_base :: surroundings
  pe_kdf :: kdf
  pe_pub :: "string \<Rightarrow> string"
  pe_limits :: limits

definition pe_config :: "panel_env \<Rightarrow> config" where
  "pe_config pe = su_config (pe_base pe)"

definition look :: "panel_env \<Rightarrow> (config \<Rightarrow> db \<Rightarrow> 'a) \<Rightarrow> (panel_failure, 'a) handler" where
  "look pe f = reading_tx (\<lambda>d. Inr (f (pe_config pe) d))"

section \<open>The middleware\<close>

definition same_name :: "string \<Rightarrow> string \<times> string \<Rightarrow> bool" where
  "same_name k = (\<lambda>(n, _). py_lower n = py_lower k)"

definition set_default :: "string \<times> string \<Rightarrow> (string \<times> string) list \<Rightarrow> (string \<times> string) list" where
  "set_default h hs = (if list_ex (same_name (fst h)) hs then hs else hs @ [h])"

text \<open>Assigning a header keeps the place of the first with that name and drops the others.\<close>

fun set_header :: "string \<Rightarrow> string \<Rightarrow> (string \<times> string) list \<Rightarrow> (string \<times> string) list" where
  "set_header k v [] = [(k, v)]"
| "set_header k v (h # hs) =
     (if same_name k h then (fst h, v) # filter (\<lambda>h. \<not> same_name k h) hs else h # set_header k v hs)"

definition with_security_headers :: "request \<Rightarrow> response \<Rightarrow> response" where
  "with_security_headers rq resp =
     (let hs = fold set_default security_headers (rs_headers resp);
          hs = (if is_public_token_path (rq_path rq)
            then set_header ''Referrer-Policy'' ''no-referrer'' (set_header ''Cache-Control'' ''private, no-store'' hs)
            else hs)
      in resp\<lparr>rs_headers := hs\<rparr>)"

definition csrf_failure_detail :: string where
  "csrf_failure_detail = ''Cross-origin request blocked (CSRF protection).''"

definition security_middleware :: "url_rules \<Rightarrow> request \<Rightarrow> (panel_failure, response) handler \<Rightarrow> (panel_failure, response) handler" where
  "security_middleware u rq call_next =
     followed_by (resolved (internal (is_same_origin_request u rq))) (\<lambda>same.
     followed_by (if same then call_next
                  else respond \<lparr>rs_status = 403, rs_headers = [], rs_body = csrf_failure_detail\<rparr>)
       (\<lambda>resp. respond (with_security_headers rq resp)))"

section \<open>The login\<close>

text \<open>One request: what it brings, and the readings of the clocks while it is served.\<close>

record visit =
  vi_request :: request
  vi_credentials :: "(string \<times> string) option"
  vi_base_url :: string
  vi_asked :: int \<comment> \<open>when the limiter is asked\<close>
  vi_compared :: int \<comment> \<open>when a failed comparison is registered\<close>
  vi_clocks :: clocks

definition too_many_attempts :: "int \<Rightarrow> panel_failure" where
  "too_many_attempts wait = HttpError 429 ''Too many failed login attempts. Try again later.''
     [(''Retry-After'', int_str wait)]"

text \<open>Both checks are always evaluated.\<close>

definition credentials_match ::
  "panel_env \<Rightarrow> string \<Rightarrow> string \<Rightarrow> (panel_failure, bool) handler" where
  "credentials_match pe user password =
     followed_by (reading_tx (\<lambda>d. internal (compare_digest user (runtime_admin_username (pe_config pe) d)))) (\<lambda>u.
     followed_by (reading_tx (\<lambda>d. internal
         (verify_password (pe_kdf pe) password (runtime_admin_password (pe_config pe) d)))) (\<lambda>p.
       respond (u \<and> p)))"

definition verify_admin_credentials ::
  "panel_env \<Rightarrow> visit \<Rightarrow> string \<Rightarrow> string \<Rightarrow> limiter \<Rightarrow> (panel_failure, bool \<times> limiter) handler \<times> limiter" where
  "verify_admin_credentials pe vi user password l =
     (let key = client_key (vi_request vi) in
      case retry_after key (vi_asked vi) l of (wait, l1) \<Rightarrow>
        if wait \<noteq> 0 then (refuse (too_many_attempts wait), l1)
        else (followed_by (credentials_match pe user password) (\<lambda>ok.
                respond (ok, if ok then register_success key l1
                             else register_failure (pe_limits pe) key (vi_compared vi) l1)), l1))"

text \<open>
  A guard runs before its handler: it lets the request pass, or answers itself; the limiter it
  leaves is the second component when an exception ends it before anything is registered.
\<close>

type_synonym guard = "limiter \<Rightarrow> others \<Rightarrow> db \<Rightarrow> (panel_failure + unit) \<times> limiter \<times> others \<times> db"

definition passed_if :: "(panel_failure, bool \<times> limiter) handler \<times> limiter \<Rightarrow> others \<Rightarrow> db \<Rightarrow>
   (panel_failure + unit) \<times> limiter \<times> others \<times> db" where
  "passed_if h os d = (case fst h os d of
       (Inl e, os', d') \<Rightarrow> (Inl e, snd h, os', d')
     | (Inr (ok, l), os', d') \<Rightarrow> (if ok then Inr () else Inl unauthenticated, l, os', d'))"

definition setup_redirect :: panel_failure where
  "setup_redirect = HttpError 307 [] [(''Location'', ''/admin/setup'')]"

text \<open>Without an \<open>Authorization\<close> header \<open>HTTPBasic\<close> answers before the function runs.\<close>

definition not_authenticated :: panel_failure where
  "not_authenticated = HttpError 401 ''Not authenticated'' [(''WWW-Authenticate'', ''Basic'')]"

definition require_admin :: "panel_env \<Rightarrow> visit \<Rightarrow> guard" where
  "require_admin pe vi l os d =
     (case vi_credentials vi of
        None \<Rightarrow> (Inl not_authenticated, l, os, d)
      | Some (user, password) \<Rightarrow>
          (let d1 = between os d in
           if \<not> setup_complete (pe_config pe) d1 then (Inl setup_redirect, l, tl os, d1)
           else passed_if (verify_admin_credentials pe vi user password l) (tl os) d1))"

definition require_setup_access :: "panel_env \<Rightarrow> visit \<Rightarrow> guard" where
  "require_setup_access pe vi l os d =
     (let d1 = between os d in
      if \<not> setup_complete (pe_config pe) d1 then (Inr (), l, tl os, d1)
      else (case vi_credentials vi of
          None \<Rightarrow> (Inl unauthenticated, l, tl os, d1)
        | Some (user, password) \<Rightarrow>
            passed_if (verify_admin_credentials pe vi user password l) (tl os) d1))"

definition guarded_by :: "guard \<Rightarrow> panel \<Rightarrow> limiter \<Rightarrow> others \<Rightarrow> db \<Rightarrow>
   (panel_failure + page \<times> job list) \<times> limiter \<times> others \<times> db" where
  "guarded_by g h l os d = (case g l os d of
       (Inl e, l', os', d') \<Rightarrow> (Inl e, l', os', d')
     | (Inr _, l', os', d') \<Rightarrow> (case h os' d' of (r, os2, d2) \<Rightarrow> (r, l', os2, d2)))"

section \<open>The setup form\<close>

definition required_port_value :: "string \<Rightarrow> string \<Rightarrow> panel_failure + int" where
  "required_port_value raw label =
     (if py_strip raw = [] then Inl (http_error 400 (label @ '' port is required''))
      else (case parse_int (py_strip raw) of
          None \<Rightarrow> Inl (http_error 400 (label @ '' port must be a number''))
        | Some port \<Rightarrow>
            if port < 1 \<or> 65535 < port then
              Inl (http_error 400 (label @ '' port must be between 1 and 65535''))
            else Inr port))"

type_synonym protocol_ports = "(string \<times> bool \<times> int) list"

fun ensure_unique_ports :: "(int \<times> string) list \<Rightarrow> protocol_ports \<Rightarrow> panel_failure + unit" where
  "ensure_unique_ports seen [] = Inr ()"
| "ensure_unique_ports seen ((name, enabled, port) # ps) =
     (if \<not> enabled then ensure_unique_ports seen ps
      else (case map_of seen port of
          Some other \<Rightarrow> Inl (http_error 400 (''Protocol ports must be unique: '' @ other @ '' and '' @ name @
            '' both use '' @ int_str port))
        | None \<Rightarrow> ensure_unique_ports (seen @ [(port, name)]) ps))"

record setup_form =
  fo_admin_username :: string
  fo_admin_password :: string
  fo_admin_password_confirm :: string
  fo_current_ip :: string
  fo_ssh_host :: string
  fo_ssh_user :: string
  fo_ssh_port :: int
  fo_ssh_password :: string
  fo_ssh_key_path :: string
  fo_vless :: "string option \<times> string" \<comment> \<open>the check box, the port\<close>
  fo_hysteria :: "string option \<times> string"
  fo_amnezia :: "string option \<times> string"
  fo_autovpn2 :: "string option"
  fo_transactional :: "string option"
  fo_safe_rotation :: "string option"
  fo_router_api :: "string option"
  fo_aeza_token :: string
  fo_aeza_service_id :: string
  fo_aeza_domain :: string
  fo_provider :: "string option"
  fo_sprintbox_login :: string
  fo_sprintbox_key :: string
  fo_sprintbox_box_name :: string
  fo_sprintbox_service :: string
  fo_sprintbox_distributive :: string

definition flag :: "bool \<Rightarrow> string" where
  "flag b = (if b then ''1'' else ''0'')"

definition checked :: "string option \<Rightarrow> bool" where
  "checked v \<longleftrightarrow> v = Some ''on''"

definition form_ports :: "setup_form \<Rightarrow> panel_failure + protocol_ports" where
  "form_ports fo =
     bind_result (required_port_value (snd (fo_vless fo)) ''VLESS'') (\<lambda>v.
     bind_result (required_port_value (snd (fo_hysteria fo)) ''Hysteria'') (\<lambda>h.
     bind_result (required_port_value (snd (fo_amnezia fo)) ''AmneziaWG'') (\<lambda>a.
       Inr [(''vless'', checked (fst (fo_vless fo)), v), (''hysteria'', checked (fst (fo_hysteria fo)), h),
            (''amnezia'', checked (fst (fo_amnezia fo)), a)])))"

definition feature_updates :: "setup_form \<Rightarrow> panel_failure + (string \<times> string) list" where
  "feature_updates fo =
     (if fo_autovpn2 fo \<noteq> Some ''1'' then Inr []
      else if checked (fo_safe_rotation fo) \<and> \<not> checked (fo_transactional fo) then
        Inl (http_error 400 ''Safe Aeza IP rotation requires transactional VPN apply'')
      else Inr [(''config.enable_transactional_vpn_apply'', flag (checked (fo_transactional fo))),
                (''config.enable_safe_aeza_ip_rotation'', flag (checked (fo_safe_rotation fo))),
                (''config.enable_router_api'', flag (checked (fo_router_api fo)))])"

definition or_default :: "string \<Rightarrow> string \<Rightarrow> string" where
  "or_default s dflt = (if py_strip s = [] then dflt else py_strip s)"

definition base_updates :: "setup_form \<Rightarrow> string \<Rightarrow> int \<Rightarrow> (string \<times> string) list" where
  "base_updates fo host port =
     [(''config.admin_username'', or_default (fo_admin_username fo) ''admin''),
      (''config.eu_ssh_host'', host), (''config.eu_ssh_user'', or_default (fo_ssh_user fo) ''root''),
      (''config.eu_ssh_port'', int_str port), (''config.aeza_api_base'', ''https://my.aeza.net''),
      (''config.aeza_service_id'', py_strip (fo_aeza_service_id fo)),
      (''config.aeza_ipv4_payment_method'', ''balance''),
      (''config.aeza_ipv4_domain'', py_strip (fo_aeza_domain fo)),
      (''config.aeza_ipv4_after_purchase_delay_seconds'', ''120'')]"

definition port_updates :: "protocol_ports \<Rightarrow> (string \<times> string) list" where
  "port_updates ps = concat (map (\<lambda>(name, enabled, port).
     [(''config.'' @ name @ ''_enabled'', flag enabled), (''config.'' @ name @ ''_port'', int_str port)]) ps)"

definition ssh_updates :: "setup_form \<Rightarrow> string \<Rightarrow> (string \<times> string) list" where
  "ssh_updates fo existing_password =
     (let key_path = py_strip (fo_ssh_key_path fo) in
      if fo_ssh_password fo \<noteq> [] then
        [(''config.eu_ssh_password'', fo_ssh_password fo), (''config.eu_ssh_key_path'', [])]
      else (if existing_password = [] \<or> key_path \<noteq> [] then [(''config.eu_ssh_password'', [])] else []) @
        [(''config.eu_ssh_key_path'', key_path)])"

definition has_line_break :: "string \<Rightarrow> bool" where
  "has_line_break s \<longleftrightarrow> CHR 0x0A \<in> set s \<or> CHR 0x0D \<in> set s"

definition sprintbox_fields :: "setup_form \<Rightarrow> (string \<times> string) list" where
  "sprintbox_fields fo =
     [(''login'', fo_sprintbox_login fo), (''box_name'', fo_sprintbox_box_name fo),
      (''service'', fo_sprintbox_service fo), (''distributive'', fo_sprintbox_distributive fo)]"

fun sprintbox_updates :: "(string \<times> string) list \<Rightarrow> panel_failure + (string \<times> string) list" where
  "sprintbox_updates [] = Inr []"
| "sprintbox_updates ((key, v) # kvs) =
     (if has_line_break v \<or> 256 < py_len v then Inl (http_error 400 ''Invalid SprintBOX setting'')
      else bind_result (sprintbox_updates kvs) (\<lambda>us. Inr ((''config.sprintbox_'' @ key, py_strip v) # us)))"

definition provider_updates :: "setup_form \<Rightarrow> string \<Rightarrow> bool \<Rightarrow> panel_failure + (string \<times> string) list" where
  "provider_updates fo provider busy =
     (if busy then Inl (http_error 409 ''Wait for the active VPS operation before changing provider settings'')
      else bind_result (sprintbox_updates (sprintbox_fields fo)) (\<lambda>us.
        if py_strip (fo_sprintbox_key fo) = [] then Inr ((''config.vps_provider'', provider) # us)
        else if has_line_break (fo_sprintbox_key fo) then Inl (http_error 400 ''Invalid SprintBOX key'')
        else Inr ((''config.vps_provider'', provider) # us @
               [(''config.sprintbox_key'', py_strip (fo_sprintbox_key fo))])))"

text \<open>The part of the form that belongs to a provider; the lease is looked up in a transaction of its own.\<close>

definition provider_part :: "setup_form \<Rightarrow> (panel_failure, (string \<times> string) list) handler" where
  "provider_part fo = (case fo_provider fo of
       None \<Rightarrow> respond []
     | Some provider \<Rightarrow>
         if provider \<notin> {''aeza'', ''sprintbox''} then refuse (http_error 400 ''Unknown VPS provider'')
         else followed_by (reading_tx (\<lambda>d. Inr (get_active_vps_operation d \<noteq> None))) (\<lambda>busy.
           resolved (provider_updates fo provider busy)))"

definition password_update :: "panel_env \<Rightarrow> string \<Rightarrow> string \<Rightarrow> panel_failure + (string \<times> string) list" where
  "password_update pe salt password =
     (if password = [] then Inr []
      else case hash_password (pe_kdf pe) salt password of
          None \<Rightarrow> Inl (ServerError (ValueError ''scrypt''))
        | Some hashed \<Rightarrow> Inr [(''config.admin_password'', hashed)])"

definition busy_conflict :: "exn \<Rightarrow> panel_failure" where
  "busy_conflict e = (case e of OperationBusyError _ \<Rightarrow> http_error 409 (exn_text e) | _ \<Rightarrow> ServerError e)"

definition setup_submit :: "panel_env \<Rightarrow> int \<Rightarrow> string \<Rightarrow> setup_form \<Rightarrow> panel" where
  "setup_submit pe now salt fo =
     (let password = py_strip (fo_admin_password fo);
          address = py_strip (fo_current_ip fo);
          host = (if py_strip (fo_ssh_host fo) = address then [] else py_strip (fo_ssh_host fo)) in
      if password \<noteq> py_strip (fo_admin_password_confirm fo) then
        refuse (http_error 400 ''Admin passwords do not match'')
      else followed_by (look pe setup_complete) (\<lambda>complete.
      if \<not> complete \<and> password = [] then refuse (http_error 400 ''Admin password is required'')
      else followed_by (resolved (required_port_value (int_str (fo_ssh_port fo)) ''SSH'')) (\<lambda>ssh_port.
      followed_by (look pe (eu_ssh_password None)) (\<lambda>existing.
      followed_by (resolved (form_ports fo)) (\<lambda>ports.
      followed_by (resolved (ensure_unique_ports [] ports)) (\<lambda>_.
      followed_by (resolved (feature_updates fo)) (\<lambda>features.
      followed_by (resolved (password_update pe salt password)) (\<lambda>secret.
      followed_by (provider_part fo) (\<lambda>provider.
      followed_by (transaction busy_conflict (ignoring (set_settings now
          (base_updates fo host ssh_port @ features @ secret @
           (if address = [] then [] else [(''current_ip'', address)]) @ port_updates ports @
           ssh_updates fo existing @
           (if py_strip (fo_aeza_token fo) = [] then []
            else [(''config.aeza_token'', py_strip (fo_aeza_token fo))]) @ provider)
          True (fo_provider fo \<noteq> None)))) (\<lambda>_.
        page (SeeOther ''/admin'')))))))))))"

section \<open>Operations on the server\<close>

definition aeza_required :: panel where
  "aeza_required = page (SeeOther ''/admin?aeza_required=1'')"

definition create_operation :: "panel_env \<Rightarrow> clocks \<Rightarrow> int option \<Rightarrow> int option \<Rightarrow> prepared tx" where
  "create_operation pe k review ssh =
     prepare_ip_change_operation (su_sha (pe_base pe)) (pe_config pe) (ck_now k) (ck_at k) review ssh"

definition refresh_ip :: "panel_env \<Rightarrow> clocks \<Rightarrow> panel" where
  "refresh_ip pe k =
     followed_by (look pe ip_rotation_available) (\<lambda>available.
     if \<not> available then aeza_required
     else followed_by (look pe safe_aeza_ip_rotation_enabled) (\<lambda>safe.
     if \<not> safe then page (SeeOther ''/admin/ip/confirm?safe_rotation_required=1'')
     else followed_by (look pe transactional_vpn_apply_enabled) (\<lambda>transactional.
     if \<not> transactional then page (SeeOther ''/admin/ip/confirm?transactional_apply_required=1'')
     else followed_by (trying (create_operation pe k None None)) (\<lambda>r. case r of
         Inr p \<Rightarrow> start (RunIpChange (pp_operation_id p)) (SeeOther ''/admin'')
       | Inl (IpChangeSafetyHoldError _) \<Rightarrow> page (SeeOther ''/admin/ip/confirm?safety_hold=1'')
       | Inl (OperationBusyError _) \<Rightarrow> page (SeeOther ''/admin/ip/confirm?already_running=1'')
       | Inl e \<Rightarrow> refuse (ServerError e)))))"

text \<open>\<open>except (ValueError, OperationBusyError, IpChangeSafetyHoldError)\<close>, with the subclasses of \<open>ValueError\<close>.\<close>

definition decision_conflict :: "exn \<Rightarrow> panel_failure" where
  "decision_conflict e = (case e of
       ValueError _ \<Rightarrow> http_error 409 (exn_text e)
     | RouterCredentialError _ \<Rightarrow> http_error 409 (exn_text e)
     | RouterApplyValidationError _ \<Rightarrow> http_error 409 (exn_text e)
     | OperationBusyError _ \<Rightarrow> http_error 409 (exn_text e)
     | IpChangeSafetyHoldError _ \<Rightarrow> http_error 409 (exn_text e)
     | _ \<Rightarrow> ServerError e)"

text \<open>\<open>accept\<close> catches no \<open>IpChangeSafetyHoldError\<close>.\<close>

definition accept_conflict :: "exn \<Rightarrow> panel_failure" where
  "accept_conflict e = (case e of IpChangeSafetyHoldError _ \<Rightarrow> ServerError e | _ \<Rightarrow> decision_conflict e)"

definition accept_sprintbox :: "panel_env \<Rightarrow> clocks \<Rightarrow> int \<Rightarrow> panel" where
  "accept_sprintbox pe k oid =
     followed_by (transaction accept_conflict (ignoring
         (prepare_cleanup (su_sha (pe_base pe)) (pe_config pe) (ck_at k) (ck_now k) oid))) (\<lambda>_.
       start (RunCleanup oid) (SeeOther ''/admin''))"

definition switches_required :: panel_failure where
  "switches_required = http_error 409 ''Enable safe rotation and transactional VPN apply first''"

definition require_switches :: "panel_env \<Rightarrow> (panel_failure, unit) handler" where
  "require_switches pe =
     followed_by (look pe safe_aeza_ip_rotation_enabled) (\<lambda>safe.
     if \<not> safe then refuse switches_required
     else followed_by (look pe transactional_vpn_apply_enabled) (\<lambda>transactional.
     if \<not> transactional then refuse switches_required else respond ()))"

definition retry_sprintbox :: "panel_env \<Rightarrow> clocks \<Rightarrow> int \<Rightarrow> panel" where
  "retry_sprintbox pe k oid =
     followed_by (require_switches pe) (\<lambda>_.
     followed_by (transaction decision_conflict (create_operation pe k (Some oid) None)) (\<lambda>p.
       start (RunIpChange (pp_operation_id p)) (SeeOther ''/admin'')))"

definition decide_sprintbox_ssh :: "panel_env \<Rightarrow> clocks \<Rightarrow> int \<Rightarrow> string \<Rightarrow> panel" where
  "decide_sprintbox_ssh pe k oid decision =
     (if decision \<notin> {''wait'', ''retry'', ''cancel''} then refuse (http_error 404 [])
      else followed_by (if decision = ''cancel'' then respond () else require_switches pe) (\<lambda>_.
      if decision = ''cancel'' then
        followed_by (transaction decision_conflict (ignoring (cancel_ssh_wait (pe_config pe) (ck_now k) oid)))
          (\<lambda>_. page (SeeOther ''/admin''))
      else if decision = ''wait'' then
        followed_by (transaction decision_conflict (ignoring
            (prepare_ssh_wait (su_sha (pe_base pe)) (pe_config pe) (ck_at k) (ck_now k) oid)))
          (\<lambda>_. start (RunIpChange oid) (SeeOther ''/admin''))
      else followed_by (transaction decision_conflict (create_operation pe k None (Some oid))) (\<lambda>p.
        start (RunIpChange (pp_operation_id p)) (SeeOther ''/admin''))))"

text \<open>Buying, choosing or deleting one address by hand is switched off.\<close>

definition manual_ip_action :: "panel_env \<Rightarrow> panel" where
  "manual_ip_action pe =
     followed_by (look pe ip_rotation_available) (\<lambda>available.
       if \<not> available then aeza_required else page (SeeOther ''/admin/ip/confirm?manual_disabled=1''))"

definition holds_new_changes :: "ip_row \<Rightarrow> bool" where
  "holds_new_changes r \<longleftrightarrow> ip_action_state r \<noteq> Reconciled \<and>
     (ip_status r = Ambiguous \<or> ip_action_state r \<in> {CleanupAmbiguous, AwaitingAwgCheck})"

definition reconcile_confirm :: "int \<Rightarrow> panel" where
  "reconcile_confirm oid = reading_tx (\<lambda>d. case get_operation oid d of
       None \<Rightarrow> Inl (http_error 404 [])
     | Some r \<Rightarrow>
         if active (ip_status r) \<or> \<not> holds_new_changes r then
           Inl (http_error 409 ''This IP operation does not have a terminal safety hold'')
         else Inr (Html ''ip_reconcile_confirm.html'', []))"

definition reconcile_failure :: "exn \<Rightarrow> panel_failure" where
  "reconcile_failure e = (case e of
       LookupError _ \<Rightarrow> http_error 404 []
     | KeyError _ \<Rightarrow> http_error 404 []
     | ValueError _ \<Rightarrow> http_error 409 (exn_text e)
     | RouterCredentialError _ \<Rightarrow> http_error 409 (exn_text e)
     | RouterApplyValidationError _ \<Rightarrow> http_error 409 (exn_text e)
     | _ \<Rightarrow> ServerError e)"

definition reconcile_operation :: "clocks \<Rightarrow> int \<Rightarrow> string \<Rightarrow> string \<Rightarrow> panel" where
  "reconcile_operation k oid confirm note =
     (if py_strip confirm \<noteq> ''RECONCILE'' then
        refuse (http_error 400 ''Type RECONCILE after manually checking the IPv4 state in Aeza'')
      else if py_strip note = [] then refuse (http_error 400 ''A short reconciliation note is required'')
      else followed_by (transaction reconcile_failure (ignoring (reconcile_ip_operation (ck_now k) oid note)))
        (\<lambda>_. page (SeeOther ''/admin/operations#ip-operations'')))"

definition start_server_operation :: "int tx \<Rightarrow> (int \<Rightarrow> job) \<Rightarrow> string \<Rightarrow> (int \<Rightarrow> string) \<Rightarrow> panel" where
  "start_server_operation create work busy there =
     followed_by (trying create) (\<lambda>r. case r of
         Inr oid \<Rightarrow> start (work oid) (SeeOther (there oid))
       | Inl (OperationBusyError _) \<Rightarrow> page (SeeOther busy)
       | Inl e \<Rightarrow> refuse (ServerError e))"

definition operation_page :: "int \<Rightarrow> string" where
  "operation_page oid = ''/admin/server/operations/'' @ int_str oid"

definition server_status_refresh :: "panel_env \<Rightarrow> clocks \<Rightarrow> panel" where
  "server_status_refresh pe k =
     followed_by (look pe provider_available) (\<lambda>available.
     if \<not> available then page (SeeOther ''/admin/server?aeza_required=1'')
     else start_server_operation (create_server_operation StatusKind (ck_now k)) RunStatus
       ''/admin/server?operation_busy=1'' operation_page)"

definition server_reboot :: "panel_env \<Rightarrow> clocks \<Rightarrow> string \<Rightarrow> panel" where
  "server_reboot pe k confirm =
     (if confirm \<noteq> ''REBOOT'' then refuse (http_error 400 ''Type REBOOT exactly to confirm server reboot'')
      else followed_by (look pe provider_available) (\<lambda>available.
      if \<not> available then page (SeeOther ''/admin/server?aeza_required=1'')
      else start_server_operation (create_server_operation RebootKind (ck_now k)) RunReboot
        ''/admin/server?operation_busy=1'' operation_page))"

definition server_operation_page :: "int \<Rightarrow> panel" where
  "server_operation_page oid = reading_tx (\<lambda>d.
     if get_server_operation oid d = None then Inl (http_error 404 [])
     else Inr (Html ''server_operation.html'', []))"

definition forget_ssh_known_host :: "panel_env \<Rightarrow> panel" where
  "forget_ssh_known_host pe =
     followed_by (look pe (\<lambda>_. has_running_install_operation)) (\<lambda>running.
     if running then refuse (http_error 409 ''Cannot change SSH known_hosts while install is running'')
     else followed_by (look pe resolve_eu_host) (\<lambda>host. start (ForgetKnownHost host) (SeeOther ''/admin'')))"

definition run_install :: "panel_env \<Rightarrow> clocks \<Rightarrow> panel" where
  "run_install pe k =
     followed_by (look pe resolve_eu_host) (\<lambda>host.
     followed_by (trying (prepare_install_operation (su_sha (pe_base pe)) (pe_config pe) (ck_now k) (ck_at k) host))
       (\<lambda>r. case r of
         Inr p \<Rightarrow> start (RunInstall (pp_operation_id p)) (SeeOther ''/admin'')
       | Inl (OperationBusyError _) \<Rightarrow> page (SeeOther ''/admin?install_already_running=1'')
       | Inl e \<Rightarrow> refuse (ServerError e)))"

text \<open>Protocols are only shown and checked for the server the last finished install ran on.\<close>

definition protocol_status_available :: "string \<Rightarrow> string \<Rightarrow> install_row option \<Rightarrow> bool" where
  "protocol_status_available current_ip target latest \<longleftrightarrow> current_ip \<noteq> [] \<and> target \<noteq> [] \<and>
     (case latest of None \<Rightarrow> False
      | Some r \<Rightarrow> in_status r = Done \<and> in_target_host r = Some target)"

definition refresh_protocols_handler :: "panel_env \<Rightarrow> clocks \<Rightarrow> panel" where
  "refresh_protocols_handler pe k =
     followed_by (look pe (\<lambda>_ d. setting d ''current_ip'')) (\<lambda>current_ip.
     followed_by (look pe resolve_eu_host) (\<lambda>target.
     followed_by (look pe (\<lambda>_. get_latest_install_operation)) (\<lambda>latest.
     if protocol_status_available current_ip target latest then
       start_server_operation (create_protocol_refresh_operation (ck_now k)) RunProtocolRefresh
         ''/admin?operation_busy=1'' (\<lambda>_. ''/admin'')
     else page (SeeOther ''/admin''))))"

definition reset_failure :: "exn \<Rightarrow> panel_failure" where
  "reset_failure e = (case e of
       OperationBusyError _ \<Rightarrow> http_error 409 ''Cannot reset server settings while an operation is running''
     | _ \<Rightarrow> ServerError e)"

definition reset_server :: "clocks \<Rightarrow> panel" where
  "reset_server k =
     followed_by (transaction reset_failure (ignoring (reset_server_and_aeza_state (ck_now k)))) (\<lambda>_.
       page (SeeOther ''/admin/setup''))"

section \<open>Clients and routers\<close>

definition client_action :: "unit tx \<Rightarrow> panel" where
  "client_action t = followed_by (transaction ServerError t) (\<lambda>_. page (SeeOther ''/admin/clients''))"

definition new_client :: "panel_env \<Rightarrow> clocks \<Rightarrow> client_secrets \<Rightarrow> string \<Rightarrow> panel" where
  "new_client pe k sec name =
     followed_by (transaction ServerError
         (create_client (pe_config pe) (pe_pub pe) (ck_at k) (ck_now k) sec (py_strip name))) (\<lambda>_.
       page (SeeOther ''/admin/clients''))"

definition rename_client :: "clocks \<Rightarrow> int \<Rightarrow> string \<Rightarrow> panel" where
  "rename_client k cid name = client_action (doing (update_client_name (ck_now k) cid (py_strip name)))"

definition switch_client :: "clocks \<Rightarrow> int \<Rightarrow> bool \<Rightarrow> panel" where
  "switch_client k cid enabled = client_action (doing (set_client_enabled (ck_now k) cid enabled))"

definition remove_client :: "clocks \<Rightarrow> int \<Rightarrow> panel" where
  "remove_client k cid = client_action (doing (delete_client (ck_now k) (ck_at k) cid))"

definition panel_scopes :: "string list" where
  "panel_scopes = [''snapshot:read'', ''apply:write'']"

definition credential_failure :: "int \<Rightarrow> exn \<Rightarrow> panel_failure" where
  "credential_failure st e = (case e of
       RouterCredentialError _ \<Rightarrow> http_error st (exn_text e) | _ \<Rightarrow> ServerError e)"

definition issue_token ::
  "panel_env \<Rightarrow> clocks \<Rightarrow> router_draws \<Rightarrow> int \<Rightarrow> string \<Rightarrow> string option \<Rightarrow> issued_credential tx" where
  "issue_token pe k dr cid label router =
     issue_router_credential (pe_config pe) (pe_pub pe) (su_sha (pe_base pe)) (\<lambda>_. IsoInvalid)
       (ck_clock k) (ck_at k) (ck_now k) dr cid panel_scopes None label router"

definition token_page :: "issued_credential \<Rightarrow> string \<Rightarrow> panel" where
  "token_page ic label = page (TokenPage (is_token ic) (is_credential_id ic) (is_router_id ic) label)"

definition new_router_handler :: "panel_env \<Rightarrow> clocks \<Rightarrow> router_draws \<Rightarrow> string \<Rightarrow> int \<Rightarrow> panel" where
  "new_router_handler pe k dr name cid =
     (let label = py_strip name in
      if label = [] then refuse (http_error 400 ''Router name is required'')
      else followed_by (transaction (credential_failure 400) (issue_token pe k dr cid label None)) (\<lambda>ic.
        token_page ic label))"

definition require_router_entry :: "string \<Rightarrow> (panel_failure, router_row) handler" where
  "require_router_entry rid = reading_tx (\<lambda>d.
     case get_router rid d of
       Inr (Some r) \<Rightarrow> Inr r
     | Inr None \<Rightarrow> Inl (http_error 404 ''Router does not exist'')
     | Inl (RouterCredentialError _) \<Rightarrow> Inl (http_error 404 ''Router does not exist'')
     | Inl e \<Rightarrow> Inl (ServerError e))"

definition router_action :: "string \<Rightarrow> unit tx \<Rightarrow> panel" where
  "router_action rid t =
     followed_by (require_router_entry rid) (\<lambda>_.
     followed_by (transaction ServerError t) (\<lambda>_. page (SeeOther ''/admin/routers'')))"

definition rename_router :: "clocks \<Rightarrow> string \<Rightarrow> string \<Rightarrow> panel" where
  "rename_router k rid name =
     followed_by (require_router_entry rid) (\<lambda>_.
     if py_strip name = [] then refuse (http_error 400 ''Router name is required'')
     else followed_by (transaction (credential_failure 400) (update_router_label (ck_at k) rid name)) (\<lambda>_.
       page (SeeOther ''/admin/routers'')))"

definition switch_router :: "clocks \<Rightarrow> string \<Rightarrow> bool \<Rightarrow> panel" where
  "switch_router k rid enabled = router_action rid (set_router_enabled (ck_at k) (ck_now k) rid enabled)"

definition remove_router :: "clocks \<Rightarrow> string \<Rightarrow> panel" where
  "remove_router k rid = router_action rid (delete_router (ck_now k) rid)"

definition issue_replacement :: "panel_env \<Rightarrow> clocks \<Rightarrow> router_draws \<Rightarrow> string \<Rightarrow> string \<Rightarrow> panel" where
  "issue_replacement pe k dr rid label =
     followed_by (require_router_entry rid) (\<lambda>r.
     followed_by (transaction (credential_failure 404)
         (issue_token pe k dr (ro_client_id r) (py_strip label) (Some rid))) (\<lambda>ic.
       token_page ic (ro_label r)))"

text \<open>The first router of the list that shows the credential.\<close>

definition router_for_credential :: "string \<Rightarrow> (panel_failure, router_row) handler" where
  "router_for_credential crid = reading_tx (\<lambda>d.
     case List.find (\<lambda>(r, vs, _). list_ex (\<lambda>v. cv_credential_id v = crid) vs) (list_routers d) of
       Some (r, _) \<Rightarrow> Inr r
     | None \<Rightarrow> Inl (http_error 404 ''Router credential does not exist''))"

definition rotate_credential :: "panel_env \<Rightarrow> clocks \<Rightarrow> nat list \<Rightarrow> string \<Rightarrow> panel" where
  "rotate_credential pe k bytes crid =
     followed_by (router_for_credential crid) (\<lambda>r.
     followed_by (transaction (credential_failure 404)
         (rotate_router_credential (su_sha (pe_base pe)) (ck_clock k) (ck_at k) bytes crid)) (\<lambda>token.
       page (TokenPage token crid (ro_router_id r) (ro_label r))))"

definition revoke_credential :: "clocks \<Rightarrow> string \<Rightarrow> panel" where
  "revoke_credential k crid =
     followed_by (transaction (credential_failure 404) (revoke_router_credential (ck_at k) crid)) (\<lambda>_.
       page (SeeOther ''/admin/routers''))"

section \<open>The pages of a client\<close>

text \<open>The captured configuration and the enabled client the token belongs to.\<close>

definition client_of_token :: "panel_env \<Rightarrow> string \<Rightarrow> (panel_failure, captured_config \<times> vpn_client) handler" where
  "client_of_token pe token = reading_tx (\<lambda>d.
     bind_result (internal (capture_vpn_config (pe_config pe) d)) (\<lambda>c.
       case client_by_token token c of
         Some v \<Rightarrow> if vc_enabled v then Inr (c, v) else Inl (http_error 404 [])
       | None \<Rightarrow> Inl (http_error 404 [])))"

definition client_page :: "panel_env \<Rightarrow> string \<Rightarrow> (captured_config \<Rightarrow> vpn_client \<Rightarrow> exn + page) \<Rightarrow> panel" where
  "client_page pe token render =
     followed_by (client_of_token pe token) (\<lambda>(c, v).
       if cc_current_ip c = [] then refuse (http_error 503 [])
       else followed_by (resolved (internal (render c v))) page)"

definition newline_text :: "string \<Rightarrow> page" where
  "newline_text s = PlainText [] (s @ [CHR 0x0A])"

definition subscription :: "panel_env \<Rightarrow> string \<Rightarrow> panel" where
  "subscription pe token = client_page pe token (\<lambda>c v.
     bind_result (render_subscription c v) (\<lambda>text. Inr (PlainText [] text)))"

definition sing_box_subscription :: "panel_env \<Rightarrow> string \<Rightarrow> panel" where
  "sing_box_subscription pe token = client_page pe token (\<lambda>c v.
     bind_result (render_sing_box_subscription c v) (\<lambda>j. Inr (JsonText j)))"

definition client_html :: "panel_env \<Rightarrow> string \<Rightarrow> panel" where
  "client_html pe token = client_page pe token (\<lambda>c v.
     bind_result (if pc_enabled (am_protocol (cc_amnezia c)) then amnezia_vpn_key (pe_base pe) c v else Inr [])
       (\<lambda>_. Inr (Html ''client_page.html'')))"

text \<open>This page needs no address, and reads the row of the client instead of a captured configuration.\<close>

definition client_refresh :: "string \<Rightarrow> panel" where
  "client_refresh token =
     followed_by (reading_tx (\<lambda>d. case get_client_by_token token d of
         Some c \<Rightarrow> if cl_enabled c then Inr () else Inl (http_error 404 [])
       | None \<Rightarrow> Inl (http_error 404 []))) (\<lambda>_.
     followed_by (reading_tx (\<lambda>d. Inr (setting d ''current_ip''))) (\<lambda>address.
       respond (SeeOther (''/client/'' @ token), if address = [] then [] else [RefreshTransport address])))"

definition subscription_qr :: "panel_env \<Rightarrow> string \<Rightarrow> string \<Rightarrow> panel" where
  "subscription_qr pe base_url token =
     followed_by (client_of_token pe token) (\<lambda>(c, v).
       page (QrCode (rstrip_slash base_url @ ''/sub/'' @ vc_token v)))"

definition amnezia_qr :: "panel_env \<Rightarrow> string \<Rightarrow> panel" where
  "amnezia_qr pe token = client_page pe token (\<lambda>c v.
     bind_result (amnezia_vpn_key (pe_base pe) c v) (\<lambda>key. Inr (QrCode key)))"

definition current_eu_ip :: "panel_env \<Rightarrow> string \<Rightarrow> panel" where
  "current_eu_ip pe token = client_page pe token (\<lambda>c v. Inr (newline_text (cc_current_ip c)))"

definition amnezia_config_page :: "panel_env \<Rightarrow> string \<Rightarrow> panel" where
  "amnezia_config_page pe token = client_page pe token (\<lambda>c v.
     bind_result (render_amnezia_client_config (pe_config pe) c v) (\<lambda>text.
       Inr (PlainText [(''Content-Disposition'',
         ''attachment; filename=amnezia-'' @ int_str (vc_id v) @ ''.conf'')] text)))"

definition amnezia_key_page :: "panel_env \<Rightarrow> string \<Rightarrow> panel" where
  "amnezia_key_page pe token = client_page pe token (\<lambda>c v.
     bind_result (amnezia_vpn_key (pe_base pe) c v) (\<lambda>key. Inr (newline_text key)))"

section \<open>Routes\<close>

datatype public_call =
    Subscription string
  | SingBox string
  | ClientPage string
  | ClientRefresh string
  | SubscriptionQr string
  | AmneziaQr string
  | CurrentIp string
  | AmneziaConfig string
  | AmneziaKey string
  | Healthz
  | Root

datatype admin_call =
    RefreshIp
  | AcceptSprintbox int
  | RetrySprintbox int
  | DecideSsh int string
  | ManualIpAction
  | ReconcileConfirm int
  | Reconcile int string string
  | NewClient client_secrets string
  | RenameClient int string
  | SwitchClient int bool
  | RemoveClient int
  | NewRouter router_draws string int
  | RenameRouter string string
  | SwitchRouter string bool
  | RemoveRouter string
  | IssueReplacement router_draws string string
  | RotateCredentialOf "nat list" string
  | RevokeCredentialOf string
  | ServerStatusRefresh
  | ServerReboot string
  | ServerOperationPage int
  | RunInstallNow
  | ForgetHostKey
  | RefreshProtocols
  | RefreshStatsNow
  | ResetServer

definition root :: "panel_env \<Rightarrow> panel" where
  "root pe = followed_by (look pe setup_complete) (\<lambda>complete.
     page (TemporaryRedirect (if complete then ''/admin'' else ''/admin/setup'')))"

fun public_handler :: "panel_env \<Rightarrow> visit \<Rightarrow> public_call \<Rightarrow> panel" where
  "public_handler pe vi (Subscription token) = subscription pe token"
| "public_handler pe vi (SingBox token) = sing_box_subscription pe token"
| "public_handler pe vi (ClientPage token) = client_html pe token"
| "public_handler pe vi (ClientRefresh token) = client_refresh token"
| "public_handler pe vi (SubscriptionQr token) = subscription_qr pe (vi_base_url vi) token"
| "public_handler pe vi (AmneziaQr token) = amnezia_qr pe token"
| "public_handler pe vi (CurrentIp token) = current_eu_ip pe token"
| "public_handler pe vi (AmneziaConfig token) = amnezia_config_page pe token"
| "public_handler pe vi (AmneziaKey token) = amnezia_key_page pe token"
| "public_handler pe vi Healthz = page (JsonText (JObj [(''status'', JStr ''ok'')]))"
| "public_handler pe vi Root = root pe"

fun admin_handler :: "panel_env \<Rightarrow> clocks \<Rightarrow> admin_call \<Rightarrow> panel" where
  "admin_handler pe k RefreshIp = refresh_ip pe k"
| "admin_handler pe k (AcceptSprintbox oid) = accept_sprintbox pe k oid"
| "admin_handler pe k (RetrySprintbox oid) = retry_sprintbox pe k oid"
| "admin_handler pe k (DecideSsh oid decision) = decide_sprintbox_ssh pe k oid decision"
| "admin_handler pe k ManualIpAction = manual_ip_action pe"
| "admin_handler pe k (ReconcileConfirm oid) = reconcile_confirm oid"
| "admin_handler pe k (Reconcile oid confirm note) = reconcile_operation k oid confirm note"
| "admin_handler pe k (NewClient sec name) = new_client pe k sec name"
| "admin_handler pe k (RenameClient cid name) = rename_client k cid name"
| "admin_handler pe k (SwitchClient cid enabled) = switch_client k cid enabled"
| "admin_handler pe k (RemoveClient cid) = remove_client k cid"
| "admin_handler pe k (NewRouter dr name cid) = new_router_handler pe k dr name cid"
| "admin_handler pe k (RenameRouter rid name) = rename_router k rid name"
| "admin_handler pe k (SwitchRouter rid enabled) = switch_router k rid enabled"
| "admin_handler pe k (RemoveRouter rid) = remove_router k rid"
| "admin_handler pe k (IssueReplacement dr rid label) = issue_replacement pe k dr rid label"
| "admin_handler pe k (RotateCredentialOf bytes crid) = rotate_credential pe k bytes crid"
| "admin_handler pe k (RevokeCredentialOf crid) = revoke_credential k crid"
| "admin_handler pe k ServerStatusRefresh = server_status_refresh pe k"
| "admin_handler pe k (ServerReboot confirm) = server_reboot pe k confirm"
| "admin_handler pe k (ServerOperationPage oid) = server_operation_page oid"
| "admin_handler pe k RunInstallNow = run_install pe k"
| "admin_handler pe k ForgetHostKey = forget_ssh_known_host pe"
| "admin_handler pe k RefreshProtocols = refresh_protocols_handler pe k"
| "admin_handler pe k RefreshStatsNow = start RefreshStats (SeeOther ''/admin/clients'')"
| "admin_handler pe k ResetServer = reset_server k"

definition admin_request :: "panel_env \<Rightarrow> visit \<Rightarrow> admin_call \<Rightarrow> limiter \<Rightarrow> others \<Rightarrow> db \<Rightarrow>
   (panel_failure + page \<times> job list) \<times> limiter \<times> others \<times> db" where
  "admin_request pe vi call = guarded_by (require_admin pe vi) (admin_handler pe (vi_clocks vi) call)"

definition setup_request :: "panel_env \<Rightarrow> visit \<Rightarrow> string \<Rightarrow> setup_form \<Rightarrow> limiter \<Rightarrow> others \<Rightarrow> db \<Rightarrow>
   (panel_failure + page \<times> job list) \<times> limiter \<times> others \<times> db" where
  "setup_request pe vi salt fo =
     guarded_by (require_setup_access pe vi) (setup_submit pe (ck_now (vi_clocks vi)) salt fo)"

end
