(* ===== verification/PanelSafety.thy ===== *)
theory PanelSafety
  imports Panel
begin

text \<open>
  What the panel's handlers guarantee: who may change anything, that a started job owns the lease,
  that every handler keeps the exclusive use of the server, what an accepted setup form stored and
  what a client's page shows.
\<close>

section \<open>Transactions that leave the operations alone\<close>

definition same_operations :: "db \<Rightarrow> db \<Rightarrow> bool" where
  "same_operations d d' \<longleftrightarrow> install_ops d' = install_ops d \<and> ip_ops d' = ip_ops d \<and>
     server_ops d' = server_ops d \<and> leases d' = leases d"

definition leaves_operations :: "'a tx \<Rightarrow> bool" where
  "leaves_operations t \<longleftrightarrow> (\<forall>d x d'. t d = Inr (x, d') \<longrightarrow> same_operations d d')"

lemma same_operations_refl [simp]: "same_operations d d"
  by (simp add: same_operations_def)

lemma same_operations_trans: "same_operations a b \<Longrightarrow> same_operations b c \<Longrightarrow> same_operations a c"
  by (simp add: same_operations_def)

lemma same_operations_exclusive: "same_operations d d' \<Longrightarrow> exclusive d \<Longrightarrow> exclusive d'"
  using exclusive_cong [of d' d] by (simp add: same_operations_def)

lemma bump_operations [simp]: "same_operations d (bump_revision now d')  \<longleftrightarrow> same_operations d d'"
  by (simp add: same_operations_def frame_simps)

lemma leavesD: "leaves_operations t \<Longrightarrow> t d = Inr (x, d') \<Longrightarrow> same_operations d d'"
  by (auto simp: leaves_operations_def)

named_theorems leaves_intros \<open>transactions that leave the operations alone\<close>

lemma leaves_doing [leaves_intros]: "(\<And>d. same_operations d (f d)) \<Longrightarrow> leaves_operations (doing f)"
  by (auto simp: leaves_operations_def doing_def)

lemma leaves_ignoring [leaves_intros]:
  "(\<And>d d'. f d = Inr d' \<Longrightarrow> same_operations d d') \<Longrightarrow> leaves_operations (ignoring f)"
  by (auto simp: leaves_operations_def ignoring_def bind_result_Inr_iff)

lemma client_operations:
  "same_operations d (update_client_name now cid name d)"
  "same_operations d (set_client_enabled now cid enabled d)"
  "same_operations d (delete_client now at cid d)"
  by (simp_all add: update_client_name_def set_client_enabled_def delete_client_def same_operations_def
      mark_vpn_config_updated_eq frame_simps split: option.split)

lemma leaves_create_client [leaves_intros]: "leaves_operations (create_client cfg pub at now sec name)"
  by (auto simp: leaves_operations_def create_client_def bind_result_Inr_iff Let_def same_operations_def frame_simps
      split: if_splits)

lemma peer_operations:
  "ensure_router_amnezia_peer cfg pub now priv psk rid d = Inr (p, d') \<Longrightarrow> same_operations d d'"
  by (auto simp: ensure_router_amnezia_peer_def create_router_amnezia_peer_def bind_result_Inr_iff Let_def
      same_operations_def frame_simps split: option.splits if_splits)

lemma router_row_operations:
  "insert_router r d = Inr d' \<Longrightarrow> same_operations d d'"
  "insert_credential c d = Inr d' \<Longrightarrow> same_operations d d'"
  by (auto simp: insert_router_def insert_credential_def same_operations_def split: if_splits)

lemma assigned_operations: "assigned_router at dr label cid router d = Inr (rid, d') \<Longrightarrow> same_operations d d'"
  by (auto simp: assigned_router_def add_router_def bind_result_Inr_iff Let_def
      dest: router_row_operations split: option.splits if_splits)

lemma leaves_issue [leaves_intros]:
  "leaves_operations (issue_router_credential cfg pub sha rdg kk at now dr cid scopes expires label router)"
  unfolding leaves_operations_def
proof (intro allI impI)
  fix d ic d'
  assume "issue_router_credential cfg pub sha rdg kk at now dr cid scopes expires label router d = Inr (ic, d')"
  then show "same_operations d d'"
    by (cases "new_token sha (rd_secret dr) (token_urlsafe (rd_credential dr))")
      (auto simp: issue_router_credential_def Let_def bind_result_Inr_iff split: if_splits
        dest!: assigned_operations peer_operations router_row_operations intro: same_operations_trans)
qed

lemma leaves_router_updates [leaves_intros]:
  "leaves_operations (set_router_enabled at now rid enabled)"
  "leaves_operations (update_router_label at rid name)"
  "leaves_operations (delete_router now rid)"
  "leaves_operations (rotate_router_credential sha kk at bytes crid)"
  "leaves_operations (revoke_router_credential at crid)"
proof -
  have drop: "same_operations d (drop_routers p d)" for p d
    by (simp add: drop_routers_def same_operations_def frame_simps Let_def)
  show "leaves_operations (delete_router now rid)"
    by (auto simp: leaves_operations_def delete_router_def bind_result_Inr_iff Let_def 
        intro: same_operations_trans [OF _ drop] split: option.splits if_splits)
qed (auto simp: leaves_operations_def set_router_enabled_def update_router_label_def rotate_router_credential_def
    revoke_router_credential_def bind_result_Inr_iff Let_def same_operations_def frame_simps
    split: option.splits if_splits prod.splits)

lemma settings_operations: "set_settings now kvs mark idle d = Inr d' \<Longrightarrow> same_operations d d'"
  by (auto simp: set_settings_def same_operations_def Let_def frame_simps split: option.splits if_splits)

section \<open>Who passes the guards\<close>

definition others_did :: "nat \<Rightarrow> others \<Rightarrow> db \<Rightarrow> db" where
  "others_did n os d = fold (\<lambda>f. f) (take n os) d"

lemma others_did_one: "between os d = others_did 1 os d"
  by (simp add: others_did_def between_take)

lemma others_did_next: "between (drop n os) (others_did n os d) = others_did (Suc n) os d"
proof -
  have "between xs e = fold (\<lambda>f. f) (take 1 xs) e" for xs e by (rule between_take)
  moreover have "take (Suc n) os = take n os @ take 1 (drop n os)" using take_add [of n 1 os] by simp
  ultimately show ?thesis by (simp add: others_did_def)
qed

lemma others_did_two: "between (tl os) (between os d) = others_did 2 os d"
  using others_did_next [of 1 os d] by (simp add: others_did_one drop_Suc numeral_2_eq_2)

lemma others_did_three: "between (tl (tl os)) (others_did 2 os d) = others_did 3 os d"
  using others_did_next [of 2 os d] by (simp add: drop_Suc numeral_2_eq_2 numeral_3_eq_3)

text \<open>
  The visitor named the user that is stored in the first database and a password that matches what
  is stored in the second, and the limiter does not block him.
\<close>

definition shows_password :: "panel_env \<Rightarrow> visit \<Rightarrow> limiter \<Rightarrow> db \<Rightarrow> db \<Rightarrow> bool" where
  "shows_password pe vi l d1 d2 \<longleftrightarrow> (\<exists>user password. vi_credentials vi = Some (user, password) \<and>
     fst (retry_after (client_key (vi_request vi)) (vi_asked vi) l) = 0 \<and>
     user = runtime_admin_username (pe_config pe) d1 \<and>
     verify_password (pe_kdf pe) password (runtime_admin_password (pe_config pe) d2) = Inr True)"

lemma compare_digest_True: "compare_digest a b = Inr True \<Longrightarrow> a = b"
  by (simp add: compare_digest_def split: if_splits)

lemma internal_Inr: "internal r = Inr x \<longleftrightarrow> r = Inr x"
  by (cases r) (simp_all add: internal_def)

lemma quiet_match: "quiet (credentials_match pe user password)"
  unfolding credentials_match_def by (intro quiet_intros)

lemma quiet_verify: "quiet (fst (verify_admin_credentials pe vi user password l))"
  unfolding verify_admin_credentials_def Let_def
  by (auto intro!: quiet_intros quiet_match split: prod.split)

lemma match_True:
  assumes "credentials_match pe user password os d = (Inr True, os', d')"
  shows "user = runtime_admin_username (pe_config pe) (between os d) \<and>
    verify_password (pe_kdf pe) password
      (runtime_admin_password (pe_config pe) (between (tl os) (between os d))) = Inr True"
  using assms by (auto simp: credentials_match_def web_results internal_Inr dest: compare_digest_True)

lemma verify_passed:
  assumes "verify_admin_credentials pe vi user password l = (h, l1)" and "h os d = (Inr (True, l2), os', d')"
    and "vi_credentials vi = Some (user, password)"
  shows "shows_password pe vi l (between os d) (between (tl os) (between os d))"
proof -
  obtain wait l0 where r: "retry_after (client_key (vi_request vi)) (vi_asked vi) l = (wait, l0)" by force
  have w: "wait = 0" using assms(1,2) r by (auto simp: verify_admin_credentials_def Let_def refuse_Inr split: if_splits)
  then have "\<exists>os1 d1. credentials_match pe user password os d = (Inr True, os1, d1)"
    using assms(1,2) r by (auto simp: verify_admin_credentials_def Let_def followed_by_Inr respond_Inr split: if_splits)
  with w r assms(3) show ?thesis by (auto simp: shows_password_def dest: match_True)
qed

lemma passed_if_cases:
  assumes "passed_if (verify_admin_credentials pe vi user password l) os d = (r, l', os', d')"
    and "vi_credentials vi = Some (user, password)"
  shows "(\<exists>n. d' = fold (\<lambda>f. f) (take n os) d \<and> os' = drop n os) \<and>
    (r = Inr () \<longrightarrow> shows_password pe vi l (between os d) (between (tl os) (between os d)))"
proof -
  obtain h l1 where v: "verify_admin_credentials pe vi user password l = (h, l1)" by force
  obtain q os2 d2 where h: "h os d = (q, os2, d2)" by (cases "h os d") auto
  have d: "d' = d2" "os' = os2" using assms(1) v h by (auto simp: passed_if_def split: sum.splits prod.splits if_splits)
  have "quiet h" using quiet_verify [of pe vi user password l] v by simp
  then obtain n where "d2 = fold (\<lambda>f. f) (take n os) d" "os2 = drop n os"
    using h by (rule quietD)
  moreover have "r = Inr () \<Longrightarrow> \<exists>l2. q = Inr (True, l2)"
    using assms(1) v h by (auto simp: passed_if_def split: sum.splits prod.splits if_splits)
  ultimately show ?thesis unfolding d using verify_passed [OF v _ assms(2)] h by auto
qed

lemma others_then:
  "\<exists>n. fold (\<lambda>f. f) (take k (tl os)) (between os d) = others_did n os d \<and> drop k (tl os) = drop n os"
proof (cases os)
  case Nil
  then show ?thesis by (auto simp: others_did_def between_def)
next
  case (Cons f fs)
  then show ?thesis by (intro exI [of _ "Suc k"]) (simp add: others_did_def between_def)
qed

lemma require_admin_cases:
  assumes "require_admin pe vi l os d = (r, l', os', d')"
  shows "(\<exists>n. d' = others_did n os d \<and> os' = drop n os) \<and>
    (r = Inr () \<longrightarrow> shows_password pe vi l (others_did 2 os d) (others_did 3 os d))"
proof (cases "vi_credentials vi")
  case None
  then have "d' = others_did 0 os d \<and> os' = drop 0 os \<and> r \<noteq> Inr ()"
    using assms by (auto simp: require_admin_def others_did_def not_authenticated_def)
  then show ?thesis by blast
next
  case (Some up)
  then obtain user password where c: "vi_credentials vi = Some (user, password)" by (cases up) auto
  show ?thesis
  proof (cases "setup_complete (pe_config pe) (between os d)")
    case False
    then have "d' = others_did 1 os d \<and> os' = drop 1 os \<and> r \<noteq> Inr ()"
      using assms c by (auto simp: require_admin_def others_did_one Let_def setup_redirect_def drop_Suc)
    then show ?thesis by blast
  next
    case True
    then have p: "passed_if (verify_admin_credentials pe vi user password l) (tl os) (between os d) = (r, l', os', d')"
      using assms c by (simp add: require_admin_def Let_def)
    then show ?thesis
      using passed_if_cases [OF p c] others_then [of _ os d] by (auto simp: others_did_two others_did_three)
  qed
qed

lemma require_setup_cases:
  assumes "require_setup_access pe vi l os d = (r, l', os', d')"
  shows "(\<exists>n. d' = others_did n os d \<and> os' = drop n os) \<and> (r = Inr () \<longrightarrow> \<not> setup_complete (pe_config pe) (others_did 1 os d) \<or>
     shows_password pe vi l (others_did 2 os d) (others_did 3 os d))"
proof (cases "setup_complete (pe_config pe) (between os d)")
  case False
  then show ?thesis using assms by (auto simp: require_setup_access_def others_did_one Let_def drop_Suc intro!: exI [of _ 1])
next
  case True
  show ?thesis
  proof (cases "vi_credentials vi")
    case None
    then have "d' = others_did 1 os d \<and> os' = drop 1 os \<and> r \<noteq> Inr ()"
      using assms True by (auto simp: require_setup_access_def Let_def others_did_one unauthenticated_def drop_Suc)
    then show ?thesis by blast
  next
    case (Some up)
    then obtain user password where c: "vi_credentials vi = Some (user, password)" by (cases up) auto
    have p: "passed_if (verify_admin_credentials pe vi user password l) (tl os) (between os d) = (r, l', os', d')"
      using assms c True by (simp add: require_setup_access_def Let_def)
    then show ?thesis
      using passed_if_cases [OF p c] others_then [of _ os d] by (auto simp: others_did_two others_did_three)
  qed
qed

lemma guarded_cases:
  assumes "guarded_by g h l os d = (r, l', os', d')"
  shows "\<exists>q os1 d1. g l os d = (q, l', os1, d1) \<and>
     (q = Inr () \<and> h os1 d1 = (r, os', d') \<or> (\<exists>e. q = Inl e \<and> r = Inl e) \<and> d' = d1)"
  using assms by (auto simp: guarded_by_def split: prod.splits sum.splits)

section \<open>Transactions that start or end an operation\<close>

definition keeps_exclusive :: "'a tx \<Rightarrow> ('a \<Rightarrow> db \<Rightarrow> bool) \<Rightarrow> bool" where
  "keeps_exclusive t Q \<longleftrightarrow> (\<forall>d x d'. exclusive d \<longrightarrow> t d = Inr (x, d') \<longrightarrow> exclusive d' \<and> Q x d')"

lemma keeps_exclusiveD:
  "keeps_exclusive t Q \<Longrightarrow> exclusive d \<Longrightarrow> t d = Inr (x, d') \<Longrightarrow> exclusive d' \<and> Q x d'"
  unfolding keeps_exclusive_def by blast

lemma leaves_keeps: "leaves_operations t \<Longrightarrow> keeps_exclusive t (\<lambda>_. always)"
  unfolding keeps_exclusive_def by (blast dest: leavesD same_operations_exclusive)

lemma create_keeps:
  "keeps_exclusive (create_operation pe k review ssh)
     (\<lambda>p d. holder d = Some (LeaseOwner IpChange (pp_operation_id p)))"
  unfolding keeps_exclusive_def create_operation_def by (blast dest: prepare_ip_change_exclusive)

lemma install_keeps:
  "keeps_exclusive (prepare_install_operation sha cfg now at host)
     (\<lambda>p d. holder d = Some (LeaseOwner Install (pp_operation_id p)))"
  unfolding keeps_exclusive_def by (blast dest: prepare_install_exclusive)

lemma is_active_new_server:
  "is_active (d\<lparr>server_ops := server_ops d @ [r], server_seq := n\<rparr>) ow \<longleftrightarrow>
     is_active d ow \<or> (ow = LeaseOwner Server (sv_id r) \<and> active (sv_status r))"
  by (cases "(d, ow)" rule: is_active.cases) (auto simp: is_active.simps)

lemma insert_server_keeps:
  "keeps_exclusive (insert_server_operation kind step now) (\<lambda>oid d. holder d = Some (LeaseOwner Server oid))"
  unfolding keeps_exclusive_def
proof (intro allI impI)
  fix d oid d' assume e: "exclusive d" and "insert_server_operation kind step now d = Inr (oid, d')"
  then have oid: "oid = server_seq d + 1"
    and a: "acquire_vps_lease now (LeaseOwner Server oid) default_lease_seconds
      (d\<lparr>server_ops := server_ops d @ [new_server_row oid kind step (iso now)], server_seq := oid\<rparr>) = Inr d'"
      (is "acquire_vps_lease _ _ _ ?d2 = _")
    by (auto simp: insert_server_operation_def Let_def bind_result_Inr_iff)
  have act: "is_active ?d2 v \<longleftrightarrow> is_active d v \<or> v = LeaseOwner Server oid" for v
    by (simp add: is_active_new_server new_server_row_def)
  show "exclusive d' \<and> holder d' = Some (LeaseOwner Server oid)"
    using register_exclusive(1,2) [OF e act _ a] by simp
qed

text \<open>A row whose status stays as it was.\<close>

lemma same_status_active:
  assumes "\<And>r. ip_id (f r) = ip_id r" and "\<And>r. ip_status (f r) = ip_status r"
  shows "is_active (d\<lparr>ip_ops := update_where (\<lambda>r. ip_id r = oid) f (ip_ops d)\<rparr>) ow = is_active d ow"
proof (cases "(d, ow)" rule: is_active.cases)
  case (2 d' i)
  have "(\<exists>r \<in> set (update_where (\<lambda>r. ip_id r = oid) f rows). ip_id r = i \<and> active (ip_status r)) \<longleftrightarrow>
      (\<exists>r \<in> set rows. ip_id r = i \<and> active (ip_status r))" for rows
    by (induction rows) (auto simp: assms)
  then show ?thesis using 2 by (simp add: is_active.simps)
qed (simp_all add: is_active.simps)

lemma same_status_exclusive:
  assumes "\<And>r. ip_id (f r) = ip_id r" and "\<And>r. ip_status (f r) = ip_status r" and "exclusive d"
  shows "exclusive (d\<lparr>ip_ops := update_where (\<lambda>r. ip_id r = oid) f (ip_ops d)\<rparr>)"
  using assms(3) same_status_active [of f oid d, OF assms(1,2)]
  by (simp add: exclusive_def leases_ok_def holder_def lease_of_def)

lemma cancel_keeps: "keeps_exclusive (ignoring (cancel_ssh_wait cfg now oid)) (\<lambda>_. always)"
  by (auto simp: keeps_exclusive_def ignoring_def cancel_ssh_wait_def bind_result_Inr_iff Let_def set_ip_row_def
      intro!: same_status_exclusive split: option.splits)

lemma reconcile_keeps: "keeps_exclusive (ignoring (reconcile_ip_operation now oid note)) (\<lambda>_. always)"
  by (auto simp: keeps_exclusive_def ignoring_def reconcile_ip_operation_def bind_result_Inr_iff
      intro!: same_status_exclusive split: option.splits if_splits)

lemma restart_keeps:
  assumes "\<And>d d'. t d = Inr d' \<Longrightarrow> \<exists>d1.
      acquire_vps_lease at (LeaseOwner IpChange oid) default_lease_seconds d = Inr d1 \<and> d' = set_ip_row oid f d1"
    and f: "\<And>r. ip_id (f r) = ip_id r" "\<And>r. ip_status (f r) = Pending"
  shows "keeps_exclusive (ignoring t) (\<lambda>_ d. holder d = Some (LeaseOwner IpChange oid))"
  unfolding keeps_exclusive_def
proof (intro allI impI)
  fix d x d' assume e: "exclusive d" and "ignoring t d = Inr (x, d')"
  then have "t d = Inr d'" by (auto simp: ignoring_def bind_result_Inr_iff)
  then obtain d1 where a: "acquire_vps_lease at (LeaseOwner IpChange oid) default_lease_seconds d = Inr d1"
    and d': "d' = set_ip_row oid f d1" using assms(1) by blast
  have "leases_ok d" using e by (simp add: exclusive_def)
  then have "holder d1 = Some (LeaseOwner IpChange oid)" using vps.granted [OF _ a] by simp
  then show "exclusive d' \<and> holder d' = Some (LeaseOwner IpChange oid)"
    using restart_exclusive [OF e a f] by (simp add: d' holder_def lease_of_def frame_simps)
qed

lemma cleanup_keeps:
  "keeps_exclusive (ignoring (prepare_cleanup sha cfg at now oid)) (\<lambda>_ d. holder d = Some (LeaseOwner IpChange oid))"
  by (rule restart_keeps [of _ at _ "\<lambda>r. r\<lparr>ip_status := Pending, ip_action_state := CleanupQueued,
        ip_current_step := ''cleanup_queued'', ip_updated_at := iso now\<rparr>"])
    (auto simp: prepare_cleanup_def bind_result_Inr_iff)

lemma ssh_wait_keeps:
  "keeps_exclusive (ignoring (prepare_ssh_wait sha cfg at now oid)) (\<lambda>_ d. holder d = Some (LeaseOwner IpChange oid))"
  by (rule restart_keeps [of _ at _ "\<lambda>r. r\<lparr>ip_status := Pending, ip_action_state := SshWaitQueued,
        ip_current_step := ''wait_ssh'', ip_updated_at := iso now\<rparr>"])
    (auto simp: prepare_ssh_wait_def bind_result_Inr_iff)

lemma reset_keeps: "keeps_exclusive (ignoring (reset_server_and_aeza_state now)) (\<lambda>_. always)"
proof -
  have "\<not> is_active (clear_server_and_aeza_state now d) ow" for d ow
    by (cases "(d, ow)" rule: is_active.cases) (simp_all add: is_active.simps clear_tables)
  then show ?thesis
    by (auto simp: keeps_exclusive_def ignoring_def reset_server_and_aeza_state_def bind_result_Inr_iff exclusive_def
        leases_ok_def clear_tables split: option.splits)
qed

section \<open>What the started jobs own\<close>

fun job_owner :: "job \<Rightarrow> lease_owner option" where
  "job_owner (RunIpChange oid) = Some (LeaseOwner IpChange oid)"
| "job_owner (RunCleanup oid) = Some (LeaseOwner IpChange oid)"
| "job_owner (RunStatus oid) = Some (LeaseOwner Server oid)"
| "job_owner (RunReboot oid) = Some (LeaseOwner Server oid)"
| "job_owner (RunProtocolRefresh oid) = Some (LeaseOwner Server oid)"
| "job_owner (RunInstall oid) = Some (LeaseOwner Install oid)"
| "job_owner _ = None"

definition jobs_hold :: "page \<times> job list \<Rightarrow> db \<Rightarrow> bool" where
  "jobs_hold pj d \<longleftrightarrow> (\<forall>j \<in> set (snd pj). \<forall>ow. job_owner j = Some ow \<longrightarrow> holder d = Some ow)"

lemma jobs_hold_simps [simp]: "jobs_hold (p, []) d" "jobs_hold (p, [j]) d \<longleftrightarrow> (\<forall>ow. job_owner j = Some ow \<longrightarrow> holder d = Some ow)"
  by (simp_all add: jobs_hold_def)

abbreviation orderly :: "panel \<Rightarrow> bool" where
  "orderly h \<equiv> ensures exclusive always h jobs_hold"

lemma orderly_page [ensures_intros]: "ensures exclusive A (page p) jobs_hold"
  unfolding page_def by (rule ensures_respond) simp

lemma orderly_start:
  "(\<And>d ow. A d \<Longrightarrow> job_owner j = Some ow \<Longrightarrow> holder d = Some ow) \<Longrightarrow> ensures exclusive A (start j p) jobs_hold"
  unfolding start_def by (rule ensures_respond) simp

lemma ensures_look [ensures_intros]: "ensures P A (look pe f) (\<lambda>_. always)"
  unfolding look_def by (rule ensures_reading) simp

lemma orderly_transaction:
  assumes "keeps_exclusive t Q" and "\<And>x. ensures exclusive (Q x) (f x) jobs_hold"
  shows "ensures exclusive A (followed_by (transaction c t) f) jobs_hold"
  by (rule ensures_followed_by [where R = Q], rule ensures_transaction, erule keeps_exclusiveD [OF assms(1)],
      assumption, rule assms(2))

lemma orderly_trying:
  assumes "keeps_exclusive t Q" and "\<And>x. ensures exclusive (Q x) (f (Inr x)) jobs_hold" and "\<And>e. orderly (f (Inl e))"
  shows "ensures exclusive A (followed_by (trying t) f) jobs_hold"
proof (rule ensures_followed_by)
  let ?R = "\<lambda>r d. case r of Inl e \<Rightarrow> True | Inr x \<Rightarrow> Q x d"
  show "ensures exclusive A (trying t) ?R"
    using keeps_exclusiveD [OF assms(1)] by (intro ensures_trying) auto
  show "ensures exclusive (?R r) (f r) jobs_hold" for r
    using assms(2,3) by (cases r) simp_all
qed

lemma ensures_entry [ensures_intros]: "ensures P A (require_router_entry rid) (\<lambda>_. always)"
  unfolding require_router_entry_def by (rule ensures_reading) simp

lemma ensures_credential_router [ensures_intros]: "ensures P A (router_for_credential crid) (\<lambda>_. always)"
  unfolding router_for_credential_def by (rule ensures_reading) simp

lemma orderly_leaving:
  "leaves_operations t \<Longrightarrow> (\<And>x. orderly (f x)) \<Longrightarrow> ensures exclusive A (followed_by (transaction c t) f) jobs_hold"
  by (rule orderly_transaction [OF leaves_keeps])

lemma orderly_reading: "(\<And>d x. f d = Inr x \<Longrightarrow> snd x = []) \<Longrightarrow> ensures exclusive A (reading_tx f) jobs_hold"
  by (rule ensures_reading) (simp add: jobs_hold_def)

section \<open>The handlers one by one\<close>

lemma orderly_client_action: "leaves_operations t \<Longrightarrow> orderly (client_action t)"
  unfolding client_action_def by (intro orderly_leaving ensures_intros)

lemma orderly_clients:
  "orderly (new_client pe k sec name)" "orderly (rename_client k cid name)"
  "orderly (switch_client k cid enabled)" "orderly (remove_client k cid)"
proof -
  show "orderly (new_client pe k sec name)"
    unfolding new_client_def by (intro orderly_leaving ensures_intros leaves_intros)
qed (simp_all add: rename_client_def switch_client_def remove_client_def orderly_client_action leaves_doing
    client_operations)

lemma orderly_token_page: "orderly (token_page ic label)"
  unfolding token_page_def by (rule ensures_intros)

lemma leaves_token: "leaves_operations (issue_token pe k dr cid label router)"
  unfolding issue_token_def by (rule leaves_issue)

lemma orderly_routers:
  "orderly (new_router_handler pe k dr name cid)" "orderly (rename_router k rid name)"
  "orderly (switch_router k rid enabled)" "orderly (remove_router k rid)"
  "orderly (issue_replacement pe k dr rid label)" "orderly (rotate_credential pe k bytes crid)"
  "orderly (revoke_credential k crid)"
  unfolding new_router_handler_def rename_router_def switch_router_def remove_router_def router_action_def
    issue_replacement_def rotate_credential_def revoke_credential_def Let_def
  by (intro orderly_leaving ensures_intros leaves_intros leaves_token orderly_token_page)+

lemma ensures_switches [ensures_intros]: "ensures P A (require_switches pe) (\<lambda>_. always)"
  unfolding require_switches_def by (intro ensures_intros TrueI)

lemma orderly_refresh_ip: "orderly (refresh_ip pe k)"
proof -
  let ?f = "\<lambda>r. case r of
         Inr p \<Rightarrow> start (RunIpChange (pp_operation_id p)) (SeeOther ''/admin'')
       | Inl (IpChangeSafetyHoldError _) \<Rightarrow> page (SeeOther ''/admin/ip/confirm?safety_hold=1'')
       | Inl (OperationBusyError _) \<Rightarrow> page (SeeOther ''/admin/ip/confirm?already_running=1'')
       | Inl e \<Rightarrow> refuse (ServerError e)"
  have "orderly (?f (Inl e))" for e by (cases e) (simp_all add: ensures_intros)
  then have run: "orderly (followed_by (trying (create_operation pe k None None)) ?f)"
    by (intro orderly_trying [OF create_keeps]) (auto intro!: orderly_start)
  show ?thesis
    unfolding refresh_ip_def aeza_required_def by (intro run ensures_intros TrueI)
qed

lemma orderly_started:
  "keeps_exclusive create (\<lambda>oid d. holder d = job_owner (work oid)) \<Longrightarrow>
     orderly (start_server_operation create work busy there)"
  unfolding start_server_operation_def
  by (erule orderly_trying) (auto intro!: orderly_start ensures_intros split: exn.split)

lemma orderly_server:
  "orderly (server_status_refresh pe k)" "orderly (server_reboot pe k confirm)"
  "orderly (refresh_protocols_handler pe k)"
  unfolding server_status_refresh_def server_reboot_def refresh_protocols_handler_def create_server_operation_def
    create_protocol_refresh_operation_def
  by (intro orderly_started ensures_intros; simp add: insert_server_keeps)+

lemma orderly_decisions:
  "orderly (accept_sprintbox pe k oid)" "orderly (retry_sprintbox pe k oid)"
  "orderly (decide_sprintbox_ssh pe k oid decision)" "orderly (reconcile_operation k oid confirm note)"
proof -
  show "orderly (accept_sprintbox pe k oid)"
    unfolding accept_sprintbox_def by (rule orderly_transaction [OF cleanup_keeps], rule orderly_start) simp
  show "orderly (retry_sprintbox pe k oid)"
    unfolding retry_sprintbox_def
    by (intro orderly_transaction [OF create_keeps] ensures_intros orderly_start TrueI) simp
  show "orderly (decide_sprintbox_ssh pe k oid decision)"
    unfolding decide_sprintbox_ssh_def
    by (intro orderly_transaction [OF create_keeps] orderly_transaction [OF cancel_keeps]
        orderly_transaction [OF ssh_wait_keeps] ensures_intros orderly_start TrueI) simp_all
  show "orderly (reconcile_operation k oid confirm note)"
    unfolding reconcile_operation_def by (intro orderly_transaction [OF reconcile_keeps] ensures_intros TrueI)
qed

lemma orderly_rest:
  "orderly (manual_ip_action pe)" "orderly (reconcile_confirm oid)" "orderly (server_operation_page oid)"
  "orderly (forget_ssh_known_host pe)" "orderly (reset_server k)"
proof -
  show "orderly (manual_ip_action pe)"
    unfolding manual_ip_action_def aeza_required_def by (intro ensures_intros TrueI)
  show "orderly (reconcile_confirm oid)" "orderly (server_operation_page oid)"
    unfolding reconcile_confirm_def server_operation_page_def
    by (rule orderly_reading, auto split: option.splits if_splits)+
  show "orderly (forget_ssh_known_host pe)"
    unfolding forget_ssh_known_host_def by (intro ensures_intros orderly_start TrueI) simp
  show "orderly (reset_server k)"
    unfolding reset_server_def by (intro orderly_transaction [OF reset_keeps] ensures_intros)
qed

lemma orderly_install: "orderly (run_install pe k)"
proof -
  let ?f = "\<lambda>r. case r of
         Inr p \<Rightarrow> start (RunInstall (pp_operation_id p)) (SeeOther ''/admin'')
       | Inl (OperationBusyError _) \<Rightarrow> page (SeeOther ''/admin?install_already_running=1'')
       | Inl e \<Rightarrow> refuse (ServerError e)"
  have "orderly (?f (Inl e))" for e by (cases e) (simp_all add: ensures_intros)
  then have run: "orderly (followed_by (trying (prepare_install_operation sha cfg now at host)) ?f)" for sha cfg now at host
    by (intro orderly_trying [OF install_keeps]) (auto intro!: orderly_start)
  show ?thesis unfolding run_install_def by (intro run ensures_intros TrueI)
qed

lemma admin_orderly: "orderly (admin_handler pe k call)"
proof (cases call)
  case RefreshStatsNow
  then show ?thesis by (simp add: start_def) (intro ensures_intros, simp)
qed (simp_all add: orderly_refresh_ip orderly_clients orderly_routers orderly_server orderly_decisions orderly_rest
    orderly_install)

lemma ensures_provider [ensures_intros]: "ensures P A (provider_part fo) (\<lambda>_. always)"
  unfolding provider_part_def
  by (cases "fo_provider fo") (auto intro!: ensures_intros)

lemma setup_orderly: "orderly (setup_submit pe now salt fo)"
  unfolding setup_submit_def Let_def
  by (intro orderly_leaving ensures_intros leaves_intros settings_operations TrueI)

lemma guarded_orderly:
  assumes "guarded_by g h l os d = (r, l', os', d')" and "orderly h" and "friendly exclusive os" and "exclusive d"
    and guard: "\<And>q l' os' d'. g l os d = (q, l', os', d') \<Longrightarrow> \<exists>n. d' = others_did n os d \<and> os' = drop n os"
  shows "exclusive d' \<and> (\<forall>p. r = Inr p \<longrightarrow> jobs_hold p d')"
proof -
  obtain q os1 d1 where g: "g l os d = (q, l', os1, d1)"
    and rest: "q = Inr () \<and> h os1 d1 = (r, os', d') \<or> (\<exists>e. q = Inl e \<and> r = Inl e) \<and> d' = d1"
    using guarded_cases [OF assms(1)] by blast
  obtain n where n: "d1 = others_did n os d" "os1 = drop n os" using guard [OF g] by blast
  have "friendly exclusive os1"
    using assms(3) set_drop_subset [of n os] unfolding friendly_def n(2) by blast
  moreover have "exclusive d1"
    unfolding n(1) others_did_def
    by (rule others_keep) (use assms(3,4) in \<open>simp_all add: friendly_def\<close>)
  ultimately show ?thesis using rest ensuresD [OF assms(2), of os1 d1] by blast
qed

section \<open>The pages of a client\<close>

text \<open>The token in the path of a page that shows configuration, and what the page is made of.\<close>

fun configuration_token :: "public_call \<Rightarrow> string option" where
  "configuration_token (Subscription token) = Some token"
| "configuration_token (SingBox token) = Some token"
| "configuration_token (ClientPage token) = Some token"
| "configuration_token (AmneziaQr token) = Some token"
| "configuration_token (CurrentIp token) = Some token"
| "configuration_token (AmneziaConfig token) = Some token"
| "configuration_token (AmneziaKey token) = Some token"
| "configuration_token _ = None"

fun client_text :: "panel_env \<Rightarrow> public_call \<Rightarrow> captured_config \<Rightarrow> vpn_client \<Rightarrow> exn + page" where
  "client_text pe (Subscription token) c v = bind_result (render_subscription c v) (\<lambda>s. Inr (PlainText [] s))"
| "client_text pe (SingBox token) c v = bind_result (render_sing_box_subscription c v) (\<lambda>j. Inr (JsonText j))"
| "client_text pe (AmneziaQr token) c v = bind_result (amnezia_vpn_key (pe_base pe) c v) (\<lambda>key. Inr (QrCode key))"
| "client_text pe (CurrentIp token) c v = Inr (newline_text (cc_current_ip c))"
| "client_text pe (AmneziaConfig token) c v = bind_result (render_amnezia_client_config (pe_config pe) c v) (\<lambda>s.
     Inr (PlainText [(''Content-Disposition'',
       ''attachment; filename=amnezia-'' @ int_str (vc_id v) @ ''.conf'')] s))"
| "client_text pe (AmneziaKey token) c v = bind_result (amnezia_vpn_key (pe_base pe) c v) (\<lambda>key. Inr (newline_text key))"
| "client_text pe (ClientPage token) c v =
     bind_result (if pc_enabled (am_protocol (cc_amnezia c)) then amnezia_vpn_key (pe_base pe) c v else Inr [])
       (\<lambda>_. Inr (Html ''client_page.html''))"
| "client_text pe _ c v = Inl (KeyError [])"

lemma client_page_cong: "(\<And>c v. f c v = g c v) \<Longrightarrow> client_page pe token f = client_page pe token g"
  by (rule arg_cong [where f = "client_page pe token"]) (rule ext)+

lemma configuration_page:
  "configuration_token call = Some token \<Longrightarrow>
     public_handler pe vi call = client_page pe token (client_text pe call)"
  by (cases call) (auto simp: subscription_def sing_box_subscription_def client_html_def amnezia_qr_def
      current_eu_ip_def amnezia_config_page_def amnezia_key_page_def
      intro!: client_page_cong)

lemma text_of_client_only:
  "client_text pe call (c\<lparr>cc_clients := vs, cc_router_peers := ps\<rparr>) v = client_text pe call c v"
  by (cases call)
    (simp_all add: render_subscription_def hysteria_link_def vless_link_def hysteria_auth_def
      render_sing_box_subscription_def proxy_outbounds_def vless_outbound_def hysteria2_outbound_def
      amnezia_vpn_key_def render_amnezia_vpn_key_def render_amnezia_client_config_def vpn_key_payload_def
      awg_members_def Let_def)

lemma token_belongs:
  assumes "capture_vpn_config cfg d = Inr c" and "client_by_token token c = Some v"
  shows "\<exists>row \<in> set (clients d). v = capture_client row \<and> cl_token row = token \<and> cl_deleted_at row = None"
proof -
  have "v \<in> set (cc_clients c)" "vc_token v = token"
    using assms(2) by (auto simp: client_by_token_def find_Some_iff)
  then show ?thesis
    unfolding capture_fields(2) [OF assms(1)] by (auto simp: list_clients_def capture_client_def)
qed

lemma client_page_shown:
  assumes "client_page pe token f os d = (Inr (pg, jobs), os', d')"
  shows "jobs = [] \<and> d' = between os d \<and> (\<exists>c v. capture_vpn_config (pe_config pe) d' = Inr c \<and>
     client_by_token token c = Some v \<and> vc_enabled v \<and> cc_current_ip c \<noteq> [] \<and> f c v = Inr pg)"
proof -
  obtain c v os1 d1 where c: "client_of_token pe token os d = (Inr (c, v), os1, d1)"
    and rest: "(if cc_current_ip c = [] then refuse (http_error 503 [])
       else followed_by (resolved (internal (f c v))) page) os1 d1 = (Inr (pg, jobs), os', d')"
    using assms by (auto simp: client_page_def followed_by_Inr)
  then show ?thesis
    by (auto simp: client_of_token_def web_results bind_result_Inr_iff internal_Inr page_def
        split: option.splits if_splits)
qed

section \<open>What an accepted setup form stored\<close>

lemma required_port_range: "required_port_value raw label = Inr p \<Longrightarrow> 1 \<le> p \<and> p \<le> 65535"
  by (auto simp: required_port_value_def split: if_splits option.splits)

text \<open>The ports of the enabled protocols.\<close>

definition used_ports :: "protocol_ports \<Rightarrow> int list" where
  "used_ports ps = map (\<lambda>(_, _, port). port) (filter (\<lambda>(_, enabled, _). enabled) ps)"

lemma unique_ports:
  "ensure_unique_ports seen ps = Inr () \<Longrightarrow> distinct (used_ports ps) \<and> set (used_ports ps) \<inter> fst ` set seen = {}"
proof (induction seen ps rule: ensure_unique_ports.induct)
  case (2 seen name enabled port ps)
  show ?case
  proof (cases enabled)
    case True
    then have none: "map_of seen port = None" and "ensure_unique_ports (seen @ [(port, name)]) ps = Inr ()"
      using 2 by (auto split: option.splits)
    then have "distinct (used_ports ps) \<and> set (used_ports ps) \<inter> fst ` set (seen @ [(port, name)]) = {}"
      using 2(2) True by blast
    with True none show ?thesis by (auto simp: used_ports_def map_of_eq_None_iff)
  qed (use 2 in \<open>auto simp: used_ports_def\<close>)
qed (simp add: used_ports_def)

lemma feature_keys:
  "feature_updates fo = Inr us \<Longrightarrow> fst ` set us \<subseteq> {''config.enable_transactional_vpn_apply'',
     ''config.enable_safe_aeza_ip_rotation'', ''config.enable_router_api''}"
  by (auto simp: feature_updates_def split: if_splits)

lemma ssh_keys: "fst ` set (ssh_updates fo existing) \<subseteq> {''config.eu_ssh_password'', ''config.eu_ssh_key_path''}"
  by (auto simp: ssh_updates_def Let_def)

lemma sprintbox_keys: "sprintbox_updates kvs = Inr us \<Longrightarrow> map fst us = map (\<lambda>(k, _). ''config.sprintbox_'' @ k) kvs"
  by (induction kvs arbitrary: us rule: sprintbox_updates.induct) (auto simp: bind_result_Inr_iff split: if_splits)

lemma provider_keys:
  assumes "provider_part fo os d = (Inr us, os', d')"
  shows "fst ` set us \<subseteq> {''config.vps_provider'', ''config.sprintbox_login'', ''config.sprintbox_box_name'',
    ''config.sprintbox_service'', ''config.sprintbox_distributive'', ''config.sprintbox_key''}"
proof (cases "fo_provider fo")
  case None
  then show ?thesis using assms by (simp add: provider_part_def respond_Inr)
next
  case (Some provider)
  then obtain busy where "provider_updates fo provider busy = Inr us"
    using assms by (auto simp: provider_part_def web_results split: if_splits)
  then show ?thesis
    by (auto simp: provider_updates_def bind_result_Inr_iff sprintbox_fields_def image_iff split: if_splits
        dest!: sprintbox_keys dest: arg_cong [where f = set])
qed

text \<open>What is written for one key, when the later parts of the update do not have it.\<close>

lemma setting_set_settings:
  assumes "set_settings now kvs mark idle d = Inr d'" and "k \<noteq> ''vpn.config_updated_at''"
  shows "setting d' k = (case map_of (rev kvs) k of None \<Rightarrow> setting d k | Some v \<Rightarrow> v)"
  using assms
  by (auto simp: set_settings_def Let_def setting_bump_revision put_settings_eq st.get_put_all split: option.splits if_splits)

lemma absent_key: "k \<notin> fst ` set kvs \<Longrightarrow> map_of (rev kvs) k = None"
  by (simp add: map_of_eq_None_iff)

lemma set_settings_idle:
  "set_settings now kvs mark True d = Inr d' \<Longrightarrow> active_operation_owner d = None"
  by (auto simp: set_settings_def split: option.splits)

definition setup_writes :: "panel_env \<Rightarrow> setup_form \<Rightarrow> int \<Rightarrow> string \<Rightarrow> protocol_ports \<Rightarrow> (string \<times> string) list \<Rightarrow>
   (string \<times> string) list \<Rightarrow> (string \<times> string) list \<Rightarrow> (string \<times> string) list" where
  "setup_writes pe fo ssh_port existing ports features secret provider =
     base_updates fo (if py_strip (fo_ssh_host fo) = py_strip (fo_current_ip fo) then [] else py_strip (fo_ssh_host fo))
       ssh_port @ features @ secret @
     (if py_strip (fo_current_ip fo) = [] then [] else [(''current_ip'', py_strip (fo_current_ip fo))]) @
     port_updates ports @ ssh_updates fo existing @
     (if py_strip (fo_aeza_token fo) = [] then [] else [(''config.aeza_token'', py_strip (fo_aeza_token fo))]) @
     provider"

lemma after_check: "(if b then refuse e else h) os d = (Inr x, os', d') \<Longrightarrow> h os d = (Inr x, os', d')"
  by (simp add: refuse_Inr split: if_splits)

lemma setup_result:
  assumes "setup_submit pe now salt fo os d = (Inr ans, os', d')"
  obtains ssh_port existing ports features secret provider os1 d1 os2 d2 d3 where
    "ans = (SeeOther ''/admin'', [])" "py_strip (fo_admin_password fo) = py_strip (fo_admin_password_confirm fo)"
    "form_ports fo = Inr ports" "ensure_unique_ports [] ports = Inr ()" "feature_updates fo = Inr features"
    "password_update pe salt (py_strip (fo_admin_password fo)) = Inr secret"
    "provider_part fo os1 d1 = (Inr provider, os2, d2)"
    "set_settings now (setup_writes pe fo ssh_port existing ports features secret provider) True
       (fo_provider fo \<noteq> None) d3 = Inr d'"
proof -
  have "py_strip (fo_admin_password fo) = py_strip (fo_admin_password_confirm fo)"
    using assms by (simp add: setup_submit_def Let_def refuse_Inr split: if_splits)
  moreover let ?body = "followed_by (resolved (required_port_value (int_str (fo_ssh_port fo)) ''SSH'')) (\<lambda>ssh_port.
      followed_by (look pe (eu_ssh_password None)) (\<lambda>existing.
      followed_by (resolved (form_ports fo)) (\<lambda>ports.
      followed_by (resolved (ensure_unique_ports [] ports)) (\<lambda>_.
      followed_by (resolved (feature_updates fo)) (\<lambda>features.
      followed_by (resolved (password_update pe salt (py_strip (fo_admin_password fo)))) (\<lambda>secret.
      followed_by (provider_part fo) (\<lambda>provider.
      followed_by (transaction busy_conflict (ignoring (set_settings now
          (setup_writes pe fo ssh_port existing ports features secret provider)
          True (fo_provider fo \<noteq> None)))) (\<lambda>_. page (SeeOther ''/admin'')))))))))"
  obtain complete os0 d0 where "(if \<not> complete \<and> py_strip (fo_admin_password fo) = [] then
        refuse (http_error 400 ''Admin password is required'') else ?body) os0 d0 = (Inr ans, os', d')"
    using after_check [OF assms [unfolded setup_submit_def Let_def]]
    unfolding followed_by_Inr [of "look pe setup_complete"] setup_writes_def by blast
  then have "?body os0 d0 = (Inr ans, os', d')"
    by (rule after_check)
  then obtain ssh_port existing ports features secret provider os1 d1 os2 d2 v u os3 d3 where
    "form_ports fo = Inr ports" "ensure_unique_ports [] ports = Inr v" "feature_updates fo = Inr features"
    "password_update pe salt (py_strip (fo_admin_password fo)) = Inr secret"
    "provider_part fo os1 d1 = (Inr provider, os2, d2)"
    and w: "transaction busy_conflict (ignoring (set_settings now
          (setup_writes pe fo ssh_port existing ports features secret provider)
          True (fo_provider fo \<noteq> None))) os2 d2 = (Inr u, os3, d3)"
    and p: "page (SeeOther ''/admin'') os3 d3 = (Inr ans, os', d')"
    unfolding followed_by_Inr resolved_Inr by blast
  moreover have "ans = (SeeOther ''/admin'', [])" "d' = d3" using p by (simp_all add: page_def respond_Inr)
  moreover from this(2) w have "set_settings now (setup_writes pe fo ssh_port existing ports features secret provider) True
       (fo_provider fo \<noteq> None) (between os2 d2) = Inr d'"
    by (auto simp: transaction_Inr ignoring_def bind_result_Inr_iff)
  moreover have "v = ()" by simp
  ultimately show thesis using that by blast
qed

lemma middle_part:
  "map_of (rev ys) k = Some v \<Longrightarrow> k \<notin> fst ` set zs \<Longrightarrow> map_of (rev (xs @ ys @ zs)) k = Some v"
  by (simp add: map_add_def map_of_eq_None_iff [THEN iffD2])

lemma after_ports_keys:
  assumes "provider_part fo os1 d1 = (Inr provider, os2, d2)"
  shows "fst ` set (ssh_updates fo existing @ (if py_strip (fo_aeza_token fo) = [] then []
      else [(''config.aeza_token'', py_strip (fo_aeza_token fo))]) @ provider) \<subseteq>
    {''config.eu_ssh_password'', ''config.eu_ssh_key_path'', ''config.aeza_token'', ''config.vps_provider'',
     ''config.sprintbox_login'', ''config.sprintbox_box_name'', ''config.sprintbox_service'',
     ''config.sprintbox_distributive'', ''config.sprintbox_key''}"
  using provider_keys [OF assms] ssh_keys [of fo existing] by auto

lemma written_port:
  assumes "provider_part fo os1 d1 = (Inr provider, os2, d2)" and "map_of (rev (port_updates ports)) k = Some v"
    and "k \<in> {''config.vless_port'', ''config.hysteria_port'', ''config.amnezia_port''}"
  shows "map_of (rev (setup_writes pe fo ssh_port existing ports features secret provider)) k = Some v"
proof -
  let ?after = "ssh_updates fo existing @ (if py_strip (fo_aeza_token fo) = [] then []
      else [(''config.aeza_token'', py_strip (fo_aeza_token fo))]) @ provider"
  obtain before where w: "setup_writes pe fo ssh_port existing ports features secret provider =
      before @ port_updates ports @ ?after"
    unfolding setup_writes_def append_assoc [symmetric] by blast
  have "k \<notin> fst ` set ?after" using after_ports_keys [OF assms(1), of existing] assms(3) by auto
  with assms(2) show ?thesis unfolding w by (rule middle_part)
qed

lemma written_password:
  assumes "provider_part fo os1 d1 = (Inr provider, os2, d2)"
    and "ports = [(''vless'', v), (''hysteria'', h), (''amnezia'', a)]"
  shows "map_of (rev (setup_writes pe fo ssh_port existing ports features [(''config.admin_password'', hashed)] provider))
     ''config.admin_password'' = Some hashed"
proof -
  let ?address = "if py_strip (fo_current_ip fo) = [] then [] else [(''current_ip'', py_strip (fo_current_ip fo))]"
  let ?after = "ssh_updates fo existing @ (if py_strip (fo_aeza_token fo) = [] then []
      else [(''config.aeza_token'', py_strip (fo_aeza_token fo))]) @ provider"
  obtain before where w: "setup_writes pe fo ssh_port existing ports features [(''config.admin_password'', hashed)] provider =
      before @ [(''config.admin_password'', hashed)] @ ?address @ port_updates ports @ ?after"
    unfolding setup_writes_def by (metis append_assoc)
  have "''config.admin_password'' \<notin> fst ` set (port_updates ports)"
    unfolding assms(2) by (cases v; cases h; cases a) (simp add: port_updates_def)
  moreover have "''config.admin_password'' \<notin> fst ` set ?after" using after_ports_keys [OF assms(1), of existing] by auto
  ultimately have "''config.admin_password'' \<notin> fst ` set (?address @ port_updates ports @ ?after)" by auto
  then show ?thesis unfolding w by (intro middle_part) simp_all
qed

definition sample_panel :: panel_env where
  "sample_panel = \<lparr>pe_base = sample_surroundings,
     pe_kdf = (\<lambda>q s n r p len. Some (take len (q @ replicate len (CHR ''x'')))),
     pe_pub = (\<lambda>s. s), pe_limits = login_limits\<rparr>"

definition sample_visit :: "(string \<times> string) option \<Rightarrow> visit" where
  "sample_visit named = \<lparr>vi_request = sample_request [], vi_credentials = named, vi_base_url = [],
     vi_asked = 0, vi_compared = 0, vi_clocks = \<lparr>ck_clock = 0, ck_at = 0, ck_now = 0\<rparr>\<rparr>"

definition sample_protected :: db where
  "sample_protected = empty_db\<lparr>settings := [(''config.admin_password'', ''secret'')]\<rparr>"

definition sample_managed :: db where
  "sample_managed = empty_db\<lparr>settings := [(''config.admin_username'', ''admin''), (''config.admin_password'', ''secret''), (''config.aeza_token'', ''t''),
     (''config.aeza_service_id'', ''7''), (''config.vps_provider'', ''aeza'')]\<rparr>"

lemma capture_needs_settings:
  assumes "settings d = settings d'"
  shows "succeeds (capture_vpn_config cfg d) = succeeds (capture_vpn_config cfg d')"
proof -
  have "protocol d = protocol d'" "capture_obfuscation d = capture_obfuscation d'"
    using assms by (simp_all add: fun_eq_iff protocol_def capture_obfuscation_def int_setting_def setting_def Let_def)
  then show ?thesis by (simp add: capture_vpn_config_def succeeds_bind)
qed

definition sample_shown :: db where
  "sample_shown = sample_routers\<lparr>settings := [(''current_ip'', ''203.0.113.7'')]\<rparr>"

definition sample_form :: setup_form where
  "sample_form = \<lparr>fo_admin_username = ''admin'', fo_admin_password = ''secret'', fo_admin_password_confirm = ''secret'',
     fo_current_ip = [], fo_ssh_host = [], fo_ssh_user = ''root'', fo_ssh_port = 22, fo_ssh_password = [],
     fo_ssh_key_path = [], fo_vless = (Some ''on'', ''43''), fo_hysteria = (Some ''on'', ''84''),
     fo_amnezia = (None, ''43''), fo_autovpn2 = None, fo_transactional = None, fo_safe_rotation = None,
     fo_router_api = None, fo_aeza_token = [], fo_aeza_service_id = [], fo_aeza_domain = [], fo_provider = None,
     fo_sprintbox_login = [], fo_sprintbox_key = [], fo_sprintbox_box_name = [], fo_sprintbox_service = [],
     fo_sprintbox_distributive = []\<rparr>"

section \<open>Properties\<close>

text \<open>C14.  Nobody changes anything through the panel without the password: a request to an action of the
  administrator, or to the setup form once a password is set, either fails, and then the database is
  what the other threads made of it, or its visitor named the stored user and a password that the
  stored one matches, while the limiter did not block him.\<close>

theorem changes_need_the_password:
  assumes "admin_request pe vi call l os d = (r, l', os', d') \<or>
     setup_complete (pe_config pe) (others_did 1 os d) \<and> setup_request pe vi salt fo l os d = (r, l', os', d')"
  shows "(\<exists>e n. r = Inl e \<and> d' = others_did n os d) \<or>
     shows_password pe vi l (others_did 2 os d) (others_did 3 os d)"
  using assms
proof
  assume "admin_request pe vi call l os d = (r, l', os', d')"
  then show ?thesis
    unfolding admin_request_def by (blast dest: guarded_cases require_admin_cases)
next
  assume "setup_complete (pe_config pe) (others_did 1 os d) \<and> setup_request pe vi salt fo l os d = (r, l', os', d')"
  then show ?thesis
    unfolding setup_request_def by (blast dest: guarded_cases require_setup_cases)
qed

theorem changes_need_the_password_witness:
  "snd (snd (snd (admin_request sample_panel (sample_visit (Some (''admin'', ''guess''))) ResetServer
     new_limiter [] sample_protected))) = sample_protected"
proof -
  obtain r l' os' d' where run: "admin_request sample_panel (sample_visit (Some (''admin'', ''guess''))) ResetServer
     new_limiter [] sample_protected = (r, l', os', d')"
    by (metis surj_pair)
  have none: "others_did n [] sample_protected = sample_protected" for n by (simp add: others_did_def)
  have "runtime_admin_password (pe_config sample_panel) sample_protected = ''secret''" by code_simp
  moreover have "verify_password (pe_kdf sample_panel) ''guess'' ''secret'' = Inr False" by code_simp
  ultimately have "\<not> shows_password sample_panel (sample_visit (Some (''admin'', ''guess''))) new_limiter
      sample_protected sample_protected"
    by (auto simp: shows_password_def sample_visit_def)
  with changes_need_the_password [OF disjI1, OF run] show ?thesis by (simp add: none run)
qed

text \<open>C15.  A job that works on the server is only started while its operation holds the lease, and no
  request breaks the exclusive use of the server: when the other threads keep it, every action of the
  administrator and every setup form leaves a database in which each active operation is the lease's
  holder, and the operation of each job in the answer is that holder.\<close>

theorem started_job_owns_the_server:
  assumes "admin_request pe vi call l os d = (r, l', os', d') \<or> setup_request pe vi salt fo l os d = (r, l', os', d')"
    and "friendly exclusive os" and "exclusive d"
  shows "exclusive d' \<and> (\<forall>pg jobs. r = Inr (pg, jobs) \<longrightarrow>
     (\<forall>j \<in> set jobs. \<forall>ow. job_owner j = Some ow \<longrightarrow> holder d' = Some ow))"
proof -
  have "exclusive d' \<and> (\<forall>p. r = Inr p \<longrightarrow> jobs_hold p d')"
    using assms(1) unfolding admin_request_def setup_request_def
  proof
    assume g: "guarded_by (require_admin pe vi) (admin_handler pe (vi_clocks vi) call) l os d = (r, l', os', d')"
    show ?thesis using guarded_orderly [OF g admin_orderly assms(2,3)] require_admin_cases by blast
  next
    assume g: "guarded_by (require_setup_access pe vi) (setup_submit pe (ck_now (vi_clocks vi)) salt fo) l os d = (r, l', os', d')"
    show ?thesis using guarded_orderly [OF g setup_orderly assms(2,3)] require_setup_cases by blast
  qed
  then show ?thesis by (simp add: jobs_hold_def)
qed

theorem started_job_owns_the_server_witness:
  "\<exists>p l' os' d'. admin_request sample_panel (sample_visit (Some (''admin'', ''secret''))) ServerStatusRefresh
       new_limiter [] sample_managed = (Inr (p, [RunStatus 1]), l', os', d') \<and>
     holder d' = Some (LeaseOwner Server 1)"
proof -
  let ?v = "sample_visit (Some (''admin'', ''secret''))"
  have e: "exclusive sample_managed" "leases_ok sample_managed" "lease_of sample_managed = None"
    using exclusive_cong [of sample_managed empty_db] empty_db_ok lease_cong [of sample_managed empty_db]
    by (simp_all add: sample_managed_def lease_of_def exclusive_def)
  have "runtime_admin_username (pe_config sample_panel) sample_managed = ''admin''"
    "runtime_admin_password (pe_config sample_panel) sample_managed = ''secret''"
    "compare_digest ''admin'' ''admin'' = Inr True"
    "verify_password (pe_kdf sample_panel) ''secret'' ''secret'' = Inr True" by code_simp+
  then obtain l1 where g: "require_admin sample_panel ?v new_limiter [] sample_managed = (Inr (), l1, [], sample_managed)"
    by (simp add: require_admin_def passed_if_def verify_admin_credentials_def retry_after_def new_limiter_def
        credentials_match_def followed_by_def reading_tx_def between_def Let_def respond_def internal_def
        setup_complete_def sample_visit_def)
  have available: "provider_available (pe_config sample_panel) sample_managed" by code_simp
  let ?d2 = "sample_managed\<lparr>server_ops := [new_server_row 1 StatusKind ''queued'' (iso 0)], server_seq := 1\<rparr>"
  have "leases_ok ?d2" "expired_at 0 ?d2"
    using e lease_cong [of ?d2 sample_managed] by (simp_all add: expired_at_def lease_of_def)
  then obtain d3 where "acquire_vps_lease 0 (LeaseOwner Server 1) default_lease_seconds ?d2 = Inr d3"
    using acquire_granted by blast
  then have "create_server_operation StatusKind 0 sample_managed = Inr (1, d3)"
    by (simp add: create_server_operation_def insert_server_operation_def sample_managed_def empty_db_def)
  moreover have "ck_now (vi_clocks ?v) = 0" by (simp add: sample_visit_def)
  ultimately have run: "admin_request sample_panel ?v ServerStatusRefresh new_limiter [] sample_managed =
      (Inr (SeeOther (operation_page 1), [RunStatus 1]), l1, [], d3)"
    by (simp add: admin_request_def guarded_by_def g server_status_refresh_def look_def reading_tx_def
        followed_by_def between_def Let_def available start_server_operation_def trying_def start_def respond_def)
  show ?thesis
    using started_job_owns_the_server [OF disjI1, OF run _ e(1)] run by (auto simp: friendly_def)
qed

text \<open>C16.  A page with configuration is only shown for the token of a client that is enabled and not
  deleted at that moment, it is made of that client's own data and the server's settings alone, whatever
  other clients and routers there are, and showing it changes nothing.\<close>

theorem page_shows_only_its_client:
  assumes "public_handler pe vi call os d = (Inr (pg, jobs), os', d')" and "configuration_token call = Some token"
  shows "jobs = [] \<and> d' = between os d \<and> (\<exists>c row. capture_vpn_config (pe_config pe) d' = Inr c \<and>
     row \<in> set (clients d') \<and> cl_token row = token \<and> cl_enabled row \<and> cl_deleted_at row = None \<and>
     cc_current_ip c \<noteq> [] \<and>
     (\<forall>vs ps. client_text pe call (c\<lparr>cc_clients := vs, cc_router_peers := ps\<rparr>) (capture_client row) = Inr pg))"
proof -
  obtain c v where c: "jobs = []" "d' = between os d" "capture_vpn_config (pe_config pe) d' = Inr c"
      "client_by_token token c = Some v" "vc_enabled v" "cc_current_ip c \<noteq> []" "client_text pe call c v = Inr pg"
    using client_page_shown assms(1) unfolding configuration_page [OF assms(2)] by blast
  obtain row where "row \<in> set (clients d')" "v = capture_client row" "cl_token row = token" "cl_deleted_at row = None"
    using token_belongs [OF c(3,4)] by blast
  moreover from this(2) have "cl_enabled row" using c(5) by (simp add: capture_client_def)
  ultimately show ?thesis using c text_of_client_only by metis
qed

theorem page_shows_only_its_client_witness:
  "\<exists>pg d'. public_handler sample_panel (sample_visit None) (CurrentIp ''t'') [] sample_shown = (Inr (pg, []), [], d') \<and>
     (\<exists>row \<in> set (clients d'). cl_token row = ''t'' \<and> cl_enabled row)"
proof -
  have "succeeds (capture_vpn_config default_config (empty_db\<lparr>settings := [(''current_ip'', ''203.0.113.7'')]\<rparr>))"
    by code_simp
  then have "succeeds (capture_vpn_config default_config sample_shown)"
    by (subst capture_needs_settings [where d' = "empty_db\<lparr>settings := [(''current_ip'', ''203.0.113.7'')]\<rparr>"])
      (simp_all add: sample_shown_def)
  then obtain c where c: "capture_vpn_config default_config sample_shown = Inr c"
    by (auto simp: succeeds_def split: sum.splits)
  have cfg: "pe_config sample_panel = default_config"
    by (simp add: pe_config_def sample_panel_def sample_surroundings_def)
  have ip: "cc_current_ip c = ''203.0.113.7''"
    using capture_fields(3) [OF c] by (simp add: sample_shown_def setting_def)
  obtain v where v: "client_by_token ''t'' c = Some v" "vc_enabled v"
    using capture_fields(2) [OF c]
    by (simp add: client_by_token_def sample_shown_def sample_routers_def list_clients_def capture_client_def
        sample_client_def)
  have run: "public_handler sample_panel (sample_visit None) (CurrentIp ''t'') [] sample_shown =
      (Inr (newline_text (cc_current_ip c), []), [], sample_shown)"
    by (simp add: current_eu_ip_def client_page_def followed_by_def client_of_token_def reading_tx_def between_def
        Let_def cfg c v ip internal_def resolved_def respond_def page_def)
  from page_shows_only_its_client [OF this] run show ?thesis by fastforce
qed

text \<open>C17.  A setup form that is accepted stored three ports between 1 and 65535, no two enabled protocols on
  one port, and, when it has a password, a hash that verifies that password and no other with another
  scrypt output; with a provider in it, it was stored while no operation was active and nobody held the
  lease.\<close>

theorem accepted_setup_is_stored:
  assumes "setup_submit pe now salt fo os d = (Inr ans, os', d')"
    and "\<forall>q h. pe_kdf pe q salt 32768 8 1 32 = Some h \<longrightarrow> length h = 32"
  shows "\<exists>v h a d1. form_ports fo = Inr [(''vless'', checked (fst (fo_vless fo)), v),
       (''hysteria'', checked (fst (fo_hysteria fo)), h), (''amnezia'', checked (fst (fo_amnezia fo)), a)] \<and>
     set [v, h, a] \<subseteq> {1..65535} \<and>
     distinct (used_ports [(''vless'', checked (fst (fo_vless fo)), v),
       (''hysteria'', checked (fst (fo_hysteria fo)), h), (''amnezia'', checked (fst (fo_amnezia fo)), a)]) \<and>
     map (\<lambda>name. setting d' (''config.'' @ name @ ''_port'')) [''vless'', ''hysteria'', ''amnezia''] =
       map int_str [v, h, a] \<and>
     (py_strip (fo_admin_password fo) \<noteq> [] \<longrightarrow> (\<forall>attempt.
        verify_password (pe_kdf pe) attempt (setting d' ''config.admin_password'') =
          Inr (pe_kdf pe attempt salt 32768 8 1 32 = pe_kdf pe (py_strip (fo_admin_password fo)) salt 32768 8 1 32))) \<and>
     (fo_provider fo \<noteq> None \<longrightarrow> active_operation_owner d1 = None \<and>
        (\<exists>kvs. set_settings now kvs True True d1 = Inr d'))"
proof -
  obtain ssh_port existing ports features secret provider os1 d1 os2 d2 d3 where
    ports: "form_ports fo = Inr ports" and unique: "ensure_unique_ports [] ports = Inr ()"
    and features: "feature_updates fo = Inr features"
    and secret: "password_update pe salt (py_strip (fo_admin_password fo)) = Inr secret"
    and provider: "provider_part fo os1 d1 = (Inr provider, os2, d2)"
    and stored: "set_settings now (setup_writes pe fo ssh_port existing ports features secret provider) True
       (fo_provider fo \<noteq> None) d3 = Inr d'" (is "set_settings _ ?kvs _ _ _ = _")
    by (rule setup_result [OF assms(1)])
  obtain v h a where vha: "ports = [(''vless'', checked (fst (fo_vless fo)), v),
       (''hysteria'', checked (fst (fo_hysteria fo)), h), (''amnezia'', checked (fst (fo_amnezia fo)), a)]"
    and range: "set [v, h, a] \<subseteq> {1..65535}"
    using ports by (auto simp: form_ports_def bind_result_Inr_iff dest!: required_port_range)
  have port: "setting d' k = w" if "map_of (rev (port_updates ports)) k = Some w"
    "k \<in> {''config.vless_port'', ''config.hysteria_port'', ''config.amnezia_port''}" for k w
  proof -
    have "k \<noteq> ''vpn.config_updated_at''" using that(2) by auto
    then show ?thesis using setting_set_settings [OF stored, of k] written_port [OF provider that] by simp
  qed
  have settings: "map (\<lambda>name. setting d' (''config.'' @ name @ ''_port'')) [''vless'', ''hysteria'', ''amnezia''] =
      map int_str [v, h, a]"
    by (simp, intro conjI; rule port; simp add: vha port_updates_def)
  have password: "verify_password (pe_kdf pe) attempt (setting d' ''config.admin_password'') =
      Inr (pe_kdf pe attempt salt 32768 8 1 32 = pe_kdf pe (py_strip (fo_admin_password fo)) salt 32768 8 1 32)"
    if given: "py_strip (fo_admin_password fo) \<noteq> []" for attempt
  proof -
    obtain hashed where hash: "hash_password (pe_kdf pe) salt (py_strip (fo_admin_password fo)) = Some hashed"
      and s: "secret = [(''config.admin_password'', hashed)]"
      using secret given by (auto simp: password_update_def split: option.splits)
    have "setting d' ''config.admin_password'' = hashed"
      using setting_set_settings [OF stored, of "''config.admin_password''"] written_password [OF provider vha]
      by (simp add: s)
    then show ?thesis using password_hash_verifies [OF hash assms(2)] by simp
  qed
  have "fo_provider fo \<noteq> None \<longrightarrow> active_operation_owner d3 = None \<and>
      (\<exists>kvs. set_settings now kvs True True d3 = Inr d')"
    using stored set_settings_idle by auto
  with ports unique_ports [OF unique] range settings password show ?thesis
    unfolding vha by (intro exI conjI) auto
qed

lemma look_alone: "followed_by (look pe f) g [] d = g (f (pe_config pe) d) [] d"
  by (simp add: followed_by_def look_def reading_tx_def between_def)

lemma respond_alone: "followed_by (respond x) g os d = g x os d"
  by (simp add: followed_by_def respond_def)

lemma transaction_alone: "followed_by (transaction c (ignoring t)) g [] d =
    (case t d of Inl e \<Rightarrow> (Inl (c e), [], d) | Inr d' \<Rightarrow> g () [] d')"
  by (simp add: followed_by_def transaction_def between_def ignoring_def split: sum.split)

theorem accepted_setup_is_stored_witness:
  "\<exists>ans d'. setup_submit sample_panel 0 ''salt'' sample_form [] empty_db = (Inr ans, [], d') \<and>
     verify_password (pe_kdf sample_panel) ''secret'' (setting d' ''config.admin_password'') = Inr True"
proof -
  have kdf: "\<forall>q h. pe_kdf sample_panel q ''salt'' 32768 8 1 32 = Some h \<longrightarrow> length h = 32"
    by (auto simp: sample_panel_def)
  have f: "py_strip (fo_admin_password sample_form) = ''secret''"
    "py_strip (fo_admin_password_confirm sample_form) = ''secret''"
    "required_port_value (int_str (fo_ssh_port sample_form)) ''SSH'' = Inr 22"
    "feature_updates sample_form = Inr []" "fo_provider sample_form = None"
    "form_ports sample_form = Inr [(''vless'', True, 43), (''hysteria'', True, 84), (''amnezia'', False, 43)]"
    "ensure_unique_ports [] [(''vless'', True, 43), (''hysteria'', True, 84), (''amnezia'', False, 43)] = Inr ()"
    by code_simp+
  obtain hashed where h: "hash_password (pe_kdf sample_panel) ''salt'' ''secret'' = Some hashed"
    by (auto simp: hash_password_def sample_panel_def)
  obtain complete existing where c: "setup_complete (pe_config sample_panel) empty_db = complete"
    "eu_ssh_password None (pe_config sample_panel) empty_db = existing" by blast
  have "provider_part sample_form = respond []" by (simp add: provider_part_def f(5))
  moreover have "password_update sample_panel ''salt'' ''secret'' = Inr [(''config.admin_password'', hashed)]"
    by (simp add: password_update_def h)
  ultimately obtain kvs where
    w: "setup_submit sample_panel 0 ''salt'' sample_form [] empty_db = (case set_settings 0 kvs True False empty_db of
       Inl e \<Rightarrow> (Inl (busy_conflict e), [], empty_db) | Inr d' \<Rightarrow> page (SeeOther ''/admin'') [] d')"
    by (simp only: setup_submit_def Let_def f c look_alone resolved_bind respond_alone transaction_alone
        not_True_eq_False simp_thms if_False list.distinct)
  have "\<exists>d'. set_settings 0 kvs True False empty_db = Inr d'"
    unfolding set_settings_def Let_def if_False option.case by blast
  then obtain d' where run: "setup_submit sample_panel 0 ''salt'' sample_form [] empty_db =
      (Inr (SeeOther ''/admin'', []), [], d')"
    unfolding w by (auto simp: page_def respond_def)
  from accepted_setup_is_stored [OF run kdf] run show ?thesis unfolding f by auto
qed

end
