(* ===== verification/Rotation.thy ===== *)
theory Rotation
  imports ServerOps
begin

text \<open>
  \<open>app/sprintbox_rotation.py\<close>: a rotation that creates a SprintBOX server, installs the VPN on it and
  publishes its address; the wait for SSH that a user asked to repeat; the clean-up of the boxes kept
  from earlier rotations.  With it the key preparation of \<open>app/sprintbox_ssh.py\<close> and the dispatch of
  \<open>run_ip_change\<close>.
\<close>

section \<open>The managed SSH key\<close>

text \<open>\<open>Path(p).parent\<close> and \<open>/\<close> on absolute paths.\<close>

definition parent_dir :: "string \<Rightarrow> string" where
  "parent_dir p = (let up = rev (drop 1 (dropWhile (\<lambda>c. c \<noteq> CHR ''/'') (rev p))) in if up = [] then ''/'' else up)"

definition path_join :: "string \<Rightarrow> string \<Rightarrow> string" where
  "path_join folder name = (if folder = ''/'' then folder else folder @ ''/'') @ name"

definition managed_key_path :: "(string \<Rightarrow> string) \<Rightarrow> config \<Rightarrow> exn + string" where
  "managed_key_path absolute cfg =
     (if c_sprintbox_ssh_key_path cfg \<noteq> [] then Inr (absolute (c_sprintbox_ssh_key_path cfg))
      else if database_path cfg = '':memory:'' \<or> starts_with ''file:'' (database_path cfg) then
        Inl (RuntimeError ''Set SPRINTBOX_SSH_KEY_PATH when using a SQLite URI or in-memory database'')
      else Inr (path_join (path_join (parent_dir (absolute (database_path cfg))) ''ssh'') ''sprintbox_ed25519''))"

record sprintbox_ssh =
  sk_key_path :: string
  sk_public_key :: string

definition key_failed :: exn where
  "key_failed = RuntimeError (
     utf8_bytes [208, 157, 208, 181] @ '' '' @ utf8_bytes [209, 131, 208, 180, 208, 176, 208,
     187, 208, 190, 209, 129, 209, 140] @ '' '' @ utf8_bytes [208, 191, 208, 190, 208, 180, 208,
     179, 208, 190, 209, 130, 208, 190, 208, 178, 208, 184, 209, 130, 209, 140] @ '' SSH-'' @
     utf8_bytes [208, 186, 208, 187, 209, 142, 209, 135] @ '' SprintBOX. '' @ utf8_bytes [208,
     159, 209, 128, 208, 190, 208, 178, 208, 181, 209, 128, 209, 140, 209, 130, 208, 181] @ '' ''
     @ utf8_bytes [208, 180, 208, 190, 209, 129, 209, 130, 209, 131, 208, 191] @ '' '' @
     utf8_bytes [208, 191, 208, 190, 208, 187, 209, 140, 208, 183, 208, 190, 208, 178, 208, 176,
     209, 130, 208, 181, 208, 187, 209, 143] @ '' '' @ utf8_bytes [208, 191, 208, 176, 208, 189,
     208, 181, 208, 187, 208, 184] @ '' '' @ utf8_bytes [208, 186] @ '' '' @ utf8_bytes [208,
     186, 208, 176, 209, 130, 208, 176, 208, 187, 208, 190, 208, 179, 209, 131] @ '' '' @
     utf8_bytes [208, 180, 208, 176, 208, 189, 208, 189, 209, 139, 209, 133] @ ''; '' @
     utf8_bytes [209, 129, 209, 131, 209, 137, 208, 181, 209, 129, 209, 130, 208, 178, 209, 131,
     209, 142, 209, 137, 208, 184, 208, 185] @ '' '' @ utf8_bytes [208, 186, 208, 187, 209, 142,
     209, 135] @ '' '' @ utf8_bytes [208, 189, 208, 181] @ '' '' @ utf8_bytes [208, 183, 208,
     176, 208, 188, 208, 181, 208, 189, 209, 143, 208, 187, 209, 129, 209, 143] @ ''.'')"

text \<open>The file system and the key library answer with the public key; any failure of theirs is one error.\<close>

definition prepare_sprintbox_ssh :: "sprintbox_ssh io" where
  "prepare_sprintbox_ssh =
     andThen (with_env (\<lambda>e. lift (managed_key_path (en_absolute e) (en_config e)))) (\<lambda>path.
     andThen (send (PrepareKey path)) (\<lambda>r.
       case r of TextReply key \<Rightarrow> ret \<lparr>sk_key_path = path, sk_public_key = key\<rparr> | _ \<Rightarrow> throw key_failed))"

definition box_credentials :: "sprintbox_ssh \<Rightarrow> ssh_credentials" where
  "box_credentials ssh = \<lparr>sc_user = ''root'', sc_port = 22, sc_key_path = sk_key_path ssh, sc_password = []\<rparr>"

section \<open>Calls to SprintBOX\<close>

definition list_boxes :: "sprintbox_client \<Rightarrow> (string \<times> json) list io" where
  "list_boxes client = andThen (sprintbox_request_io client ListBoxes) (\<lambda>v. lift (boxes_of v))"

definition get_box :: "sprintbox_client \<Rightarrow> string \<Rightarrow> json io" where
  "get_box client name = andThen (sprintbox_request_io client (ShowBox name)) (\<lambda>v. lift (box_of name v))"

definition create_box :: "sprintbox_client \<Rightarrow> string \<Rightarrow> string \<Rightarrow> string \<Rightarrow> string \<Rightarrow> string io" where
  "create_box client service distributive key label =
     andThen (sprintbox_request_io client (AddBox service distributive key label)) (\<lambda>v. lift (task_id v))"

definition delete_box :: "sprintbox_client \<Rightarrow> string \<Rightarrow> string io" where
  "delete_box client name = andThen (sprintbox_request_io client (DeleteBox name)) (\<lambda>v. lift (task_id v))"

section \<open>Names and bindings\<close>

definition box_label :: "int \<Rightarrow> string" where
  "box_label n = utf8_bytes [208, 177, 208, 190, 208, 186, 209, 129] @ ''-'' @ int_str (10000 + n mod 90000)"

fun free_label :: "string list \<Rightarrow> int \<Rightarrow> nat \<Rightarrow> string option" where
  "free_label taken start 0 = None"
| "free_label taken start (Suc n) =
     (if box_label start \<in> set taken then free_label taken (start + 1) n else Some (box_label start))"

definition taken_labels :: "(json \<Rightarrow> string) \<Rightarrow> (string \<times> json) list \<Rightarrow> string list" where
  "taken_labels repr boxes =
     map fst boxes @
     map (\<lambda>(k, box). let v = get_or_null box ''description'' in if truthy v then json_str repr v else []) boxes"

definition new_box_label :: "(string \<times> json) list \<Rightarrow> string io" where
  "new_box_label boxes =
     andThen (send RandomNumber) (\<lambda>r.
       case r of
         NumberReply start \<Rightarrow> with_env (\<lambda>e.
           case free_label (taken_labels (en_repr e) boxes) start 90000 of
             Some label \<Rightarrow> ret label
           | None \<Rightarrow> throw (IpChangeError ''No free five-digit SprintBOX name is available''))
       | _ \<Rightarrow> throw unexpected)"

definition random_hex :: "string io" where
  "random_hex = andThen (send RandomHex) (\<lambda>r. case r of TextReply t \<Rightarrow> ret t | _ \<Rightarrow> throw unexpected)"

text \<open>\<open>any(current[key] != bound[key] ...)\<close>: a key that is missing raises.\<close>

fun differs :: "(string \<times> string) list \<Rightarrow> json \<Rightarrow> exn + bool" where
  "differs [] bound = Inr False"
| "differs ((key, v) # kvs) bound =
     (case member_of bound key of
        None \<Rightarrow> Inl (KeyError key)
      | Some w \<Rightarrow> if w \<noteq> JStr v then Inr True else differs kvs bound)"

definition settings_changed :: exn where
  "settings_changed = IpChangeError ''SprintBOX settings changed; prepare a new operation''"

definition check_binding_now :: "(string \<Rightarrow> string) \<Rightarrow> config \<Rightarrow> db \<Rightarrow> json \<Rightarrow> exn + unit" where
  "check_binding_now sha cfg d bound =
     (let current = sprintbox_config cfg d in
      if provider_name cfg d \<noteq> ''sprintbox'' then Inl settings_changed
      else bind_result
        (differs [(''login'', sb_login current), (''box_name'', sb_box_name current),
                  (''service'', sb_service current), (''distributive'', sb_distributive current),
                  (''credential_hash'', sha (sb_key current))] bound) (\<lambda>changed.
        if changed then Inl settings_changed else Inr ()))"

definition check_binding :: "json \<Rightarrow> unit io" where
  "check_binding bound = query (\<lambda>e d. check_binding_now (en_sha e) (en_config e) d bound)"

section \<open>Waiting and installing\<close>

text \<open>\<open>max(1, ceil(ip_appear_timeout / max(.01, ip_appear_interval)))\<close> rounds.\<close>

definition box_rounds :: "rotation_timing \<Rightarrow> nat" where
  "box_rounds tm = attempts_ceil (rt_ip_appear_timeout tm) (rt_ip_appear_interval tm)"

definition wait_task :: "sprintbox_client \<Rightarrow> string \<Rightarrow> int \<Rightarrow> string \<Rightarrow> rotation_timing \<Rightarrow> unit io" where
  "wait_task client task oid step tm =
     poll (box_rounds tm)
       (andThen (ip_step oid step []) (\<lambda>_.
        andThen (task_status_io client task) (\<lambda>st.
          if st = TaskFinished then ret (Some ())
          else if st = TaskError then
            throw (SprintboxApiError ''TASK_FAILED'' ''Asynchronous task failed; inspect the SprintBOX panel'')
          else ret None)))
       (sleeper (rt_ip_appear_interval tm))
       (TaskTimeout ''SprintBOX task did not finish before timeout; inspect the panel before retrying'')"

text \<open>
  The script runs while the row is refreshed every ten seconds, until \<open>asyncio.timeout(timeout + 1)\<close>;
  every answer that it is still running takes ten of those seconds.
\<close>

fun deploy_rounds :: "int \<Rightarrow> string \<Rightarrow> nat \<Rightarrow> reply \<Rightarrow> unit io" where
  "deploy_rounds oid host 0 r = throw TimeoutError"
| "deploy_rounds oid host (Suc n) r =
     (if r = Elapsed then throw TimeoutError
      else andThen (ip_step oid ''install_new_box'' [IpApply PhRunning]) (\<lambda>_.
        case r of
          ExitReply code output \<Rightarrow>
            if code \<noteq> 0 then
              throw (IpChangeError (''SprintBOX VPN installation failed (exit '' @ int_str code @ ''); old box preserved''))
            else skip
        | Resumed \<Rightarrow> andThen (send (AwaitScript host)) (deploy_rounds oid host n)
        | Unavailable x \<Rightarrow> throw x
        | _ \<Rightarrow> throw unexpected))"

definition deploy_box :: "int \<Rightarrow> string \<Rightarrow> captured_config \<Rightarrow> unit io" where
  "deploy_box oid host c =
     andThen (reading_result (\<lambda>cfg d. config_int cfg d ''vpn_deploy_timeout_seconds'' 1800)) (\<lambda>timeout.
     andThen (with_env (\<lambda>e. lift (write_artifacts (en_unicode_other e) (en_config e) c))) (\<lambda>_.
     andThen (send (RunScript host (Deploy c True))) (deploy_rounds oid host (nat ((timeout + 1) div 10 + 2)))))"

text \<open>The rest of a rotation, once the box and its address are known; it ends early when SSH is not reached.\<close>

definition provision_box ::
  "int \<Rightarrow> captured_config \<Rightarrow> json \<Rightarrow> sprintbox_ssh \<Rightarrow> string \<Rightarrow> string \<Rightarrow> rotation_timing \<Rightarrow> unit io" where
  "provision_box oid c bound ssh name ip tm =
     andThen (check_binding bound) (\<lambda>_.
     andThen (ensure_bound_revision_current (cc_revision c)) (\<lambda>_.
     andThen (ip_step oid ''wait_ssh'' [IpAction WaitingSsh]) (\<lambda>_.
     andThen
       (catch
         (andThen (wait_for_ssh (Some (box_credentials ssh)) (tm\<lparr>rt_ssh_timeout := min (rt_ssh_timeout tm) 45\<rparr>) ip)
           (\<lambda>_. ret True))
         (\<lambda>x. case x of IpChangeError _ \<Rightarrow> ret False | _ \<Rightarrow> throw x)) (\<lambda>reached.
       if \<not> reached then
         update_ip oid (\<lambda>_. [IpStatus Done, IpAction SshUnreachable, IpStep ''ssh_decision'', IpError []])
       else
         andThen (update_ip oid (\<lambda>t. [IpServerReachableAt t])) (\<lambda>_.
         andThen (ip_step oid ''install_new_box'' [IpAction Applying, IpApply PhRunning]) (\<lambda>_.
         let new_config = c\<lparr>cc_current_ip := ip\<rparr> in
         andThen (deploy_box oid ip new_config) (\<lambda>_.
         andThen (update_ip oid (\<lambda>t. [IpApply PhApplied, IpApplyCompletedAt t])) (\<lambda>_.
         andThen (check_binding bound) (\<lambda>_.
         andThen (ensure_bound_revision_current (cc_revision c)) (\<lambda>_.
         andThen (ip_step oid ''protocol_health'' []) (\<lambda>_.
         andThen (verify_protocol_health ip new_config) (\<lambda>health.
         andThen (check_binding bound) (\<lambda>_.
         andThen (transact (\<lambda>e now d.
             publish_ip_change (en_sha e) now oid ip health (Some name) (Some (sk_key_path ssh)) d)) (\<lambda>revn.
           update_ip oid (\<lambda>_. [IpStatus Done, IpStep ''awaiting_user_review'', IpAction AwaitingUserReview,
             IpPublishedRevision revn, IpError []])))))))))))))))"


section \<open>Creating the box\<close>

text \<open>
  The handler of the rotation ends the operation and returns.  \<open>creation_started\<close> and \<open>new_name\<close> are its
  arguments, so the body is cut where they change; \<open>guarded\<close> gives no result when the handler ran.
\<close>

definition box_failed :: "int \<Rightarrow> sprintbox_client \<Rightarrow> bool \<Rightarrow> string \<Rightarrow> exn \<Rightarrow> unit io" where
  "box_failed oid client sent name x =
     andThen (reading (\<lambda>cfg d. sanitize_error [sp_key client, sp_login client, eu_ssh_password None cfg d] 4000 (exn_text x))) (\<lambda>text.
     update_ip oid (\<lambda>_.
       [IpStatus (if sent then Ambiguous else Failed), IpAction (if sent then IpAmbiguous else IpFailed),
        IpStep (if sent then ''manual_verification_required'' else ''failed''),
        IpError (if sent then text @ ''; inspect SprintBOX before retrying (new box: '' @
                   (if name = [] then ''not identified'' else name) @ ''). Old box was not deleted.''
                 else text)]))"

definition guarded :: "int \<Rightarrow> sprintbox_client \<Rightarrow> bool \<Rightarrow> string \<Rightarrow> 'a io \<Rightarrow> 'a option io" where
  "guarded oid client sent name m =
     catch (andThen m (\<lambda>x. ret (Some x))) (\<lambda>x. andThen (box_failed oid client sent name x) (\<lambda>_. ret None))"

definition proceed :: "'a option io \<Rightarrow> ('a \<Rightarrow> 'b option io) \<Rightarrow> 'b option io" where
  "proceed m f = andThen m (\<lambda>r. case r of None \<Rightarrow> ret None | Some x \<Rightarrow> f x)"

record box_plan =
  bp_ssh :: sprintbox_ssh
  bp_before :: "(string \<times> json) list"
  bp_label :: string
  bp_context :: "(string \<times> json) list"

definition inspect_old_box :: "int \<Rightarrow> sprintbox_client \<Rightarrow> string \<Rightarrow> captured_config \<Rightarrow> unit io" where
  "inspect_old_box oid client box_name c =
     andThen (ip_step oid ''inspect_old_box'' []) (\<lambda>_.
     andThen (get_box client box_name) (\<lambda>old.
       onlyIf (cc_current_ip c \<notin> set (box_ipv4 old))
         (throw (IpChangeError ''Configured SprintBOX box does not own current_ip; refusing rotation''))))"

definition rotation_wanted :: "sprintbox_client \<Rightarrow> captured_config \<Rightarrow> json \<Rightarrow> config \<Rightarrow> db \<Rightarrow> exn + unit" where
  "rotation_wanted client c bound cfg d =
     (if \<not> transactional_vpn_apply_enabled cfg d then
        Inl (IpChangeError ''SprintBOX rotation requires transactional VPN apply'')
      else if \<not> pc_enabled (vl_protocol (cc_vless c)) \<and> \<not> pc_enabled (hy_protocol (cc_hysteria c)) \<and>
              \<not> pc_enabled (am_protocol (cc_amnezia c)) then
        Inl (IpChangeError ''Enable at least one VPN protocol before rotating SprintBOX'')
      else if enabled_clients c = [] then
        Inl (IpChangeError ''Create at least one enabled VPN client before creating a SprintBOX'')
      else if \<not> list_all (\<lambda>key. truthy (get_or_null bound key)) [''login'', ''service'', ''distributive'']
              \<or> sp_key client = [] then
        Inl (IpChangeError ''Configure SprintBOX credentials, service and distributive in Setup'')
      else if truthy (get_or_null bound ''box_name'') \<and>
              (cc_current_ip c = [] \<or> eu_ssh_host cfg d \<notin> {[], cc_current_ip c}) then
        Inl (IpChangeError ''SprintBOX rotation requires SSH to use the current VPN IP'')
      else Inr ())"

definition bound_text :: "json \<Rightarrow> string \<Rightarrow> string" where
  "bound_text bound key = (case text_member key bound of None \<Rightarrow> [] | Some t \<Rightarrow> t)"

definition plan_box :: "int \<Rightarrow> sprintbox_client \<Rightarrow> captured_config \<Rightarrow> json \<Rightarrow> box_plan io" where
  "plan_box oid client c bound =
     andThen (check_binding bound) (\<lambda>_.
     andThen (ensure_bound_revision_current (cc_revision c)) (\<lambda>_.
     andThen (reading_result (rotation_wanted client c bound)) (\<lambda>_.
     let box_name = bound_text bound ''box_name''; first_box = (box_name = []) in
     andThen prepare_sprintbox_ssh (\<lambda>ssh.
     andThen (query (\<lambda>e d. bind_result (operation_context d oid) (\<lambda>v. Inr (retained_of v)))) (\<lambda>kept.
     andThen (onlyIf (\<not> first_box) (inspect_old_box oid client box_name c)) (\<lambda>_.
     andThen (if first_box then ret kept
              else andThen (query (\<lambda>e d. retained_boxes d box_name (cc_current_ip c) bound)) (\<lambda>chain.
                ret (fold (\<lambda>(k, v). AList.update k v) chain kept))) (\<lambda>retained.
     andThen (list_boxes client) (\<lambda>before.
     andThen (update_ip oid (\<lambda>_. [IpOldIp (cc_current_ip c), IpOldIpId box_name])) (\<lambda>_.
     andThen (new_box_label before) (\<lambda>label.
     andThen random_hex (\<lambda>request.
     let context = [(''marker'', JStr label), (''request_id'', JStr request), (''first_box'', JBool first_box),
                    (''retained_boxes'', JObj retained), (''ssh_key_path'', JStr (sk_key_path ssh))] in
     andThen (saving (ip_change_key oid ''sprintbox'') (dumps_plain (JObj context))) (\<lambda>_.
     andThen (check_binding bound) (\<lambda>_.
     andThen (ensure_bound_revision_current (cc_revision c)) (\<lambda>_.
     andThen (ip_step oid ''create_new_box'' []) (\<lambda>_.
       ret \<lparr>bp_ssh = ssh, bp_before = before, bp_label = label, bp_context = context\<rparr>)))))))))))))))"

definition may_create_box :: "int \<Rightarrow> ip_row \<Rightarrow> bool" where
  "may_create_box oid r \<longleftrightarrow> ip_id r = oid \<and> ip_purchase_state r = NotStarted \<and> ip_status r = Running"

definition claim_creation :: "int \<Rightarrow> db \<Rightarrow> bool \<times> db" where
  "claim_creation oid d =
     (row_count (may_create_box oid) (ip_ops d) \<noteq> 0,
      d\<lparr>ip_ops := update_where (may_create_box oid)
          (\<lambda>r. r\<lparr>ip_purchase_state := PhSending, ip_action_state := PurchaseSending\<rparr>) (ip_ops d)\<rparr>)"

text \<open>
  The one request: an accepted creation without a task is looked for by its label, a rejection by
  the API is final, any other failure leaves the outcome open.
\<close>

definition request_box :: "int \<Rightarrow> sprintbox_client \<Rightarrow> json \<Rightarrow> sprintbox_ssh \<Rightarrow> string \<Rightarrow> string option option io" where
  "request_box oid client bound ssh label =
     catch
       (andThen (create_box client (bound_text bound ''service'') (bound_text bound ''distributive'')
           (sk_public_key ssh) label) (\<lambda>job. ret (Some (Some job))))
       (\<lambda>x. case x of
          SprintboxTaskIdMissing m \<Rightarrow> ret (Some None)
        | SprintboxApiError code m \<Rightarrow>
            andThen (update_ip oid (\<lambda>_. [IpPurchase PhRejected])) (\<lambda>_.
            andThen (box_failed oid client False [] x) (\<lambda>_. ret None))
        | _ \<Rightarrow> andThen (box_failed oid client True [] x) (\<lambda>_. ret None))"

definition await_creation ::
  "int \<Rightarrow> sprintbox_client \<Rightarrow> (string \<times> json) list \<Rightarrow> rotation_timing \<Rightarrow> string option \<Rightarrow> unit io" where
  "await_creation oid client context tm job =
     andThen (saving (ip_change_key oid ''sprintbox'')
       (dumps_plain (JObj (context @ [(''create_task'', case job of None \<Rightarrow> JNull | Some t \<Rightarrow> JStr t)])))) (\<lambda>_.
     andThen (update_ip oid (\<lambda>_. [IpPurchase PhSent, IpAction PurchaseSent])) (\<lambda>_.
       case job of None \<Rightarrow> skip | Some task \<Rightarrow> wait_task client task oid ''wait_new_box'' tm))"

section \<open>Finding the new box\<close>

text \<open>By the label of this operation, never by being new.\<close>

definition candidates :: "(string \<times> json) list \<Rightarrow> string \<Rightarrow> (string \<times> json) list \<Rightarrow> (string \<times> json) list" where
  "candidates before label boxes =
     filter (\<lambda>(name, box). name \<notin> fst ` set before \<and> member_of box ''name'' = Some (JStr name) \<and>
       member_of box ''description'' = Some (JStr label)) boxes"

definition look_for_box :: "int \<Rightarrow> sprintbox_client \<Rightarrow> (string \<times> json) list \<Rightarrow> string \<Rightarrow> (string \<times> json) option io" where
  "look_for_box oid client before label =
     andThen (ip_step oid ''identify_new_box'' []) (\<lambda>_.
     andThen (list_boxes client) (\<lambda>boxes.
       case candidates before label boxes of
         [] \<Rightarrow> ret None
       | [found] \<Rightarrow> ret (Some found)
       | _ \<Rightarrow> throw (IpChangeError ''Multiple SprintBOX boxes match this operation; manual verification required'')))"

definition fresh_address :: "(string \<times> json) list \<Rightarrow> string \<Rightarrow> json \<Rightarrow> string option" where
  "fresh_address before current box =
     (case box_ipv4 box of
        [ip] \<Rightarrow> if ip \<noteq> current \<and> list_all (\<lambda>(k, v). ip \<notin> set (box_ipv4 v)) before then Some ip else None
      | _ \<Rightarrow> None)"

definition not_identified :: "string \<Rightarrow> exn" where
  "not_identified name =
     IpChangeError (if name = [] then ''Cannot uniquely identify new SprintBOX IPv4; inspect the panel''
       else utf8_bytes [208, 145, 208, 190, 208, 186, 209, 129] @ '' '' @ name @
         '' '' @ utf8_bytes [209, 129, 208, 190, 208, 183, 208, 180, 208, 176, 208, 189] @ '', '' @
     utf8_bytes [208, 189, 208, 190] @ '' '' @ utf8_bytes [208, 189, 208, 190, 208, 178, 209,
     139, 208, 185] @ '' IPv4 '' @ utf8_bytes [208, 189, 208, 181] @ '' '' @ utf8_bytes [208,
     179, 208, 190, 209, 130, 208, 190, 208, 178] @ ''. '' @ utf8_bytes [208, 159, 209, 128, 208,
     190, 208, 178, 208, 181, 209, 128, 209, 140, 209, 130, 208, 181] @ '' '' @ utf8_bytes [209,
     129, 209, 130, 208, 176, 209, 130, 209, 131, 209, 129] @ '' '' @ utf8_bytes [208, 177, 208,
     190, 208, 186, 209, 129, 208, 176] @ '' '' @ utf8_bytes [208, 184] @ '' '' @ utf8_bytes
     [208, 177, 208, 176, 208, 187, 208, 176, 208, 189, 209, 129] @ '' '' @ utf8_bytes [208, 178]
     @ '' '' @ utf8_bytes [208, 186, 208, 176, 208, 177, 208, 184, 208, 189, 208, 181, 209, 130,
     208, 181] @ '' SprintBOX; '' @ utf8_bytes [208, 191, 209, 128, 208, 184] @ '' '' @
     utf8_bytes [209, 129, 209, 130, 208, 176, 209, 130, 209, 131, 209, 129, 208, 181] @ '' '' @
     utf8_bytes [194, 171, 208, 189, 208, 181] @ '' '' @ utf8_bytes [208, 190, 208, 191, 208,
     187, 208, 176, 209, 135, 208, 181, 208, 189, 194, 187] @ '' '' @ utf8_bytes [208, 191, 208,
     190, 208, 191, 208, 190, 208, 187, 208, 189, 208, 184, 209, 130, 208, 181] @ '' '' @
     utf8_bytes [208, 177, 208, 176, 208, 187, 208, 176, 208, 189, 209, 129] @ ''. '' @
     utf8_bytes [208, 159, 208, 190, 208, 178, 209, 130, 208, 190, 209, 128, 208, 189, 209, 139,
     208, 185] @ '' '' @ utf8_bytes [208, 183, 208, 176, 208, 191, 209, 128, 208, 190, 209, 129]
     @ '' '' @ utf8_bytes [209, 129, 208, 190, 208, 183, 208, 180, 208, 176, 208, 189, 208, 184,
     209, 143] @ '' '' @ utf8_bytes [208, 189, 208, 181] @ '' '' @ utf8_bytes [208, 190, 209,
     130, 208, 191, 209, 128, 208, 176, 208, 178, 208, 187, 209, 143, 208, 187, 209, 129, 209,
     143])"

fun identify_box ::
  "int \<Rightarrow> sprintbox_client \<Rightarrow> (string \<times> json) list \<Rightarrow> string \<Rightarrow> string \<Rightarrow> int \<Rightarrow> nat \<Rightarrow> string \<Rightarrow> (string \<times> string) option io" where
  "identify_box oid client before label current interval 0 name =
     guarded oid client True name (throw (not_identified name))"
| "identify_box oid client before label current interval (Suc n) name =
     proceed (guarded oid client True name (look_for_box oid client before label)) (\<lambda>found.
       case found of
         None \<Rightarrow>
           proceed (guarded oid client True name (onlyIf (0 < n) (sleeper interval))) (\<lambda>_.
             identify_box oid client before label current interval n name)
       | Some (new, box) \<Rightarrow>
           andThen (update_ip oid (\<lambda>_. [IpNewIpId new])) (\<lambda>_.
             case fresh_address before current box of
               Some ip \<Rightarrow> ret (Some (new, ip))
             | None \<Rightarrow>
                 proceed (guarded oid client True new (onlyIf (0 < n) (sleeper interval))) (\<lambda>_.
                   identify_box oid client before label current interval n new)))"

section \<open>The rotation\<close>

definition create_and_provision ::
  "int \<Rightarrow> sprintbox_client \<Rightarrow> captured_config \<Rightarrow> json \<Rightarrow> rotation_timing \<Rightarrow> box_plan \<Rightarrow> unit option io" where
  "create_and_provision oid client c bound tm plan =
     proceed (request_box oid client bound (bp_ssh plan) (bp_label plan)) (\<lambda>job.
     proceed (guarded oid client True [] (await_creation oid client (bp_context plan) tm job)) (\<lambda>_.
     proceed (identify_box oid client (bp_before plan) (bp_label plan) (cc_current_ip c)
       (rt_ip_appear_interval tm) (box_rounds tm) []) (\<lambda>(name, ip).
     guarded oid client True name
       (andThen (update_ip oid (\<lambda>t. [IpNewIpId name, IpNewIp ip, IpPurchase PhConfirmed, IpNewIpCreatedAt t])) (\<lambda>_.
          provision_box oid c bound (bp_ssh plan) name ip tm)))))"

definition rotate_box :: "int \<Rightarrow> sprintbox_client \<Rightarrow> captured_config \<Rightarrow> json \<Rightarrow> rotation_timing \<Rightarrow> unit option io" where
  "rotate_box oid client c bound tm =
     proceed (guarded oid client False [] (plan_box oid client c bound)) (\<lambda>plan.
     andThen (transact (\<lambda>e now d. Inr (claim_creation oid d))) (\<lambda>claimed.
       if claimed then create_and_provision oid client c bound tm plan else ret None))"

definition box_client :: "sprintbox_client io" where
  "box_client = reading (\<lambda>cfg d.
     \<lparr>sp_login = sb_login (sprintbox_config cfg d), sp_key = sb_key (sprintbox_config cfg d)\<rparr>)"

text \<open>Repeating the wait for SSH that the user asked for: the decision must still be valid.\<close>

definition release_stale_wait :: "int \<Rightarrow> int \<Rightarrow> db \<Rightarrow> db" where
  "release_stale_wait now oid d =
     snd (release_vps_lease (LeaseOwner IpChange oid)
       (set_ip_row oid (\<lambda>r. r\<lparr>ip_status := Done, ip_action_state := SshUnreachable,
          ip_current_step := ''ssh_decision'', ip_updated_at := iso now\<rparr>) d))"

definition resume_claim :: "(string \<Rightarrow> string) \<Rightarrow> config \<Rightarrow> int \<Rightarrow> int \<Rightarrow> (ip_row \<times> json) option tx" where
  "resume_claim sha cfg now oid d =
     (case find_ip_row oid d of
        None \<Rightarrow> Inr (None, d)
      | Some r \<Rightarrow>
          if (ip_status r, ip_action_state r) \<noteq> (Pending, SshWaitQueued) then Inr (None, d)
          else case validate_ssh_decision sha cfg True d oid of
              Inl (ValueError m) \<Rightarrow> Inr (None, release_stale_wait now oid d)
            | Inl x \<Rightarrow> Inl x
            | Inr operation \<Rightarrow>
                bind_result (operation_context d oid) (\<lambda>context.
                  Inr (Some (operation, context),
                    set_ip_row oid (\<lambda>r. r\<lparr>ip_status := Running, ip_action_state := WaitingSsh,
                      ip_updated_at := iso now\<rparr>) d)))"

definition same_box :: "json \<Rightarrow> json \<Rightarrow> string \<Rightarrow> bool" where
  "same_box context box ip \<longleftrightarrow>
     get_or_null box ''description'' = get_or_null context ''marker'' \<and> box_ipv4 box = [ip]"

definition key_is_there :: "json \<Rightarrow> unit io" where
  "key_is_there context =
     andThen (lift (case member_of context ''ssh_key_path'' of
         None \<Rightarrow> Inr [] | Some (JStr p) \<Rightarrow> Inr p | Some _ \<Rightarrow> Inl (TypeError ''the path is not a text''))) (\<lambda>path.
     andThen (send (KeyFile path)) (\<lambda>r.
       if r = FlagReply True then skip
       else throw (IpChangeError ''Original SprintBOX SSH key is missing'')))"

definition resume_box :: "int \<Rightarrow> captured_config \<Rightarrow> rotation_timing \<Rightarrow> sprintbox_client \<Rightarrow> ip_row \<Rightarrow> json \<Rightarrow> unit io" where
  "resume_box oid c tm client operation context =
     andThen (query (\<lambda>e d. bound_provider d oid)) (\<lambda>bound.
     andThen (check_binding bound) (\<lambda>_.
     andThen (ensure_bound_revision_current (cc_revision c)) (\<lambda>_.
     let name = or_else (ip_new_ip_id operation) []; ip = or_else (ip_new_ip operation) [] in
     andThen (get_box client name) (\<lambda>box.
     andThen (onlyIf (\<not> same_box context box ip)
       (throw (IpChangeError ''Created box identity changed; refusing to resume''))) (\<lambda>_.
     andThen (key_is_there context) (\<lambda>_.
     andThen prepare_sprintbox_ssh (\<lambda>ssh.
     andThen (onlyIf (member_of context ''ssh_key_path'' \<noteq> Some (JStr (sk_key_path ssh)))
       (throw (IpChangeError ''SprintBOX SSH key path changed; refusing to resume''))) (\<lambda>_.
       provision_box oid c bound ssh name ip tm))))))))"

definition resume_failed :: "int \<Rightarrow> sprintbox_client \<Rightarrow> exn \<Rightarrow> unit io" where
  "resume_failed oid client x =
     andThen (reading (\<lambda>cfg d. sanitize_error [sp_key client, sp_login client, eu_ssh_password None cfg d] 4000 (exn_text x))) (\<lambda>text.
     update_ip oid (\<lambda>_. [IpStatus Ambiguous, IpAction IpAmbiguous, IpStep ''manual_verification_required'', IpError text]))"

definition resume_ssh_wait :: "int \<Rightarrow> captured_config \<Rightarrow> rotation_timing \<Rightarrow> unit io" where
  "resume_ssh_wait oid c tm =
     andThen (transact (\<lambda>e now d. resume_claim (en_sha e) (en_config e) now oid d)) (\<lambda>claimed.
       case claimed of
         None \<Rightarrow> skip
       | Some (operation, context) \<Rightarrow>
           andThen box_client (\<lambda>client.
             catch (resume_box oid c tm client operation context) (resume_failed oid client)))"

definition interrupted_box :: string where
  "interrupted_box = ''Interrupted SprintBOX operation; external actions were not resent''"

definition run_sprintbox_rotation :: "int \<Rightarrow> unit io" where
  "run_sprintbox_rotation oid =
     andThen (reading_result configured_timing) (\<lambda>tm.
     andThen (query (\<lambda>e d. load_ip_change_snapshot oid d)) (\<lambda>(r, c).
       if ip_status r = Pending \<and> ip_action_state r = SshWaitQueued then resume_ssh_wait oid c tm
       else if terminal (ip_status r) then skip
       else if started r then
         update_ip oid (\<lambda>_. [IpStatus Ambiguous, IpAction IpAmbiguous, IpStep ''manual_verification_required'',
           IpError interrupted_box])
       else
         andThen (query (\<lambda>e d. bound_provider d oid)) (\<lambda>bound.
         andThen box_client (\<lambda>client.
         andThen (rotate_box oid client c bound tm) (\<lambda>_. skip)))))"

definition run_ip_change :: "int \<Rightarrow> unit io" where
  "run_ip_change oid =
     andThen (query (\<lambda>e d. bind_result (bound_provider d oid) (\<lambda>bound.
       case member_of bound ''provider'' of None \<Rightarrow> Inl (KeyError ''provider'') | Some p \<Rightarrow> Inr (p = JStr ''sprintbox'')))) (\<lambda>box.
       if box then run_sprintbox_rotation oid else run_aeza_ip_change oid)"


section \<open>Cleaning up the retained boxes\<close>

text \<open>An exception as a value, also a cancellation: what runs under \<open>try ... finally\<close>.\<close>

definition attempt :: "'a io \<Rightarrow> (exn + 'a) io" where
  "attempt m e s =
     (case m e s of
        (Returned x, s') \<Rightarrow> (Returned (Inr x), s')
      | (Raised x, s') \<Rightarrow> (Returned (Inl x), s')
      | (Stopped, s') \<Rightarrow> (Stopped, s'))"

text \<open>The members of the operation's context; \<open>results[name]\<close> and its state.\<close>

type_synonym members = "(string \<times> json) list"

fun members_of :: "json \<Rightarrow> members" where
  "members_of (JObj kvs) = kvs"
| "members_of v = []"

definition part_of :: "string \<Rightarrow> members \<Rightarrow> members" where
  "part_of key kvs = (case map_of kvs key of Some v \<Rightarrow> members_of v | None \<Rightarrow> [])"

definition set_result :: "string \<Rightarrow> members \<Rightarrow> members \<Rightarrow> members" where
  "set_result name result kvs =
     AList.update ''cleanup_results'' (JObj (AList.update name (JObj result) (part_of ''cleanup_results'' kvs))) kvs"

definition result_of :: "string \<Rightarrow> members \<Rightarrow> members" where
  "result_of name kvs = part_of name (part_of ''cleanup_results'' kvs)"

definition box_is_gone :: "string \<Rightarrow> members \<Rightarrow> bool" where
  "box_is_gone name kvs \<longleftrightarrow> map_of (result_of name kvs) ''state'' \<in> {Some (JStr ''DELETED''), Some (JStr ''ABSENT'')}"

definition drop_retained :: "string \<Rightarrow> members \<Rightarrow> members" where
  "drop_retained name kvs =
     (case map_of kvs ''retained_boxes'' of
        None \<Rightarrow> kvs
      | Some v \<Rightarrow> AList.update ''retained_boxes'' (JObj (filter (\<lambda>(k, w). k \<noteq> name) (members_of v))) kvs)"

definition may_clean_up :: "int \<Rightarrow> ip_row \<Rightarrow> bool" where
  "may_clean_up oid r \<longleftrightarrow> ip_id r = oid \<and> ip_status r = Pending \<and> ip_action_state r = CleanupQueued"

definition claim_cleanup :: "int \<Rightarrow> int \<Rightarrow> members option tx" where
  "claim_cleanup now oid d =
     (if row_count (may_clean_up oid) (ip_ops d) = 0 then Inr (None, d)
      else
        (let d1 = d\<lparr>ip_ops := update_where (may_clean_up oid)
               (\<lambda>r. r\<lparr>ip_status := Running, ip_action_state := CleanupRunning, ip_updated_at := iso now\<rparr>) (ip_ops d)\<rparr>
         in bind_result (operation_context d1 oid) (\<lambda>v. Inr (Some (members_of v), d1))))"

definition target_of :: "int \<Rightarrow> ip_row io" where
  "target_of oid = query (\<lambda>e d. validate_target (en_sha e) (en_config e) d oid)"

text \<open>Whether the box is still there to be deleted; every reason not to is an error.\<close>

definition box_to_delete ::
  "int \<Rightarrow> sprintbox_client \<Rightarrow> string option \<Rightarrow> members \<Rightarrow> string \<Rightarrow> json \<Rightarrow> bool io" where
  "box_to_delete oid client in_use kvs name expected =
     andThen (target_of oid) (\<lambda>_.
     andThen (onlyIf (Some name = in_use) (throw (IpChangeError ''Refusing to delete the active VPN box''))) (\<lambda>_.
     andThen (ip_step oid ''delete_old_box'' []) (\<lambda>_.
     andThen (list_boxes client) (\<lambda>boxes.
       if name \<notin> fst ` set boxes then ret False
       else
         andThen (get_box client name) (\<lambda>box.
         andThen (onlyIf (expected \<notin> JStr ` set (box_ipv4 box))
           (throw (IpChangeError ''Box IP changed; inspect it manually''))) (\<lambda>_.
         andThen (onlyIf (name \<in> fst ` set (part_of ''cleanup_results'' kvs))
           (throw (IpChangeError ''Deletion was already attempted; inspect it manually''))) (\<lambda>_.
           ret True)))))))"

definition save_context :: "int \<Rightarrow> members \<Rightarrow> unit io" where
  "save_context oid kvs = saving (ip_change_key oid ''sprintbox'') (dumps_plain (JObj kvs))"

definition confirm_deletion :: "int \<Rightarrow> sprintbox_client \<Rightarrow> rotation_timing \<Rightarrow> string \<Rightarrow> string \<Rightarrow> unit io" where
  "confirm_deletion oid client tm name task =
     andThen (wait_task client task oid ''wait_old_box_deletion'' tm) (\<lambda>_.
     andThen (list_boxes client) (\<lambda>boxes.
       onlyIf (name \<in> fst ` set boxes) (throw (IpChangeError ''Delete task finished but box still exists''))))"

text \<open>One box: the context afterwards, the exception if there was one, and whether the request had gone out.\<close>

definition clean_box ::
  "int \<Rightarrow> sprintbox_client \<Rightarrow> rotation_timing \<Rightarrow> string option \<Rightarrow> members \<Rightarrow> string \<Rightarrow> json \<Rightarrow>
     (members \<times> exn option \<times> bool) io" where
  "clean_box oid client tm in_use kvs name expected =
     andThen (attempt (box_to_delete oid client in_use kvs name expected)) (\<lambda>r.
       case r of
         Inl x \<Rightarrow> ret (kvs, Some x, False)
       | Inr False \<Rightarrow> ret (set_result name [(''state'', JStr ''ABSENT'')] kvs, None, False)
       | Inr True \<Rightarrow>
           (let kvs1 = set_result name [(''state'', JStr ''SENDING'')] kvs in
            andThen (save_context oid kvs1) (\<lambda>_.
            andThen (attempt (delete_box client name)) (\<lambda>r.
              case r of
                Inl x \<Rightarrow> ret (kvs1, Some x, True)
              | Inr task \<Rightarrow>
                  (let kvs2 = set_result name [(''state'', JStr ''SENT''), (''task'', JStr task)] kvs1 in
                   andThen (save_context oid kvs2) (\<lambda>_.
                   andThen (attempt (confirm_deletion oid client tm name task)) (\<lambda>r.
                     case r of
                       Inl x \<Rightarrow> ret (kvs2, Some x, True)
                     | Inr _ \<Rightarrow>
                         ret (set_result name [(''state'', JStr ''DELETED''), (''task'', JStr task)] kvs2, None, True))))))))"

definition api_refusal :: "exn \<Rightarrow> bool" where
  "api_refusal x = (case x of SprintboxApiError c m \<Rightarrow> True | _ \<Rightarrow> False)"

text \<open>The \<open>finally\<close> of a box.\<close>

definition book_box :: "int \<Rightarrow> string \<Rightarrow> members \<Rightarrow> members io" where
  "book_box oid name kvs =
     (let kvs' = (if box_is_gone name kvs then drop_retained name kvs else kvs) in
      andThen (save_context oid kvs') (\<lambda>_. ret kvs'))"

definition finish_box ::
  "int \<Rightarrow> sprintbox_client \<Rightarrow> string \<Rightarrow> members \<times> exn option \<times> bool \<Rightarrow> (members \<times> string option \<times> bool) io" where
  "finish_box oid client name r =
     (case r of (kvs, failure, sent) \<Rightarrow>
       (case failure of
          None \<Rightarrow> andThen (book_box oid name kvs) (\<lambda>kvs'. ret (kvs', None, False))
        | Some x \<Rightarrow>
            if x = CancelledError then andThen (book_box oid name kvs) (\<lambda>_. throw CancelledError)
            else
              andThen (reading (\<lambda>cfg d.
                sanitize_error [sp_key client, sp_login client, eu_ssh_password None cfg d] 4000 (exn_text x))) (\<lambda>text.
              let uncertain = sent \<and> \<not> api_refusal x;
                  result = AList.update ''error'' (JStr text)
                    (AList.update ''state'' (JStr (if uncertain then ''AMBIGUOUS'' else ''MANUAL'')) (result_of name kvs)) in
              andThen (book_box oid name (set_result name result kvs)) (\<lambda>kvs'.
                ret (kvs', Some (name @ '': '' @ text), uncertain)))))"

fun clean_boxes ::
  "int \<Rightarrow> sprintbox_client \<Rightarrow> rotation_timing \<Rightarrow> string option \<Rightarrow> members \<Rightarrow> members \<Rightarrow> (string list \<times> bool) io" where
  "clean_boxes oid client tm in_use [] kvs = ret ([], False)"
| "clean_boxes oid client tm in_use ((name, expected) # boxes) kvs =
     andThen (clean_box oid client tm in_use kvs name expected) (\<lambda>r.
     andThen (finish_box oid client name r) (\<lambda>(kvs', warning, uncertain).
     andThen (clean_boxes oid client tm in_use boxes kvs') (\<lambda>(warnings, ambiguous).
       ret ((case warning of None \<Rightarrow> warnings | Some w \<Rightarrow> w # warnings), uncertain \<or> ambiguous))))"

definition cleanup_advice :: string where
  "cleanup_advice =
     utf8_bytes [208, 163, 208, 180, 208, 176, 208, 187, 208, 184, 209, 130, 208, 181] @ '' '' @
     utf8_bytes [208, 184, 208, 187, 208, 184] @ '' '' @ utf8_bytes [208, 191, 209, 128, 208,
     190, 208, 178, 208, 181, 209, 128, 209, 140, 209, 130, 208, 181] @ '' '' @ utf8_bytes [209,
     129, 209, 130, 208, 176, 209, 128, 209, 139, 208, 181] @ '' '' @ utf8_bytes [208, 177, 208,
     190, 208, 186, 209, 129, 209, 139] @ '' '' @ utf8_bytes [208, 178, 209, 128, 209, 131, 209,
     135, 208, 189, 209, 131, 209, 142] @ '' '' @ utf8_bytes [208, 178] @ '' '' @ utf8_bytes
     [208, 186, 208, 176, 208, 177, 208, 184, 208, 189, 208, 181, 209, 130, 208, 181] @ '' SprintBOX: ''"

definition cleanup_failure_advice :: string where
  "cleanup_failure_advice =
     utf8_bytes [208, 159, 209, 128, 208, 190, 208, 178, 208, 181, 209, 128, 209, 140, 209, 130,
     208, 181] @ '' '' @ utf8_bytes [209, 129, 209, 130, 208, 176, 209, 128, 209, 139, 208, 181]
     @ '' '' @ utf8_bytes [208, 177, 208, 190, 208, 186, 209, 129, 209, 139] @ '' '' @ utf8_bytes
     [208, 178, 209, 128, 209, 131, 209, 135, 208, 189, 209, 131, 209, 142] @ '' '' @ utf8_bytes
     [208, 178] @ '' '' @ utf8_bytes [208, 186, 208, 176, 208, 177, 208, 184, 208, 189, 208, 181,
     209, 130, 208, 181] @ '' SprintBOX: ''"

definition clean_up :: "int \<Rightarrow> sprintbox_client \<Rightarrow> rotation_timing \<Rightarrow> members \<Rightarrow> unit io" where
  "clean_up oid client tm kvs =
     andThen (target_of oid) (\<lambda>target.
     let kvs' = (if map_of kvs ''cleanup_results'' = None then kvs @ [(''cleanup_results'', JObj [])] else kvs) in
     andThen (clean_boxes oid client tm (ip_new_ip_id target) (part_of ''retained_boxes'' kvs') kvs') (\<lambda>(warnings, ambiguous).
       update_ip oid (\<lambda>_. [IpStatus Done, IpStep ''done'', IpError [],
         IpAction (if ambiguous then CleanupAmbiguous else if warnings \<noteq> [] then CleanupRejected else IpDone),
         IpCleanupWarning (if warnings = [] then [] else cleanup_advice @ join ''; '' warnings)])))"

definition cleanup_failed :: "int \<Rightarrow> sprintbox_client \<Rightarrow> exn \<Rightarrow> unit io" where
  "cleanup_failed oid client x =
     andThen (reading (\<lambda>cfg d. sanitize_error [sp_key client, sp_login client, eu_ssh_password None cfg d] 4000 (exn_text x))) (\<lambda>text.
     update_ip oid (\<lambda>_. [IpStatus Done, IpStep ''manual_verification_required'', IpAction CleanupAmbiguous,
       IpCleanupWarning (cleanup_failure_advice @ text)]))"

definition run_sprintbox_cleanup :: "int \<Rightarrow> unit io" where
  "run_sprintbox_cleanup oid =
     andThen (reading_result configured_timing) (\<lambda>tm.
     andThen box_client (\<lambda>client.
     andThen (transact (\<lambda>e now d. claim_cleanup now oid d)) (\<lambda>claimed.
       case claimed of
         None \<Rightarrow> skip
       | Some kvs \<Rightarrow> catch (clean_up oid client tm kvs) (cleanup_failed oid client))))"


section \<open>What the steps of a box keep\<close>

lemma keeps_guarded [keeps_intros]:
  assumes "keeps I m e" and "\<And>x. keeps I (box_failed oid client sent name x) e"
  shows "keeps I (guarded oid client sent name m) e"
  unfolding guarded_def using assms by (intro keeps_intros)

lemma keeps_proceed [keeps_intros]:
  assumes "keeps I m e" and "\<And>x. keeps I (f x) e"
  shows "keeps I (proceed m f) e"
  unfolding proceed_def using assms by (intro keeps_intros)

lemma keeps_attempt [keeps_intros]: "keeps I m e \<Longrightarrow> keeps I (attempt m) e"
  by (auto simp: keeps_def after_def attempt_def split: prod.splits outcome.splits)

context db_watch begin

lemma keeps_box:
  assumes "stable D e" and "\<not> k (BoxCall c)"
  shows "keeps (guard D k R) (sprintbox_request_io client c) e"
  unfolding sprintbox_request_io_def using assms by (auto intro!: keeps_intros)

lemma keeps_looking:
  assumes "stable D e"
  shows "\<not> k (BoxCall ListBoxes) \<Longrightarrow> keeps (guard D k R) (list_boxes client) e"
    and "\<not> k (BoxCall (ShowBox name)) \<Longrightarrow> keeps (guard D k R) (get_box client name) e"
    and "\<not> k (BoxCall (ShowStatus task)) \<Longrightarrow> keeps (guard D k R) (task_status_io client task) e"
  unfolding list_boxes_def get_box_def task_status_io_def using assms by (auto intro!: steps keeps_box)

lemma keeps_outside:
  assumes "stable D e"
  shows "keeps (guard D k R) prepare_sprintbox_ssh e" "keeps (guard D k R) random_hex e"
    "keeps (guard D k R) (new_box_label boxes) e" "keeps (guard D k R) (key_is_there context) e"
    "keeps (guard D k R) (check_binding bound) e" "keeps (guard D k R) box_client e"
    "keeps (guard D k R) (target_of oid) e"
  unfolding prepare_sprintbox_ssh_def random_hex_def new_box_label_def key_is_there_def check_binding_def box_client_def
    target_of_def
  using assms by (auto intro!: steps split: reply.split option.split)

lemma keeps_wait_task:
  assumes "stable D e" and "\<not> k (BoxCall (ShowStatus task))"
  shows "keeps (guard D k R) (wait_task client task oid step tm) e"
  unfolding wait_task_def sleeper_def using assms by (auto intro!: steps keeps_looking)

lemma keeps_deploy_rounds:
  assumes "stable D e"
  shows "keeps (guard D k R) (deploy_rounds oid host n r) e"
proof (induction n arbitrary: r)
  case (Suc n)
  with assms show ?case by (auto intro!: steps split: reply.split)
qed (simp add: keeps_throw)

lemma keeps_deploy_box:
  assumes "stable D e"
  shows "keeps (guard D k R) (deploy_box oid host c) e"
  unfolding deploy_box_def using assms by (intro steps keeps_deploy_rounds keeps_other) simp_all

lemma keeps_provision:
  assumes "stable D e"
  shows "keeps (guard D k R) (provision_box oid c bound ssh name ip tm) e"
  unfolding provision_box_def Let_def using assms
  by (auto intro!: steps keeps_outside keeps_ensure keeps_wait_ssh keeps_deploy_box keeps_verify split: exn.split)

lemma keeps_box_failed:
  assumes "stable D e"
  shows "keeps (guard D k R) (box_failed oid client sent name x) e"
    and "keeps (guard D k R) (resume_failed oid client x) e"
    and "keeps (guard D k R) (cleanup_failed oid client x) e"
  unfolding box_failed_def resume_failed_def cleanup_failed_def using assms by (auto intro!: steps)

lemma keeps_plan:
  assumes "stable D e" and "\<And>m. ok (IpOldIp m)" and "\<And>m. ok (IpOldIpId m)"
    and "\<not> k (BoxCall ListBoxes)" and "\<And>n. \<not> k (BoxCall (ShowBox n))"
  shows "keeps (guard D k R) (plan_box oid client c bound) e"
  unfolding plan_box_def inspect_old_box_def Let_def using assms
  by (intro steps keeps_outside keeps_ensure keeps_looking) simp_all

lemma keeps_identify:
  assumes "stable D e" and "\<not> k (BoxCall ListBoxes)"
  shows "keeps (guard D k R) (identify_box oid client before label current interval n name) e"
proof (induction n arbitrary: name)
  case 0
  show ?case using assms by (auto intro!: keeps_intros keeps_box_failed)
next
  case (Suc n)
  have look: "keeps (guard D k R) (look_for_box oid client before label) e"
    unfolding look_for_box_def using assms by (auto intro!: steps keeps_looking split: list.split)
  show ?case
    unfolding identify_box.simps sleeper_def using assms
    by (auto intro!: keeps_intros steps look Suc keeps_box_failed split: option.split)
qed

lemma keeps_await_creation:
  assumes "stable D e" and "ok (IpPurchase PhSent)" and "\<And>t. \<not> k (BoxCall (ShowStatus t))"
  shows "keeps (guard D k R) (await_creation oid client context tm job) e"
  unfolding await_creation_def using assms by (intro steps keeps_wait_task) (simp_all add: plain)

lemma keeps_resume_box:
  assumes "stable D e" and "\<And>n. \<not> k (BoxCall (ShowBox n))"
  shows "keeps (guard D k R) (resume_box oid c tm client operation context) e"
  unfolding resume_box_def Let_def using assms
  by (intro steps keeps_outside keeps_ensure keeps_looking keeps_provision) simp_all

lemma keeps_aeza_run:
  assumes "stable D e" and "\<And>c. \<not> k c" and "\<And>m. ok (IpOldIp m)" and "\<And>m. ok (IpOldIpId m)"
    and "\<And>ph. ok (IpPurchase ph)"
  shows "keeps (guard D k R) (run_aeza_ip_change oid) e"
proof -
  have "keeps (guard D k R) (rotate oid tm client service c) e" for tm client service c
    by (rule keeps_rotate)
       (auto simp: buy_address_def intro!: steps keeps_find_old keeps_ensure keeps_request_address keeps_confirm
         keeps_fail keeps_switch keeps_apply_and_publish keeps_finish assms)
  then show ?thesis
    unfolding run_aeza_ip_change_def new_aeza_client_def by (auto intro!: steps assms)
qed

end


section \<open>One creation\<close>

definition unique_ids :: "db \<Rightarrow> bool" where
  "unique_ids d \<longleftrightarrow> distinct (map ip_id (ip_ops d))"

lemma unique_update_where:
  assumes "\<And>r. ip_id (f r) = ip_id r" and "ip_ops d' = update_where q f (ip_ops d)"
  shows "unique_ids d' = unique_ids d"
proof -
  have "map ip_id (ip_ops d') = map ip_id (ip_ops d)"
    unfolding assms(2) update_where_def by (simp add: comp_def assms(1) if_distrib [of ip_id] cong: if_cong)
  then show ?thesis by (simp add: unique_ids_def)
qed

lemma unique_update: "unique_ids (update_operation now oid fs d) = unique_ids d"
proof (cases "fs = []")
  case False
  then show ?thesis
    by (intro unique_update_where [where f = "\<lambda>r. (set_ip_fields fs r)\<lparr>ip_updated_at := iso now\<rparr>"])
       (simp_all add: update_operation_ops)
qed (simp add: update_operation_def)

lemma unique_publish:
  assumes "publish_ip_change sha now oid ip health box path d = Inr (n, d')"
  shows "unique_ids d' = unique_ids d"
proof -
  obtain b where "ip_ops d' = update_where (\<lambda>r. ip_id r = oid) (published_op now b health) (ip_ops d)"
    using publish_ip_ops [OF assms] by blast
  then show ?thesis by (intro unique_update_where) simp_all
qed

lemma unique_set_setting [simp]: "unique_ids (set_setting now key v d) = unique_ids d"
  by (simp add: unique_ids_def)

interpretation ids: db_watch unique_ids "\<lambda>f. True" oid for oid
  by unfold_locales (simp_all add: unique_update unique_publish)

interpretation box_claim: db_watch "\<lambda>d. unique_ids d \<and> claimed oid d" "\<lambda>f. f \<noteq> IpPurchase NotStarted" oid for oid
proof unfold_locales
  fix fs now d
  assume "list_all (\<lambda>f. f \<noteq> IpPurchase NotStarted) fs" "unique_ids d \<and> claimed oid d"
  then show "unique_ids (update_operation now oid fs d) \<and> claimed oid (update_operation now oid fs d)"
    unfolding claimed_def by (intro conjI claim.rows_updated) (simp_all add: unique_update)
next
  fix now key v d
  assume "unique_ids d \<and> claimed oid d"
  then show "unique_ids (set_setting now key v d) \<and> claimed oid (set_setting now key v d)"
    by (simp add: claimed_def every_row_def)
next
  fix sha now ip health box path d n d'
  assume "publish_ip_change sha now oid ip health box path d = Inr (n, d')" "unique_ids d \<and> claimed oid d"
  then show "unique_ids d' \<and> claimed oid d'"
    using claim.published [of sha now oid ip health box path d n d'] by (auto simp: claimed_def unique_publish)
qed simp_all

text \<open>What the others must not do: give an id to two operations, or take a claim back.\<close>

definition respects_purchase :: "int \<Rightarrow> (db \<Rightarrow> db) \<Rightarrow> bool" where
  "respects_purchase oid f \<longleftrightarrow>
     (\<forall>d. (unique_ids d \<longrightarrow> unique_ids (f d)) \<and> (claimed oid d \<longrightarrow> claimed oid (f d)))"

definition purchase_rely :: "int \<Rightarrow> env \<Rightarrow> bool" where
  "purchase_rely oid e \<longleftrightarrow> (\<forall>n. respects_purchase oid (meanwhile e n))"

lemma purchase_relyD:
  assumes "purchase_rely oid e"
  shows "stable unique_ids e" "stable (claimed oid) e" "stable (\<lambda>d. unique_ids d \<and> claimed oid d) e"
  using assms by (auto simp: purchase_rely_def respects_purchase_def stable_def)

abbreviation no_box_yet :: "int \<Rightarrow> run \<Rightarrow> bool" where
  "no_box_yet oid \<equiv> guard unique_ids is_purchase (\<lambda>l. l = [])"

abbreviation box_ready :: "int \<Rightarrow> run \<Rightarrow> bool" where
  "box_ready oid \<equiv> guard (\<lambda>d. unique_ids d \<and> claimed oid d) is_purchase (\<lambda>l. l = [])"

abbreviation box_asked :: "int \<Rightarrow> run \<Rightarrow> bool" where
  "box_asked oid \<equiv> guard (\<lambda>d. unique_ids d \<and> claimed oid d) is_purchase (recorded_purchase oid)"

definition box_once :: "int \<Rightarrow> run \<Rightarrow> bool" where
  "box_once oid s \<longleftrightarrow> no_box_yet oid s \<or> box_asked oid s"

lemma box_ready_asked: "box_ready oid s \<Longrightarrow> box_asked oid s"
  by (auto simp: guard_def on_def recorded_purchase_def)

lemma box_once_iff: "box_once oid s \<longleftrightarrow> bought_once oid s \<and> unique_ids (rn_db s)"
  by (auto simp: box_once_def bought_once_def guard_def on_def claimed_def)

lemma keeps_box_once:
  "keeps (no_box_yet oid) m e \<Longrightarrow> keeps (box_asked oid) m e \<Longrightarrow> keeps (box_once oid) m e"
  unfolding box_once_def by (rule keeps_disj)

lemma claim_creation_claims:
  assumes "unique_ids d" and "claim_creation oid d = (b, d')"
  shows "unique_ids d'" and "b \<Longrightarrow> claimed oid d'" and "b \<Longrightarrow> \<not> claimed oid d" and "\<not> b \<Longrightarrow> ip_ops d' = ip_ops d"
proof -
  let ?f = "\<lambda>r. r\<lparr>ip_purchase_state := PhSending, ip_action_state := PurchaseSending\<rparr>"
  have ops: "ip_ops d' = update_where (may_create_box oid) ?f (ip_ops d)"
    and b: "b \<longleftrightarrow> (\<exists>r \<in> set (ip_ops d). may_create_box oid r)"
    using assms(2) by (auto simp: claim_creation_def row_count_0_iff)
  show "unique_ids d'" using assms(1) unique_update_where [OF _ ops] by simp
  show "ip_ops d' = ip_ops d" if "\<not> b"
    using that b unfolding ops update_where_def by (intro map_idI) auto
  assume b
  with b obtain r where r: "r \<in> set (ip_ops d)" "may_create_box oid r" by blast
  have only: "q = r" if "q \<in> set (ip_ops d)" "ip_id q = oid" for q
    using assms(1) r that by (auto simp: may_create_box_def unique_ids_def distinct_map inj_on_def)
  show "claimed oid d'"
    using only r by (auto simp: claimed_def every_row_def ops set_update_where split: if_splits)
  show "\<not> claimed oid d" using r by (auto simp: claimed_def every_row_def may_create_box_def)
qed


lemma leads_claim_creation:
  assumes "purchase_rely oid e"
  shows "leads (box_once oid) (transact (\<lambda>e now d. Inr (claim_creation oid d)))
    (\<lambda>b s. if b then box_ready oid s else box_once oid s) (box_once oid) e"
proof (rule leadsI)
  fix s r s' assume s: "box_once oid s" and run: "transact (\<lambda>e now d. Inr (claim_creation oid d)) e s = (r, s')"
  let ?d = "turn e s"
  note st = purchase_relyD [OF assms]
  have u: "unique_ids ?d"
    using s stable_turn [OF st(1), of s] by (auto simp: box_once_def guard_def on_def)
  have here: "calls_of (asks is_purchase) (rn_log s) = [] \<or>
      claimed oid ?d \<and> recorded_purchase oid (calls_of (asks is_purchase) (rn_log s))"
    using s stable_turn [OF st(2), of s] by (auto simp: box_once_def guard_def on_def)
  show "case r of Returned b \<Rightarrow> if b then box_ready oid s' else box_once oid s' | _ \<Rightarrow> box_once oid s'"
  proof (cases "stops e (rn_step s)")
    case True
    with run s show ?thesis by (auto simp: transact_def)
  next
    case False
    obtain b d' where claim: "claim_creation oid ?d = (b, d')" by fastforce
    with run False have r: "r = Returned b" and s': "s' = s\<lparr>rn_db := d', rn_step := Suc (rn_step s)\<rparr>"
      by (auto simp: transact_def)
    note c = claim_creation_claims [OF u claim]
    show ?thesis
    proof (cases b)
      case True
      with c here show ?thesis by (auto simp: r s' guard_def on_def)
    next
      case False
      with c(4) have "claimed oid d' = claimed oid ?d" by (simp add: claimed_def every_row_def)
      with c(1) here False show ?thesis by (auto simp: r s' box_once_def guard_def on_def)
    qed
  qed
qed

lemma leads_create_box:
  assumes "purchase_rely oid e"
  shows "leads (box_ready oid) (create_box client service distributive key label) (\<lambda>_. box_asked oid) (box_asked oid) e"
proof -
  have call: "leads (box_ready oid) (send (SprintboxRequest (AddBox service distributive key label)))
      (\<lambda>_. box_asked oid) (box_asked oid) e"
  proof (rule leadsI)
    fix s r s' assume s: "box_ready oid s" and run: "send (SprintboxRequest (AddBox service distributive key label)) e s = (r, s')"
    note st = stable_turn [OF purchase_relyD(3) [OF assms], of s]
    show "case r of Returned x \<Rightarrow> box_asked oid s' | _ \<Rightarrow> box_asked oid s'"
      using run s st box_ready_asked [OF s]
      by (auto simp: send_def Let_def guard_def on_def recorded_purchase_def split: if_splits outcome.split)
  qed
  have "leads (box_ready oid) (sprintbox_request_io client (AddBox service distributive key label))
      (\<lambda>_. box_asked oid) (box_asked oid) e"
    unfolding sprintbox_request_io_def
    by (auto intro!: leads_throw box_ready_asked leads_andThen [OF call] leads_keeps keeps_intros)
  then show ?thesis
    unfolding create_box_def by (rule leads_andThen) (intro leads_keeps keeps_intros)
qed

lemma leads_request_box:
  assumes "purchase_rely oid e"
  shows "leads (box_ready oid) (request_box oid client bound ssh label) (\<lambda>_. box_asked oid) (box_asked oid) e"
  unfolding request_box_def
proof (rule leads_catch)
  show "leads (box_ready oid) (andThen (create_box client (bound_text bound ''service'') (bound_text bound ''distributive'')
      (sk_public_key ssh) label) (\<lambda>job. ret (Some (Some job)))) (\<lambda>_. box_asked oid) (box_asked oid) e"
    by (rule leads_andThen [OF leads_create_box [OF assms]]) (intro leads_keeps keeps_intros)
  fix x
  have "keeps (box_asked oid) (case x of
          SprintboxTaskIdMissing m \<Rightarrow> ret (Some None)
        | SprintboxApiError code m \<Rightarrow>
            andThen (update_ip oid (\<lambda>_. [IpPurchase PhRejected])) (\<lambda>_.
            andThen (box_failed oid client False [] x) (\<lambda>_. ret None))
        | _ \<Rightarrow> andThen (box_failed oid client True [] x) (\<lambda>_. ret None)) e"
    using purchase_relyD(3) [OF assms]
    by (auto intro!: keeps_intros box_claim.keeps_update box_claim.keeps_box_failed split: exn.split)
  then show "leads (box_asked oid) (case x of
          SprintboxTaskIdMissing m \<Rightarrow> ret (Some None)
        | SprintboxApiError code m \<Rightarrow>
            andThen (update_ip oid (\<lambda>_. [IpPurchase PhRejected])) (\<lambda>_.
            andThen (box_failed oid client False [] x) (\<lambda>_. ret None))
        | _ \<Rightarrow> andThen (box_failed oid client True [] x) (\<lambda>_. ret None)) (\<lambda>_. box_asked oid) (box_asked oid) e"
    by (rule leads_keeps)
qed

lemma leads_creation:
  assumes "purchase_rely oid e"
  shows "leads (box_ready oid) (create_and_provision oid client c bound tm plan) (\<lambda>_. box_once oid) (box_once oid) e"
proof -
  have st: "stable (\<lambda>d. unique_ids d \<and> claimed oid d) e" by (rule purchase_relyD(3) [OF assms])
  have rest: "keeps (box_asked oid)
     (proceed (guarded oid client True [] (await_creation oid client (bp_context plan) tm job)) (\<lambda>_.
      proceed (identify_box oid client (bp_before plan) (bp_label plan) (cc_current_ip c)
       (rt_ip_appear_interval tm) (box_rounds tm) []) (\<lambda>(name, ip).
      guarded oid client True name
       (andThen (update_ip oid (\<lambda>t. [IpNewIpId name, IpNewIp ip, IpPurchase PhConfirmed, IpNewIpCreatedAt t])) (\<lambda>_.
          provision_box oid c bound (bp_ssh plan) name ip tm))))) e" for job
    by (intro keeps_intros box_claim.keeps_box_failed box_claim.keeps_await_creation box_claim.keeps_identify
        box_claim.keeps_update box_claim.keeps_provision st) simp_all
  have "leads (box_ready oid) (create_and_provision oid client c bound tm plan) (\<lambda>_. box_asked oid) (box_asked oid) e"
    unfolding create_and_provision_def proceed_def [of "request_box oid client bound (bp_ssh plan) (bp_label plan)"]
  proof (rule leads_andThen [OF leads_request_box [OF assms]])
    fix r :: "string option option"
    show "leads (box_asked oid) (case r of None \<Rightarrow> ret None | Some job \<Rightarrow>
        proceed (guarded oid client True [] (await_creation oid client (bp_context plan) tm job)) (\<lambda>_.
        proceed (identify_box oid client (bp_before plan) (bp_label plan) (cc_current_ip c)
         (rt_ip_appear_interval tm) (box_rounds tm) []) (\<lambda>(name, ip).
        guarded oid client True name
         (andThen (update_ip oid (\<lambda>t. [IpNewIpId name, IpNewIp ip, IpPurchase PhConfirmed, IpNewIpCreatedAt t])) (\<lambda>_.
            provision_box oid c bound (bp_ssh plan) name ip tm))))) (\<lambda>_. box_asked oid) (box_asked oid) e"
      by (rule leads_keeps, rule keeps_option) (rule keeps_ret, rule rest)
  qed
  then show ?thesis by (rule leads_weaken) (simp_all add: box_once_def)
qed

lemma keeps_rotate_box:
  assumes "purchase_rely oid e"
  shows "keeps (box_once oid) (rotate_box oid client c bound tm) e"
proof -
  note st = purchase_relyD(1,3) [OF assms]
  have plan: "keeps (box_once oid) (guarded oid client False [] (plan_box oid client c bound)) e"
    by (intro keeps_box_once keeps_intros ids.keeps_plan box_claim.keeps_plan ids.keeps_box_failed
        box_claim.keeps_box_failed st) simp_all
  have "leads (box_once oid) (andThen (transact (\<lambda>e now d. Inr (claim_creation oid d))) (\<lambda>claimed.
       if claimed then create_and_provision oid client c bound tm pl else ret None)) (\<lambda>_. box_once oid) (box_once oid) e" for pl
  proof (rule leads_andThen [OF leads_claim_creation [OF assms]])
    fix b
    show "leads (\<lambda>s. if b then box_ready oid s else box_once oid s)
        (if b then create_and_provision oid client c bound tm pl else ret None) (\<lambda>_. box_once oid) (box_once oid) e"
      by (cases b) (simp_all add: leads_creation [OF assms] leads_ret)
  qed
  then show ?thesis unfolding rotate_box_def by (intro keeps_proceed plan keeps_leads)
qed

lemma claimed_update_where:
  assumes "ip_ops d' = update_where (\<lambda>r. ip_id r = oid) h (ip_ops d)" and "\<And>r. ip_id (h r) = ip_id r"
    and "\<And>r. ip_purchase_state (h r) = ip_purchase_state r"
  shows "claimed oid d' = claimed oid d"
proof -
  let ?g = "\<lambda>r. if ip_id r = oid then h r else r"
  have "ip_id (?g r) = ip_id r \<and> ip_purchase_state (?g r) = ip_purchase_state r" for r
    using assms(2,3) [of r] by simp
  then show ?thesis unfolding claimed_def every_row_def assms(1) set_update_where ball_simps by (simp add: assms(2,3))
qed

lemma same_claim:
  assumes "ip_ops d' = ip_ops d \<or> ip_ops d' = update_where (\<lambda>r. ip_id r = oid) f (ip_ops d) \<or>
      ip_ops d' = update_where (\<lambda>r. ip_id r = oid) g (ip_ops d)"
    and "\<And>r. ip_id (f r) = ip_id r" and "\<And>r. ip_id (g r) = ip_id r"
    and "\<And>r. ip_purchase_state (f r) = ip_purchase_state r" and "\<And>r. ip_purchase_state (g r) = ip_purchase_state r"
  shows "unique_ids d' = unique_ids d \<and> claimed oid d' = claimed oid d"
proof -
  have "unique_ids d' = unique_ids d"
    using assms(1) unique_update_where [OF assms(2)] unique_update_where [OF assms(3)] by (auto simp: unique_ids_def)
  moreover have "claimed oid d' = claimed oid d"
    using assms(1)
  proof (elim disjE)
    assume "ip_ops d' = ip_ops d"
    then show ?thesis by (simp add: claimed_def every_row_def)
  qed (erule claimed_update_where, rule assms, rule assms)+
  ultimately show ?thesis by simp
qed

lemma keeps_box_rotation:
  assumes "purchase_rely oid e"
  shows "keeps (box_once oid) (run_sprintbox_rotation oid) e"
proof -
  note st = purchase_relyD(1,3) [OF assms]
  have q: "keeps (box_once oid) (query f) e" "keeps (box_once oid) box_client e"
    "keeps (box_once oid) (reading_result g) e" for f :: "env \<Rightarrow> db \<Rightarrow> exn + 'a" and g :: "config \<Rightarrow> db \<Rightarrow> exn + 'b"
    by (intro keeps_box_once ids.keeps_watch_query box_claim.keeps_watch_query ids.keeps_watch_reading
        box_claim.keeps_watch_reading ids.keeps_outside box_claim.keeps_outside st)+
  have u: "keeps (box_once oid) (update_ip oid (\<lambda>_. [IpStatus Ambiguous, IpAction IpAmbiguous,
      IpStep ''manual_verification_required'', IpError interrupted_box])) e"
    by (intro keeps_box_once ids.keeps_update box_claim.keeps_update st) simp_all
  have claim: "keeps (box_once oid) (transact (\<lambda>e now d. resume_claim (en_sha e) (en_config e) now oid d)) e"
  proof -
    have same: "unique_ids d' = unique_ids d \<and> claimed oid d' = claimed oid d"
      if "resume_claim sha cfg now oid d = Inr (x, d')" for sha cfg now d x d'
    proof -
      have "ip_ops d' = ip_ops d \<or>
          ip_ops d' = update_where (\<lambda>r. ip_id r = oid) (\<lambda>r. r\<lparr>ip_status := Done, ip_action_state := SshUnreachable,
            ip_current_step := ''ssh_decision'', ip_updated_at := iso now\<rparr>) (ip_ops d) \<or>
          ip_ops d' = update_where (\<lambda>r. ip_id r = oid) (\<lambda>r. r\<lparr>ip_status := Running, ip_action_state := WaitingSsh,
            ip_updated_at := iso now\<rparr>) (ip_ops d)"
        using that
        by (auto simp: resume_claim_def release_stale_wait_def release_vps_lease_def set_ip_row_def bind_result_def Let_def
            split: option.splits if_splits sum.splits exn.splits)
      then show ?thesis by (rule same_claim) simp_all
    qed
    have st1: "steady (\<lambda>d l. unique_ids d \<and> V l) e"
      and st2: "steady (\<lambda>d l. (unique_ids d \<and> claimed oid d) \<and> V l) e" for V
      by (rule steady_and, rule st)+
    show ?thesis
    proof (rule keeps_box_once)
      show "keeps (no_box_yet oid) (transact (\<lambda>e now d. resume_claim (en_sha e) (en_config e) now oid d)) e"
        unfolding guard_def by (rule keeps_transact [OF st1]) (auto dest!: same)
      show "keeps (box_asked oid) (transact (\<lambda>e now d. resume_claim (en_sha e) (en_config e) now oid d)) e"
        unfolding guard_def by (rule keeps_transact [OF st2]) (auto dest!: same)
    qed
  qed
  have resume: "keeps (box_once oid) (resume_ssh_wait oid c tm) e" for c tm
    unfolding resume_ssh_wait_def
    by (intro keeps_intros claim q keeps_box_once ids.keeps_resume_box box_claim.keeps_resume_box
        ids.keeps_box_failed box_claim.keeps_box_failed st) simp_all
  show ?thesis
    unfolding run_sprintbox_rotation_def
    by (intro keeps_intros q u resume keeps_rotate_box [OF assms])
qed

lemma keeps_run_ip_change:
  assumes "purchase_rely oid e"
  shows "keeps (box_once oid) (run_ip_change oid) e"
proof -
  note st = purchase_relyD [OF assms]
  have q: "keeps (box_once oid) (query f) e" for f :: "env \<Rightarrow> db \<Rightarrow> exn + 'a"
    by (intro keeps_box_once ids.keeps_watch_query box_claim.keeps_watch_query st)
  have "keeps (guard unique_ids (\<lambda>c. False) (\<lambda>l. True)) (run_aeza_ip_change oid) e"
    by (rule ids.keeps_aeza_run [OF st(1)]) simp_all
  then have u: "keeps (\<lambda>s. unique_ids (rn_db s)) (run_aeza_ip_change oid) e"
    by (simp add: guard_def on_def [abs_def])
  have aeza: "keeps (box_once oid) (run_aeza_ip_change oid) e"
    unfolding keeps_def
  proof (intro allI impI)
    fix s assume "box_once oid s"
    then have "bought_once oid s" "unique_ids (rn_db s)" by (simp_all add: box_once_iff)
    then show "after (run_aeza_ip_change oid) (\<lambda>r. box_once oid) e s"
      using after_both [OF keepsD [OF keeps_run [OF st(2)]] keepsD [OF u]] by (simp add: box_once_iff [abs_def])
  qed
  show ?thesis
    unfolding run_ip_change_def by (intro keeps_intros q aeza keeps_box_rotation [OF assms])
qed


section \<open>Evidence for a new box\<close>

text \<open>The log shows that the installation was sent to the host and that it ended well.\<close>

definition deployed_on :: "captured_config \<Rightarrow> string \<Rightarrow> call list \<Rightarrow> bool" where
  "deployed_on c host l \<longleftrightarrow> (\<exists>a \<in> set l. c_event a = RunScript host (Deploy c True)) \<and>
     (\<exists>a \<in> set l. c_event a \<in> {RunScript host (Deploy c True), AwaitScript host} \<and>
        (\<exists>output. c_reply a = ExitReply 0 output))"

definition deploying_on :: "captured_config \<Rightarrow> string \<Rightarrow> reply \<Rightarrow> call list \<Rightarrow> bool" where
  "deploying_on c host r l \<longleftrightarrow> (\<exists>a \<in> set l. c_event a = RunScript host (Deploy c True)) \<and>
     (\<exists>a \<in> set l. c_event a \<in> {RunScript host (Deploy c True), AwaitScript host} \<and> c_reply a = r)"

lemma deployed_grows [simp]: "only_grows (deployed_on c host)" "only_grows (deploying_on c host r)"
  by (auto simp: only_grows_def deployed_on_def deploying_on_def)

lemma deploying_done: "deploying_on c host (ExitReply 0 output) l \<Longrightarrow> deployed_on c host l"
  by (auto simp: deployed_on_def deploying_on_def)

lemma leads_deploying:
  "leads (on (\<lambda>d. deploying_on c host r)) (send (AwaitScript host)) (\<lambda>r. on (\<lambda>d. deploying_on c host r)) (\<lambda>_. True) e"
  by (rule leadsI) (auto simp: send_def on_def deploying_on_def Let_def split: if_splits outcome.split)

lemma leads_rounds:
  "leads (on (\<lambda>d. deploying_on c host r)) (deploy_rounds oid host n r) (\<lambda>_. on (\<lambda>d. deployed_on c host)) (\<lambda>_. True) e"
proof (induction n arbitrary: r)
  case 0
  show ?case by (simp add: leads_throw)
next
  case (Suc n)
  have step: "leads (on (\<lambda>d. deploying_on c host r)) (ip_step oid ''install_new_box'' [IpApply PhRunning])
      (\<lambda>_. on (\<lambda>d. deploying_on c host r)) (\<lambda>_. True) e"
    by (rule leads_weaken [OF leads_keeps [OF grow_step [OF deployed_grows(2)]]]) simp_all
  have later: "leads (on (\<lambda>d. deploying_on c host r)) (andThen (send (AwaitScript host)) (deploy_rounds oid host n))
      (\<lambda>_. on (\<lambda>d. deployed_on c host)) (\<lambda>_. True) e"
    by (rule leads_andThen [OF leads_deploying Suc])
  have "leads (on (\<lambda>d. deploying_on c host r))
     (case r of
          ExitReply code output \<Rightarrow>
            if code \<noteq> 0 then
              throw (IpChangeError (''SprintBOX VPN installation failed (exit '' @ int_str code @ ''); old box preserved''))
            else skip
        | Resumed \<Rightarrow> andThen (send (AwaitScript host)) (deploy_rounds oid host n)
        | Unavailable x \<Rightarrow> throw x
        | _ \<Rightarrow> throw unexpected) (\<lambda>_. on (\<lambda>d. deployed_on c host)) (\<lambda>_. True) e"
    using later by (cases r) (auto simp: skip_def on_def intro!: leads_throw leads_ret deploying_done)
  then show ?case by (auto intro!: leads_throw leads_andThen [OF step])
qed

lemma leads_deploy_box:
  "leads (\<lambda>_. True) (deploy_box oid host c) (\<lambda>_. on (\<lambda>d. deployed_on c host)) (\<lambda>_. True) e"
proof -
  have "leads (\<lambda>_. True) (send (RunScript host (Deploy c True))) (\<lambda>r. on (\<lambda>d. deploying_on c host r)) (\<lambda>_. True) e"
    by (rule leadsI) (auto simp: send_def on_def deploying_on_def Let_def split: if_splits outcome.split)
  then show ?thesis
    unfolding deploy_box_def
    by (rule leads_andThen [OF leads_any leads_andThen [OF leads_any leads_andThen [OF _ leads_rounds]]])
qed

lemma grow_check_binding: "keeps (on (\<lambda>d. V)) (check_binding bound) e"
  unfolding check_binding_def by (rule keeps_query) simp

lemma grow_publish:
  "keeps (on (\<lambda>d. V)) (transact (\<lambda>e now d. publish_ip_change (en_sha e) now oid ip health box path d)) e"
  by (rule keeps_transact) simp_all

abbreviation box_evidence :: "captured_config \<Rightarrow> string \<Rightarrow> run \<Rightarrow> bool" where
  "box_evidence c host \<equiv> on (\<lambda>d l. deployed_on c host l \<and> checked_on c host l)"

lemma box_evidence_grows: "only_grows (\<lambda>l. deployed_on c host l \<and> checked_on c host l)"
  using evidence_grows(2) deployed_grows(1) by (auto simp: only_grows_def)

text \<open>A task that keeps a fact leads from it to it.\<close>

lemma leads_same: "keeps I m e \<Longrightarrow> leads I m (\<lambda>_. I) (\<lambda>_. True) e"
  by (rule leads_weaken [OF leads_keeps]) simp_all

lemma leads_provision:
  assumes "ip \<noteq> []"
  shows "leads (\<lambda>_. True) (provision_box oid c bound ssh name ip tm)
    (\<lambda>_ s. every_row oid (\<lambda>r. ip_action_state r = SshUnreachable) (rn_db s) \<or>
       box_evidence (c\<lparr>cc_current_ip := ip\<rparr>) ip s) (\<lambda>_. True) e"
proof -
  let ?c = "c\<lparr>cc_current_ip := ip\<rparr>" and ?Q = "\<lambda>_ s. every_row oid (\<lambda>r. ip_action_state r = SshUnreachable) (rn_db s) \<or>
       box_evidence (c\<lparr>cc_current_ip := ip\<rparr>) ip s"
  have verify: "leads (on (\<lambda>d. deployed_on ?c ip)) (verify_protocol_health ip ?c) (\<lambda>_. box_evidence ?c ip) (\<lambda>_. True) e"
    by (rule leads_weaken [OF leads_and_keeps [OF leads_verify [OF assms] grow_verify [OF deployed_grows(1)]]])
       (auto simp: on_def)
  have last: "leads (box_evidence ?c ip) (update_ip oid fs) ?Q (\<lambda>_. True) e" for fs
    by (rule leads_weaken [OF leads_same [OF grow_update [where V = "\<lambda>l. deployed_on ?c ip l \<and> checked_on ?c ip l"]]]) simp_all
  have up: "leads (\<lambda>_. True)
     (andThen (update_ip oid (\<lambda>t. [IpServerReachableAt t])) (\<lambda>_.
      andThen (ip_step oid ''install_new_box'' [IpAction Applying, IpApply PhRunning]) (\<lambda>_.
      andThen (deploy_box oid ip ?c) (\<lambda>_.
      andThen (update_ip oid (\<lambda>t. [IpApply PhApplied, IpApplyCompletedAt t])) (\<lambda>_.
      andThen (check_binding bound) (\<lambda>_.
      andThen (ensure_bound_revision_current (cc_revision c)) (\<lambda>_.
      andThen (ip_step oid ''protocol_health'' []) (\<lambda>_.
      andThen (verify_protocol_health ip ?c) (\<lambda>health.
      andThen (check_binding bound) (\<lambda>_.
      andThen (transact (\<lambda>e now d.
          publish_ip_change (en_sha e) now oid ip health (Some name) (Some (sk_key_path ssh)) d)) (\<lambda>revn.
        update_ip oid (\<lambda>_. [IpStatus Done, IpStep ''awaiting_user_review'', IpAction AwaitingUserReview,
          IpPublishedRevision revn, IpError []])))))))))))) ?Q (\<lambda>_. True) e"
    by (rule leads_andThen [OF leads_any], rule leads_andThen [OF leads_any], rule leads_andThen [OF leads_deploy_box],
        rule leads_andThen [OF leads_same [OF grow_update]], rule leads_andThen [OF leads_same [OF grow_check_binding]],
        rule leads_andThen [OF leads_same [OF grow_ensure]],
        rule leads_andThen [OF leads_same [OF grow_step [OF deployed_grows(1)]]], rule leads_andThen [OF verify],
        rule leads_andThen [OF leads_same [OF grow_check_binding]], rule leads_andThen [OF leads_same [OF grow_publish]],
        rule last)
  have down: "leads (\<lambda>_. True)
     (update_ip oid (\<lambda>_. [IpStatus Done, IpAction SshUnreachable, IpStep ''ssh_decision'', IpError []])) ?Q (\<lambda>_. True) e"
  proof -
    have "every_row oid (\<lambda>r. ip_action_state r = SshUnreachable) (update_operation now oid
        [IpStatus Done, IpAction SshUnreachable, IpStep ''ssh_decision'', IpError []] d)" for now d
      by (rule every_row_update [where p = "\<lambda>_. True"]) (simp_all add: set_ip_fields_def)
    then show ?thesis
      by (intro leadsI) (auto simp: update_ip_def store_def transact_def split: if_splits)
  qed
  show ?thesis
    unfolding provision_box_def Let_def
    by (rule leads_andThen [OF leads_any], rule leads_andThen [OF leads_any], rule leads_andThen [OF leads_any],
        rule leads_andThen [OF leads_any]) (simp add: up down)
qed


section \<open>What is deleted\<close>

text \<open>Every request to delete a box had its reason in the log before it.\<close>

definition justified :: "(string \<Rightarrow> call list \<Rightarrow> bool) \<Rightarrow> call list \<Rightarrow> bool" where
  "justified Ok l \<longleftrightarrow> (\<forall>l1 a l2 name. l = l1 @ a # l2 \<longrightarrow> c_event a = SprintboxRequest (DeleteBox name) \<longrightarrow> Ok name l1)"

lemma justified_snoc: "justified Ok (l @ [a]) \<longleftrightarrow>
  justified Ok l \<and> (\<forall>name. c_event a = SprintboxRequest (DeleteBox name) \<longrightarrow> Ok name l)"
proof (intro iffI conjI allI impI)
  assume all: "justified Ok (l @ [a])"
  show "justified Ok l"
    unfolding justified_def
  proof (intro allI impI)
    fix l1 b l2 name assume "l = l1 @ b # l2" "c_event b = SprintboxRequest (DeleteBox name)"
    moreover from this(1) have "l @ [a] = l1 @ b # (l2 @ [a])" by simp
    ultimately show "Ok name l1" using all unfolding justified_def by blast
  qed
  show "Ok name l" if "c_event a = SprintboxRequest (DeleteBox name)" for name
    using all that unfolding justified_def by blast
next
  assume before: "justified Ok l \<and> (\<forall>name. c_event a = SprintboxRequest (DeleteBox name) \<longrightarrow> Ok name l)"
  show "justified Ok (l @ [a])"
    unfolding justified_def
  proof (intro allI impI)
    fix l1 b l2 name assume split: "l @ [a] = l1 @ b # l2" and b: "c_event b = SprintboxRequest (DeleteBox name)"
    show "Ok name l1"
    proof (cases l2 rule: rev_cases)
      case Nil
      with split b before show ?thesis by simp
    next
      case (snoc l3 x)
      with split have "l = l1 @ b # l3" by simp
      with b before show ?thesis unfolding justified_def by blast
    qed
  qed
qed

abbreviation only_justified :: "(string \<Rightarrow> call list \<Rightarrow> bool) \<Rightarrow> run \<Rightarrow> bool" where
  "only_justified Ok \<equiv> on (\<lambda>d. justified Ok)"

lemma quiet_send: "(\<And>n. v \<noteq> SprintboxRequest (DeleteBox n)) \<Longrightarrow> keeps (only_justified Ok) (send v) e"
  by (rule keeps_send) (simp_all add: justified_snoc)

lemma quiet_database:
  "keeps (only_justified Ok) (update_ip oid fs) e" "keeps (only_justified Ok) (saving k v) e"
  "keeps (only_justified Ok) (query f) e" "keeps (only_justified Ok) (reading g) e"
  by (rule grow_update grow_saving keeps_query grow_reading, simp?)+

lemma quiet_step: "keeps (only_justified Ok) (ip_step oid step fs) e"
  unfolding ip_step_def pause_def by (auto intro!: keeps_intros quiet_database quiet_send split: reply.split)

lemma quiet_request: "(\<And>n. c \<noteq> DeleteBox n) \<Longrightarrow> keeps (only_justified Ok) (sprintbox_request_io client c) e"
  unfolding sprintbox_request_io_def by (auto intro!: keeps_intros quiet_send)

lemma quiet_calls:
  "keeps (only_justified Ok) (list_boxes client) e" "keeps (only_justified Ok) (get_box client name) e"
  "keeps (only_justified Ok) (wait_task client task oid step tm) e" "keeps (only_justified Ok) (target_of oid) e"
  "keeps (only_justified Ok) (save_context oid kvs) e"
  unfolding list_boxes_def get_box_def wait_task_def task_status_io_def target_of_def save_context_def sleeper_def pause_def
  by (auto intro!: keeps_intros quiet_request quiet_step quiet_database quiet_send split: reply.split)

text \<open>The answer to a look at the box shows the address.\<close>

definition shows_address :: "env \<Rightarrow> string \<Rightarrow> string \<Rightarrow> call \<Rightarrow> bool" where
  "shows_address e name ip a \<longleftrightarrow> c_event a = SprintboxRequest (ShowBox name) \<and>
     (\<exists>client status reason body v. c_reply a = HttpReply status reason body \<and>
        sprintbox_answer (en_repr e) client status body = Inr v \<and> box_of name v = Inr v \<and> ip \<in> set (box_ipv4 v))"

lemma leads_get_box:
  "leads (\<lambda>_. True) (get_box client name) (\<lambda>box s. \<forall>ip \<in> set (box_ipv4 box). \<exists>a \<in> set (rn_log s). shows_address e name ip a)
     (\<lambda>_. True) e"
proof (rule leadsI)
  fix s r s' assume run: "get_box client name e s = (r, s')"
  show "case r of Returned box \<Rightarrow> \<forall>ip \<in> set (box_ipv4 box). \<exists>a \<in> set (rn_log s'). shows_address e name ip a | _ \<Rightarrow> True"
  proof (cases r)
    case (Returned box)
    define q where "q = (\<lambda>(status, reason, body). \<lparr>c_event = SprintboxRequest (ShowBox name),
      c_reply = HttpReply status reason body, c_db = turn e s\<rparr>)"
    have "\<exists>status reason body. q (status, reason, body) \<in> set (rn_log s') \<and>
        sprintbox_answer (en_repr e) client status body = Inr box \<and> box_of name box = Inr box"
      using run Returned
      by (auto simp: q_def get_box_def sprintbox_request_io_def andThen_def send_def lift_def with_env_def throw_def ret_def
          Let_def box_of_def split: if_splits outcome.splits reply.splits sum.splits) blast
    then obtain status reason body where
      last: "\<lparr>c_event = SprintboxRequest (ShowBox name), c_reply = HttpReply status reason body, c_db = turn e s\<rparr> \<in> set (rn_log s')"
      and box: "sprintbox_answer (en_repr e) client status body = Inr box" "box_of name box = Inr box"
      by (auto simp: q_def)
    have "shows_address e name ip \<lparr>c_event = SprintboxRequest (ShowBox name), c_reply = HttpReply status reason body,
        c_db = turn e s\<rparr>" if "ip \<in> set (box_ipv4 box)" for ip
      using box that by (auto simp: shows_address_def)
    with last Returned show ?thesis by auto
  qed simp_all
qed

lemma leads_box_to_delete:
  "leads (only_justified Ok) (box_to_delete oid client in_use kvs name expected)
     (\<lambda>b s. only_justified Ok s \<and> (b \<longrightarrow> Some name \<noteq> in_use \<and> name \<notin> fst ` set (part_of ''cleanup_results'' kvs) \<and>
        (\<exists>ip. expected = JStr ip \<and> (\<exists>a \<in> set (rn_log s). shows_address e name ip a)))) (only_justified Ok) e"
proof -
  let ?Q = "\<lambda>b s. only_justified Ok s \<and> (b \<longrightarrow> Some name \<noteq> in_use \<and> name \<notin> fst ` set (part_of ''cleanup_results'' kvs) \<and>
        (\<exists>ip. expected = JStr ip \<and> (\<exists>a \<in> set (rn_log s). shows_address e name ip a)))"
  have looked: "leads (only_justified Ok) (get_box client name)
      (\<lambda>box s. only_justified Ok s \<and> (\<forall>ip \<in> set (box_ipv4 box). \<exists>a \<in> set (rn_log s). shows_address e name ip a))
      (only_justified Ok) e" for client
  proof (rule leadsI)
    fix s r s' assume s: "only_justified Ok s" and run: "get_box client name e s = (r, s')"
    have "only_justified Ok s'" using keepsD [OF quiet_calls(2) s, of client name e] run by (simp add: after_def)
    with leadsD [OF leads_get_box _ run]
    show "case r of Returned box \<Rightarrow> only_justified Ok s' \<and>
        (\<forall>ip \<in> set (box_ipv4 box). \<exists>a \<in> set (rn_log s'). shows_address e name ip a) | _ \<Rightarrow> only_justified Ok s'"
      by (auto split: outcome.splits)
  qed
  have tail: "leads (only_justified Ok)
      (andThen (get_box client name) (\<lambda>box.
        andThen (onlyIf (expected \<notin> JStr ` set (box_ipv4 box)) (throw x)) (\<lambda>_.
        andThen (onlyIf (name \<in> fst ` set (part_of ''cleanup_results'' kvs)) (throw y)) (\<lambda>_. ret True))))
      ?Q (only_justified Ok) e" if "Some name \<noteq> in_use" for x y
    by (rule leads_andThen [OF looked], rule leadsI)
       (use that in \<open>auto simp: andThen_def onlyIf_def skip_def ret_def throw_def split: if_splits\<close>)
  have other: "keeps (only_justified Ok) (onlyIf b (throw x)) e" for b x by (intro keeps_intros)
  have listed: "leads (only_justified Ok)
      (andThen (ip_step oid ''delete_old_box'' []) (\<lambda>_. andThen (list_boxes client) (\<lambda>boxes.
        if name \<notin> fst ` set boxes then ret False
        else andThen (get_box client name) (\<lambda>box.
          andThen (onlyIf (expected \<notin> JStr ` set (box_ipv4 box)) (throw x)) (\<lambda>_.
          andThen (onlyIf (name \<in> fst ` set (part_of ''cleanup_results'' kvs)) (throw y)) (\<lambda>_. ret True))))))
      ?Q (only_justified Ok) e" if "Some name \<noteq> in_use" for x y
    using tail [OF that]
    by (intro leads_andThen [OF leads_keeps [OF quiet_step]] leads_andThen [OF leads_keeps [OF quiet_calls(1)]])
       (auto intro!: leads_ret)
  show ?thesis
    unfolding box_to_delete_def
  proof (rule leads_andThen [OF leads_keeps [OF quiet_calls(4)]])
    fix target
    show "leads (only_justified Ok)
      (andThen (onlyIf (Some name = in_use) (throw (IpChangeError ''Refusing to delete the active VPN box''))) (\<lambda>_.
       andThen (ip_step oid ''delete_old_box'' []) (\<lambda>_. andThen (list_boxes client) (\<lambda>boxes.
        if name \<notin> fst ` set boxes then ret False
        else andThen (get_box client name) (\<lambda>box.
          andThen (onlyIf (expected \<notin> JStr ` set (box_ipv4 box)) (throw (IpChangeError ''Box IP changed; inspect it manually''))) (\<lambda>_.
          andThen (onlyIf (name \<in> fst ` set (part_of ''cleanup_results'' kvs))
            (throw (IpChangeError ''Deletion was already attempted; inspect it manually''))) (\<lambda>_. ret True)))))))
      ?Q (only_justified Ok) e"
    proof (cases "Some name = in_use")
      case True
      then show ?thesis by (intro leadsI) (auto simp: andThen_def onlyIf_def throw_def)
    next
      case False
      then show ?thesis by (intro leads_andThen [OF leads_keeps [OF other]] listed)
    qed
  qed
qed


lemma attempt_leads:
  assumes "leads P m Q E e"
  shows "leads P (attempt m) (\<lambda>r s. case r of Inl x \<Rightarrow> E s | Inr x \<Rightarrow> Q x s) E e"
proof (rule leadsI)
  fix s r s' assume "P s" and run: "attempt m e s = (r, s')"
  obtain r1 s1 where m: "m e s = (r1, s1)" by fastforce
  from leadsD [OF assms \<open>P s\<close> m] run
  show "case r of Returned x \<Rightarrow> (case x of Inl x \<Rightarrow> E s' | Inr x \<Rightarrow> Q x s') | _ \<Rightarrow> E s'"
    by (auto simp: attempt_def m split: outcome.splits)
qed

definition results_named :: "members \<Rightarrow> string set" where
  "results_named kvs = fst ` set (part_of ''cleanup_results'' kvs)"

lemma part_of_update [simp]: "part_of key (AList.update key (JObj v) kvs) = v"
  by (simp add: part_of_def update_conv')

lemma part_of_update_other [simp]: "key \<noteq> key' \<Longrightarrow> part_of key (AList.update key' v kvs) = part_of key kvs"
  by (simp add: part_of_def update_conv')

lemma results_grow: "results_named kvs \<subseteq> results_named (set_result name r kvs)"
  by (auto simp: results_named_def set_result_def dom_update)

lemma results_drop [simp]: "results_named (drop_retained name kvs) = results_named kvs"
  by (simp add: results_named_def drop_retained_def split: option.split)

definition may_go :: "env \<Rightarrow> string option \<Rightarrow> members \<Rightarrow> members \<Rightarrow> string \<Rightarrow> call list \<Rightarrow> bool" where
  "may_go e in_use retained kvs name l \<longleftrightarrow> Some name \<noteq> in_use \<and> name \<notin> results_named kvs \<and>
     (\<exists>ip. (name, JStr ip) \<in> set retained \<and> (\<exists>a \<in> set l. shows_address e name ip a))"

abbreviation cleaning :: "env \<Rightarrow> string option \<Rightarrow> members \<Rightarrow> members \<Rightarrow> run \<Rightarrow> bool" where
  "cleaning e in_use retained kvs \<equiv> only_justified (may_go e in_use retained kvs)"

lemma leads_delete_box:
  assumes "Ok name = (\<lambda>l. \<exists>a \<in> set l. G a)"
  shows "leads (\<lambda>s. only_justified Ok s \<and> (\<exists>a \<in> set (rn_log s). G a)) (delete_box client name)
    (\<lambda>_. only_justified Ok) (only_justified Ok) e"
proof -
  have call: "leads (\<lambda>s. only_justified Ok s \<and> (\<exists>a \<in> set (rn_log s). G a)) (send (SprintboxRequest (DeleteBox name)))
      (\<lambda>_. only_justified Ok) (only_justified Ok) e"
    by (rule leadsI) (auto simp: send_def on_def justified_snoc assms Let_def split: if_splits outcome.split)
  have "leads (\<lambda>s. only_justified Ok s \<and> (\<exists>a \<in> set (rn_log s). G a)) (sprintbox_request_io client (DeleteBox name))
      (\<lambda>_. only_justified Ok) (only_justified Ok) e"
    unfolding sprintbox_request_io_def
    by (auto intro!: leads_throw leads_andThen [OF call] leads_keeps keeps_intros)
  then show ?thesis
    unfolding delete_box_def by (rule leads_andThen) (intro leads_keeps keeps_intros)
qed

lemma leads_confirm:
  "keeps (only_justified Ok) (confirm_deletion oid client tm name task) e"
  unfolding confirm_deletion_def by (intro keeps_intros quiet_calls)

lemma leads_clean_box:
  assumes "(name, expected) \<in> set retained" and "results_named kvs0 \<subseteq> results_named kvs"
  shows "leads (cleaning e in_use retained kvs0) (clean_box oid client tm in_use kvs name expected)
    (\<lambda>r s. cleaning e in_use retained kvs0 s \<and> results_named kvs0 \<subseteq> results_named (fst r)) (cleaning e in_use retained kvs0) e"
proof -
  let ?Ok = "may_go e in_use retained kvs0"
  let ?I = "only_justified ?Ok"
  let ?Q = "\<lambda>r s. ?I s \<and> results_named kvs0 \<subseteq> results_named (fst r)"
  have grown: "results_named kvs0 \<subseteq> results_named (set_result name v ks)"
    if "results_named kvs0 \<subseteq> results_named ks" for v ks
    using that results_grow by blast
  have confirm: "leads ?I (andThen (save_context oid ks) (\<lambda>_. andThen (attempt (confirm_deletion oid client tm name task)) (\<lambda>r.
      case r of
        Inl x \<Rightarrow> ret (ks, Some x, True)
      | Inr u \<Rightarrow> ret (set_result name [(''state'', JStr ''DELETED''), (''task'', JStr task)] ks, None, True)))) ?Q ?I e"
    if "results_named kvs0 \<subseteq> results_named ks" for ks task
  proof (rule leads_andThen [OF leads_keeps [OF quiet_calls(5)]],
      rule leads_andThen [OF leads_keeps [OF keeps_attempt [OF leads_confirm]]])
    fix r :: "exn + unit"
    show "leads ?I (case r of Inl x \<Rightarrow> ret (ks, Some x, True)
        | Inr u \<Rightarrow> ret (set_result name [(''state'', JStr ''DELETED''), (''task'', JStr task)] ks, None, True)) ?Q ?I e"
      by (cases r; simp; rule leads_ret; simp add: that grown)
  qed
  have saved: "leads (\<lambda>s. ?I s \<and> ?Ok name (rn_log s)) (save_context oid ks) (\<lambda>_ s. ?I s \<and> ?Ok name (rn_log s)) ?I e" for ks
    unfolding save_context_def saving_def
    by (rule leadsI) (auto simp: store_def transact_def on_def split: if_splits outcome.split)
  have delete: "leads (\<lambda>s. ?I s \<and> ?Ok name (rn_log s)) (attempt (delete_box client name))
      (\<lambda>r. ?I) ?I e"
  proof -
    define G where "G a \<longleftrightarrow> Some name \<noteq> in_use \<and> name \<notin> results_named kvs0 \<and>
        (\<exists>ip. (name, JStr ip) \<in> set retained \<and> shows_address e name ip a)" for a
    have Ok: "?Ok name = (\<lambda>l. \<exists>a \<in> set l. G a)" by (auto simp: fun_eq_iff may_go_def G_def)
    show ?thesis
      unfolding Ok
      by (rule leads_weaken [OF attempt_leads [OF leads_delete_box [where Ok = ?Ok and name = name, OF Ok]]])
         (auto split: sum.splits)
  qed
  have request: "leads (\<lambda>s. ?I s \<and> ?Ok name (rn_log s))
      (let kvs1 = set_result name [(''state'', JStr ''SENDING'')] kvs in
       andThen (save_context oid kvs1) (\<lambda>_.
       andThen (attempt (delete_box client name)) (\<lambda>r.
         case r of
           Inl x \<Rightarrow> ret (kvs1, Some x, True)
         | Inr task \<Rightarrow>
             (let kvs2 = set_result name [(''state'', JStr ''SENT''), (''task'', JStr task)] kvs1 in
              andThen (save_context oid kvs2) (\<lambda>_.
              andThen (attempt (confirm_deletion oid client tm name task)) (\<lambda>r.
                case r of
                  Inl x \<Rightarrow> ret (kvs2, Some x, True)
                | Inr u \<Rightarrow>
                    ret (set_result name [(''state'', JStr ''DELETED''), (''task'', JStr task)] kvs2, None, True))))))) ?Q ?I e"
    unfolding Let_def
  proof (rule leads_andThen [OF saved], rule leads_andThen [OF delete])
    fix r :: "exn + string"
    let ?kvs1 = "set_result name [(''state'', JStr ''SENDING'')] kvs"
    note sub = grown [OF assms(2)]
    show "leads ?I (case r of
        Inl x \<Rightarrow> ret (?kvs1, Some x, True)
      | Inr task \<Rightarrow>
          andThen (save_context oid (set_result name [(''state'', JStr ''SENT''), (''task'', JStr task)] ?kvs1)) (\<lambda>_.
          andThen (attempt (confirm_deletion oid client tm name task)) (\<lambda>r.
            case r of
              Inl x \<Rightarrow> ret (set_result name [(''state'', JStr ''SENT''), (''task'', JStr task)] ?kvs1, Some x, True)
            | Inr u \<Rightarrow>
                ret (set_result name [(''state'', JStr ''DELETED''), (''task'', JStr task)]
                  (set_result name [(''state'', JStr ''SENT''), (''task'', JStr task)] ?kvs1), None, True)))) ?Q ?I e"
    proof (cases r)
      case (Inl x)
      then show ?thesis by simp (rule leads_ret, simp add: sub)
    next
      case (Inr task)
      then show ?thesis by simp (rule confirm [OF grown [OF sub]])
    qed
  qed
  show ?thesis
    unfolding clean_box_def
  proof (rule leads_andThen [OF attempt_leads [OF leads_box_to_delete]])
    fix r :: "exn + bool"
    let ?C = "\<lambda>r s. case r of Inl x \<Rightarrow> ?I s | Inr b \<Rightarrow> ?I s \<and> (b \<longrightarrow> Some name \<noteq> in_use \<and>
        name \<notin> fst ` set (part_of ''cleanup_results'' kvs) \<and>
        (\<exists>ip. expected = JStr ip \<and> (\<exists>a \<in> set (rn_log s). shows_address e name ip a)))"
    have ok: "?Ok name (rn_log s)" if "?C (Inr True) s" for s
      using that assms by (auto simp: may_go_def results_named_def)
    show "leads (?C r)
      (case r of
         Inl x \<Rightarrow> ret (kvs, Some x, False)
       | Inr False \<Rightarrow> ret (set_result name [(''state'', JStr ''ABSENT'')] kvs, None, False)
       | Inr True \<Rightarrow>
           (let kvs1 = set_result name [(''state'', JStr ''SENDING'')] kvs in
            andThen (save_context oid kvs1) (\<lambda>_.
            andThen (attempt (delete_box client name)) (\<lambda>r.
              case r of
                Inl x \<Rightarrow> ret (kvs1, Some x, True)
              | Inr task \<Rightarrow>
                  (let kvs2 = set_result name [(''state'', JStr ''SENT''), (''task'', JStr task)] kvs1 in
                   andThen (save_context oid kvs2) (\<lambda>_.
                   andThen (attempt (confirm_deletion oid client tm name task)) (\<lambda>r.
                     case r of
                       Inl x \<Rightarrow> ret (kvs2, Some x, True)
                     | Inr _ \<Rightarrow>
                         ret (set_result name [(''state'', JStr ''DELETED''), (''task'', JStr task)] kvs2, None, True)))))))) ?Q ?I e"
    proof (cases "r = Inr True")
      case True
      show ?thesis unfolding True sum.case bool.case by (rule leads_weaken [OF request]) (use ok in auto)
    next
      case False
      then consider x where "r = Inl x" | "r = Inr False" by (cases r) auto
      then show ?thesis by cases (simp; rule leads_ret; simp add: assms(2) grown)+
    qed
  qed
qed


lemma leads_finish_box:
  assumes "results_named kvs0 \<subseteq> results_named (fst r)"
  shows "leads (only_justified Ok) (finish_box oid client name r)
    (\<lambda>r s. only_justified Ok s \<and> results_named kvs0 \<subseteq> results_named (fst r)) (only_justified Ok) e"
proof -
  have book: "leads (only_justified Ok) (book_box oid name kvs)
      (\<lambda>kvs' s. only_justified Ok s \<and> results_named kvs0 \<subseteq> results_named kvs') (only_justified Ok) e"
    if "results_named kvs0 \<subseteq> results_named kvs" for kvs
    unfolding book_box_def Let_def
    by (rule leads_andThen [OF leads_keeps [OF quiet_calls(5)]], rule leads_ret) (simp add: that)
  have tail: "leads (only_justified Ok) (andThen (book_box oid name kvs) (\<lambda>kvs'. ret (kvs', w, u)))
      (\<lambda>r s. only_justified Ok s \<and> results_named kvs0 \<subseteq> results_named (fst r)) (only_justified Ok) e"
    if "results_named kvs0 \<subseteq> results_named kvs" for kvs and w :: "string option" and u :: bool
    by (rule leads_andThen [OF book [OF that]], rule leads_ret) simp
  obtain kvs failure sent where r: "r = (kvs, failure, sent)" by (cases r) auto
  have sub: "results_named kvs0 \<subseteq> results_named kvs" using assms by (simp add: r)
  then have sub': "results_named kvs0 \<subseteq> results_named (set_result name v kvs)" for v using results_grow by blast
  have cancelled: "leads (only_justified Ok) (andThen (book_box oid name kvs) (\<lambda>_. throw CancelledError))
      (\<lambda>r s. only_justified Ok s \<and> results_named kvs0 \<subseteq> results_named (fst r)) (only_justified Ok) e"
    by (rule leads_andThen [OF book [OF sub]], rule leads_throw) simp
  show ?thesis
  proof (cases failure)
    case None
    then show ?thesis unfolding finish_box_def r by simp (rule tail [OF sub])
  next
    case (Some x)
    have failed: "leads (only_justified Ok)
       (andThen (reading g) (\<lambda>text. andThen (book_box oid name (set_result name (f text) kvs)) (\<lambda>kvs'.
          ret (kvs', Some (name @ '': '' @ text), u))))
       (\<lambda>r s. only_justified Ok s \<and> results_named kvs0 \<subseteq> results_named (fst r)) (only_justified Ok) e"
      for g f and u :: bool
      by (rule leads_andThen [OF leads_keeps [OF quiet_database(4)]], rule tail [OF sub'])
    show ?thesis
      unfolding finish_box_def r Let_def prod.case Some option.case
      by (cases "x = CancelledError") (simp_all only: simp_thms if_True if_False cancelled failed)
  qed
qed

lemma keeps_clean_boxes:
  assumes "set boxes \<subseteq> set retained" and "results_named kvs0 \<subseteq> results_named kvs"
  shows "keeps (cleaning e in_use retained kvs0) (clean_boxes oid client tm in_use boxes kvs) e"
  using assms
proof (induction boxes arbitrary: kvs)
  case Nil
  show ?case by (simp add: keeps_ret)
next
  case (Cons b boxes)
  obtain name expected where b: "b = (name, expected)" by fastforce
  let ?I = "cleaning e in_use retained kvs0"
  have later: "leads (\<lambda>s. ?I s \<and> results_named kvs0 \<subseteq> results_named (fst q))
      (case q of (kvs', warning, uncertain) \<Rightarrow>
        andThen (clean_boxes oid client tm in_use boxes kvs') (\<lambda>(warnings, ambiguous).
          ret ((case warning of None \<Rightarrow> warnings | Some w \<Rightarrow> w # warnings), uncertain \<or> ambiguous)))
      (\<lambda>_. ?I) ?I e" for q
  proof (cases "results_named kvs0 \<subseteq> results_named (fst q)")
    case True
    then have "keeps ?I (clean_boxes oid client tm in_use boxes (fst q)) e" using Cons.prems(1) by (intro Cons.IH) simp_all
    then have "keeps ?I (case q of (kvs', warning, uncertain) \<Rightarrow>
        andThen (clean_boxes oid client tm in_use boxes kvs') (\<lambda>(warnings, ambiguous).
          ret ((case warning of None \<Rightarrow> warnings | Some w \<Rightarrow> w # warnings), uncertain \<or> ambiguous))) e"
      by (cases q) (auto intro!: keeps_intros)
    then show ?thesis by (rule leads_weaken [OF leads_keeps]) simp_all
  qed (simp add: leads_def)
  have fin: "leads (\<lambda>s. ?I s \<and> results_named kvs0 \<subseteq> results_named (fst r)) (finish_box oid client name r)
      (\<lambda>r s. ?I s \<and> results_named kvs0 \<subseteq> results_named (fst r)) ?I e" for r
  proof (cases "results_named kvs0 \<subseteq> results_named (fst r)")
    case True
    show ?thesis by (rule leads_weaken [OF leads_finish_box [OF True]]) simp_all
  qed (simp add: leads_def)
  have "leads ?I (clean_box oid client tm in_use kvs name expected)
      (\<lambda>r s. ?I s \<and> results_named kvs0 \<subseteq> results_named (fst r)) ?I e"
    using Cons.prems by (intro leads_clean_box) (simp_all add: b)
  then show ?case
    unfolding b clean_boxes.simps by (intro keeps_leads leads_andThen [OF _ leads_andThen [OF fin later]])
qed

text \<open>Why a box may be deleted, for a clean-up that starts in \<open>s\<close>.\<close>

definition deletion_allowed :: "env \<Rightarrow> int \<Rightarrow> run \<Rightarrow> string \<Rightarrow> call list \<Rightarrow> bool" where
  "deletion_allowed e oid s name l \<longleftrightarrow>
     (\<exists>u v d target ip. only_others e s u \<and> operation_context (rn_db u) oid = Inr v \<and>
        (name, JStr ip) \<in> set (part_of ''retained_boxes'' (members_of v)) \<and> name \<notin> results_named (members_of v) \<and>
        validate_target (en_sha e) (en_config e) d oid = Inr target \<and> ip_new_ip_id target \<noteq> Some name \<and>
        (\<exists>a \<in> set l. shows_address e name ip a))"

lemma justified_Nil [simp]: "justified Ok []"
  by (simp add: justified_def)

lemma justified_mono: "justified Ok l \<Longrightarrow> (\<And>name l. Ok name l \<Longrightarrow> Ok' name l) \<Longrightarrow> justified Ok' l"
  unfolding justified_def by blast

lemma leads_clean_up:
  assumes "only_others e s u" and "operation_context (rn_db u) oid = Inr v"
  shows "leads (\<lambda>s. rn_log s = []) (catch (clean_up oid client tm (members_of v)) (cleanup_failed oid client))
    (\<lambda>_. only_justified (deletion_allowed e oid s)) (only_justified (deletion_allowed e oid s)) e"
proof (rule leads_catch)
  let ?kvs = "members_of v" and ?J = "only_justified (deletion_allowed e oid s)"
  let ?kvs' = "if map_of ?kvs ''cleanup_results'' = None then ?kvs @ [(''cleanup_results'', JObj [])] else ?kvs"
  have target: "leads (\<lambda>s. rn_log s = []) (target_of oid)
      (\<lambda>t s. rn_log s = [] \<and> (\<exists>d. validate_target (en_sha e) (en_config e) d oid = Inr t)) ?J e"
    unfolding target_of_def
    by (rule leadsI) (auto simp: query_def transact_def bind_result_def on_def split: if_splits sum.splits outcome.splits)
  have same: "part_of ''retained_boxes'' ?kvs' = part_of ''retained_boxes'' ?kvs"
    by (auto simp: part_of_def map_add_def split: option.split)
  have sub: "results_named ?kvs \<subseteq> results_named ?kvs'"
    by (auto simp: results_named_def part_of_def)
  have rest: "leads (\<lambda>s. rn_log s = [] \<and> (\<exists>d. validate_target (en_sha e) (en_config e) d oid = Inr t))
      (andThen (clean_boxes oid client tm (ip_new_ip_id t) (part_of ''retained_boxes'' ?kvs') ?kvs') (\<lambda>(warnings, ambiguous).
       update_ip oid (\<lambda>_. [IpStatus Done, IpStep ''done'', IpError [],
         IpAction (if ambiguous then CleanupAmbiguous else if warnings \<noteq> [] then CleanupRejected else IpDone),
         IpCleanupWarning (if warnings = [] then [] else cleanup_advice @ join ''; '' warnings)])))
      (\<lambda>_. ?J) ?J e" for t
  proof (cases "\<exists>d. validate_target (en_sha e) (en_config e) d oid = Inr t")
    case True
    let ?I = "cleaning e (ip_new_ip_id t) (part_of ''retained_boxes'' ?kvs) ?kvs"
    have "keeps ?I (clean_boxes oid client tm (ip_new_ip_id t) (part_of ''retained_boxes'' ?kvs') ?kvs') e"
      by (rule keeps_clean_boxes) (simp_all only: same sub order_refl)
    then have "leads ?I
      (andThen (clean_boxes oid client tm (ip_new_ip_id t) (part_of ''retained_boxes'' ?kvs') ?kvs') (\<lambda>(warnings, ambiguous).
       update_ip oid (\<lambda>_. [IpStatus Done, IpStep ''done'', IpError [],
         IpAction (if ambiguous then CleanupAmbiguous else if warnings \<noteq> [] then CleanupRejected else IpDone),
         IpCleanupWarning (if warnings = [] then [] else cleanup_advice @ join ''; '' warnings)]))) (\<lambda>_. ?I) ?I e"
      by (intro leads_keeps keeps_intros quiet_database)
    note body = this
    have "?I q \<Longrightarrow> ?J q" for q
      unfolding on_def using True assms
      by (elim justified_mono) (unfold may_go_def deletion_allowed_def, metis)
    then show ?thesis by (intro leads_weaken [OF body]) (simp_all add: on_def)
  qed (simp add: leads_def)
  show "leads (\<lambda>s. rn_log s = []) (clean_up oid client tm ?kvs) (\<lambda>_. ?J) ?J e"
    unfolding clean_up_def Let_def by (rule leads_andThen [OF target rest])
  fix x
  show "leads ?J (cleanup_failed oid client x) (\<lambda>_. ?J) ?J e"
    unfolding cleanup_failed_def by (intro leads_keeps keeps_intros quiet_database)
qed


lemma leads_always:
  assumes "leads P m (\<lambda>_. I) I e" and "P s"
  shows "after m (\<lambda>r. I) e s"
proof -
  from assms have "after m (\<lambda>r s'. case r of Returned x \<Rightarrow> I s' | _ \<Rightarrow> I s') e s" by (simp add: leads_def)
  then show ?thesis by (rule after_mono) (simp split: outcome.splits)
qed

lemma after_claim_cleanup:
  assumes "only_others e s t" and "rn_log s = []"
  shows "after (andThen (transact (\<lambda>e now d. claim_cleanup now oid d)) (\<lambda>claimed.
       case claimed of
         None \<Rightarrow> skip
       | Some kvs \<Rightarrow> catch (clean_up oid client tm kvs) (cleanup_failed oid client)))
     (\<lambda>r s'. justified (deletion_allowed e oid s) (rn_log s')) e t"
proof -
  let ?u = "t\<lparr>rn_db := turn e t, rn_step := Suc (rn_step t)\<rparr>"
  have log: "rn_log t = []" using others_log [OF assms(1)] assms(2) by simp
  have u: "only_others e s ?u" using assms(1) by (rule others_turn)
  show ?thesis
  proof (cases "stops e (rn_step t)")
    case True
    then show ?thesis by (simp add: after_andThen after_transact log)
  next
    case False
    show ?thesis
    proof (cases "claim_cleanup (clock e (rn_step t)) oid (turn e t)")
      case (Inl x)
      then show ?thesis using False by (simp add: after_andThen after_transact log)
    next
      case (Inr y)
      obtain claimed d' where y: "y = (claimed, d')" by fastforce
      show ?thesis
      proof (cases claimed)
        case None
        then show ?thesis using False by (simp add: after_andThen after_transact Inr y after_skip log)
      next
        case (Some kvs)
        with Inr y obtain v where v: "operation_context (rn_db ?u) oid = Inr v" "kvs = members_of v"
          by (auto simp: claim_cleanup_def bind_result_Inr_iff operation_context_def stored_object_def Let_def split: if_splits)
        have "after (catch (clean_up oid client tm kvs) (cleanup_failed oid client))
            (\<lambda>r s'. justified (deletion_allowed e oid s) (rn_log s')) e (t\<lparr>rn_db := d', rn_step := Suc (rn_step t)\<rparr>)"
          unfolding v(2)
          by (rule after_mono [OF leads_always [OF leads_clean_up [OF u v(1)]]]) (simp_all add: on_def log)
        then show ?thesis using False by (simp add: after_andThen after_transact Inr y Some)
      qed
    qed
  qed
qed

section \<open>Properties\<close>

text \<open>C4.  However often an address change is started again, for either provider, and whatever other tasks do
  in between, it asks the provider for a new address or a new box at most once, and then only while its
  row already records that it may have done so.  The others must not take that record back or give out
  an id twice.\<close>

theorem at_most_one_purchase:
  assumes "\<forall>(e, f) \<in> set ls. purchase_rely oid e \<and> respects_purchase oid f"
    and "unique_ids (rn_db s)" and "rn_log s = []"
  shows "length (purchases (rn_log (lives (run_ip_change oid) ls s))) \<le> 1 \<and>
    (\<forall>c \<in> set (purchases (rn_log (lives (run_ip_change oid) ls s))). claimed oid (c_db c))"
proof -
  have "box_once oid (lives (run_ip_change oid) ls s)"
  proof (rule lives_keep)
    fix e f assume "(e, f) \<in> set ls"
    with assms(1) have "purchase_rely oid e" by auto
    then show "keeps (box_once oid) (run_ip_change oid) e" by (rule keeps_run_ip_change)
  next
    fix e f t assume "(e, f) \<in> set ls" "box_once oid t"
    with assms(1) show "box_once oid (t\<lparr>rn_db := f (rn_db t)\<rparr>)"
      by (fastforce simp: box_once_def guard_def on_def respects_purchase_def)
  qed (simp add: box_once_def guard_def on_def assms)
  then show ?thesis
    by (auto simp: box_once_def guard_def on_def recorded_purchase_def purchases_def)
qed

theorem at_most_one_purchase_witness:
  "length (purchases (rn_log (lives (run_ip_change 1) [(silent_env, id), (silent_env, id)]
     (start_run (empty_db\<lparr>ip_ops := [new_ip_change 1 0 0]\<rparr>))))) \<le> 1"
  using at_most_one_purchase [of "[(silent_env, id), (silent_env, id)]" 1 "start_run (empty_db\<lparr>ip_ops := [new_ip_change 1 0 0]\<rparr>)"]
  by (simp add: purchase_rely_def respects_purchase_def silent_env_def start_run_def unique_ids_def)





end
