(* ===== verification/System.thy ===== *)
theory System
  imports PanelSafety Rotation
begin

text \<open>
  The panel as one transition system: every transaction of the program that starts, moves or ends a
  long operation is a step, any other transaction is a step that leaves the operations alone, and the
  steps interleave freely.  The contract it implements is a lease with an owner and a deadline.
\<close>

section \<open>The contract\<close>

text \<open>
  What the tables amount to: nobody works on the server, or one owner does until a deadline.  A
  started operation finds the server free or the deadline passed, its reports extend the deadline, and
  a report or an end from anybody else has no effect.
\<close>

type_synonym lease_view = "(lease_owner \<times> ts) option"

datatype lease_event =
    Started int lease_owner | Renewed int lease_owner | Ended lease_owner | Recovered | Unchanged

inductive lease_step :: "lease_event \<Rightarrow> lease_view \<Rightarrow> lease_view \<Rightarrow> bool" where
  first: "lease_step (Started now ow) None (Some (ow, iso (now + micros default_lease_seconds)))"
| take_over: "micros t \<le> now \<Longrightarrow>
    lease_step (Started now ow) (Some (v, t)) (Some (ow, iso (now + micros default_lease_seconds)))"
| renew: "lease_step (Renewed now ow) (Some (ow, t)) (Some (ow, iso (now + micros default_lease_seconds)))"
| renew_other: "map_option fst w \<noteq> Some ow \<Longrightarrow> lease_step (Renewed now ow) w w"
| leave: "lease_step (Ended ow) (Some (ow, t)) None"
| leave_other: "map_option fst w \<noteq> Some ow \<Longrightarrow> lease_step (Ended ow) w w"
| restart: "lease_step Recovered w None"
| rest: "lease_step Unchanged w w"

inductive_cases lease_step_elims [elim!]:
  "lease_step (Started now ow) w w'" "lease_step (Renewed now ow) w w'"
  "lease_step (Ended ow) w w'" "lease_step Recovered w w'" "lease_step Unchanged w w'"

text \<open>The contract leaves no choice: an event has at most one outcome.\<close>

lemma lease_step_deterministic: "lease_step ev w a \<Longrightarrow> lease_step ev w b \<Longrightarrow> a = b"
  by (cases ev) auto

code_pred lease_step .

inductive lease_run :: "lease_event list \<Rightarrow> lease_view \<Rightarrow> bool" where
  unused: "lease_run [] None"
| move: "lease_run es w \<Longrightarrow> lease_step ev w w' \<Longrightarrow> lease_run (ev # es) w'"

text \<open>When an event last set the deadline.\<close>

fun event_time :: "lease_event \<Rightarrow> int option" where
  "event_time (Started now ow) = Some now"
| "event_time (Renewed now ow) = Some now"
| "event_time _ = None"

definition not_after :: "int \<Rightarrow> lease_event list \<Rightarrow> bool" where
  "not_after now es \<longleftrightarrow> list_all (\<lambda>ev. case event_time ev of None \<Rightarrow> True | Some t \<Rightarrow> t \<le> now) es"

lemma iso_mono: "a \<le> b \<Longrightarrow> iso a \<le> iso b"
  by (simp add: iso_def zdiv_mono1)

text \<open>A deadline is never more than an hour ahead.\<close>

lemma deadline_bound:
  "lease_run es w \<Longrightarrow> not_after now es \<Longrightarrow> w = Some (ow, t) \<Longrightarrow> t \<le> iso (now + micros default_lease_seconds)"
proof (induction arbitrary: ow t rule: lease_run.induct)
  case (move es w ev w')
  from move.hyps(2) show ?case
    by (cases rule: lease_step.cases) (use move in \<open>auto simp: not_after_def intro!: iso_mono\<close>)
qed simp

section \<open>What the tables keep\<close>

definition lease_view :: "db \<Rightarrow> lease_view" where
  "lease_view d = map_option (\<lambda>l. (le_owner l, le_expires_at l)) (lease_of d)"

definition identities :: "db \<Rightarrow> (int list \<times> int) list" where
  "identities d = [(map in_id (install_ops d), install_seq d), (map ip_id (ip_ops d), ip_seq d),
     (map sv_id (server_ops d), server_seq d)]"

definition numbered :: "db \<Rightarrow> bool" where
  "numbered d \<longleftrightarrow> list_all (\<lambda>(ids, n). list_all (\<lambda>i. i \<le> n) ids) (identities d)"

text \<open>The lease is held by exactly the operation that is pending or running.\<close>

definition exact :: "db \<Rightarrow> bool" where
  "exact d \<longleftrightarrow> leases_ok d \<and> numbered d \<and> (\<forall>ow. is_active d ow \<longleftrightarrow> holder d = Some ow)"

lemma exactD:
  assumes "exact d"
  shows "leases_ok d" and "numbered d" and "is_active d ow \<longleftrightarrow> holder d = Some ow"
  using assms by (simp_all add: exact_def)

lemma exactI:
  "leases_ok d \<Longrightarrow> numbered d \<Longrightarrow> (\<And>ow. is_active d ow \<longleftrightarrow> holder d = Some ow) \<Longrightarrow> exact d"
  by (simp add: exact_def)

lemma exact_exclusive: "exact d \<Longrightarrow> exclusive d"
  by (simp add: exact_def exclusive_def)

lemma holder_view: "holder d = map_option fst (lease_view d)"
  by (simp add: holder_def lease_view_def option.map_comp comp_def)

lemma view_cong: "leases d' = leases d \<Longrightarrow> lease_view d' = lease_view d"
  by (simp add: lease_view_def lease_of_def)

lemma numbered_cong: "identities d' = identities d \<Longrightarrow> numbered d' = numbered d"
  by (simp add: numbered_def)

lemma fresh_ids:
  assumes "numbered d"
  shows "\<not> is_active d (LeaseOwner Install (install_seq d + 1))"
    and "\<not> is_active d (LeaseOwner IpChange (ip_seq d + 1))"
    and "\<not> is_active d (LeaseOwner Server (server_seq d + 1))"
  using assms by (auto simp: numbered_def identities_def list_all_iff is_active.simps)

section \<open>Kinds of steps\<close>

definition simulates :: "lease_event \<Rightarrow> db \<Rightarrow> db \<Rightarrow> bool" where
  "simulates ev d d' \<longleftrightarrow> exact d' \<and> lease_step ev (lease_view d) (lease_view d')"

lemma simulates_later:
  assumes "simulates ev d d1" and "leases d' = leases d1" and "\<And>v. is_active d' v = is_active d1 v" and "numbered d'"
  shows "simulates ev d d'"
  using assms lease_cong [OF assms(2)] view_cong [OF assms(2)] by (auto simp: simulates_def exact_def)

lemma simulates_unchanged:
  assumes "exact d" and "leases d' = leases d" and "\<And>v. is_active d' v = is_active d v" and "numbered d'"
  shows "simulates Unchanged d d'"
  using assms lease_cong [OF assms(2)] view_cong [OF assms(2)]
  by (auto simp: simulates_def exact_def intro: lease_step.intros)

lemma default_positive: "max 1 default_lease_seconds = default_lease_seconds"
  by (simp add: default_lease_seconds_def)

lemma granted_view:
  assumes "leases_ok d" and "acquire_vps_lease now ow default_lease_seconds d = Inr d'"
  shows "leases_ok d'" and "holder d' = Some ow"
    and "lease_step (Started now ow) (lease_view d) (lease_view d')"
    and "is_active d' v \<longleftrightarrow> is_active d v \<and> holder d \<noteq> Some v"
proof -
  note g = acquire_result [OF assms]
  show "leases_ok d'" by (rule g(1))
  show "holder d' = Some ow" by (simp add: holder_def g(2))
  have "lease_view d' = Some (ow, iso (now + micros default_lease_seconds))"
    by (simp add: lease_view_def g(2) default_positive)
  with g(3) show "lease_step (Started now ow) (lease_view d) (lease_view d')"
    by (auto simp: expired_at_def lease_view_def intro: lease_step.intros split: option.splits)
  show "is_active d' v \<longleftrightarrow> is_active d v \<and> holder d \<noteq> Some v" by (rule vps.evicts [OF assms])
qed

text \<open>A new row and the lease for it.\<close>

lemma simulates_registered:
  assumes "exact d" and "\<And>v. is_active d2 v \<longleftrightarrow> is_active d v \<or> v = ow" and "\<not> is_active d ow"
    and "leases d2 = leases d" and "acquire_vps_lease now ow default_lease_seconds d2 = Inr d3" and "numbered d3"
  shows "simulates (Started now ow) d d3"
proof -
  have l: "leases_ok d2" "holder d2 = holder d" "lease_view d2 = lease_view d"
    using lease_cong [OF assms(4)] view_cong [OF assms(4)] exactD(1) [OF assms(1)] by simp_all
  note g = granted_view [OF l(1) assms(5)]
  have "is_active d3 v \<longleftrightarrow> v = ow" for v
    using g(4) [of v] assms(2,3) exactD(3) [OF assms(1)] by (auto simp: l(2))
  then show ?thesis using g(1-3) assms(6) by (auto simp: simulates_def exact_def l(3))
qed

text \<open>The lease for an operation that waited for a decision.\<close>

lemma simulates_restarted:
  assumes "exact d" and "acquire_vps_lease now ow default_lease_seconds d = Inr d1" and "leases d' = leases d1"
    and "\<And>v. is_active d' v \<longleftrightarrow> is_active d1 v \<or> v = ow" and "numbered d'"
  shows "simulates (Started now ow) d d'"
proof -
  note g = granted_view [OF exactD(1) [OF assms(1)] assms(2)]
  have "is_active d' v \<longleftrightarrow> v = ow" for v
    using g(4) [of v] assms(4) exactD(3) [OF assms(1)] by auto
  then show ?thesis
    using g(1-3) assms(5) lease_cong [OF assms(3)] view_cong [OF assms(3)] by (auto simp: simulates_def exact_def)
qed

lemma identities_release [simp]: "identities (snd (release_vps_lease ow d)) = identities d"
  by (simp add: identities_def release_vps_lease_def Let_def)

lemma identities_heartbeat [simp]: "identities (snd (heartbeat_vps_lease now ow s d)) = identities d"
  by (simp add: identities_def heartbeat_vps_lease_def Let_def)

lemma numbered_lease [simp]:
  "numbered (snd (release_vps_lease ow d)) = numbered d"
  "numbered (snd (heartbeat_vps_lease now ow s d)) = numbered d"
  by (simp_all add: numbered_def)

lemma simulates_ended:
  assumes "exact d" and "leases d2 = leases d" and "\<And>v. is_active d2 v \<longleftrightarrow> is_active d v \<and> v \<noteq> ow" and "numbered d2"
  shows "simulates (Ended ow) d (snd (release_vps_lease ow d2))"
proof -
  have l: "leases_ok d2" "holder d2 = holder d" "lease_of d2 = lease_of d"
    using lease_cong [OF assms(2)] assms(2) exactD(1) [OF assms(1)] by (simp_all add: lease_of_def)
  have "lease_step (Ended ow) (lease_view d) (lease_view (snd (release_vps_lease ow d2)))"
    by (auto simp: lease_view_def lease_of_release [OF l(1)] l holder_def intro: lease_step.intros)
  moreover have "exact (snd (release_vps_lease ow d2))"
    using assms(3,4) exactD(3) [OF assms(1)] l
    by (intro exactI) (auto simp: holder_release split: if_splits)
  ultimately show ?thesis by (simp add: simulates_def)
qed

lemma lease_of_heartbeat:
  "lease_view (snd (heartbeat_vps_lease now ow default_lease_seconds d)) =
     (if holder d = Some ow then Some (ow, iso (now + micros default_lease_seconds)) else lease_view d)"
proof -
  have "lease_of (snd (heartbeat_vps_lease now ow default_lease_seconds d)) =
      map_option (\<lambda>l. if le_resource l = vpn_vps \<and> le_owner l = ow
        then l\<lparr>le_heartbeat_at := iso now, le_expires_at := iso (now + micros default_lease_seconds)\<rparr> else l)
      (lease_of d)"
    by (simp add: lease_of_def heartbeat_vps_lease_def Let_def default_positive select_first_update_other)
  moreover have "le_resource l = vpn_vps" if "lease_of d = Some l" for l
    using that by (auto simp: lease_of_def dest: select_first_SomeD)
  ultimately show ?thesis
    by (cases "lease_of d") (auto simp: lease_view_def holder_def)
qed

lemma simulates_renewed:
  assumes "exact d" and "leases d2 = leases d" and "\<And>v. is_active d2 v = is_active d v" and "numbered d2"
  shows "simulates (Renewed now ow) d (snd (heartbeat_vps_lease now ow default_lease_seconds d2))"
proof -
  have l: "leases_ok d2" "holder d2 = holder d" "lease_view d2 = lease_view d"
    using lease_cong [OF assms(2)] view_cong [OF assms(2)] exactD(1) [OF assms(1)] by simp_all
  have "lease_step (Renewed now ow) (lease_view d) (lease_view (snd (heartbeat_vps_lease now ow default_lease_seconds d2)))"
    using l holder_view [of d] by (auto simp: lease_of_heartbeat intro: lease_step.intros)
  moreover have "exact (snd (heartbeat_vps_lease now ow default_lease_seconds d2))"
    using assms(3,4) exactD(3) [OF assms(1)] l
    by (auto intro!: exactI simp: holder_heartbeat)
  ultimately show ?thesis by (simp add: simulates_def)
qed

section \<open>The program's steps\<close>

text \<open>A transaction of the rest of the program.\<close>

definition elsewhere :: "db \<Rightarrow> db \<Rightarrow> bool" where
  "elsewhere d d' \<longleftrightarrow> same_operations d d' \<and> install_seq d \<le> install_seq d' \<and>
     ip_seq d \<le> ip_seq d' \<and> server_seq d \<le> server_seq d'"

text \<open>
  \<open>active\<close> status reports come from a task whose operation is still active; an operation that lost
  its lease is not, and \<open>late_progress_report_breaks_exclusion\<close> shows what a report would do then.
\<close>

definition reports :: "db \<Rightarrow> lease_owner \<Rightarrow> op_status option \<Rightarrow> bool" where
  "reports d ow s \<longleftrightarrow> \<not> ends s \<and> (s = None \<or> is_active d ow)"

inductive vps_step :: "lease_event \<Rightarrow> db \<Rightarrow> db \<Rightarrow> bool" where
  install_starts: "prepare_install_operation sha cfg t now host d = Inr (p, d') \<Longrightarrow>
    vps_step (Started now (LeaseOwner Install (pp_operation_id p))) d d'"
| ip_change_starts: "prepare_ip_change_operation sha cfg t now review ssh d = Inr (p, d') \<Longrightarrow>
    vps_step (Started now (LeaseOwner IpChange (pp_operation_id p))) d d'"
| server_starts: "insert_server_operation kind step now d = Inr (oid, d') \<Longrightarrow>
    vps_step (Started now (LeaseOwner Server oid)) d d'"
| cleanup_starts: "prepare_cleanup sha cfg now t oid d = Inr d' \<Longrightarrow>
    vps_step (Started now (LeaseOwner IpChange oid)) d d'"
| ssh_wait_starts: "prepare_ssh_wait sha cfg now t oid d = Inr d' \<Longrightarrow>
    vps_step (Started now (LeaseOwner IpChange oid)) d d'"
| install_reports: "fs \<noteq> [] \<Longrightarrow> reports d (LeaseOwner Install oid) (install_new_status fs) \<Longrightarrow>
    vps_step (Renewed now (LeaseOwner Install oid)) d (update_install_operation now oid fs d)"
| ip_change_reports: "fs \<noteq> [] \<Longrightarrow> reports d (LeaseOwner IpChange oid) (ip_new_status fs) \<Longrightarrow>
    vps_step (Renewed now (LeaseOwner IpChange oid)) d (update_operation now oid fs d)"
| server_reports: "fs \<noteq> [] \<Longrightarrow> reports d (LeaseOwner Server oid) (server_new_status fs) \<Longrightarrow>
    vps_step (Renewed now (LeaseOwner Server oid)) d (update_server_operation cfg now oid fs d)"
| install_beats: "heartbeat_install_operation now oid d = (True, d') \<Longrightarrow>
    vps_step (Renewed now (LeaseOwner Install oid)) d d'"
| reboot_claimed: "mark_reboot_sending now oid d = (True, d') \<Longrightarrow>
    vps_step (Renewed now (LeaseOwner Server oid)) d d'"
| install_completes: "complete_install_operation now oid output d = Inr d' \<Longrightarrow>
    vps_step (Ended (LeaseOwner Install oid)) d d'"
| install_fails: "vps_step (Ended (LeaseOwner Install oid)) d (fail_install_operation now oid message d)"
| install_ambiguous:
    "vps_step (Ended (LeaseOwner Install oid)) d (mark_install_operation_ambiguous now oid message d)"
| install_ends: "ends (install_new_status fs) \<Longrightarrow>
    vps_step (Ended (LeaseOwner Install oid)) d (update_install_operation now oid fs d)"
| ip_change_ends: "ends (ip_new_status fs) \<Longrightarrow>
    vps_step (Ended (LeaseOwner IpChange oid)) d (update_operation now oid fs d)"
| server_ends: "ends (server_new_status fs) \<Longrightarrow>
    vps_step (Ended (LeaseOwner Server oid)) d (update_server_operation cfg now oid fs d)"
| address_published: "publish_ip_change sha now oid ip health box key d = Inr (n, d') \<Longrightarrow>
    is_active d (LeaseOwner IpChange oid) \<Longrightarrow> vps_step Unchanged d d'"
| decision_cancelled: "cancel_ssh_wait cfg now oid d = Inr d' \<Longrightarrow> vps_step Unchanged d d'"
| operation_reconciled: "reconcile_ip_operation now oid note d = Inr d' \<Longrightarrow> vps_step Unchanged d d'"
| tables_reset: "reset_server_and_aeza_state now d = Inr d' \<Longrightarrow> vps_step Unchanged d d'"
| box_claimed: "claim_creation oid d = (b, d') \<Longrightarrow> vps_step Unchanged d d'"
| cleanup_claimed: "claim_cleanup now oid d = Inr (x, d') \<Longrightarrow> vps_step Unchanged d d'"
| wait_resumed: "resume_claim sha cfg now oid d = Inr (Some x, d') \<Longrightarrow> vps_step Unchanged d d'"
| wait_given_up: "resume_claim sha cfg now oid d = Inr (None, d') \<Longrightarrow> d' \<noteq> d \<Longrightarrow>
    vps_step (Ended (LeaseOwner IpChange oid)) d d'"
| process_restarted: "vps_step Recovered d (recover_incomplete_vps_operations now reason d)"
| rest_moves: "elsewhere d d' \<Longrightarrow> vps_step Unchanged d d'"

text \<open>Every state the program can reach from a database in which no operation was ever started.\<close>

definition never_used :: "db \<Rightarrow> bool" where
  "never_used d \<longleftrightarrow> install_ops d = [] \<and> ip_ops d = [] \<and> server_ops d = [] \<and> leases d = []"

inductive vps_run :: "lease_event list \<Rightarrow> db \<Rightarrow> bool" where
  begun: "never_used d \<Longrightarrow> vps_run [] d"
| went_on: "vps_run es d \<Longrightarrow> vps_step ev d d' \<Longrightarrow> vps_run (ev # es) d'"

section \<open>Row identities\<close>

lemma identities_cong:
  "map in_id (install_ops d') = map in_id (install_ops d) \<Longrightarrow> map ip_id (ip_ops d') = map ip_id (ip_ops d) \<Longrightarrow>
   map sv_id (server_ops d') = map sv_id (server_ops d) \<Longrightarrow> install_seq d' = install_seq d \<Longrightarrow>
   ip_seq d' = ip_seq d \<Longrightarrow> server_seq d' = server_seq d \<Longrightarrow> identities d' = identities d"
  by (simp add: identities_def)

lemma identities_fail_owner [simp]: "identities (fail_owner ow m t d) = identities d"
  by (simp add: identities_def frame_simps)

lemma identities_leases [simp]: "identities (d\<lparr>leases := ls\<rparr>) = identities d"
  by (simp add: identities_def)

lemma identities_evicted [simp]: "identities (evicted now d) = identities d"
  by (simp add: evicted_def split: option.split)

lemma identities_acquire:
  assumes "leases_ok d" and "acquire_vps_lease now ow s d = Inr d'"
  shows "identities d' = identities d"
  unfolding acquire_result(4) [OF assms] by simp

lemma identities_ip_row [simp]: "(\<And>r. ip_id (f r) = ip_id r) \<Longrightarrow> identities (set_ip_row oid f d) = identities d"
  by (simp add: identities_def set_ip_row_def)

lemma identities_install_row [simp]:
  "(\<And>r. in_id (f r) = in_id r) \<Longrightarrow> identities (set_install_row oid f d) = identities d"
  by (simp add: identities_def set_install_row_def)

lemma identities_retry [simp]: "identities (retry_requested i t d) = identities d"
  by (simp add: retry_requested_def split: option.split)

lemma identities_snapshot:
  "ensure_snapshot c payload digest t b d = Inr d' \<Longrightarrow> identities d' = identities d"
  by (erule ensure_snapshot_cases; simp add: identities_def)

lemma identities_setting: "insert_setting k v d = Inr d' \<Longrightarrow> identities d' = identities d"
  by (auto simp: insert_setting_def identities_def put_setting_def split: if_splits)

lemma identities_provider: "bind_provider sha cfg oid d = Inr d' \<Longrightarrow> identities d' = identities d"
  by (erule bind_provider_Inr; simp add: identities_def put_setting_def)

lemma identities_boxes: "keep_boxes oid ssh d = Inr d' \<Longrightarrow> identities d' = identities d"
  using identities_setting by (auto simp: keep_boxes_def bind_result_Inr_iff Let_def split: option.splits)

lemma numbered_new:
  assumes "numbered d"
  shows "identities d2 = identities d \<Longrightarrow> in_id r = install_seq d + 1 \<Longrightarrow>
      numbered (d2\<lparr>install_ops := install_ops d @ [r], install_seq := install_seq d + 1\<rparr>)"
    and "identities d2 = identities d \<Longrightarrow> ip_id q = ip_seq d + 1 \<Longrightarrow>
      numbered (d2\<lparr>ip_ops := ip_ops d @ [q], ip_seq := ip_seq d + 1\<rparr>)"
    and "identities d2 = identities d \<Longrightarrow> sv_id v = server_seq d + 1 \<Longrightarrow>
      numbered (d2\<lparr>server_ops := server_ops d @ [v], server_seq := server_seq d + 1\<rparr>)"
  using assms by (auto simp: numbered_def identities_def list_all_iff)

section \<open>Every step is one of the contract\<close>

lemma install_start:
  assumes "exact d" and "prepare_install_operation sha cfg t now host d = Inr (p, d')"
  shows "simulates (Started now (LeaseOwner Install (pp_operation_id p))) d d'"
proof -
  obtain c d1 where e: "ensure_snapshot c (canonical_vpn_config_json c) (sha (canonical_vpn_config_json c)) (iso t) True d = Inr d1"
    and a: "acquire_vps_lease now (LeaseOwner Install (install_seq d + 1)) default_lease_seconds
      (d1\<lparr>install_ops := install_ops d @ [new_install (install_seq d + 1) host (cc_revision c) (iso t)],
          install_seq := install_seq d + 1\<rparr>) = Inr d'" (is "acquire_vps_lease _ ?ow _ ?d2 = _")
    and p: "pp_operation_id p = install_seq d + 1"
    using assms(2) by (rule prepare_install_result) simp
  note f = ensure_snapshot_frame [OF e]
  have act: "is_active ?d2 v \<longleftrightarrow> is_active d v \<or> v = ?ow" for v
    using is_active_new_install [where d = d1 and n = "install_seq d + 1" and ow = v] is_active_cong [of d1 d v] f
    by (simp add: new_install_def)
  have le: "leases ?d2 = leases d" using f by simp
  have "numbered ?d2"
    by (rule numbered_new(1) [OF exactD(2) [OF assms(1)] identities_snapshot [OF e]]) (simp add: new_install_def)
  moreover have "leases_ok ?d2" using lease_cong [OF le] exactD(1) [OF assms(1)] by simp
  ultimately have "numbered d'" using numbered_cong [OF identities_acquire [OF _ a]] by simp
  then show ?thesis
    unfolding p by (intro simulates_registered [OF assms(1) act _ le a] fresh_ids(1) exactD(2) [OF assms(1)])
qed

lemma ip_change_start:
  assumes "exact d" and "prepare_ip_change_operation sha cfg t now review ssh d = Inr (p, d')"
  shows "simulates (Started now (LeaseOwner IpChange (pp_operation_id p))) d d'"
proof -
  obtain c d1 d3 d4 d5 where e: "ensure_snapshot c (canonical_vpn_config_json c) (sha (canonical_vpn_config_json c)) (iso t) False d = Inr d1"
    and a: "acquire_vps_lease now (LeaseOwner IpChange (ip_seq d + 1)) default_lease_seconds
      (d1\<lparr>ip_ops := ip_ops d @ [new_ip_change (ip_seq d + 1) (cc_revision c) (iso t)],
          ip_seq := ip_seq d + 1\<rparr>) = Inr d3" (is "acquire_vps_lease _ ?ow _ ?d2 = _")
    and b: "bind_provider sha cfg (ip_seq d + 1) d3 = Inr d4" and k: "keep_boxes (ip_seq d + 1) ssh d4 = Inr d5"
    and d': "d' = retry_requested review (iso t) (retry_requested ssh (iso t) d5)"
    and p: "pp_operation_id p = ip_seq d + 1"
    using assms(2) by (rule prepare_ip_change_result) simp
  note f = ensure_snapshot_frame [OF e]
  have act: "is_active ?d2 v \<longleftrightarrow> is_active d v \<or> v = ?ow" for v
    using is_active_new_ip_change [where d = d1 and n = "ip_seq d + 1" and ow = v] is_active_cong [of d1 d v] f
    by (simp add: new_ip_change_def)
  have le: "leases ?d2 = leases d" using f by simp
  have "numbered ?d2"
    by (rule numbered_new(2) [OF exactD(2) [OF assms(1)] identities_snapshot [OF e]]) (simp add: new_ip_change_def)
  moreover have "leases_ok ?d2" using lease_cong [OF le] exactD(1) [OF assms(1)] by simp
  ultimately have n: "numbered d3" using numbered_cong [OF identities_acquire [OF _ a]] by simp
  then have s: "simulates (Started now ?ow) d d3"
    by (intro simulates_registered [OF assms(1) act _ le a] fresh_ids(2) exactD(2) [OF assms(1)])
  have "identities d' = identities d3"
    using identities_provider [OF b] identities_boxes [OF k] by (simp add: d')
  then show ?thesis
    unfolding p using s n is_active_cong [of d5 d3] keep_boxes_frame [OF k] bind_provider_frame [OF b]
    by (intro simulates_later [OF s]) (simp_all add: d' frame_simps numbered_def)
qed

lemma server_start:
  assumes "exact d" and "insert_server_operation kind step now d = Inr (oid, d')"
  shows "simulates (Started now (LeaseOwner Server oid)) d d'"
proof -
  have oid: "oid = server_seq d + 1"
    and a: "acquire_vps_lease now (LeaseOwner Server oid) default_lease_seconds
      (d\<lparr>server_ops := server_ops d @ [new_server_row oid kind step (iso now)], server_seq := oid\<rparr>) = Inr d'"
      (is "acquire_vps_lease _ _ _ ?d2 = _")
    using assms(2) by (auto simp: insert_server_operation_def Let_def bind_result_Inr_iff)
  have act: "is_active ?d2 v \<longleftrightarrow> is_active d v \<or> v = LeaseOwner Server oid" for v
    by (simp add: is_active_new_server new_server_row_def)
  have "numbered ?d2"
    unfolding oid by (rule numbered_new(3) [OF exactD(2) [OF assms(1)] refl]) (simp add: new_server_row_def)
  moreover have "leases_ok ?d2" using exactD(1) [OF assms(1)] by (simp add: leases_ok_def)
  ultimately have "numbered d'" using numbered_cong [OF identities_acquire [OF _ a]] by simp
  then show ?thesis
    by (intro simulates_registered [OF assms(1) act _ _ a]) (simp_all add: oid fresh_ids(3) exactD(2) [OF assms(1)])
qed

lemma restarted:
  assumes "exact d" and "acquire_vps_lease now (LeaseOwner IpChange oid) default_lease_seconds d = Inr d1"
    and "\<And>r. ip_id (f r) = ip_id r" and "\<And>r. ip_status (f r) = Pending" and "find_ip_row oid d \<noteq> None"
  shows "simulates (Started now (LeaseOwner IpChange oid)) d (set_ip_row oid f d1)"
proof -
  have i: "identities d1 = identities d" by (rule identities_acquire [OF exactD(1) [OF assms(1)] assms(2)])
  then have same: "map ip_id (ip_ops d1) = map ip_id (ip_ops d)" by (simp add: identities_def)
  have "oid \<in> set (map ip_id (ip_ops d))"
    using assms(5) by (auto simp: find_ip_row_def select_first_None_iff)
  then have "oid \<in> ip_id ` set (ip_ops d1)" unfolding same [symmetric] by simp
  moreover have "numbered (set_ip_row oid f d1)"
    using exactD(2) [OF assms(1)] i assms(3) by (simp add: numbered_def)
  ultimately show ?thesis
    using set_ip_row_active [of f Pending oid d1] assms(3,4)
    by (intro simulates_restarted [OF assms(1,2)]) (auto simp: frame_simps)
qed

section \<open>Reports and ends\<close>

lemma rows_active:
  "(\<And>r. in_id (f r) = in_id r) \<Longrightarrow> is_active (d\<lparr>install_ops := update_where (\<lambda>r. in_id r = oid) f (install_ops d)\<rparr>) v \<longleftrightarrow>
     (if v = LeaseOwner Install oid then \<exists>r \<in> set (install_ops d). in_id r = oid \<and> active (in_status (f r))
      else is_active d v)"
  "(\<And>r. ip_id (g r) = ip_id r) \<Longrightarrow> is_active (d\<lparr>ip_ops := update_where (\<lambda>r. ip_id r = oid) g (ip_ops d)\<rparr>) v \<longleftrightarrow>
     (if v = LeaseOwner IpChange oid then \<exists>r \<in> set (ip_ops d). ip_id r = oid \<and> active (ip_status (g r))
      else is_active d v)"
  "(\<And>r. sv_id (h r) = sv_id r) \<Longrightarrow> is_active (d\<lparr>server_ops := update_where (\<lambda>r. sv_id r = oid) h (server_ops d)\<rparr>) v \<longleftrightarrow>
     (if v = LeaseOwner Server oid then \<exists>r \<in> set (server_ops d). sv_id r = oid \<and> active (sv_status (h r))
      else is_active d v)"
  by (cases "(d, v)" rule: is_active.cases; auto simp: is_active.simps bex_update_where_key)+

definition moved_to :: "op_status option \<Rightarrow> op_status \<Rightarrow> op_status" where
  "moved_to s old = (case s of None \<Rightarrow> old | Some new \<Rightarrow> new)"

lemma moved_to_ends: "ends s \<Longrightarrow> \<not> active (moved_to s old)"
  by (cases s) (simp_all add: ends_def moved_to_def active_iff_not_terminal)

lemma moved_to_reports: "\<not> ends s \<Longrightarrow> active (moved_to s old) \<longleftrightarrow> s \<noteq> None \<or> active old"
  by (cases s) (simp_all add: ends_def moved_to_def active_iff_not_terminal)

lemma install_field_id [simp]: "in_id (fold set_install_field fs r) = in_id r"
proof (induction fs arbitrary: r)
  case (Cons f fs)
  then show ?case by (cases f) simp_all
qed simp

lemma install_field_status:
  "in_status (fold set_install_field fs r) = moved_to (install_new_status fs) (in_status r)"
proof (induction fs arbitrary: r)
  case (Cons f fs)
  then show ?case by (cases f) (simp_all add: moved_to_def split: option.split)
qed (simp add: moved_to_def)

text \<open>The rows and columns a report writes, before the lease is extended or given back.\<close>

definition install_written :: "int \<Rightarrow> int \<Rightarrow> install_field list \<Rightarrow> db \<Rightarrow> db" where
  "install_written now oid fs d = d\<lparr>install_ops := update_where (\<lambda>r. in_id r = oid)
     (\<lambda>r. (fold set_install_field fs r)\<lparr>in_updated_at := iso now\<rparr>) (install_ops d)\<rparr>"

definition ip_change_written :: "int \<Rightarrow> int \<Rightarrow> ip_field list \<Rightarrow> db \<Rightarrow> db" where
  "ip_change_written now oid fs d = d\<lparr>ip_ops := update_where (\<lambda>r. ip_id r = oid)
     (\<lambda>r. (set_ip_fields fs r)\<lparr>ip_updated_at := iso now\<rparr>) (ip_ops d)\<rparr>"

definition server_written :: "config \<Rightarrow> int \<Rightarrow> int \<Rightarrow> server_field list \<Rightarrow> db \<Rightarrow> db" where
  "server_written cfg now oid fs d = d\<lparr>server_ops := update_where (\<lambda>r. sv_id r = oid)
     (\<lambda>r. (fold (set_server_field cfg d) fs r)\<lparr>sv_updated_at := iso now\<rparr>) (server_ops d)\<rparr>"

lemmas written_defs = install_written_def ip_change_written_def server_written_def

lemma written_frame [simp]:
  "leases (install_written now oid fs d) = leases d" "identities (install_written now oid fs d) = identities d"
  "leases (ip_change_written now oid gs d) = leases d" "identities (ip_change_written now oid gs d) = identities d"
  "leases (server_written cfg now oid hs d) = leases d" "identities (server_written cfg now oid hs d) = identities d"
  by (simp_all add: written_defs identities_def)

lemma written_active:
  "is_active (install_written now oid fs d) v \<longleftrightarrow> (if v = LeaseOwner Install oid then
     \<exists>r \<in> set (install_ops d). in_id r = oid \<and> active (moved_to (install_new_status fs) (in_status r)) else is_active d v)"
  "is_active (ip_change_written now oid gs d) v \<longleftrightarrow> (if v = LeaseOwner IpChange oid then
     \<exists>r \<in> set (ip_ops d). ip_id r = oid \<and> active (moved_to (ip_new_status gs) (ip_status r)) else is_active d v)"
  "is_active (server_written cfg now oid hs d) v \<longleftrightarrow> (if v = LeaseOwner Server oid then
     \<exists>r \<in> set (server_ops d). sv_id r = oid \<and> active (moved_to (server_new_status hs) (sv_status r)) else is_active d v)"
  unfolding written_defs
  by (simp_all add: rows_active install_field_status set_ip_fields_status set_server_fields_status moved_to_def)

lemma written_ends:
  "ends (install_new_status fs) \<Longrightarrow>
     is_active (install_written now oid fs d) v \<longleftrightarrow> is_active d v \<and> v \<noteq> LeaseOwner Install oid"
  "ends (ip_new_status gs) \<Longrightarrow>
     is_active (ip_change_written now oid gs d) v \<longleftrightarrow> is_active d v \<and> v \<noteq> LeaseOwner IpChange oid"
  "ends (server_new_status hs) \<Longrightarrow>
     is_active (server_written cfg now oid hs d) v \<longleftrightarrow> is_active d v \<and> v \<noteq> LeaseOwner Server oid"
  by (simp_all add: written_active moved_to_ends)

lemma written_reports:
  "reports d (LeaseOwner Install oid) (install_new_status fs) \<Longrightarrow> is_active (install_written now oid fs d) v = is_active d v"
  "reports d (LeaseOwner IpChange oid) (ip_new_status gs) \<Longrightarrow> is_active (ip_change_written now oid gs d) v = is_active d v"
  "reports d (LeaseOwner Server oid) (server_new_status hs) \<Longrightarrow> is_active (server_written cfg now oid hs d) v = is_active d v"
  by (auto simp: written_active moved_to_reports is_active.simps reports_def)

lemma update_is_written:
  "fs \<noteq> [] \<Longrightarrow> update_install_operation now oid fs d = (if ends (install_new_status fs)
     then snd (release_vps_lease (LeaseOwner Install oid) (install_written now oid fs d))
     else snd (heartbeat_vps_lease now (LeaseOwner Install oid) default_lease_seconds (install_written now oid fs d)))"
  "gs \<noteq> [] \<Longrightarrow> update_operation now oid gs d = (if ends (ip_new_status gs)
     then snd (release_vps_lease (LeaseOwner IpChange oid) (ip_change_written now oid gs d))
     else snd (heartbeat_vps_lease now (LeaseOwner IpChange oid) default_lease_seconds (ip_change_written now oid gs d)))"
  "hs \<noteq> [] \<Longrightarrow> update_server_operation cfg now oid hs d = (if ends (server_new_status hs)
     then snd (release_vps_lease (LeaseOwner Server oid) (server_written cfg now oid hs d))
     else snd (heartbeat_vps_lease now (LeaseOwner Server oid) default_lease_seconds (server_written cfg now oid hs d)))"
  by (simp_all add: update_install_operation_def update_operation_def update_server_operation_def written_defs Let_def)

lemma ends_not_empty:
  "ends (install_new_status fs) \<Longrightarrow> fs \<noteq> []" "ends (ip_new_status gs) \<Longrightarrow> gs \<noteq> []"
  "ends (server_new_status hs) \<Longrightarrow> hs \<noteq> []"
  by (auto simp: ends_def)

lemma numbered_written:
  assumes "exact d"
  shows "numbered (install_written now oid fs d)" and "numbered (ip_change_written now oid gs d)"
    and "numbered (server_written cfg now oid hs d)"
  using exactD(2) [OF assms] by (simp_all add: numbered_def)

lemma report_ends:
  assumes "exact d"
  shows "ends (install_new_status fs) \<Longrightarrow>
      simulates (Ended (LeaseOwner Install oid)) d (update_install_operation now oid fs d)"
    and "ends (ip_new_status gs) \<Longrightarrow>
      simulates (Ended (LeaseOwner IpChange oid)) d (update_operation now oid gs d)"
    and "ends (server_new_status hs) \<Longrightarrow>
      simulates (Ended (LeaseOwner Server oid)) d (update_server_operation cfg now oid hs d)"
  by (simp_all add: update_is_written ends_not_empty simulates_ended [OF assms] written_ends numbered_written [OF assms])

lemma report_renews:
  assumes "exact d"
  shows "fs \<noteq> [] \<Longrightarrow> reports d (LeaseOwner Install oid) (install_new_status fs) \<Longrightarrow>
      simulates (Renewed now (LeaseOwner Install oid)) d (update_install_operation now oid fs d)"
    and "gs \<noteq> [] \<Longrightarrow> reports d (LeaseOwner IpChange oid) (ip_new_status gs) \<Longrightarrow>
      simulates (Renewed now (LeaseOwner IpChange oid)) d (update_operation now oid gs d)"
    and "hs \<noteq> [] \<Longrightarrow> reports d (LeaseOwner Server oid) (server_new_status hs) \<Longrightarrow>
      simulates (Renewed now (LeaseOwner Server oid)) d (update_server_operation cfg now oid hs d)"
  by (simp_all add: update_is_written simulates_renewed [OF assms] written_reports numbered_written [OF assms]
      reports_def [THEN iffD1, THEN conjunct1])

section \<open>The other steps\<close>

lemma rows_kept:
  assumes "\<And>r. p r \<Longrightarrow> active (ip_status (f r)) = active (ip_status r)" and "\<And>r. ip_id (f r) = ip_id r"
  shows "is_active (d\<lparr>ip_ops := update_where p f (ip_ops d)\<rparr>) v = is_active d v"
    and "identities (d\<lparr>ip_ops := update_where p f (ip_ops d)\<rparr>) = identities d"
proof -
  have "(\<exists>r \<in> set (update_where p f rows). ip_id r = i \<and> active (ip_status r)) \<longleftrightarrow>
      (\<exists>r \<in> set rows. ip_id r = i \<and> active (ip_status r))" for rows i
    by (induction rows) (auto simp: assms)
  then show "is_active (d\<lparr>ip_ops := update_where p f (ip_ops d)\<rparr>) v = is_active d v"
    by (cases "(d, v)" rule: is_active.cases) (simp_all add: is_active.simps)
  show "identities (d\<lparr>ip_ops := update_where p f (ip_ops d)\<rparr>) = identities d"
    by (simp add: identities_def assms(2))
qed

lemma unchanged_rows:
  assumes "exact d" and "\<And>r. p r \<Longrightarrow> active (ip_status (f r)) = active (ip_status r)" and "\<And>r. ip_id (f r) = ip_id r"
  shows "simulates Unchanged d (d\<lparr>ip_ops := update_where p f (ip_ops d)\<rparr>)"
proof (rule simulates_unchanged [OF assms(1)])
  show "is_active (d\<lparr>ip_ops := update_where p f (ip_ops d)\<rparr>) v = is_active d v" for v
    by (rule rows_kept(1) [OF assms(2,3)])
  show "numbered (d\<lparr>ip_ops := update_where p f (ip_ops d)\<rparr>)"
    using numbered_cong [OF rows_kept(2) [OF assms(2,3)]] exactD(2) [OF assms(1)] by simp
qed simp

lemma install_beat:
  assumes "exact d" and "heartbeat_install_operation now oid d = (True, d')"
  shows "simulates (Renewed now (LeaseOwner Install oid)) d d'"
proof -
  have "d' = snd (heartbeat_vps_lease now (LeaseOwner Install oid) default_lease_seconds d)"
    using assms(2) by (auto simp: heartbeat_install_operation_def split: option.splits if_splits)
  then show ?thesis using simulates_renewed [OF assms(1) refl refl exactD(2) [OF assms(1)]] by simp
qed

lemma reboot_claim:
  assumes "exact d" and "mark_reboot_sending now oid d = (True, d')"
  shows "simulates (Renewed now (LeaseOwner Server oid)) d d'"
proof -
  define f where "f = (\<lambda>r :: server_row. r\<lparr>sv_status := Running, sv_current_step := ''send_reboot'', sv_action_state := SrvSending,
      sv_started_at := (case sv_started_at r of None \<Rightarrow> Some (iso now) | Some t \<Rightarrow> Some t), sv_updated_at := iso now\<rparr>)"
  define d1 where "d1 = d\<lparr>server_ops := update_where (may_send_reboot oid) f (server_ops d)\<rparr>"
  have f: "sv_id (f r) = sv_id r" "sv_status (f r) = Running" for r by (simp_all add: f_def)
  have "(\<exists>r \<in> set (update_where (may_send_reboot oid) f rows). sv_id r = i \<and> active (sv_status r)) \<longleftrightarrow>
      (\<exists>r \<in> set rows. sv_id r = i \<and> active (sv_status r))" for rows i
    by (induction rows) (auto simp: f may_send_reboot_def)
  then have "is_active d1 v = is_active d v" for v
    by (cases "(d, v)" rule: is_active.cases) (simp_all add: is_active.simps d1_def)
  moreover have "numbered d1"
    using exactD(2) [OF assms(1)] by (simp add: numbered_def identities_def d1_def f)
  moreover have "d' = snd (heartbeat_vps_lease now (LeaseOwner Server oid) default_lease_seconds d1)"
    using assms(2) by (auto simp: mark_reboot_sending_def Let_def d1_def f_def split: if_splits)
  ultimately show ?thesis using simulates_renewed [OF assms(1), of d1] by (simp add: d1_def)
qed

lemma installs_end:
  assumes "exact d"
  shows "complete_install_operation now oid output d = Inr d' \<Longrightarrow> simulates (Ended (LeaseOwner Install oid)) d d'"
    and "simulates (Ended (LeaseOwner Install oid)) d (fail_install_operation now oid message d)"
    and "simulates (Ended (LeaseOwner Install oid)) d (mark_install_operation_ambiguous now oid message d)"
proof -
  have row: "simulates (Ended (LeaseOwner Install oid)) d (snd (release_vps_lease (LeaseOwner Install oid) (set_install_row oid f d2)))"
    if f: "\<And>r. in_id (f r) = in_id r" "\<And>r. in_status (f r) = st" "\<not> active st"
      and same: "same_operations d d2" "identities d2 = identities d" for f st d2
  proof (rule simulates_ended [OF assms])
    have s: "is_active d2 v = is_active d v" for v
      using same(1) by (intro is_active_cong) (simp_all add: same_operations_def)
    show "leases (set_install_row oid f d2) = leases d" using same(1) by (simp add: same_operations_def frame_simps)
    show "is_active (set_install_row oid f d2) v \<longleftrightarrow> is_active d v \<and> v \<noteq> LeaseOwner Install oid" for v
      using set_install_row_active [of f st oid d2 v] f s by simp
    show "numbered (set_install_row oid f d2)"
      using exactD(2) [OF assms] f(1) same(2) by (simp add: numbered_def)
  qed
  show "simulates (Ended (LeaseOwner Install oid)) d d'" if "complete_install_operation now oid output d = Inr d'"
  proof (rule complete_install_cases [OF that], goal_cases)
    case (1 revn d3)
    show ?case
      unfolding 1(4)
      by (rule row [of _ Done]) (simp_all add: 1(3) active_iff_not_terminal same_operations_def identities_def frame_simps purge_applied_deleted_clients_def
          split: option.split)
  qed
  have b: "same_operations d (fail_bound_snapshot oid (iso now) message d)"
    "identities (fail_bound_snapshot oid (iso now) message d) = identities d"
    by (simp_all add: same_operations_def identities_def frame_simps fail_bound_snapshot_def split: option.split)
  show "simulates (Ended (LeaseOwner Install oid)) d (fail_install_operation now oid message d)"
    unfolding fail_install_operation_def Let_def by (rule row [of _ Failed]) (simp_all add: b active_iff_not_terminal)
  let ?p = "\<lambda>r :: install_row. in_id r = oid \<and> active (in_status r)"
  let ?f = "\<lambda>r :: install_row. r\<lparr>in_status := Ambiguous, in_current_step := ''ambiguous'', in_error_message := Some message, in_updated_at := iso now\<rparr>"
  let ?d1 = "fail_bound_snapshot oid (iso now) message d"
  have "(\<exists>r \<in> set (update_where ?p ?f rows). in_id r = i \<and> active (in_status r)) \<longleftrightarrow>
      i \<noteq> oid \<and> (\<exists>r \<in> set rows. in_id r = i \<and> active (in_status r))" for rows i
    by (induction rows) auto
  then have "is_active (?d1\<lparr>install_ops := update_where ?p ?f (install_ops ?d1)\<rparr>) v \<longleftrightarrow>
      is_active d v \<and> v \<noteq> LeaseOwner Install oid" for v
    by (cases "(d, v)" rule: is_active.cases) (auto simp: is_active.simps frame_simps)
  moreover have "numbered (?d1\<lparr>install_ops := update_where ?p ?f (install_ops ?d1)\<rparr>)"
    using exactD(2) [OF assms] b(2) by (simp add: numbered_def identities_def frame_simps)
  ultimately show "simulates (Ended (LeaseOwner Install oid)) d (mark_install_operation_ambiguous now oid message d)"
    unfolding mark_install_operation_ambiguous_def Let_def
    by (intro simulates_ended [OF assms]) (simp_all add: frame_simps)
qed

lemma identities_settings [simp]: "identities (put_settings kvs d) = identities d"
  unfolding put_settings_def
  by (induction kvs arbitrary: d) (auto simp: identities_def put_setting_def)

lemma identities_purge [simp]: "identities (snd (purge_applied_deleted_clients d)) = identities d"
  by (simp add: identities_def frame_simps purge_applied_deleted_clients_def split: option.split)

lemma identities_state [simp]: "identities (d\<lparr>vpn_state := s\<rparr>) = identities d"
  by (simp add: identities_def)

lemma address_publish:
  assumes "exact d" and "publish_ip_change sha now oid ip health box key d = Inr (n, d')"
    and "is_active d (LeaseOwner IpChange oid)"
  shows "simulates Unchanged d d'"
proof -
  obtain bound c d1 where ins: "insert_snapshot (published_row sha c ip now bound) d = Inr d1"
    and d': "d' = set_ip_row oid (published_op now bound health)
      (snd (purge_applied_deleted_clients
        ((put_settings (published_settings ip (iso now) box key) (mark_applied bound (iso now) d1))
          \<lparr>vpn_state := published_state now bound\<rparr>)))" (is "_ = set_ip_row _ _ ?d2")
    using assms(2) by (rule publish_cases)
  have 2: "install_ops ?d2 = install_ops d" "ip_ops ?d2 = ip_ops d" "server_ops ?d2 = server_ops d"
    "leases ?d2 = leases d"
    by (simp_all add: insert_snapshot_Inr(2) [OF ins] frame_simps mark_applied_def)
  have a: "is_active ?d2 v = is_active d v" for v using 2 by (intro is_active_cong)
  have i: "identities ?d2 = identities d"
    by (simp add: insert_snapshot_Inr(2) [OF ins] mark_applied_def) (simp add: identities_def)
  have st: "ip_status (published_op now bound health r) = Running" for r by (simp add: published_op_def)
  have "oid \<in> ip_id ` set (ip_ops ?d2)" using assms(3) unfolding 2(2) by (auto simp: is_active.simps)
  then show ?thesis
    using a assms(3) 2(4) i exactD(2) [OF assms(1)] published_op_id
    by (intro simulates_unchanged [OF assms(1)])
      (auto simp: d' frame_simps set_ip_row_active [OF published_op_id st] numbered_def)
qed

lemma wait_resume:
  assumes "exact d" and "resume_claim sha cfg now oid d = Inr (x, d')"
  shows "x \<noteq> None \<Longrightarrow> simulates Unchanged d d'"
    and "x = None \<Longrightarrow> d' \<noteq> d \<Longrightarrow> simulates (Ended (LeaseOwner IpChange oid)) d d'"
proof -
  assume "x \<noteq> None"
  then obtain r where r: "find_ip_row oid d = Some r" "ip_status r = Pending"
    and d': "d' = set_ip_row oid (\<lambda>r. r\<lparr>ip_status := Running, ip_action_state := WaitingSsh, ip_updated_at := iso now\<rparr>) d"
    using assms(2) by (auto simp: resume_claim_def bind_result_Inr_iff split: option.splits if_splits sum.splits exn.splits)
  have "r \<in> set (ip_ops d)" "ip_id r = oid" using r(1) by (auto simp: find_ip_row_def dest: select_first_SomeD)
  then have "is_active d (LeaseOwner IpChange oid)" "oid \<in> ip_id ` set (ip_ops d)"
    using r(2) by (auto simp: is_active.simps)
  then show "simulates Unchanged d d'"
    using exactD(2) [OF assms(1)]
    by (intro simulates_unchanged [OF assms(1)])
      (auto simp: d' frame_simps set_ip_row_active [where s = Running] numbered_def)
next
  assume "x = None" and "d' \<noteq> d"
  then have d': "d' = release_stale_wait now oid d"
    using assms(2) by (auto simp: resume_claim_def bind_result_Inr_iff split: option.splits if_splits sum.splits exn.splits)
  show "simulates (Ended (LeaseOwner IpChange oid)) d d'"
    unfolding d' release_stale_wait_def using exactD(2) [OF assms(1)]
    by (intro simulates_ended [OF assms(1)]) (simp_all add: frame_simps set_ip_row_active [where s = Done] numbered_def)
qed

lemma claims:
  assumes "exact d"
  shows "claim_creation oid d = (b, d') \<Longrightarrow> simulates Unchanged d d'"
    and "claim_cleanup now oid d = Inr (x, d') \<Longrightarrow> simulates Unchanged d d'"
    and "cancel_ssh_wait cfg now oid d = Inr d' \<Longrightarrow> simulates Unchanged d d'"
    and "reconcile_ip_operation now oid note d = Inr d' \<Longrightarrow> simulates Unchanged d d'"
proof -
  have same: "simulates Unchanged d d" by (rule simulates_unchanged [OF assms refl refl exactD(2) [OF assms]])
  show "simulates Unchanged d d'" if "claim_creation oid d = (b, d')"
    using that unfolding claim_creation_def by (auto intro!: unchanged_rows [OF assms])
  show "simulates Unchanged d d'" if "claim_cleanup now oid d = Inr (x, d')"
    using that same unfolding claim_cleanup_def
    by (auto simp: Let_def bind_result_Inr_iff may_clean_up_def intro!: unchanged_rows [OF assms] split: if_splits)
  show "simulates Unchanged d d'" if "cancel_ssh_wait cfg now oid d = Inr d'"
    using that unfolding cancel_ssh_wait_def set_ip_row_def
    by (auto simp: Let_def bind_result_Inr_iff intro!: unchanged_rows [OF assms] split: option.splits)
  show "simulates Unchanged d d'" if "reconcile_ip_operation now oid note d = Inr d'"
    using that unfolding reconcile_ip_operation_def
    by (auto intro!: unchanged_rows [OF assms] split: option.splits if_splits)
qed

lemma identities_fold [simp]: "identities (fold (\<lambda>r. fail_owner (f r) m t) rs d) = identities d"
  by (induction rs arbitrary: d) simp_all

lemma recovery:
  assumes "exact d"
  shows "simulates Recovered d (recover_incomplete_vps_operations now reason d)"
proof -
  let ?d' = "recover_incomplete_vps_operations now reason d"
  have "numbered ?d'"
    using exactD(2) [OF assms] by (simp add: numbered_def recover_incomplete_vps_operations_def Let_def)
  moreover have "leases_ok ?d'" using recover_exclusive [OF exactD(1) [OF assms]] by (simp add: exclusive_def)
  ultimately show ?thesis
    using recover_lease [of now reason d]
    by (auto simp: simulates_def lease_view_def holder_def recover_none_active intro!: exactI lease_step.intros)
qed

lemma tables_reset:
  assumes "exact d" and "reset_server_and_aeza_state now d = Inr d'"
  shows "simulates Unchanged d d'"
proof -
  have idle: "active_operation_owner d = None" and d': "d' = clear_server_and_aeza_state now d"
    using assms(2) by (auto simp: reset_server_and_aeza_state_def split: option.splits)
  have "numbered d'" by (simp add: d' numbered_def identities_def clear_tables)
  then show ?thesis
    using idle by (intro simulates_unchanged [OF assms(1)])
      (auto simp: d' clear_tables active_operation_owner_None_iff elim!: is_active.elims)
qed

lemma elsewhere_step:
  assumes "exact d" and "elsewhere d d'"
  shows "simulates Unchanged d d'"
proof (rule simulates_unchanged [OF assms(1)])
  show "leases d' = leases d" using assms(2) by (simp add: elsewhere_def same_operations_def)
  show "is_active d' v = is_active d v" for v
    using assms(2) by (intro is_active_cong) (simp_all add: elsewhere_def same_operations_def)
  show "numbered d'"
    using exactD(2) [OF assms(1)] assms(2)
    by (auto simp: numbered_def identities_def list_all_iff elsewhere_def same_operations_def)
qed

lemma decisions_start:
  assumes "exact d"
  shows "prepare_cleanup sha cfg now t oid d = Inr d' \<Longrightarrow> simulates (Started now (LeaseOwner IpChange oid)) d d'"
    and "prepare_ssh_wait sha cfg now t oid d = Inr d' \<Longrightarrow> simulates (Started now (LeaseOwner IpChange oid)) d d'"
proof -
  show "simulates (Started now (LeaseOwner IpChange oid)) d d'" if "prepare_cleanup sha cfg now t oid d = Inr d'"
    using that unfolding prepare_cleanup_def
    by (auto simp: bind_result_Inr_iff validate_review_def validate_target_def Let_def
        intro!: restarted [OF assms] split: option.splits if_splits)
  show "simulates (Started now (LeaseOwner IpChange oid)) d d'" if "prepare_ssh_wait sha cfg now t oid d = Inr d'"
    using that unfolding prepare_ssh_wait_def
    by (auto simp: bind_result_Inr_iff validate_ssh_decision_def Let_def
        intro!: restarted [OF assms] split: option.splits if_splits)
qed

lemma step_simulates:
  assumes "vps_step ev d d'" and "exact d"
  shows "simulates ev d d'"
  using assms
  by (cases rule: vps_step.cases)
    (blast intro: install_start ip_change_start server_start decisions_start report_renews report_ends install_beat
      reboot_claim installs_end address_publish claims wait_resume tables_reset recovery elsewhere_step)+

section \<open>Properties\<close>

lemma never_used_exact: "never_used d \<Longrightarrow> exact d \<and> lease_view d = None"
  by (auto simp: never_used_def exact_def leases_ok_def numbered_def identities_def lease_view_def lease_of_def
      holder_def elim!: is_active.elims)

lemma run_simulates: "vps_run es d \<Longrightarrow> exact d \<and> lease_run es (lease_view d)"
proof (induction rule: vps_run.induct)
  case (begun d)
  then show ?case using never_used_exact lease_run.unused by auto
next
  case (went_on es d ev d')
  then show ?case using step_simulates [of ev d d'] by (auto simp: simulates_def intro: lease_run.move)
qed

text \<open>A server operation can be registered as soon as the deadline has passed.\<close>

lemma server_start_succeeds:
  assumes "leases_ok d" and "expired_at now d"
  obtains d' where "insert_server_operation kind step now d = Inr (server_seq d + 1, d')"
proof -
  let ?d2 = "d\<lparr>server_ops := server_ops d @ [new_server_row (server_seq d + 1) kind step (iso now)],
      server_seq := server_seq d + 1\<rparr>"
  have "leases_ok ?d2" "expired_at now ?d2"
    using assms by (simp_all add: leases_ok_def expired_at_def lease_of_def)
  then obtain d' where "acquire_vps_lease now (LeaseOwner Server (server_seq d + 1)) default_lease_seconds ?d2 = Inr d'"
    using acquire_granted(1) by blast
  then show thesis by (intro that [of d']) (simp add: insert_server_operation_def Let_def)
qed

text \<open>A first operation, and what an hour without a report brings.\<close>

definition first_refresh :: db where
  "first_refresh = (case insert_server_operation StatusKind ''queued'' 0 empty_db of Inl _ \<Rightarrow> empty_db | Inr (_, d) \<Rightarrow> d)"

lemma first_refresh_run: "vps_run [Started 0 (LeaseOwner Server 1)] first_refresh"
proof -
  have "server_seq empty_db = 0" by (simp add: empty_db_def)
  moreover have "expired_at 0 empty_db" by (simp add: expired_at_def)
  ultimately obtain d' where s: "insert_server_operation StatusKind ''queued'' 0 empty_db = Inr (1, d')"
    using server_start_succeeds [of empty_db 0 StatusKind "''queued''"] by auto
  have "never_used empty_db" by (simp add: never_used_def empty_db_def)
  then have "vps_run [Started 0 (LeaseOwner Server 1)] d'"
    using s by (blast intro: vps_run.intros server_starts)
  then show ?thesis by (simp add: first_refresh_def s)
qed

text \<open>C2.  The program implements the lease: however its transactions and a restart interleave, as long
  as only active operations report progress, every start, report and end is one of the contract, and
  in every state the lease is held by exactly the operation that is pending or running.\<close>

theorem program_implements_the_lease:
  assumes "vps_run es d"
  shows "lease_run es (lease_view d) \<and> (\<forall>ow. is_active d ow \<longleftrightarrow> holder d = Some ow)"
  using run_simulates [OF assms] by (simp add: exact_def)

theorem program_implements_the_lease_witness:
  "lease_run [Started 0 (LeaseOwner Server 1)] (lease_view first_refresh)"
  using program_implements_the_lease [OF first_refresh_run] by blast



end
