(* ===== verification/Install.thy ===== *)
theory Install
  imports ServerOps
begin

text \<open>
  The installation of the VPN server (\<open>run_eu_install\<close> of \<open>app/eu_install.py\<close>): the prepared snapshot is
  deployed over SSH while the lease is kept alive, and whatever happens the row is ended.  The time
  of the event loop is kept in milliseconds.
\<close>

section \<open>Texts\<close>

text \<open>Slicing: \<open>s[-n:]\<close>.\<close>

function py_drop :: "nat \<Rightarrow> string \<Rightarrow> string" where
  "py_drop 0 s = s"
| "py_drop (Suc n) [] = []"
| "py_drop (Suc n) (c # cs) = py_drop n (dropWhile is_continuation cs)"
  by pat_completeness auto

termination by (relation "measure (\<lambda>(n, s). n)") simp_all

definition py_last :: "nat \<Rightarrow> string \<Rightarrow> string" where
  "py_last n s = py_drop (py_len s - n) s"

text \<open>The format \<open>g\<close> of a whole number: six significant digits.\<close>

definition g_text :: "int \<Rightarrow> string" where
  "g_text i =
     (let s = nat_str (nat i) in
      if length s \<le> 6 then s
      else
        (let scale = 10 ^ (length s - 6);
             q = nat i div scale;
             r = nat i mod scale;
             m = (if scale < 2 * r \<or> scale = 2 * r \<and> odd q then q + 1 else q);
             (digits, e) = (if m = 10 ^ 6 then (''1'', length s) else (nat_str m, length s - 1));
             fraction = rev (dropWhile (\<lambda>c. c = CHR ''0'') (rev (tl digits)))
         in hd digits # (if fraction = [] then [] else CHR ''.'' # fraction) @ ''e+'' @
            (if e < 10 then ''0'' else []) @ nat_str e))"

text \<open>\<open>max(0.01, float(timeout))\<close>, as milliseconds and as text.\<close>

definition milliseconds :: "int \<Rightarrow> int" where
  "milliseconds seconds = max 10 (1000 * seconds)"

definition seconds_text :: "int \<Rightarrow> string" where
  "seconds_text seconds = (if seconds < 1 then ''0.01'' else g_text seconds)"

definition deploy_late :: "int \<Rightarrow> exn" where
  "deploy_late timeout = EuInstallStateUncertainError
     (''Remote VPN deployment timed out after '' @ seconds_text timeout @
      '' seconds; the VPS state requires manual verification'')"

definition deploy_lost :: exn where
  "deploy_lost = EuInstallStateUncertainError
     (''Remote VPN deployment lost its durable VPS lease; the VPS state requires manual verification'')"

section \<open>Deployment\<close>

definition heartbeat_install :: "int \<Rightarrow> bool io" where
  "heartbeat_install oid = transact (\<lambda>e now d. Inr (heartbeat_install_operation now oid d))"

text \<open>
  The loop of \<open>_run_deploy_with_heartbeat\<close>.  \<open>r\<close> is what the wait for the running script brings:
  its end, or \<open>NumberReply passed\<close> when it is still running after so many milliseconds; \<open>asyncio.wait\<close>
  waits at least \<open>min(heartbeat_interval, remaining)\<close>.  The time a heartbeat takes counts to the wait
  that follows it.
\<close>

function deploy_wait :: "int \<Rightarrow> string \<Rightarrow> int \<Rightarrow> int \<Rightarrow> int \<Rightarrow> reply \<Rightarrow> (int \<times> string) io" where
  "deploy_wait oid host timeout interval remaining r =
     (if remaining \<le> 0 then throw (deploy_late timeout)
      else case r of
        ExitReply code output \<Rightarrow> ret (code, output)
      | Unavailable x \<Rightarrow> throw x
      | NumberReply passed \<Rightarrow>
          (let left = remaining - max passed (min (max 10 interval) remaining) in
           if left \<le> 0 then throw (deploy_late timeout)
           else andThen (heartbeat_install oid) (\<lambda>alive.
             if \<not> alive then throw deploy_lost
             else andThen (send (AwaitScript host)) (deploy_wait oid host timeout interval left)))
      | _ \<Rightarrow> throw unexpected)"
  by pat_completeness auto

termination
  by (relation "measure (\<lambda>(oid, host, timeout, interval, remaining, r). nat remaining)") auto

definition run_deploy_with_heartbeat ::
  "int \<Rightarrow> string \<Rightarrow> remote_script \<Rightarrow> int \<Rightarrow> int \<Rightarrow> (int \<times> string) io" where
  "run_deploy_with_heartbeat oid host script timeout heartbeat =
     (let limit = milliseconds timeout; interval = max 10 (min (1000 * heartbeat) limit) in
      andThen (send (RunScript host script)) (deploy_wait oid host timeout interval limit))"

section \<open>The task\<close>

definition update_install :: "int \<Rightarrow> install_field list \<Rightarrow> unit io" where
  "update_install oid fs = store (\<lambda>e now d. update_install_operation now oid fs d)"

definition install_started_text :: "bool \<Rightarrow> string" where
  "install_started_text transactional =
     (if transactional then
        ''Transactional VPN deployment started. Package bootstrap runs only when required, then the staged config apply is validated and switched.''
      else
        ''Remote install started. It can take several minutes while apt, xray, hysteria and amneziawg are installed.'')"

definition install_error_text :: "exn \<Rightarrow> config \<Rightarrow> db \<Rightarrow> string" where
  "install_error_text x cfg d = sanitize_error [eu_ssh_password None cfg d] 12000 (exn_text x)"

definition finish_install :: "int \<Rightarrow> string \<Rightarrow> int \<times> string \<Rightarrow> unit io" where
  "finish_install oid host result =
     (case result of (code, output) \<Rightarrow>
      let output_tail = py_last 12000 output in
      if code \<noteq> 0 then
        throw (EuInstallError (''SSH install failed with exit code '' @ int_str code @ [CHR 0x0A] @ output_tail))
      else
        andThen (refresh_protocol_statuses host) (\<lambda>_.
        transact (\<lambda>e now d. bind_result (complete_install_operation now oid output_tail d) (\<lambda>d'. Inr ((), d')))))"

definition install_loaded :: "int \<Rightarrow> install_row \<times> captured_config \<Rightarrow> unit io" where
  "install_loaded oid loaded =
     (case loaded of (row, c) \<Rightarrow>
      let host = (case in_target_host row of None \<Rightarrow> [] | Some h \<Rightarrow> h) in
      andThen (reading transactional_vpn_apply_enabled) (\<lambda>transactional.
      andThen (with_env (\<lambda>e. lift (write_artifacts (en_unicode_other e) (en_config e) c))) (\<lambda>_.
      andThen (update_install oid [InStatus Running, InTargetHost host, InStep ''ssh_connect'']) (\<lambda>_.
      andThen (update_install oid [InStep ''remote_install_running'', InOutput (install_started_text transactional)]) (\<lambda>_.
      andThen (reading_result (\<lambda>cfg d. config_int cfg d ''vpn_deploy_timeout_seconds'' 1800)) (\<lambda>timeout.
      andThen (reading_result (\<lambda>cfg d. config_int cfg d ''vpn_lease_heartbeat_seconds'' 30)) (\<lambda>heartbeat.
      andThen (run_deploy_with_heartbeat oid host (Deploy c transactional) timeout heartbeat)
        (finish_install oid host))))))))"

definition install_body :: "int \<Rightarrow> unit io" where
  "install_body oid = andThen (query (\<lambda>e. load_install_snapshot oid)) (install_loaded oid)"

text \<open>What ends the row depends on whether the state of the server is known.\<close>

definition uncertain :: "exn \<Rightarrow> bool" where
  "uncertain x = (case x of EuInstallStateUncertainError _ \<Rightarrow> True | _ \<Rightarrow> False)"

definition install_failed :: "int \<Rightarrow> exn \<Rightarrow> unit io" where
  "install_failed oid x =
     andThen (reading (install_error_text x)) (\<lambda>message.
     andThen (store (\<lambda>e now d.
         if uncertain x then mark_install_operation_ambiguous now oid message d
         else fail_install_operation now oid message d)) (\<lambda>_.
       throw x))"

definition run_eu_install :: "int \<Rightarrow> unit io" where
  "run_eu_install oid = catch (install_body oid) (install_failed oid)"

section \<open>The number of waits\<close>

definition awaits :: "call list \<Rightarrow> nat" where
  "awaits l = length (calls_of (\<lambda>v. \<exists>host. v = AwaitScript host) l)"

definition waits_left :: "int \<Rightarrow> int \<Rightarrow> nat" where
  "waits_left interval remaining = (if remaining \<le> 0 then 0 else nat ((remaining - 1) div max 10 interval))"

lemma waits_left_less:
  assumes "0 < left" and "left = remaining - max passed (min (max 10 interval) remaining)"
  shows "Suc (waits_left interval left) \<le> waits_left interval remaining"
proof -
  let ?i = "max 10 interval"
  have left: "left \<le> remaining - ?i" "0 < remaining" using assms by auto
  have "(left - 1) div ?i + 1 \<le> (remaining - 1) div ?i"
  proof -
    have "?i \<noteq> 0" by simp
    then have "(left - 1) div ?i + 1 = (left - 1 + ?i) div ?i" by (rule div_add_self2 [symmetric])
    also have "\<dots> \<le> (remaining - 1) div ?i" by (rule zdiv_mono1) (use left in simp_all)
    finally show ?thesis .
  qed
  moreover have "0 \<le> (left - 1) div ?i" using assms(1) by (simp add: pos_imp_zdiv_nonneg_iff)
  ultimately show ?thesis using assms(1) left by (simp add: waits_left_def)
qed

lemma awaits_snoc [simp]:
  "awaits (l @ [c]) = awaits l + (if \<exists>host. c_event c = AwaitScript host then 1 else 0)"
  by (simp add: awaits_def)

declare deploy_wait.simps [simp del]

lemma deploy_wait_bounded:
  "after (deploy_wait oid host timeout interval remaining r)
     (\<lambda>_ s'. awaits (rn_log s') \<le> awaits (rn_log s) + waits_left interval remaining) e s"
proof (induction oid host timeout interval remaining r arbitrary: s rule: deploy_wait.induct)
  case (1 oid host timeout interval remaining r)
  let ?Q = "\<lambda>_ s'. awaits (rn_log s') \<le> awaits (rn_log s) + waits_left interval remaining"
  show ?case
  proof (cases "0 < remaining \<and> (\<exists>passed. r = NumberReply passed)")
    case False
    then show ?thesis
      by (subst deploy_wait.simps) (auto simp: after_simps split: reply.split)
  next
    case True
    then obtain passed where pos: "\<not> remaining \<le> 0" and r: "r = NumberReply passed" by auto
    define left where "left = remaining - max passed (min (max 10 interval) remaining)"
    show ?thesis
    proof (cases "left \<le> 0")
      case True
      then show ?thesis
        by (subst deploy_wait.simps) (simp add: pos r left_def Let_def after_simps)
    next
      case False
      have rest: "after (deploy_wait oid host timeout interval left q)
          (\<lambda>_ s'. awaits (rn_log s') \<le> awaits (rn_log t) + waits_left interval left) e t" for q t
        using "1.IH" [OF pos r left_def False, of True] by simp
      have less: "Suc (waits_left interval left) \<le> waits_left interval remaining"
        by (rule waits_left_less [OF _ left_def]) (use False in simp)
      show ?thesis
        using less
        by (subst deploy_wait.simps)
          (auto simp: pos r left_def [symmetric] Let_def False after_simps heartbeat_install_def
            intro!: after_mono [OF rest] split: prod.split)
    qed
  qed
qed

section \<open>Every end is recorded\<close>

definition install_settled :: "int \<Rightarrow> db \<Rightarrow> bool" where
  "install_settled oid d \<longleftrightarrow> \<not> is_active d (LeaseOwner Install oid) \<and>
     list_all (\<lambda>l. le_owner l \<noteq> LeaseOwner Install oid) (filter (\<lambda>l. le_resource l = vpn_vps) (leases d))"

abbreviation install_closed :: "int \<Rightarrow> run \<Rightarrow> bool" where
  "install_closed oid s \<equiv> install_settled oid (rn_db s)"

lemma released_settled:
  assumes "\<forall>r \<in> set (install_ops d). in_id r = oid \<longrightarrow> \<not> active (in_status r)"
  shows "install_settled oid (snd (release_vps_lease (LeaseOwner Install oid) d))"
  using assms
  by (auto simp: install_settled_def is_active.simps release_vps_lease_def Let_def delete_where_def list_all_iff)

lemma ended_rows:
  "(\<And>r. in_id r = oid \<Longrightarrow> p r \<or> \<not> active (in_status r)) \<Longrightarrow> (\<And>r. \<not> active (in_status (f r))) \<Longrightarrow>
     \<forall>r \<in> set (update_where p f rows). in_id r = oid \<longrightarrow> \<not> active (in_status r)"
  by (rule update_where_ballI) blast+

lemma set_install_row_ops: "install_ops (set_install_row oid f d) = update_where (\<lambda>r. in_id r = oid) f (install_ops d)"
  by (simp add: set_install_row_def)

lemma install_ops_put: "install_ops (d\<lparr>install_ops := rows\<rparr>) = rows"
  by simp

lemma install_ends:
  "install_settled oid (fail_install_operation now oid message d)"
  "install_settled oid (mark_install_operation_ambiguous now oid message d)"
  "complete_install_operation now oid out d = Inr d' \<Longrightarrow> install_settled oid d' \<and>
     list_all (\<lambda>r. in_status r = Done) (filter (\<lambda>r. in_id r = oid) (install_ops d'))"
proof -
  show "install_settled oid (fail_install_operation now oid message d)"
    unfolding fail_install_operation_def Let_def
    by (rule released_settled, unfold set_install_row_ops, rule ended_rows) simp_all
  show "install_settled oid (mark_install_operation_ambiguous now oid message d)"
    unfolding mark_install_operation_ambiguous_def Let_def
    by (rule released_settled, unfold install_ops_put, rule ended_rows) simp_all
  assume c: "complete_install_operation now oid out d = Inr d'"
  let ?f = "\<lambda>r. r\<lparr>in_status := Done, in_current_step := ''done'',
           in_output := Some out, in_error_message := None, in_updated_at := iso now\<rparr>"
  obtain d3 where d': "d' = snd (release_vps_lease (LeaseOwner Install oid) (set_install_row oid ?f d3))"
    by (rule complete_install_cases [OF c])
  have "\<forall>r \<in> set (update_where (\<lambda>r. in_id r = oid) ?f (install_ops d3)). in_id r = oid \<longrightarrow> in_status r = Done"
    by (rule update_where_ballI) simp_all
  then have "list_all (\<lambda>r. in_status r = Done) (filter (\<lambda>r. in_id r = oid) (install_ops d'))"
    unfolding d' by (simp add: list_all_iff release_vps_lease_def Let_def set_install_row_ops)
  moreover have "install_settled oid d'"
    unfolding d' by (rule released_settled, unfold set_install_row_ops, rule ended_rows) simp_all
  ultimately show "install_settled oid d' \<and>
      list_all (\<lambda>r. in_status r = Done) (filter (\<lambda>r. in_id r = oid) (install_ops d'))" by blast
qed

lemma body_closes: "finishes (install_closed oid) (\<lambda>_. True) (install_body oid) e"
proof -
  have last: "finishes (install_closed oid) (\<lambda>_. True)
      (transact (\<lambda>e now d. bind_result (complete_install_operation now oid out d) (\<lambda>d'. Inr ((), d')))) e" for out
    by (auto simp: yields_def transact_def bind_result_Inr_iff split: if_splits outcome.split sum.splits
        dest: install_ends(3))
  show ?thesis
    unfolding install_body_def install_loaded_def finish_install_def Let_def
    by (intro then_closes finishes_prod finishes_if finishes_throw last TrueI)
qed

lemma failed_closes: "finishes R (install_closed oid) (install_failed oid x) e"
  unfolding install_failed_def
proof (rule finishes_andThen [where R' = "\<lambda>_. True"])
  show "finishes (\<lambda>_. True) (install_closed oid) (reading (install_error_text x)) e"
    by (rule finishes_weaken [OF calm_reading]) simp_all
  fix message
  show "finishes R (install_closed oid)
     (andThen (store (\<lambda>e now d. if uncertain x then mark_install_operation_ambiguous now oid message d
         else fail_install_operation now oid message d)) (\<lambda>_. throw x)) e"
    by (auto simp: yields_def andThen_def store_def transact_def throw_def install_ends split: if_splits)
qed

section \<open>What a successful installation shows\<close>

definition installed_on :: "captured_config \<Rightarrow> bool \<Rightarrow> string \<Rightarrow> reply \<Rightarrow> call list \<Rightarrow> bool" where
  "installed_on c transactional host r l \<longleftrightarrow>
     list_ex (\<lambda>a. c_event a = RunScript host (Deploy c transactional)) l \<and>
     list_ex (\<lambda>a. c_event a \<in> {RunScript host (Deploy c transactional), AwaitScript host} \<and> c_reply a = r) l"

lemma installed_grows: "only_grows (installed_on c t host r)"
  by (auto simp: only_grows_def installed_on_def)

lemma leads_deploy_wait:
  "leads (on (\<lambda>d. installed_on c t host r)) (deploy_wait oid host timeout interval remaining r)
     (\<lambda>x. on (\<lambda>d. installed_on c t host (ExitReply (fst x) (snd x)))) (\<lambda>_. True) e"
proof (induction oid host timeout interval remaining r rule: deploy_wait.induct)
  case (1 oid host timeout interval remaining r)
  show ?case
  proof (cases "0 < remaining \<and> (\<exists>passed. r = NumberReply passed)")
    case False
    then show ?thesis
      by (subst deploy_wait.simps) (auto intro!: leads_throw leads_ret split: reply.split)
  next
    case True
    then obtain passed where pos: "\<not> remaining \<le> 0" and r: "r = NumberReply passed" by auto
    define left where "left = remaining - max passed (min (max 10 interval) remaining)"
    have wait: "leads (on (\<lambda>d. installed_on c t host r)) (send (AwaitScript host))
        (\<lambda>q. on (\<lambda>d. installed_on c t host q)) (\<lambda>_. True) e"
      by (rule leadsI) (auto simp: send_def on_def installed_on_def Let_def split: if_splits outcome.split)
    have beat: "leads (on (\<lambda>d. installed_on c t host r)) (heartbeat_install oid)
        (\<lambda>_. on (\<lambda>d. installed_on c t host r)) (\<lambda>_. True) e"
      unfolding heartbeat_install_def by (rule leads_weaken [OF leads_keeps [OF keeps_transact]]) simp_all
    show ?thesis
    proof (cases "left \<le> 0")
      case True
      then show ?thesis
        by (subst deploy_wait.simps) (simp add: pos r left_def Let_def leads_throw)
    next
      case False
      have rest: "leads (on (\<lambda>d. installed_on c t host q)) (deploy_wait oid host timeout interval left q)
          (\<lambda>x. on (\<lambda>d. installed_on c t host (ExitReply (fst x) (snd x)))) (\<lambda>_. True) e" for q
        using "1.IH" [OF pos r left_def False, of True] by simp
      have "leads (on (\<lambda>d. installed_on c t host r))
          (if \<not> alive then throw deploy_lost
           else andThen (send (AwaitScript host)) (deploy_wait oid host timeout interval left))
          (\<lambda>x. on (\<lambda>d. installed_on c t host (ExitReply (fst x) (snd x)))) (\<lambda>_. True) e" for alive
        using leads_andThen [OF wait rest] by (simp add: leads_throw)
      then show ?thesis
        by (subst deploy_wait.simps)
          (simp add: pos r left_def [symmetric] Let_def False leads_andThen [OF beat [unfolded r]])
    qed
  qed
qed

lemma leads_deploy:
  "leads (\<lambda>_. True) (run_deploy_with_heartbeat oid host (Deploy c t) timeout heartbeat)
     (\<lambda>x. on (\<lambda>d. installed_on c t host (ExitReply (fst x) (snd x)))) (\<lambda>_. True) e"
proof -
  have "leads (\<lambda>_. True) (send (RunScript host (Deploy c t))) (\<lambda>r. on (\<lambda>d. installed_on c t host r)) (\<lambda>_. True) e"
    by (rule leadsI) (auto simp: send_def on_def installed_on_def Let_def split: if_splits outcome.split)
  then show ?thesis
    unfolding run_deploy_with_heartbeat_def Let_def by (rule leads_andThen [OF _ leads_deploy_wait])
qed

lemma unconcerned_install: "unconcerned (\<lambda>d. installed_on c t host r) e"
  using installed_grows [of c t host r] by (simp add: unconcerned_def only_grows_def)

text \<open>The rest of the task, once the snapshot is loaded.\<close>

definition install_shown :: "install_row \<times> captured_config \<Rightarrow> int \<Rightarrow> run \<Rightarrow> bool" where
  "install_shown loaded oid s \<longleftrightarrow>
     (\<exists>transactional out. installed_on (snd loaded) transactional
        (case in_target_host (fst loaded) of None \<Rightarrow> [] | Some h \<Rightarrow> h) (ExitReply 0 out) (rn_log s)) \<and>
     list_all (\<lambda>r. in_status r = Done) (filter (\<lambda>r. in_id r = oid) (install_ops (rn_db s)))"

lemma leads_complete:
  "leads (on (\<lambda>d. V)) (transact (\<lambda>e now d. bind_result (complete_install_operation now oid out d) (\<lambda>d'. Inr ((), d'))))
     (\<lambda>_ s. V (rn_log s) \<and> list_all (\<lambda>r. in_status r = Done) (filter (\<lambda>r. in_id r = oid) (install_ops (rn_db s))))
     (\<lambda>_. True) e"
  by (rule leadsI)
    (auto simp: transact_def bind_result_Inr_iff on_def split: if_splits outcome.split sum.splits
      dest: install_ends(3))

lemma leads_finish:
  "leads (on (\<lambda>d. installed_on c t host (ExitReply (fst x) (snd x)))) (finish_install oid host x)
     (\<lambda>_ s. installed_on c t host (ExitReply 0 (snd x)) (rn_log s) \<and>
        list_all (\<lambda>r. in_status r = Done) (filter (\<lambda>r. in_id r = oid) (install_ops (rn_db s)))) (\<lambda>_. True) e"
proof (cases "fst x = 0")
  case True
  have "leads (on (\<lambda>d. installed_on c t host (ExitReply 0 (snd x)))) (refresh_protocol_statuses host)
      (\<lambda>_. on (\<lambda>d. installed_on c t host (ExitReply 0 (snd x)))) (\<lambda>_. True) e"
    by (rule leads_weaken [OF leads_keeps [OF check_refresh [OF unconcerned_install]]]) simp_all
  from leads_andThen [OF this leads_complete] show ?thesis
    using True by (simp add: finish_install_def case_prod_beta Let_def)
next
  case False
  then show ?thesis by (simp add: finish_install_def case_prod_beta Let_def leads_throw)
qed

lemma leads_loaded: "leads (\<lambda>_. True) (install_loaded oid loaded) (\<lambda>_. install_shown loaded oid) (\<lambda>_. True) e"
  unfolding install_loaded_def case_prod_beta Let_def
  by (rule leads_andThen [OF leads_any], rule leads_andThen [OF leads_any], rule leads_andThen [OF leads_any],
      rule leads_andThen [OF leads_any], rule leads_andThen [OF leads_any], rule leads_andThen [OF leads_any],
      rule leads_andThen [OF leads_deploy], rule leads_weaken [OF leads_finish])
    (auto simp: install_shown_def)

text \<open>How the task may end, and what the first step of it found.\<close>

lemma run_eu_install_closes: "finishes (install_closed oid) (install_closed oid) (run_eu_install oid) e"
  unfolding run_eu_install_def by (rule finishes_catch [OF body_closes failed_closes])

lemma install_failed_raises: "leads P (install_failed oid x) (\<lambda>_ _. False) (\<lambda>_. True) e"
  unfolding install_failed_def by (rule leads_andThen [OF leads_any], rule leads_andThen [OF leads_any], rule leads_throw) simp

lemma after_body:
  "after (install_body oid) (\<lambda>r s'. case r of
     Returned _ \<Rightarrow> (\<exists>loaded. load_install_snapshot oid (turn e s) = Inr loaded \<and> install_shown loaded oid s')
   | _ \<Rightarrow> True) e s"
  unfolding install_body_def after_andThen after_query
  using leads_after [OF leads_loaded]
  by (auto split: sum.split outcome.split elim!: after_mono)

section \<open>Properties\<close>



end
