(* ===== verification/Spec2Isabelle.thy ===== *)
theory Spec2Isabelle
  imports Operations VpnState System Install
begin

text \<open>
  AutoVPN is a panel (FastAPI, SQLite) that runs one VPN server for many clients.  It keeps clients,
  settings, routers and operations in one SQLite file, renders the configuration of the server and of
  the clients from it, installs it over SSH, rotates the server's address with a hosting provider
  (Aeza, SprintBOX), and serves a snapshot of the applied configuration to the clients' routers.

  \<^bold>\<open>Parts and how they meet\<close>

  Request handlers and background tasks run in threads of one process and share nothing but the
  database; a transaction (\<open>BEGIN IMMEDIATE\<close>) is atomic.  A long operation on the server (install, IP
  change, reboot) takes the lease \<open>vpn:vps\<close> in the transaction that creates its row, and its task then
  does one short transaction after the other between calls to the outside.  The lease expires, so a
  task can lose it; the owner is then failed by whoever takes it over.  The model follows this:

  \<^item> A table is the list of its rows in rowid order, the database \<open>db\<close> (\<open>Schema\<close>) the record of the
    tables.  A function that runs inside one transaction is \<open>db \<Rightarrow> exn + 'a \<times> db\<close> (\<open>'a tx\<close>), and \<open>Inl\<close>
    is an exception that rolls it back.  Every \<open>raise\<close> of the code is an \<open>exn\<close>.
  \<^item> A background task is an \<open>'a io\<close> (\<open>Effects\<close>): a function of an environment, which answers every call
    in any way it likes, lets the others change the database before every step, reads the clock and
    may stop the process, and of the run so far, whose log holds every call with its answer and the
    database at the moment it was sent.
  \<^item> A handler of the panel or of the routers' interface is an \<open>('e, 'a) handler\<close> (\<open>Handlers\<close>): its
    transactions in order, with what the other threads do between them as a list of functions.

  \<^bold>\<open>Theories\<close> (sources under \<open>src/app\<close>)

  \<^item> \<open>Prelude\<close>, \<open>PyText\<close>, \<open>Json\<close>: SQL on lists of rows, results and errors, Python's \<open>str\<close> as UTF-8
    bytes, \<open>json.dumps\<close> and \<open>json.loads\<close> with their round trip (locale \<open>json_printer\<close>).
  \<^item> \<open>Schema\<close>: the tables as \<open>migrations.py\<close> leaves them; the exceptions.
  \<^item> \<open>Coordinator\<close>: \<open>operation_coordinator.py\<close>, the lease (locale \<open>lease_manager\<close>).
  \<^item> \<open>Config\<close>, \<open>Runtime\<close>: \<open>config.py\<close>; \<open>runtime_config.py\<close>, \<open>vps_provider.py\<close>, \<open>ssh_credentials.py\<close>.
  \<^item> \<open>Database\<close>, \<open>Operations\<close>: \<open>db.py\<close>, clients, settings, addresses; operations, reset, start-up.
  \<^item> \<open>VpnConfig\<close>, \<open>VpnState\<close>: \<open>vpn_config.py\<close>, capture and canonical JSON (locale \<open>codec\<close>); \<open>vpn_state.py\<close>,
    snapshots, preparation, publication and the end of installs.
  \<^item> \<open>Sanitize\<close>, \<open>Security\<close>: \<open>secret_sanitization.py\<close>, \<open>security.py\<close>.
  \<^item> \<open>ServerConfig\<close>: \<open>remote_apply.py\<close>, \<open>amnezia.py\<close>, \<open>hysteria_auth.py\<close>, \<open>subscriptions.py\<close>, \<open>profile_names.py\<close>.
  \<^item> \<open>Aeza\<close>, \<open>Sprintbox\<close>: the provider clients without the network.
  \<^item> \<open>Effects\<close>, \<open>Checks\<close>, \<open>IpChange\<close>, \<open>ServerOps\<close>, \<open>Review\<close>, \<open>Rotation\<close>: the tasks; \<open>health.py\<close>,
    \<open>deep_protocol_checks.py\<close> and \<open>protocol_status.py\<close>, \<open>ip_change.py\<close>, \<open>server_operations.py\<close>,
    \<open>sprintbox_review.py\<close>, \<open>sprintbox_rotation.py\<close> and \<open>sprintbox_ssh.py\<close>.
  \<^item> \<open>RouterCred\<close>, \<open>RouterApply\<close>, \<open>RouterApi\<close>: \<open>router_credentials.py\<close>, \<open>router_apply_results.py\<close>, \<open>router_api.py\<close>.
  \<^item> \<open>Handlers\<close>: the handlers' type, transactions and what a handler ensures.
  \<^item> \<open>Panel\<close>: \<open>main.py\<close>, the middleware, the login, the setup form, the actions and the client pages;
    \<open>PanelSafety\<close>: what they guarantee.
  \<^item> \<open>Install\<close>: \<open>run_eu_install\<close> of \<open>eu_install.py\<close>, the deployment with its heartbeats.
  \<^item> \<open>System\<close>: the transactions of all parts that start, move or end an operation as one transition
    system (\<open>vps_step\<close>), and the lease as its abstract contract (\<open>lease_step\<close>).

  A definition has the name of the function it models wherever Isabelle allows it.

  \<^bold>\<open>What the lemmas show\<close>

  \<^item> The lease: it refuses exactly while it is held and not expired, whoever loses it is failed, start-up
    leaves nobody active.  \<open>exclusive\<close> (every pending or running operation owns the lease) passes
    through every transaction that starts or ends an operation, and breaks by a late progress report.
  \<^item> The configuration: revisions grow with every change, snapshots never change, publishing moves the
    applied revision only to the bound one, a snapshot reads back as it was written.
  \<^item> The tasks, for every environment: at most one purchase, at most one reboot request, the old address
    is deleted only after the new one is published, a failed switch is taken back, a box is published
    only after its checks and deleted only if it was retained, every end is recorded.
  \<^item> The router interface: a token is accepted as long as its credential, router and client are enabled
    and never after its revocation, a router reads only its own client, a report is recorded once.
  \<^item> The panel: the login limiter bounds the guesses of one key, a cross-origin request is refused.
  \<^item> The panel, continued: no request changes anything without the password, a job started by a handler
    owns the lease, the page of a token shows only its client, an accepted setup form is what is stored.
  \<^item> The installation: the deployment waits a bounded number of times, every end is recorded, and it ends
    well only after the script of the bound snapshot was run and reported success.
  \<^item> The whole: every interleaving of the transactions refines the lease with its deadline, provided
    that only active operations report progress (\<open>late_progress_report_breaks_exclusion\<close> shows that the
    code does not ensure it), and an hour without a report always frees the server.

  \<^bold>\<open>Bounds and termination\<close>

  Loops over attempts recurse on the number of attempts left, which the code computes from its
  configured time-outs (\<open>attempts_floor\<close>, \<open>attempts_ceil\<close>); loops over a deadline recurse on the rounds
  the deadline leaves; the wait for a deployment (\<open>deploy_wait\<close>) recurses on the milliseconds left of its
  time-out.  The parser of JSON has fuel, the length of its input, and \<open>loads_show\<close> shows it
  enough for every printed value.  Integers are Python's; where SQLite bounds them (64 bits) or a
  format does, the bound is a branch of the model.  Time is in microseconds, a stored time stamp in
  whole seconds.

  \<^bold>\<open>Parameters\<close>

  SHA-256, scrypt, zlib, X25519 keys, random values, \<open>datetime.fromisoformat\<close>, Unicode categories and
  the text of a Python exception of the network libraries are arguments of the definitions that use
  them; hypotheses about them state documented behaviour only (the length of a digest, base64 input).

  \<^bold>\<open>Not modelled\<close>

  Templates, HTML and QR images; the constant text of the installation and check scripts; the
  files of SSH keys, askpass and known hosts; migrations from older schemas; the command line of the
  credentials; the OpenWrt scripts.  JSON documents in UTF-16 or UTF-32 and the recursion and digit limits
  of \<open>json.loads\<close> are outside the model of \<open>Json\<close>, and lower case and white space are ASCII's.
\<close>

section \<open>Properties that span components\<close>

text \<open>C18.  Reconciling is accepted exactly for an ended operation that is ambiguous, has an ambiguous
  clean-up or awaits its check, once; it lifts the hold that operation puts on new IP changes and
  changes no other operation and no status.\<close>

theorem reconcile_lifts_hold:
  assumes "get_operation oid d = Some r"
  shows "case reconcile_ip_operation now oid note d of
     Inl e \<Rightarrow> \<not> terminal (ip_status r) \<or> \<not> unresolved r \<or> ip_status r \<noteq> Ambiguous \<and> ip_action_state r = IpAmbiguous
   | Inr d' \<Rightarrow> terminal (ip_status r) \<and> unresolved r \<and>
       (\<exists>r'. get_operation oid d' = Some r' \<and> \<not> unresolved r' \<and> ip_status r' = ip_status r) \<and>
       filter (\<lambda>q. ip_id q \<noteq> oid) (ip_ops d') = filter (\<lambda>q. ip_id q \<noteq> oid) (ip_ops d)"
proof (cases "reconcile_ip_operation now oid note d")
  case (Inl e)
  then show ?thesis
    using assms by (auto simp: reconcile_ip_operation_def unresolved_def split: if_splits)
next
  case (Inr d')
  let ?f = "\<lambda>r. r\<lparr>ip_action_state := Reconciled, ip_reconciled_at := Some (iso now),
      ip_reconciliation_note := Some (py_take 500 (py_strip note)), ip_updated_at := iso now\<rparr>"
  have t: "terminal (ip_status r)" "unresolved r" and d': "ip_ops d' = update_where (\<lambda>q. ip_id q = oid) ?f (ip_ops d)"
    using Inr assms by (auto simp: reconcile_ip_operation_def unresolved_def split: if_splits)
  have "get_operation oid d' = map_option ?f (get_operation oid d)"
    unfolding get_operation_def d' by (rule select_first_update_same) simp
  moreover have "filter (\<lambda>q. ip_id q \<noteq> oid) (update_where (\<lambda>q. ip_id q = oid) ?f rows) =
      filter (\<lambda>q. ip_id q \<noteq> oid) rows" for rows by (induction rows) auto
  ultimately show ?thesis
    using Inr t assms by (simp add: d' unresolved_def)
qed

theorem reconcile_lifts_hold_witness:
  "\<exists>d'. reconcile_ip_operation 0 1 ''checked'' (empty_db\<lparr>ip_ops := [(new_ip_change 1 0 0)\<lparr>ip_status := Ambiguous\<rparr>]\<rparr>) = Inr d' \<and>
     (\<exists>r'. get_operation 1 d' = Some r' \<and> \<not> unresolved r')"
proof -
  let ?d = "empty_db\<lparr>ip_ops := [(new_ip_change 1 0 0)\<lparr>ip_status := Ambiguous\<rparr>]\<rparr>"
  have g: "get_operation 1 ?d = Some ((new_ip_change 1 0 0)\<lparr>ip_status := Ambiguous\<rparr>)"
    by (simp add: get_operation_def new_ip_change_def)
  then have "succeeds (reconcile_ip_operation 0 1 ''checked'' ?d)"
    by (simp add: reconcile_ip_operation_def new_ip_change_def)
  then obtain d' where "reconcile_ip_operation 0 1 ''checked'' ?d = Inr d'"
    by (cases "reconcile_ip_operation 0 1 ''checked'' ?d") auto
  with reconcile_lifts_hold [OF g, of 0 "''checked''"] show ?thesis by auto
qed

end
